(* ===== verification/Prelude.thy ===== *)
theory Prelude
  imports Main "HOL-Library.Word"
begin

text \<open>
  Shared vocabulary of the development: the fragment of the Go language and of its standard
  library that the gateway sources use, and the generic lemmas on lists, byte strings and
  16-bit samples that the component theories rest on.

  \<^item> A Go \<open>string\<close> or \<open>[]byte\<close> holding text is a \<^typ>\<open>string\<close> (a list of bytes). White space
    and letter case are the ASCII ones.
  \<^item> A Go \<open>[]byte\<close> holding audio is a list of \<open>8 word\<close>; an \<open>int16\<close> sample is a \<open>16 word\<close>
    read by \<^const>\<open>sint\<close>.
  \<^item> \<open>int\<close> division and remainder of Go truncate towards zero (\<open>go_div\<close>, \<open>go_mod\<close>).
  \<^item> An instant of \<open>time.Time\<close> and a \<open>time.Duration\<close> are integers counting nanoseconds.
  \<^item> An HTTP handler returns a \<open>response\<close>: \<open>http.Error\<close> with a status and a text, or
    \<open>writeJSON\<close> with a status and a value.
\<close>

unbundle bit_operations_syntax

named_theorems go_simps \<open>equations of the modelled Go library\<close>

subsection \<open>Numbers and time\<close>

type_synonym byte = "8 word"
type_synonym int16 = "16 word"
type_synonym instant = int
type_synonym duration = int

definition second :: duration where
  "second = 1000000000"

definition millisecond :: duration where
  "millisecond = 1000000"

definition go_div :: "int \<Rightarrow> int \<Rightarrow> int" where
  "go_div a b = sgn a * sgn b * (\<bar>a\<bar> div \<bar>b\<bar>)"

definition go_mod :: "int \<Rightarrow> int \<Rightarrow> int" where
  "go_mod a b = a - b * go_div a b"

definition since :: "instant \<Rightarrow> instant \<Rightarrow> duration" where
  "since now t = now - t"

subsection \<open>Byte strings\<close>

definition is_space :: "char \<Rightarrow> bool" where
  "is_space c \<longleftrightarrow> c \<in> set [CHR 0x09, CHR 0x0A, CHR 0x0B, CHR 0x0C, CHR 0x0D, CHR '' '']"

definition trim_left :: "(char \<Rightarrow> bool) \<Rightarrow> string \<Rightarrow> string" where
  "trim_left p s = dropWhile p s"

definition trim_right :: "(char \<Rightarrow> bool) \<Rightarrow> string \<Rightarrow> string" where
  "trim_right p s = rev (dropWhile p (rev s))"

definition trim_by :: "(char \<Rightarrow> bool) \<Rightarrow> string \<Rightarrow> string" where
  "trim_by p s = trim_right p (trim_left p s)"

definition trim_space :: "string \<Rightarrow> string" where
  "trim_space s = trim_by is_space s"

definition trim_cutset :: "string \<Rightarrow> string \<Rightarrow> string" where
  "trim_cutset s cs = trim_by (\<lambda>c. c \<in> set cs) s"

definition has_prefix :: "string \<Rightarrow> string \<Rightarrow> bool" where
  "has_prefix s p \<longleftrightarrow> take (length p) s = p"

definition has_suffix :: "string \<Rightarrow> string \<Rightarrow> bool" where
  "has_suffix s p \<longleftrightarrow> length p \<le> length s \<and> drop (length s - length p) s = p"

definition trim_prefix :: "string \<Rightarrow> string \<Rightarrow> string" where
  "trim_prefix s p = (if has_prefix s p then drop (length p) s else s)"

definition trim_suffix :: "string \<Rightarrow> string \<Rightarrow> string" where
  "trim_suffix s p = (if has_suffix s p then take (length s - length p) s else s)"

fun str_index :: "string \<Rightarrow> string \<Rightarrow> nat option" where
  "str_index [] t = (if t = [] then Some 0 else None)"
| "str_index (c # s) t =
     (if has_prefix (c # s) t then Some 0 else map_option Suc (str_index s t))"

definition str_contains :: "string \<Rightarrow> string \<Rightarrow> bool" where
  "str_contains s t \<longleftrightarrow> str_index s t \<noteq> None"

text \<open>\<open>strings.SplitN(s, sep, 2)\<close> for a non-empty separator.\<close>

definition split_n2 :: "string \<Rightarrow> string \<Rightarrow> string list" where
  "split_n2 s sep =
     (case str_index s sep of None \<Rightarrow> [s] | Some i \<Rightarrow> [take i s, drop (i + length sep) s])"

text \<open>\<open>strings.Split(s, sep)\<close> for a one-byte separator.\<close>

fun split_on :: "char \<Rightarrow> string \<Rightarrow> string list" where
  "split_on d [] = [[]]"
| "split_on d (c # s) =
     (if c = d then [] # split_on d s
      else case split_on d s of [] \<Rightarrow> [[c]] | w # ws \<Rightarrow> (c # w) # ws)"

definition fields :: "string \<Rightarrow> string list" where
  "fields s = filter (\<lambda>w. w \<noteq> [])
     (split_on (CHR '' '') (map (\<lambda>c. if is_space c then CHR '' '' else c) s))"

definition to_lower_char :: "char \<Rightarrow> char" where
  "to_lower_char c =
     (let n = of_char c :: nat in if 65 \<le> n \<and> n \<le> 90 then char_of (n + 32) else c)"

definition to_lower :: "string \<Rightarrow> string" where
  "to_lower s = map to_lower_char s"

text \<open>Decimal notation, the verb \<open>%d\<close> of a non-negative number.\<close>

fun dec :: "nat \<Rightarrow> string" where
  "dec n = (if n < 10 then [char_of (48 + n)] else dec (n div 10) @ [char_of (48 + n mod 10)])"

declare dec.simps [simp del]

text \<open>The verb \<open>%d\<close> of any integer.\<close>

definition show_int :: "int \<Rightarrow> string" where
  "show_int k = (if k < 0 then ''-'' @ dec (nat (- k)) else dec (nat k))"

definition is_digit :: "char \<Rightarrow> bool" where
  "is_digit c \<longleftrightarrow> 48 \<le> (of_char c :: nat) \<and> (of_char c :: nat) \<le> 57"

fun join :: "string list \<Rightarrow> string \<Rightarrow> string" where
  "join [] sep = []"
| "join [w] sep = w"
| "join (w # ws) sep = w @ sep @ join ws sep"

subsection \<open>HTTP responses\<close>

datatype 'a response = HttpError nat string | WriteJSON nat 'a

type_synonym json_obj = "(string \<times> string) list"

fun status :: "'a response \<Rightarrow> nat" where
  "status (HttpError n _) = n"
| "status (WriteJSON n _) = n"

subsection \<open>Slices\<close>

text \<open>
  \<open>append(xs[:i], xs[i+1:]...)\<close> at the first index whose element satisfies a test, as the
  sources write it in a loop that breaks or returns at the first hit.
\<close>

fun remove_first :: "('a \<Rightarrow> bool) \<Rightarrow> 'a list \<Rightarrow> 'a list" where
  "remove_first P [] = []"
| "remove_first P (x # xs) = (if P x then xs else x # remove_first P xs)"

lemma remove_first_none [simp]: "(\<forall>x \<in> set xs. \<not> P x) \<Longrightarrow> remove_first P xs = xs"
  by (induction xs) auto

lemma set_remove_first_subset: "set (remove_first P xs) \<subseteq> set xs"
  by (induction xs) auto

lemma in_set_remove_firstD [dest]: "x \<in> set (remove_first P xs) \<Longrightarrow> x \<in> set xs"
  using set_remove_first_subset by fastforce

lemma distinct_remove_first [simp]: "distinct (map f xs) \<Longrightarrow> distinct (map f (remove_first P xs))"
  by (induction xs) auto

lemma length_remove_first:
  "length (remove_first P xs) = (if \<exists>x \<in> set xs. P x then length xs - 1 else length xs)"
proof (induction xs)
  case (Cons x xs)
  then show ?case by (cases xs) auto
qed simp

lemma remove_first_filter_other:
  "(\<And>x. P x \<Longrightarrow> \<not> Q x) \<Longrightarrow> filter Q (remove_first P xs) = filter Q xs"
  by (induction xs) auto

lemma remove_first_append:
  "remove_first P (xs @ ys) =
     (if \<exists>x \<in> set xs. P x then remove_first P xs @ ys else xs @ remove_first P ys)"
  by (induction xs) auto

lemma remove_first_unique:
  assumes "distinct (map f xs)"
  shows "remove_first (\<lambda>x. f x = k) xs = filter (\<lambda>x. f x \<noteq> k) xs"
  using assms
proof (induction xs)
  case (Cons x xs)
  then have "k = f x \<Longrightarrow> filter (\<lambda>y. f y \<noteq> k) xs = xs"
    by (auto simp: filter_id_conv) (metis image_eqI)
  with Cons show ?case by auto
qed simp

subsection \<open>Lemmas on the string functions\<close>

lemma has_prefix_iff [go_simps]: "has_prefix s p \<longleftrightarrow> (\<exists>t. s = p @ t)"
  unfolding has_prefix_def by (metis append_eq_conv_conj append_take_drop_id)

lemma has_prefix_append [simp]: "has_prefix (p @ t) p"
  by (simp add: has_prefix_def)

lemma trim_prefix_append [simp]: "trim_prefix (p @ t) p = t"
  by (simp add: trim_prefix_def)

lemma has_suffix_append [simp]: "has_suffix (t @ p) p"
  by (simp add: has_suffix_def)

lemma trim_suffix_append [simp]: "trim_suffix (t @ p) p = t"
  by (simp add: trim_suffix_def)

lemma dropWhile_hd: "(s \<noteq> [] \<Longrightarrow> \<not> p (hd s)) \<Longrightarrow> dropWhile p s = s"
  by (cases s) auto

lemma trim_by_id:
  assumes "s \<noteq> [] \<Longrightarrow> \<not> p (hd s)" "s \<noteq> [] \<Longrightarrow> \<not> p (last s)"
  shows "trim_by p s = s"
proof -
  have 1: "dropWhile p s = s" using assms(1) by (rule dropWhile_hd)
  have 2: "dropWhile p (rev s) = rev s"
    by (rule dropWhile_hd) (use assms(2) in \<open>simp add: hd_rev\<close>)
  show ?thesis by (simp add: trim_by_def trim_left_def trim_right_def 1 2)
qed

lemma trim_by_nil [simp]: "trim_by p [] = []"
  by (simp add: trim_by_def trim_left_def trim_right_def)

lemma trim_space_nil [simp]: "trim_space [] = []"
  by (simp add: trim_space_def)

lemma trim_by_no_hits: "(\<forall>c \<in> set s. \<not> p c) \<Longrightarrow> trim_by p s = s"
  by (rule trim_by_id) auto

lemma set_trim_by_subset: "set (trim_by p s) \<subseteq> set s"
  unfolding trim_by_def trim_left_def trim_right_def
  by (auto dest!: set_dropWhileD)

lemma hd_trim_by: "trim_by p s \<noteq> [] \<Longrightarrow> \<not> p (hd (trim_by p s))"
proof -
  assume ne: "trim_by p s \<noteq> []"
  let ?l = "dropWhile p s"
  have "\<exists>ys. ?l = trim_by p s @ ys"
    unfolding trim_by_def trim_left_def trim_right_def
    by (metis rev_append rev_rev_ident takeWhile_dropWhile_id)
  then obtain ys where ys: "?l = trim_by p s @ ys" by blast
  then have ne': "?l \<noteq> []" and eq: "hd ?l = hd (trim_by p s)"
    using ne by (simp_all only: hd_append append_is_Nil_conv) simp_all
  from hd_dropWhile [OF ne'] eq show ?thesis by simp
qed

lemma last_trim_by: "trim_by p s \<noteq> [] \<Longrightarrow> \<not> p (last (trim_by p s))"
  unfolding trim_by_def trim_right_def
  by (simp add: last_rev hd_dropWhile)

lemma trim_by_idem [simp]: "trim_by p (trim_by p s) = trim_by p s"
  by (rule trim_by_id) (auto simp: hd_trim_by last_trim_by)

lemma split_on_not_nil [simp]: "split_on d s \<noteq> []"
  by (induction s) (auto split: list.splits)

lemma split_on_no_sep: "d \<notin> set s \<Longrightarrow> split_on d s = [s]"
  by (induction s) auto

lemma split_on_append: "d \<notin> set s \<Longrightarrow> split_on d (s @ d # t) = s # split_on d t"
  by (induction s) auto

lemma split_on_pieces: "w \<in> set (split_on d s) \<Longrightarrow> d \<notin> set w"
proof (induction s arbitrary: w)
  case (Cons c s)
  then show ?case by (cases "split_on d s") (auto split: if_splits)
qed simp

lemma split_on_join:
  assumes "ws \<noteq> []" "\<forall>w \<in> set ws. d \<notin> set w"
  shows "split_on d (join ws [d]) = ws"
  using assms
proof (induction ws "[d]" rule: join.induct)
  case (3 w v ws)
  then show ?case by (simp add: split_on_append)
qed (auto simp: split_on_no_sep)

lemma join_split_on: "join (split_on d s) [d] = s"
proof (induction s)
  case (Cons c s)
  obtain w ws where w: "split_on d s = w # ws"
    by (cases "split_on d s") auto
  with Cons show ?case by (cases ws) auto
qed simp

lemma str_index_Some:
  "str_index s t = Some i \<Longrightarrow> s = take i s @ t @ drop (i + length t) s"
proof (induction s t arbitrary: i rule: str_index.induct)
  case (2 c s t)
  show ?case
  proof (cases "has_prefix (c # s) t")
    case True
    with "2.prems" have i: "i = 0" by simp
    from True obtain r where "c # s = t @ r" by (auto simp: has_prefix_iff)
    with i show ?thesis by simp
  next
    case False
    with 2 show ?thesis by auto
  qed
qed (auto split: if_splits)

lemma str_index_bound: "str_index s t = Some i \<Longrightarrow> i + length t \<le> length s"
proof (induction s t arbitrary: i rule: str_index.induct)
  case (2 c s t)
  then show ?case
    by (auto simp: has_prefix_def split: if_splits) (metis length_Cons length_take min_def nle_le)
qed (auto split: if_splits)

lemma str_contains_append: "str_contains (s @ t @ u) t"
proof (induction s)
  case Nil
  have "has_prefix (t @ u) t" by simp
  then show ?case
    by (cases "t @ u") (simp_all add: str_contains_def del: has_prefix_append)
next
  case (Cons c s)
  then show ?case by (auto simp: str_contains_def)
qed

lemma str_contains_iff: "str_contains s t \<longleftrightarrow> (\<exists>u v. s = u @ t @ v)"
  using str_contains_append str_index_Some
  by (metis not_None_eq str_contains_def)

lemma str_index_single: "str_index s [d] = (if d \<in> set s then Some (length (takeWhile (\<lambda>c. c \<noteq> d) s)) else None)"
  by (induction s) (auto simp: has_prefix_def)

text \<open>\<open>strings.Split(s, sep)\<close> for a non-empty separator of any length.\<close>

function split_str :: "string \<Rightarrow> string \<Rightarrow> string list" where
  "split_str sep s =
     (if sep = [] then [s]
      else case str_index s sep of
             None \<Rightarrow> [s]
           | Some i \<Rightarrow> take i s # split_str sep (drop (i + length sep) s))"
  by auto
termination
proof (relation "measure (\<lambda>(sep, s). length s)")
  fix sep s :: string and i
  assume "sep \<noteq> []" "str_index s sep = Some i"
  then have "length sep > 0" "i + length sep \<le> length s" by (auto dest: str_index_bound)
  then have "length s - (i + length sep) < length s" by linarith
  then show "((sep, drop (i + length sep) s), sep, s) \<in> measure (\<lambda>(sep, s). length s)" by simp
qed simp

declare split_str.simps [simp del]

subsection \<open>Little-endian 16-bit samples\<close>

definition u16_le :: "byte \<Rightarrow> byte \<Rightarrow> 16 word" where
  "u16_le lo hi = ucast lo OR push_bit 8 (ucast hi)"

definition put_u16 :: "16 word \<Rightarrow> byte list" where
  "put_u16 w = [ucast w, ucast (drop_bit 8 w)]"

text \<open>
  The loops \<open>for i := 0; i < len(pcm)/2; i++\<close> read \<open>pcm[2i:2i+2]\<close>: a trailing odd byte is
  never read.
\<close>

fun samples :: "byte list \<Rightarrow> int16 list" where
  "samples (lo # hi # bs) = u16_le lo hi # samples bs"
| "samples _ = []"

definition pcm_bytes :: "int16 list \<Rightarrow> byte list" where
  "pcm_bytes ws = concat (map put_u16 ws)"

lemma u16_le_put [simp]: "u16_le (ucast w) (ucast (drop_bit 8 w)) = w"
  unfolding u16_le_def
  by (rule bit_word_eqI) (auto simp: bit_simps not_less)

lemma put_u16_le [simp]: "put_u16 (u16_le lo hi) = [lo, hi]"
proof -
  have 1: "ucast (u16_le lo hi) = lo"
    unfolding u16_le_def by (rule bit_word_eqI) (auto simp: bit_simps)
  have 2: "ucast (drop_bit 8 (u16_le lo hi)) = hi"
    unfolding u16_le_def
    by (rule bit_word_eqI) (auto simp: bit_simps dest: bit_imp_le_length)
  show ?thesis by (simp add: put_u16_def 1 2)
qed

lemma length_put_u16 [simp]: "length (put_u16 w) = 2"
  by (simp add: put_u16_def)

lemma samples_put_u16 [simp]: "samples (put_u16 w @ bs) = w # samples bs"
  by (simp add: put_u16_def)

lemma pcm_bytes_Nil [simp]: "pcm_bytes [] = []"
  by (simp add: pcm_bytes_def)

lemma pcm_bytes_Cons [simp]: "pcm_bytes (w # ws) = put_u16 w @ pcm_bytes ws"
  by (simp add: pcm_bytes_def)

lemma samples_pcm_bytes [simp]: "samples (pcm_bytes ws) = ws"
  by (induction ws) simp_all

lemma length_pcm_bytes [simp]: "length (pcm_bytes ws) = 2 * length ws"
  by (induction ws) simp_all

lemma length_samples [simp]: "length (samples bs) = length bs div 2"
  by (induction bs rule: samples.induct) auto

lemma pcm_bytes_samples: "even (length bs) \<Longrightarrow> pcm_bytes (samples bs) = bs"
  by (induction bs rule: samples.induct) auto

lemma nth_samples:
  "i < length bs div 2 \<Longrightarrow> samples bs ! i = u16_le (bs ! (2 * i)) (bs ! (2 * i + 1))"
proof (induction bs arbitrary: i rule: samples.induct)
  case (1 lo hi bs)
  then show ?case by (cases i) auto
qed auto

lemma sint_int16_range: "- 32768 \<le> sint (w :: int16)" "sint (w :: int16) \<le> 32767"
  using sint_greater_eq [of w] sint_less [of w] by simp_all

lemma sint_of_int16:
  "- 32768 \<le> x \<Longrightarrow> x \<le> 32767 \<Longrightarrow> sint (word_of_int x :: int16) = x"
  by (simp only: signed_of_int signed_take_bit_int_eq_self) (simp add: signed_take_bit_int_eq_self)

text \<open>Saturation of a 32-bit sum to the 16-bit range, as the mixers write it.\<close>

definition clip16 :: "int \<Rightarrow> int" where
  "clip16 v = (if v > 32767 then 32767 else if v < - 32768 then - 32768 else v)"

lemma clip16_range: "- 32768 \<le> clip16 v" "clip16 v \<le> 32767"
  by (auto simp: clip16_def)

lemma clip16_id: "- 32768 \<le> v \<Longrightarrow> v \<le> 32767 \<Longrightarrow> clip16 v = v"
  by (simp add: clip16_def)

lemma sint_clip16 [simp]: "sint (word_of_int (clip16 v) :: int16) = clip16 v"
  by (rule sint_of_int16) (auto simp: clip16_range)

subsection \<open>Runs of a state machine\<close>

text \<open>
  The states a component reaches from \<open>s0\<close> by any sequence of its steps. A component proves
  its invariant by interpreting \<open>invariant_machine\<close> on its own step relation.
\<close>

inductive reachable :: "('s \<Rightarrow> 's \<Rightarrow> bool) \<Rightarrow> 's \<Rightarrow> 's \<Rightarrow> bool" for step :: "'s \<Rightarrow> 's \<Rightarrow> bool" and s0 :: 's where
  start: "reachable step s0 s0"
| move: "reachable step s0 s \<Longrightarrow> step s t \<Longrightarrow> reachable step s0 t"

lemma reachable_step: "step s0 t \<Longrightarrow> reachable step s0 t"
  by (rule reachable.move [OF reachable.start])

locale invariant_machine =
  fixes init :: "'s \<Rightarrow> bool" and step :: "'s \<Rightarrow> 's \<Rightarrow> bool" and inv :: "'s \<Rightarrow> bool"
  assumes init_inv: "init s \<Longrightarrow> inv s"
    and step_inv: "inv s \<Longrightarrow> step s t \<Longrightarrow> inv t"
begin

lemma reachable_inv: "reachable step s0 s \<Longrightarrow> init s0 \<Longrightarrow> inv s"
  by (induction rule: reachable.induct) (auto intro: init_inv step_inv)

end

end
