(* ===== verification/Codec.thy ===== *)
theory Codec
  imports Prelude
begin

text \<open>
  The media codecs of \<open>gateway/codec.go\<close>: the G.711 decode tables, the mu-law encoder, frame
  transcoding and the 8 kHz to 16 kHz interpolation. All arithmetic is at the width the source
  uses: \<open>byte\<close> and \<open>int16\<close> wrap around. \<open>g711_ulaw_value\<close> and \<open>g711_alaw_value\<close> are the values
  the G.711 recommendation assigns to a code word; they are the specification the tables and
  the encoder are compared with.
\<close>

subsection \<open>Decode tables\<close>

definition ulawToLinear :: "byte \<Rightarrow> int16" where
  "ulawToLinear i =
     (let b0 = NOT i;
          sign = (if b0 AND 0x80 \<noteq> 0 then - 1 else 1 :: int16);
          b = (if b0 AND 0x80 \<noteq> 0 then b0 AND 0x7F else b0);
          exponent = unat (drop_bit 4 b AND 0x07);
          mantissa = b AND 0x0F;
          sample = push_bit (exponent + 3) (ucast mantissa)
                   OR push_bit (exponent + 3) (1 :: int16)
                   OR push_bit (exponent + 2) (1 :: int16)
      in sign * (sample - 0x84))"

definition alawToLinear :: "byte \<Rightarrow> int16" where
  "alawToLinear i =
     (let b0 = i XOR 0x55;
          sign = (if b0 AND 0x80 \<noteq> 0 then - 1 else 1 :: int16);
          b = (if b0 AND 0x80 \<noteq> 0 then b0 AND 0x7F else b0);
          exponent = unat (drop_bit 4 b AND 0x07);
          mantissa = b AND 0x0F;
          sample = (if exponent = 0 then push_bit 4 (ucast mantissa) OR 8
                    else push_bit (exponent + 3) (ucast (mantissa OR 0x10)))
      in sign * sample)"

definition DecodeG711Ulaw :: "byte list \<Rightarrow> byte list" where
  "DecodeG711Ulaw ulaw = concat (map (\<lambda>b. put_u16 (ulawToLinear b)) ulaw)"

definition DecodeG711Alaw :: "byte list \<Rightarrow> byte list" where
  "DecodeG711Alaw alaw = concat (map (\<lambda>b. put_u16 (alawToLinear b)) alaw)"

subsection \<open>The mu-law encoder\<close>

text \<open>
  \<open>for expMask := int16(0x4000); (sample & expMask) == 0 && exponent > 0; exponent-- { expMask >>= 1 }\<close>
\<close>

fun ulaw_exponent :: "int16 \<Rightarrow> int16 \<Rightarrow> nat \<Rightarrow> nat" where
  "ulaw_exponent s expMask 0 = 0"
| "ulaw_exponent s expMask (Suc e) =
     (if s AND expMask = 0 then ulaw_exponent s (signed_drop_bit 1 expMask) e else Suc e)"

definition linearToUlaw :: "int16 \<Rightarrow> byte" where
  "linearToUlaw sample0 =
     (let sign = (if sint sample0 < 0 then 0x80 else 0 :: byte);
          sample1 = (if sint sample0 < 0 then - sample0 else sample0);
          sample2 = (if sint sample1 > 32635 then 32635 else sample1);
          sample = sample2 + 0x84;
          exponent = ulaw_exponent sample 0x4000 7;
          mantissa = (ucast (signed_drop_bit (exponent + 3) sample AND 0x0F) :: byte)
      in NOT (sign OR push_bit 4 (word_of_nat exponent) OR mantissa))"

definition EncodeG711Ulaw :: "byte list \<Rightarrow> byte list" where
  "EncodeG711Ulaw pcm = map linearToUlaw (samples pcm)"

subsection \<open>Frames\<close>

definition TranscodeFrame :: "byte list \<Rightarrow> string \<Rightarrow> byte list" where
  "TranscodeFrame frame codec =
     (if codec \<in> set [''PCMU'', ''pcmu'', ''g711u'', ''ulaw''] then DecodeG711Ulaw frame
      else if codec \<in> set [''PCMA'', ''pcma'', ''g711a'', ''alaw''] then DecodeG711Alaw frame
      else if codec \<in> set [''L16'', ''l16'', ''pcm''] then frame
      else frame)"

definition codecFromPayloadType :: "int \<Rightarrow> string" where
  "codecFromPayloadType pt =
     (if pt = 0 then ''PCMU''
      else if pt = 8 then ''PCMA''
      else if pt = 18 then ''G729''
      else if 96 \<le> pt \<and> pt \<le> 107 then ''dynamic''
      else ''unknown'')"

definition G711FrameSize :: "int \<Rightarrow> int" where
  "G711FrameSize durationMs = 8 * durationMs"

definition L16FrameSize :: "int \<Rightarrow> int \<Rightarrow> int" where
  "L16FrameSize rate durationMs = go_div (rate * 2 * durationMs) 1000"

definition G711ToL16Ratio :: int where
  "G711ToL16Ratio = 4"

definition interpolate :: "int16 \<Rightarrow> int16 \<Rightarrow> int16" where
  "interpolate s nxt = word_of_int (go_div (sint s + sint nxt) 2)"

fun resample_2x :: "int16 list \<Rightarrow> int16 list" where
  "resample_2x [] = []"
| "resample_2x [s] = [s, interpolate s s]"
| "resample_2x (s # t # r) = s # interpolate s t # resample_2x (t # r)"

definition ResampleG711toL16 :: "byte list \<Rightarrow> string \<Rightarrow> byte list" where
  "ResampleG711toL16 g711 codec = pcm_bytes (resample_2x (samples (TranscodeFrame g711 codec)))"

subsection \<open>The G.711 recommendation\<close>

definition g711_ulaw_value :: "byte \<Rightarrow> int" where
  "g711_ulaw_value u =
     (let n = 255 - uint u; e = nat ((n div 16) mod 8); m = n mod 16;
          mag = (8 * m + 132) * 2 ^ e - 132
      in if n \<ge> 128 then - mag else mag)"

definition g711_alaw_value :: "byte \<Rightarrow> int" where
  "g711_alaw_value a =
     (let n = uint (a XOR 0x55); e = nat ((n div 16) mod 8); m = n mod 16;
          mag = (if e = 0 then 16 * m + 8 else (16 * m + 264) * 2 ^ (e - 1))
      in if n \<ge> 128 then mag else - mag)"

subsection \<open>Sample-by-sample decoders\<close>

text \<open>
  What the two G.711 decoders share: each code word becomes one little-endian sample,
  independently of its neighbours.
\<close>

locale g711_decoder =
  fixes table :: "byte \<Rightarrow> int16" and decode :: "byte list \<Rightarrow> byte list"
  assumes decode_Nil: "decode [] = []"
    and decode_Cons: "decode (b # bs) = put_u16 (table b) @ decode bs"
begin

lemma samples_decode: "samples (decode bs) = map table bs"
  by (induction bs) (simp_all add: decode_Nil decode_Cons)

lemma length_decode: "length (decode bs) = 2 * length bs"
  by (induction bs) (simp_all add: decode_Nil decode_Cons)

lemma decode_append: "decode (xs @ ys) = decode xs @ decode ys"
  by (induction xs) (simp_all add: decode_Nil decode_Cons)

end

interpretation ulaw: g711_decoder ulawToLinear DecodeG711Ulaw
  by unfold_locales (simp_all add: DecodeG711Ulaw_def)

interpretation alaw: g711_decoder alawToLinear DecodeG711Alaw
  by unfold_locales (simp_all add: DecodeG711Alaw_def)

subsection \<open>All code words\<close>

lemma all_bytes_iff: "(\<forall>b :: byte. P b) \<longleftrightarrow> list_all P (map word_of_nat [0..<256])"
proof -
  have "(UNIV :: byte set) = set (map word_of_nat [0..<256])"
    by (simp add: UNIV_word_eq_word_of_nat)
  then show ?thesis
    by (metis UNIV_I list_all_iff)
qed

lemma alaw_decode_all:
  "\<forall>b. 33 * \<bar>sint (alawToLinear b) + g711_alaw_value b\<bar> \<le> \<bar>g711_alaw_value b\<bar>"
  unfolding all_bytes_iff by (simp add: upt_rec alawToLinear_def g711_alaw_value_def Let_def)

subsection \<open>The encoder, segment by segment\<close>

lemma and_pow2_eq_0:
  fixes s :: int16
  assumes "unat s < 2 ^ Suc n"
  shows "s AND 2 ^ n = 0 \<longleftrightarrow> unat s < 2 ^ n"
proof -
  have "s AND 2 ^ n = 0 \<longleftrightarrow> \<not> bit s n"
    by (simp add: and_exp_eq_0_iff_not_bit)
  also have "bit s n \<longleftrightarrow> odd (unat s div 2 ^ n)"
    by (simp add: bit_unsigned_iff flip: bit_iff_odd)
  finally have iff: "s AND 2 ^ n = 0 \<longleftrightarrow> even (unat s div 2 ^ n)" by simp
  show ?thesis
  proof (cases "unat s < 2 ^ n")
    case False
    then have "unat s div 2 ^ n = 1" using assms by (intro div_nat_eqI) auto
    then show ?thesis using False iff by simp
  qed (simp add: iff)
qed

lemma shift_expMask: "e \<le> 6 \<Longrightarrow> signed_drop_bit 1 (2 ^ (e + 8) :: int16) = 2 ^ (e + 7)"
proof -
  assume "e \<le> 6"
  then have "e \<in> {0, 1, 2, 3, 4, 5, 6}" by auto
  then show ?thesis by (elim insertE emptyE) simp_all
qed

lemma ulaw_exponent_spec:
  assumes "e \<le> 7" "unat s < 2 ^ (e + 8)" "2 ^ 7 \<le> unat s"
  defines "r \<equiv> ulaw_exponent s (2 ^ (e + 7)) e"
  shows "r \<le> e \<and> 2 ^ (r + 7) \<le> unat s \<and> unat s < 2 ^ (r + 8)"
  using assms(1,2) unfolding r_def
proof (induction e)
  case 0
  then show ?case using assms(3) by simp
next
  case (Suc e)
  have iff: "s AND 2 ^ (Suc e + 7) = 0 \<longleftrightarrow> unat s < 2 ^ (Suc e + 7)"
    by (rule and_pow2_eq_0) (use Suc.prems in simp)
  show ?case
  proof (cases "unat s < 2 ^ (Suc e + 7)")
    case True
    then have "ulaw_exponent s (2 ^ (Suc e + 7)) (Suc e) = ulaw_exponent s (2 ^ (e + 7)) e"
      using iff shift_expMask [of e] Suc.prems by (simp add: add.commute)
    then show ?thesis using Suc True by (simp add: add.commute)
  next
    case False
    then have "ulaw_exponent s (2 ^ (Suc e + 7)) (Suc e) = Suc e"
      using iff by simp
    then show ?thesis using False Suc.prems by simp
  qed
qed

lemma sint_small: "unat (s :: int16) < 2 ^ 15 \<Longrightarrow> sint s = int (unat s)"
proof -
  assume "unat s < 2 ^ 15"
  then have "int (unat s) < 2 ^ 15" by (metis of_nat_less_iff of_nat_numeral of_nat_power)
  then have "sint (word_of_int (uint s) :: int16) = uint s"
    by (intro sint_of_int16) (simp_all add: order_trans [OF _ uint_nonnegative])
  then show ?thesis by simp
qed

lemma unat_small:
  assumes "0 \<le> sint (s :: int16)"
  shows "unat s = nat (sint s)"
proof -
  have "uint (word_of_int (sint s) :: int16) = sint s mod 2 ^ 16"
    by (simp only: unsigned_of_int take_bit_eq_mod) simp
  also have "\<dots> = sint s" using assms sint_int16_range [of s] by simp
  finally have "uint s = sint s" by simp
  then show ?thesis by (metis nat_uint_eq)
qed

lemma signed_drop_bit_nonneg:
  assumes "unat (s :: int16) < 2 ^ 15"
  shows "unat (signed_drop_bit k s) = unat s div 2 ^ k"
proof -
  have "sint (signed_drop_bit k s) = int (unat s div 2 ^ k)"
    using assms by (simp only: sint_signed_drop_bit_eq sint_small drop_bit_eq_div) (simp add: zdiv_int)
  then show ?thesis by (simp add: unat_small)
qed

lemma ulaw_code_words:
  "list_all (\<lambda>e. list_all (\<lambda>m. list_all (\<lambda>neg. uint (NOT ((if neg then 0x80 else 0 :: byte)
       OR push_bit 4 (word_of_nat e) OR ucast (word_of_nat m :: int16))) =
     255 - ((if neg then 128 else 0) + 16 * int e + int m)) [False, True]) [0..<16]) [0..<8]"
  by (simp add: upt_rec unsigned_minus_1_eq_mask mask_eq_exp_minus_1)

lemma ulaw_code_word:
  fixes X :: int16
  assumes "e \<le> 7"
  shows "uint (NOT ((if neg then 0x80 else 0 :: byte) OR push_bit 4 (word_of_nat e)
               OR ucast (X AND 0x0F))) =
         255 - ((if neg then 128 else 0) + 16 * int e + int (unat X mod 16))"
proof -
  define m where "m = unat X mod 16"
  have "unat (X AND mask 4) = m"
    by (simp add: m_def flip: take_bit_eq_mask) (simp add: take_bit_eq_mod unat_mod_distrib)
  then have "X AND 0x0F = word_of_nat m"
    by (simp add: mask_eq_exp_minus_1) (metis of_nat_unat ucast_id)
  moreover have "m \<in> set [0..<16]" by (simp add: m_def)
  moreover have "e \<in> set [0..<8]" using assms by auto
  ultimately show ?thesis
    unfolding m_def [symmetric] using ulaw_code_words by (cases neg) (simp_all only: list_all_iff list.set, blast+)
qed

lemma linearToUlaw_uint:
  fixes s :: int16
  assumes "\<bar>sint s\<bar> \<le> 32767"
  defines "S \<equiv> nat (min 32635 \<bar>sint s\<bar>) + 132"
  obtains e where "e \<le> 7" "2 ^ (e + 7) \<le> S" "S < 2 ^ (e + 8)"
    "uint (linearToUlaw s) =
       255 - ((if sint s < 0 then 128 else 0) + 16 * int e + int (S div 2 ^ (e + 3) mod 16))"
proof -
  define s2 where "s2 = (let s1 = (if sint s < 0 then - s else s) in if sint s1 > 32635 then 32635 else s1)"
  have neg: "sint s < 0 \<Longrightarrow> sint (- s) = - sint s"
    using assms(1) sint_of_int16 [of "- sint s"] by simp
  have s2: "sint s2 = min 32635 \<bar>sint s\<bar>"
    using neg by (auto simp: s2_def Let_def)
  then have "unat s2 = nat (min 32635 \<bar>sint s\<bar>)"
    by (simp add: unat_small)
  then have S: "unat (s2 + 0x84) = S"
    by (simp add: S_def unat_word_ariths(1))
  define e where "e = ulaw_exponent (s2 + 0x84) 0x4000 7"
  have b: "132 \<le> S" "S < 2 ^ 15" by (auto simp: S_def)
  have e: "e \<le> 7" "2 ^ (e + 7) \<le> S" "S < 2 ^ (e + 8)"
    using ulaw_exponent_spec [of 7 "s2 + 0x84"] b by (simp_all add: S e_def)
  have "uint (linearToUlaw s) = 255 - ((if sint s < 0 then 128 else 0) + 16 * int e + int (S div 2 ^ (e + 3) mod 16))"
    unfolding linearToUlaw_def Let_def
    using ulaw_code_word [OF e(1), of "sint s < 0" "signed_drop_bit (e + 3) (s2 + 0x84)"] 
      signed_drop_bit_nonneg [of "s2 + 0x84" "e + 3"] b S
    by (simp only: e_def s2_def Let_def)
  with e that show ?thesis by blast
qed

lemma g711_ulaw_value_code:
  assumes "uint u = 255 - ((if neg then 128 else 0) + 16 * int e + int m)" "e \<le> 7" "m < 16"
  shows "g711_ulaw_value u =
           (if neg then - ((8 * int m + 132) * 2 ^ e - 132) else (8 * int m + 132) * 2 ^ e - 132)"
proof -
  define k where "k = (if neg then 8 else 0) + int e"
  have n: "255 - uint u = int m + 16 * k"
    using assms(1) by (simp add: k_def)
  have "(255 - uint u) div 16 = k" "(255 - uint u) mod 16 = int m"
    using assms(3) unfolding n by simp_all
  moreover have "255 - uint u \<ge> 128 \<longleftrightarrow> neg"
    using assms(2,3) unfolding n k_def by auto
  ultimately show ?thesis
    using assms(2) by (auto simp: g711_ulaw_value_def Let_def k_def)
qed

lemma quantise:
  fixes S e :: nat
  assumes "2 ^ (e + 7) \<le> S" "S < 2 ^ (e + 8)"
  defines "m \<equiv> S div 2 ^ (e + 3) mod 16"
  shows "\<bar>(8 * int m + 132) * 2 ^ e - int S\<bar> \<le> 4 * 2 ^ e"
proof -
  define P where "P = (2 :: nat) ^ e"
  have S: "128 * P \<le> S" "S < 256 * P" using assms(1,2) by (simp_all add: P_def power_add)
  have "P > 0" by (simp add: P_def)
  define q where "q = S div (8 * P)"
  have q: "8 * P * q \<le> S" "S < 8 * P * q + 8 * P"
    using \<open>P > 0\<close> dividend_less_times_div [of "8 * P" S] by (simp_all add: q_def)
  have "16 \<le> q" unfolding q_def using S \<open>P > 0\<close> by (simp add: less_eq_div_iff_mult_less_eq)
  moreover have "q < 32" unfolding q_def using S \<open>P > 0\<close> by (simp add: div_less_iff_less_mult)
  moreover have "m = q mod 16" by (simp add: m_def q_def P_def power_add mult.commute)
  ultimately have m: "q = 16 + m" by (auto simp: mod_if)
  have "(8 * int m + 132) * int P = int (8 * P * q) + 4 * int P"
    by (simp add: m algebra_simps)
  then have "\<bar>(8 * int m + 132) * int P - int S\<bar> \<le> 4 * int P"
    using q by linarith
  then show ?thesis by (simp add: P_def)
qed

lemma signed_accuracy:
  fixes c v S P g :: int
  assumes "c = (if neg then - (S - 132) else S - 132)" "\<bar>v - S\<bar> \<le> P" "32 * P \<le> S"
    "g = (if neg then - (v - 132) else v - 132)" "132 \<le> S"
  shows "32 * \<bar>g - c\<bar> \<le> \<bar>c\<bar> + 132"
proof -
  have "\<bar>g - c\<bar> = \<bar>v - S\<bar>" "\<bar>c\<bar> = S - 132"
    using assms(1,4,5) by (cases neg; simp)+
  moreover have "32 * \<bar>v - S\<bar> \<le> S"
    using assms(2,3) by (metis mult_le_cancel_left_pos order_trans zero_less_numeral)
  ultimately show ?thesis by simp
qed

lemma ulaw_code_cases:
  fixes b :: byte
  obtains neg e m where "uint b = 255 - ((if neg then 128 else 0) + 16 * int e + int m)" "e \<le> 7" "m < 16"
proof -
  define n where "n = 255 - uint b"
  have "uint b < 256" using uint_lt2p [of b] by simp
  then have n: "0 \<le> n" "n < 256" using uint_nonnegative [of b] unfolding n_def by linarith+
  define q where "q = n div 16"
  have q: "n = 16 * q + n mod 16" "0 \<le> q" "q < 16" using n by (auto simp: q_def)
  have "q mod 8 = (if q \<ge> 8 then q - 8 else q)"
    using q(2,3) mod_pos_pos_trivial [of "q - 8" 8] mod_diff_right_eq [of q 8 8] by auto
  moreover have "n \<ge> 128 \<longleftrightarrow> q \<ge> 8"
    using q(1) pos_mod_bound [of 16 n] pos_mod_sign [of 16 n] by linarith
  ultimately have "n = (if n \<ge> 128 then 128 else 0) + 16 * ((n div 16) mod 8) + n mod 16"
    using q(1) by (simp add: q_def)
  then have "uint b = 255 - ((if n \<ge> 128 then 128 else 0) + 16 * int (nat ((n div 16) mod 8)) + int (nat (n mod 16)))"
    using n by (simp add: n_def)
  then show ?thesis by (rule that) (simp_all add: nat_le_iff nat_less_iff)
qed

lemma pow2_interval_unique:
  fixes S e d :: nat
  assumes "2 ^ (e + 7) \<le> S" "S < 2 ^ (e + 8)" "2 ^ (d + 7) \<le> S" "S < 2 ^ (d + 8)"
  shows "e = d"
proof -
  have "(2 :: nat) ^ (e + 7) < 2 ^ (d + 8)" "(2 :: nat) ^ (d + 7) < 2 ^ (e + 8)"
    using assms by linarith+
  then have "e + 7 < d + 8" "d + 7 < e + 8" by (simp_all only: power_strict_increasing_iff one_less_numeral_iff semiring_norm)
  then show ?thesis by simp
qed

lemma ulaw_level:
  fixes e m :: nat
  assumes "e \<le> 7" "m < 16"
  defines "S \<equiv> (8 * m + 132) * 2 ^ e"
  shows "2 ^ (e + 7) \<le> S" "S < 2 ^ (e + 8)" "S div 2 ^ (e + 3) mod 16 = m"
    "132 \<le> S" "S \<le> 32256" "S = 132 \<longleftrightarrow> e = 0 \<and> m = 0"
proof -
  have P: "(1 :: nat) \<le> 2 ^ e" "(2 :: nat) ^ e \<le> 128"
    using assms(1) power_increasing [of e 7 "2 :: nat"] by simp_all
  show "2 ^ (e + 7) \<le> S" "S < 2 ^ (e + 8)"
    using assms(2) by (simp_all add: S_def power_add)
  have "S div 2 ^ (e + 3) = (8 * m + 132) div 8"
    by (simp add: S_def power_add mult.commute)
  then show "S div 2 ^ (e + 3) mod 16 = m" using assms(2) by simp
  have l: "132 * 2 ^ e \<le> S" by (simp add: S_def)
  with P show "132 \<le> S" by linarith
  have "S \<le> 252 * 128"
    unfolding S_def by (rule mult_le_mono) (use P assms(2) in auto)
  then show "S \<le> 32256" by simp
  show "S = 132 \<longleftrightarrow> e = 0 \<and> m = 0"
  proof (cases e)
    case (Suc d)
    have "(2 :: nat) ^ e \<ge> 2" by (simp add: Suc)
    with l have "S \<noteq> 132" by linarith
    then show ?thesis by (simp add: Suc)
  qed (simp add: S_def)
qed

subsection \<open>Interpolation\<close>

lemma sint_interpolate: "sint (interpolate s t) = go_div (sint s + sint t) 2"
  unfolding interpolate_def
  by (rule sint_of_int16)
     (use sint_int16_range [of s] sint_int16_range [of t] in \<open>auto simp: go_div_def sgn_if\<close>)

lemma interpolate_between:
  "min (sint s) (sint t) \<le> sint (interpolate s t)" "sint (interpolate s t) \<le> max (sint s) (sint t)"
  unfolding sint_interpolate by (auto simp: go_div_def sgn_if)

lemma length_resample_2x [simp]: "length (resample_2x ss) = 2 * length ss"
  by (induction ss rule: resample_2x.induct) simp_all

lemma nth_resample_2x:
  assumes "i < length ss"
  shows "resample_2x ss ! (2 * i) = ss ! i"
    and "resample_2x ss ! (2 * i + 1) = interpolate (ss ! i) (ss ! min (i + 1) (length ss - 1))"
proof -
  have "resample_2x ss ! (2 * i) = ss ! i \<and>
        resample_2x ss ! (2 * i + 1) = interpolate (ss ! i) (ss ! min (i + 1) (length ss - 1))"
    using assms
  proof (induction ss arbitrary: i rule: resample_2x.induct)
    case (3 s t r)
    then show ?case by (cases i) auto
  qed auto
  then show "resample_2x ss ! (2 * i) = ss ! i"
    and "resample_2x ss ! (2 * i + 1) = interpolate (ss ! i) (ss ! min (i + 1) (length ss - 1))"
    by blast+
qed

lemma length_TranscodeFrame:
  "codec \<in> {''PCMU'', ''PCMA''} \<Longrightarrow> length (TranscodeFrame g codec) = 2 * length g"
  by (auto simp: TranscodeFrame_def ulaw.length_decode alaw.length_decode)

subsection \<open>Properties\<close>

text \<open>
  C36: the mu-law encoder is within the quantisation error of its segment: for every 16-bit
  sample other than -32768, the value G.711 assigns to the emitted code word differs from the
  sample, clipped to +-32635, by at most a thirty-second of the biased magnitude.
\<close>

theorem linearToUlaw_accuracy:
  fixes s :: int16
  assumes "sint s \<noteq> - 32768"
  defines "c \<equiv> max (- 32635) (min 32635 (sint s))"
  shows "32 * \<bar>g711_ulaw_value (linearToUlaw s) - c\<bar> \<le> \<bar>c\<bar> + 132"
proof -
  have "\<bar>sint s\<bar> \<le> 32767" using assms(1) sint_int16_range [of s] by linarith
  then obtain e where e: "e \<le> 7" "2 ^ (e + 7) \<le> nat (min 32635 \<bar>sint s\<bar>) + 132"
    "nat (min 32635 \<bar>sint s\<bar>) + 132 < 2 ^ (e + 8)"
    "uint (linearToUlaw s) = 255 - ((if sint s < 0 then 128 else 0) + 16 * int e
        + int ((nat (min 32635 \<bar>sint s\<bar>) + 132) div 2 ^ (e + 3) mod 16))"
    by (rule linearToUlaw_uint)
  let ?S = "nat (min 32635 \<bar>sint s\<bar>) + 132"
  let ?v = "(8 * int (?S div 2 ^ (e + 3) mod 16) + 132) * 2 ^ e"
  have c: "c = (if sint s < 0 then - (int ?S - 132) else int ?S - 132)"
    by (auto simp: c_def)
  have "\<bar>?v - int ?S\<bar> \<le> 4 * 2 ^ e"
    by (rule quantise [OF e(2,3)])
  moreover have "32 * (4 * 2 ^ e) \<le> int ?S"
  proof -
    have "int (2 ^ (e + 7)) \<le> int ?S" using e(2) by (simp only: of_nat_le_iff)
    then show ?thesis by (simp add: power_add)
  qed
  moreover have "g711_ulaw_value (linearToUlaw s) = (if sint s < 0 then - (?v - 132) else ?v - 132)"
    by (rule g711_ulaw_value_code [OF e(4,1)]) simp
  ultimately show ?thesis
    by (rule signed_accuracy [OF c]) simp
qed

theorem linearToUlaw_accuracy_witness:
  "sint (1000 :: int16) \<noteq> - 32768 \<and>
   32 * \<bar>g711_ulaw_value (linearToUlaw 1000) - max (- 32635) (min 32635 (sint (1000 :: int16)))\<bar>
     \<le> \<bar>max (- 32635) (min 32635 (sint (1000 :: int16)))\<bar> + 132"
  using linearToUlaw_accuracy [of 1000] by simp

text \<open>
  encoding inverts G.711 decoding on every code word except the negative zero 0x7F, which
  comes back as the positive zero.
\<close>

theorem linearToUlaw_roundtrip:
  assumes "b \<noteq> 0x7F"
  shows "linearToUlaw (word_of_int (g711_ulaw_value b)) = b"
proof -
  obtain neg e m where b: "uint b = 255 - ((if neg then 128 else 0) + 16 * int e + int m)"
    and e: "e \<le> 7" and m: "m < 16" by (rule ulaw_code_cases)
  define S where "S = (8 * m + 132) * 2 ^ e"
  note lev = ulaw_level [OF e m, folded S_def]
  let ?v = "g711_ulaw_value b" let ?s = "word_of_int ?v :: int16"
  have v: "?v = (if neg then - (int S - 132) else int S - 132)"
    by (simp add: g711_ulaw_value_code [OF b e m] S_def)
  have s: "sint ?s = ?v" by (rule sint_of_int16) (use lev v in auto)
  have "neg \<Longrightarrow> S \<noteq> 132"
  proof
    assume "neg" "S = 132"
    then have "uint b = uint (0x7F :: byte)" using b lev(6) by simp
    then have "b = 0x7F" by (rule word_uint_eqI)
    with assms show False by simp
  qed
  then have neg: "?v < 0 \<longleftrightarrow> neg" using v lev(4) by (cases neg) auto
  have S: "nat (min 32635 \<bar>sint ?s\<bar>) + 132 = S"
    using lev(4,5) unfolding s unfolding v by (cases neg) auto
  have "\<bar>sint ?s\<bar> \<le> 32767" unfolding s unfolding v using lev(4,5) by (cases neg) auto
  then obtain d where d: "2 ^ (d + 7) \<le> S" "S < 2 ^ (d + 8)"
    "uint (linearToUlaw ?s) = 255 - ((if ?v < 0 then 128 else 0) + 16 * int d + int (S div 2 ^ (d + 3) mod 16))"
    by (rule linearToUlaw_uint [of ?s, unfolded S]) (simp only: s)
  have "d = e" by (rule pow2_interval_unique [OF d(1,2) lev(1,2)])
  then have "uint (linearToUlaw ?s) = uint b" using d(3) by (simp only: neg lev(3) b)
  then show ?thesis by (rule word_uint_eqI)
qed

theorem linearToUlaw_roundtrip_witness:
  "(0x10 :: byte) \<noteq> 0x7F \<and> linearToUlaw (word_of_int (g711_ulaw_value 0x10)) = 0x10"
  using linearToUlaw_roundtrip [of "0x10"] by simp

text \<open>
  the mu-law decode table built at start-up is wrong for every code word: no entry equals
  the value G.711 assigns to it (the table shifts by \<open>exponent+3\<close> where the segment's offset
  needs \<open>exponent+7\<close>), and the code word of silence decodes to -120.
\<close>

theorem ulaw_table_diverges:
  "\<forall>b. sint (ulawToLinear b) \<noteq> g711_ulaw_value b"
  unfolding all_bytes_iff by (simp add: upt_rec ulawToLinear_def g711_ulaw_value_def Let_def)

text \<open>
  up-sampling a G.711 frame to 16 kHz L16 yields four bytes per code word; every decoded
  sample is kept at the even positions and every inserted sample is the truncated mean of its
  two neighbours (the last one repeats), without overflow.
\<close>

theorem ResampleG711toL16_spec:
  fixes g :: "byte list"
  assumes "codec \<in> {''PCMU'', ''PCMA''}"
  defines "xs \<equiv> samples (TranscodeFrame g codec)" and "ys \<equiv> samples (ResampleG711toL16 g codec)"
  shows "length (ResampleG711toL16 g codec) = 4 * length g \<and>
         (\<forall>i < length g. ys ! (2 * i) = xs ! i \<and>
            sint (ys ! (2 * i + 1)) =
              go_div (sint (xs ! i) + sint (xs ! min (i + 1) (length g - 1))) 2)"
  using assms(1) nth_resample_2x [of _ xs]
  by (simp add: xs_def ys_def ResampleG711toL16_def length_TranscodeFrame sint_interpolate)

theorem ResampleG711toL16_spec_witness:
  "length (ResampleG711toL16 [0, 1, 2] ''PCMU'') = 12"
  using ResampleG711toL16_spec [of "''PCMU''" "[0, 1, 2]"] by simp

end
