(* ===== verification/Failover.thy ===== *)
theory Failover
  imports Prelude
begin

text \<open>
  The circuit breakers and the failover manager of \<open>gateway/failover.go\<close>. A breaker is its
  struct; every atomic counter is a field. The readings of the clock are arguments; a handler
  that reads it several times takes \<open>clock\<close>, the sequence of its readings. The FreeSWITCH event
  socket is the parameter \<open>execute\<close>, a command's error or its reply; the commands sent and the
  session events are returned as the list of effects, in order.
\<close>

subsection \<open>Circuit breaker\<close>

datatype CircuitState = CircuitClosed | CircuitOpen | CircuitHalfOpen

fun CircuitState_String :: "CircuitState \<Rightarrow> string" where
  "CircuitState_String CircuitClosed = ''closed''"
| "CircuitState_String CircuitOpen = ''open''"
| "CircuitState_String CircuitHalfOpen = ''half-open''"

record CircuitBreaker =
  name :: string
  state :: CircuitState
  failures :: int
  successes :: int
  lastFailure :: instant
  threshold :: int
  resetTimeout :: duration

definition NewCircuitBreaker :: "string \<Rightarrow> int \<Rightarrow> duration \<Rightarrow> CircuitBreaker" where
  "NewCircuitBreaker nm thr rt =
     \<lparr>name = nm, state = CircuitClosed, failures = 0, successes = 0, lastFailure = 0,
      threshold = thr, resetTimeout = rt\<rparr>"

definition State :: "instant \<Rightarrow> CircuitBreaker \<Rightarrow> CircuitBreaker \<times> CircuitState" where
  "State now cb =
     (if state cb = CircuitOpen then
        if since now (lastFailure cb) > resetTimeout cb
        then (cb\<lparr>state := CircuitHalfOpen\<rparr>, CircuitHalfOpen)
        else (cb, CircuitOpen)
      else (cb, state cb))"

definition Allow :: "instant \<Rightarrow> CircuitBreaker \<Rightarrow> CircuitBreaker \<times> bool" where
  "Allow now cb =
     (let (cb', st) = State now cb in
      (cb', case st of CircuitClosed \<Rightarrow> True | CircuitHalfOpen \<Rightarrow> True | CircuitOpen \<Rightarrow> False))"

definition RecordSuccess :: "CircuitBreaker \<Rightarrow> CircuitBreaker" where
  "RecordSuccess cb = cb\<lparr>successes := successes cb + 1, failures := 0, state := CircuitClosed\<rparr>"

definition RecordFailure :: "instant \<Rightarrow> CircuitBreaker \<Rightarrow> CircuitBreaker" where
  "RecordFailure now cb =
     (let cb' = cb\<lparr>failures := failures cb + 1, lastFailure := now\<rparr> in
      if failures cb' \<ge> threshold cb' then cb'\<lparr>state := CircuitOpen\<rparr> else cb')"

subsection \<open>Failover manager\<close>

record FailoverManager =
  llm :: CircuitBreaker
  stt :: CircuitBreaker
  tts :: CircuitBreaker
  esl :: CircuitBreaker

definition NewFailoverManager :: FailoverManager where
  "NewFailoverManager =
     \<lparr>llm = NewCircuitBreaker ''llm'' 3 (30 * second),
      stt = NewCircuitBreaker ''stt'' 3 (15 * second),
      tts = NewCircuitBreaker ''tts'' 3 (15 * second),
      esl = NewCircuitBreaker ''esl'' 5 (60 * second)\<rparr>"

datatype effect = SendEvent string string | Execute string

type_synonym event_socket = "string \<Rightarrow> string + string"

definition Failover_Status ::
  "(nat \<Rightarrow> instant) \<Rightarrow> FailoverManager \<Rightarrow> FailoverManager \<times> (string \<times> string \<times> int) list" where
  "Failover_Status clock fm =
     (let (l, sl) = State (clock 0) (llm fm); (s, ss) = State (clock 1) (stt fm);
          (t, st) = State (clock 2) (tts fm); (e, se) = State (clock 3) (esl fm)
      in (fm\<lparr>llm := l, stt := s, tts := t, esl := e\<rparr>,
          [(''llm'', CircuitState_String sl, failures l), (''stt'', CircuitState_String ss, failures s),
           (''tts'', CircuitState_String st, failures t), (''esl'', CircuitState_String se, failures e)]))"

definition sanitizeHeader :: "string \<Rightarrow> string" where
  "sanitizeHeader s =
     map (\<lambda>c. if c = CHR 0x0A \<or> c = CHR 0x0D then CHR '' '' else if c = CHR ''|'' then CHR ''/'' else c) s"

definition setvar_cmd :: "string \<Rightarrow> string \<times> string \<Rightarrow> string" where
  "setvar_cmd sid kv = ''uuid_setvar '' @ sid @ '' sip_h_'' @ fst kv @ '' '' @ snd kv"

definition transfer_cmd :: "string \<Rightarrow> string" where
  "transfer_cmd sid = ''uuid_transfer '' @ sid @ '' 3000 XML outbound''"

text \<open>
  \<open>for k, v := range headers\<close> visits the three headers in any order: \<open>order\<close> rearranges them.
\<close>

definition transferToHuman ::
  "(nat \<Rightarrow> instant) \<Rightarrow> event_socket \<Rightarrow> ((string \<times> string) list \<Rightarrow> (string \<times> string) list)
    \<Rightarrow> FailoverManager \<Rightarrow> string \<Rightarrow> string \<Rightarrow> string \<Rightarrow> FailoverManager \<times> effect list" where
  "transferToHuman clock execute order fm sid reason summary =
     (let (e, ok) = Allow (clock 0) (esl fm); fm1 = fm\<lparr>esl := e\<rparr> in
      if \<not> ok then (fm1, [])
      else
        let headers = [(''X-Failover-Reason'', reason),
                       (''X-Failover-Summary'', sanitizeHeader summary),
                       (''X-Failover-CallID'', sid)];
            sent = map (\<lambda>kv. Execute (setvar_cmd sid kv)) (order headers) @ [Execute (transfer_cmd sid)]
        in case execute (transfer_cmd sid) of
             Inl err \<Rightarrow> (fm1\<lparr>esl := RecordFailure (clock 1) e\<rparr>, sent)
           | Inr resp \<Rightarrow> (fm1\<lparr>esl := RecordSuccess e\<rparr>, sent))"

definition HandleLLMFailure ::
  "(nat \<Rightarrow> instant) \<Rightarrow> event_socket \<Rightarrow> ((string \<times> string) list \<Rightarrow> (string \<times> string) list)
    \<Rightarrow> FailoverManager \<Rightarrow> string \<Rightarrow> FailoverManager \<times> effect list \<times> string" where
  "HandleLLMFailure clock execute order fm sid =
     (let l0 = RecordFailure (clock 0) (llm fm);
          (l1, _) = State (clock 1) l0;
          (l2, st) = State (clock 2) l1;
          fm1 = fm\<lparr>llm := l2\<rparr>
      in if st = CircuitOpen then
           let (fm2, eff) = transferToHuman (\<lambda>i. clock (i + 3)) execute order fm1 sid ''llm_failure''
                              (''AI service unavailable '' @ [CHR 0xE2, CHR 0x80, CHR 0x94] @ '' transferring to agent queue'')
           in (fm2, SendEvent ''failover'' ''LLM service unavailable. Transferring to human agent.'' # eff,
               ''I'' @ [CHR 0x27] @ ''m having some difficulty right now. Let me connect you with a team member who can help.'')
         else (fm1, [], ''One moment please while I look that up for you.''))"

definition HandleSTTFailure ::
  "(nat \<Rightarrow> instant) \<Rightarrow> event_socket \<Rightarrow> ((string \<times> string) list \<Rightarrow> (string \<times> string) list)
    \<Rightarrow> FailoverManager \<Rightarrow> string \<Rightarrow> FailoverManager \<times> effect list" where
  "HandleSTTFailure clock execute order fm sid =
     (let s0 = RecordFailure (clock 0) (stt fm);
          (s1, _) = State (clock 1) s0;
          (s2, st) = State (clock 2) s1;
          fm1 = fm\<lparr>stt := s2\<rparr>
      in if st = CircuitOpen then
           let (fm2, eff) = transferToHuman (\<lambda>i. clock (i + 3)) execute order fm1 sid ''stt_failure''
                              ''Speech recognition service down''
           in (fm2, SendEvent ''failover'' ''Speech recognition unavailable. Transferring to human agent.'' # eff)
         else (fm1, []))"

definition HandleTTSFailure ::
  "(nat \<Rightarrow> instant) \<Rightarrow> FailoverManager \<Rightarrow> string \<Rightarrow> FailoverManager \<times> effect list \<times> string" where
  "HandleTTSFailure clock fm sid =
     (let t0 = RecordFailure (clock 0) (tts fm);
          (t1, _) = State (clock 1) t0;
          (e, ok) = Allow (clock 2) (esl fm)
      in (fm\<lparr>tts := t1, esl := e\<rparr>,
          (if ok then [Execute (''uuid_broadcast '' @ sid @ '' tone_stream://%500,0,800) aleg'')] else []),
          ''''))"

definition checkHealth :: "(nat \<Rightarrow> instant) \<Rightarrow> FailoverManager \<Rightarrow> FailoverManager" where
  "checkHealth clock fm = fst (Failover_Status clock fm)"

text \<open>A burst of requests: the answers of successive \<open>Allow\<close> calls.\<close>

fun allow_n :: "instant list \<Rightarrow> CircuitBreaker \<Rightarrow> bool list" where
  "allow_n [] cb = []"
| "allow_n (t # ts) cb = (let (cb', ok) = Allow t cb in ok # allow_n ts cb')"

subsection \<open>The breaker as a state machine\<close>

text \<open>The calls a breaker receives, at any instants and in any order.\<close>

inductive cb_step :: "CircuitBreaker \<Rightarrow> CircuitBreaker \<Rightarrow> bool" where
  observe: "cb_step cb (fst (State now cb))"
| request: "cb_step cb (fst (Allow now cb))"
| success: "cb_step cb (RecordSuccess cb)"
| failure: "cb_step cb (RecordFailure now cb)"

definition fresh_breaker :: "CircuitBreaker \<Rightarrow> bool" where
  "fresh_breaker cb \<longleftrightarrow> threshold cb \<ge> 1 \<and> cb = NewCircuitBreaker (name cb) (threshold cb) (resetTimeout cb)"

definition cb_inv :: "CircuitBreaker \<Rightarrow> bool" where
  "cb_inv cb \<longleftrightarrow> threshold cb \<ge> 1 \<and> 0 \<le> failures cb \<and>
     (state cb = CircuitClosed \<longleftrightarrow> failures cb < threshold cb)"

lemmas breaker_defs = State_def Allow_def RecordSuccess_def RecordFailure_def Let_def

lemma cb_step_inv: "cb_inv cb \<Longrightarrow> cb_step cb cb' \<Longrightarrow> cb_inv cb'"
  by (erule cb_step.cases) (auto simp: cb_inv_def breaker_defs split: if_splits)

interpretation breaker: invariant_machine fresh_breaker cb_step cb_inv
proof
  show "fresh_breaker s \<Longrightarrow> cb_inv s" for s
    by (metis (no_types, lifting) CircuitBreaker.select_convs NewCircuitBreaker_def cb_inv_def
        fresh_breaker_def less_le_trans order.refl zero_less_one)
qed (rule cb_step_inv)

fun fail_n :: "instant list \<Rightarrow> CircuitBreaker \<Rightarrow> CircuitBreaker" where
  "fail_n [] cb = cb"
| "fail_n (t # ts) cb = fail_n ts (RecordFailure t cb)"

lemma fail_n_counts:
  "failures (fail_n ts cb) = failures cb + int (length ts)"
  "threshold (fail_n ts cb) = threshold cb" "resetTimeout (fail_n ts cb) = resetTimeout cb"
  "ts \<noteq> [] \<Longrightarrow> lastFailure (fail_n ts cb) = last ts"
  by (induction ts arbitrary: cb) (simp_all add: RecordFailure_def Let_def)

lemma fail_n_inv: "cb_inv cb \<Longrightarrow> cb_inv (fail_n ts cb)"
  by (induction ts arbitrary: cb) (auto intro: cb_step_inv cb_step.failure)

lemma fail_n_open:
  assumes "cb_inv cb" "failures cb + int (length ts) \<ge> threshold cb" "ts \<noteq> []"
  shows "state (fail_n ts cb) = CircuitOpen"
  using assms
proof (induction ts arbitrary: cb)
  case (Cons t ts)
  show ?case
  proof (cases ts)
    case Nil
    then show ?thesis using Cons.prems by (simp add: RecordFailure_def Let_def)
  next
    case (Cons u us)
    have "cb_inv (RecordFailure t cb)" using Cons.prems(1) by (auto intro: cb_step_inv cb_step.failure)
    then show ?thesis
      using Cons.IH [of "RecordFailure t cb"] Cons.prems Cons
      by (simp add: RecordFailure_def Let_def)
  qed
qed simp

lemma allow_n_half_open:
  "state cb = CircuitHalfOpen \<Longrightarrow> allow_n ts cb = replicate (length ts) True"
  by (induction ts arbitrary: cb) (auto simp: breaker_defs)

lemma allow_n_tripped:
  assumes "state cb = CircuitOpen" "\<forall>t \<in> set ts. since t (lastFailure cb) \<le> resetTimeout cb"
  shows "allow_n ts cb = replicate (length ts) False"
  using assms by (induction ts) (auto simp: breaker_defs)

lemma State_after_failure:
  assumes "cb_inv cb" "since t1 t0 \<le> resetTimeout cb" "since t2 t0 \<le> resetTimeout cb"
  defines "r \<equiv> RecordFailure t0 cb"
  shows "fst (State t1 r) = r"
    "State t2 r = (r, if failures cb + 1 \<ge> threshold cb then CircuitOpen else CircuitClosed)"
  using assms by (auto simp: breaker_defs cb_inv_def)

definition llm_headers :: "string \<Rightarrow> (string \<times> string) list" where
  "llm_headers sid =
     [(''X-Failover-Reason'', ''llm_failure''),
      (''X-Failover-Summary'',
        ''AI service unavailable '' @ [CHR 0xE2, CHR 0x80, CHR 0x94] @ '' transferring to agent queue''),
      (''X-Failover-CallID'', sid)]"

subsection \<open>Properties\<close>

text \<open>
  in every state a breaker with a positive threshold can reach by any interleaving of
  state queries, admission tests, successes and failures at any instants, it is closed exactly
  when fewer than \<open>threshold\<close> failures were recorded since the last success, and its failure
  count is never negative.
\<close>

theorem breaker_closed_iff:
  assumes "reachable cb_step (NewCircuitBreaker nm thr rt) cb" "thr \<ge> 1"
  shows "threshold cb \<ge> 1 \<and> 0 \<le> failures cb \<and>
         (state cb = CircuitClosed \<longleftrightarrow> failures cb < threshold cb)"
proof -
  have "fresh_breaker (NewCircuitBreaker nm thr rt)"
    using assms(2) by (simp add: fresh_breaker_def NewCircuitBreaker_def)
  from breaker.reachable_inv [OF assms(1) this] show ?thesis by (simp add: cb_inv_def)
qed

theorem breaker_closed_iff_witness:
  "\<exists>cb. reachable cb_step (NewCircuitBreaker ''llm'' 1 5) cb \<and> state cb = CircuitOpen \<and> failures cb = 1"
proof -
  let ?cb = "RecordFailure 7 (NewCircuitBreaker ''llm'' 1 5)"
  have r: "reachable cb_step (NewCircuitBreaker ''llm'' 1 5) ?cb"
    by (rule reachable_step, rule cb_step.failure)
  have "state ?cb \<noteq> CircuitClosed"
    using breaker_closed_iff [OF r] by (simp add: RecordFailure_def NewCircuitBreaker_def)
  with r show ?thesis by (intro exI [of _ ?cb]) (simp add: RecordFailure_def NewCircuitBreaker_def)
qed

text \<open>
  a reachable breaker whose failures reach the threshold is open; it then rejects every
  request made within \<open>resetTimeout\<close> of the last failure, and once a request comes later than
  that it is admitted together with every request after it: the half-open state does not limit
  the probes to one.
\<close>

theorem breaker_trips:
  assumes "reachable cb_step (NewCircuitBreaker nm thr rt) cb0" "thr \<ge> 1"
    and "fs \<noteq> []" "failures cb0 + int (length fs) \<ge> threshold cb0"
  defines "cb \<equiv> fail_n fs cb0"
  shows "state cb = CircuitOpen \<and>
         ((\<forall>t \<in> set ts. t - last fs \<le> resetTimeout cb0) \<longrightarrow> allow_n ts cb = replicate (length ts) False) \<and>
         (t - last fs > resetTimeout cb0 \<longrightarrow> allow_n (t # us) cb = replicate (Suc (length us)) True)"
proof -
  have "fresh_breaker (NewCircuitBreaker nm thr rt)"
    using assms(2) by (simp add: fresh_breaker_def NewCircuitBreaker_def)
  then have "cb_inv cb0" using breaker.reachable_inv assms(1) by blast
  then have o: "state cb = CircuitOpen" unfolding cb_def using assms(3,4) by (intro fail_n_open) auto
  have l: "lastFailure cb = last fs" "resetTimeout cb = resetTimeout cb0"
    using assms(3) by (simp_all add: cb_def fail_n_counts)
  have "t - last fs > resetTimeout cb0 \<Longrightarrow> Allow t cb = (cb\<lparr>state := CircuitHalfOpen\<rparr>, True)"
    using o l by (simp add: breaker_defs since_def)
  then have "t - last fs > resetTimeout cb0 \<Longrightarrow> allow_n (t # us) cb = replicate (Suc (length us)) True"
    by (simp add: allow_n_half_open)
  with o l allow_n_tripped [of cb ts] show ?thesis by (simp add: since_def)
qed

theorem breaker_trips_witness:
  "let cb = fail_n [1, 2, 3] (NewCircuitBreaker ''stt'' 3 10) in
     allow_n [4, 13] cb = [False, False] \<and> allow_n [14, 15, 16] cb = [True, True, True]"
  using breaker_trips [OF reachable.start, where nm = "''stt''" and thr = 3 and rt = 10
      and fs = "[1, 2, 3]" and ts = "[4, 13]" and t = 14 and us = "[15, 16]"]
  by (simp add: NewCircuitBreaker_def numeral_eq_Suc)

text \<open>
  when the language model fails, the caller is handed to the human queue exactly when this
  failure reaches the breaker's threshold and the event-socket breaker admits the transfer; the
  three context headers are set before the transfer command, and a transfer that fails or
  succeeds is recorded on the event-socket breaker.
\<close>

theorem HandleLLMFailure_spec:
  fixes execute order sid
  assumes "cb_inv (llm fm)"
    and "since (clock 1) (clock 0) \<le> resetTimeout (llm fm)"
    and "since (clock 2) (clock 0) \<le> resetTimeout (llm fm)"
  defines "r \<equiv> HandleLLMFailure clock execute order fm sid"
    and "trip \<equiv> failures (llm fm) + 1 \<ge> threshold (llm fm)"
    and "e \<equiv> Allow (clock 3) (esl fm)"
  shows "llm (fst r) = RecordFailure (clock 0) (llm fm) \<and>
         fst (snd r) =
           (if \<not> trip then []
            else SendEvent ''failover'' ''LLM service unavailable. Transferring to human agent.'' #
              (if \<not> snd e then []
               else map (\<lambda>kv. Execute (setvar_cmd sid kv)) (order (llm_headers sid))
                    @ [Execute (transfer_cmd sid)])) \<and>
         esl (fst r) =
           (if \<not> trip then esl fm else if \<not> snd e then fst e
            else case execute (transfer_cmd sid) of
                   Inl _ \<Rightarrow> RecordFailure (clock 4) (fst e) | Inr _ \<Rightarrow> RecordSuccess (fst e))"
  using State_after_failure [OF assms(1,2,3)] State_after_failure(1) [OF assms(1,3,3)]
  by (auto simp: r_def trip_def e_def HandleLLMFailure_def transferToHuman_def Let_def
      sanitizeHeader_def llm_headers_def add.commute split: prod.splits sum.splits if_splits)

theorem HandleLLMFailure_spec_witness:
  "fst (snd (HandleLLMFailure (\<lambda>i. int i) (\<lambda>_. Inr ''+OK'') rev
       (NewFailoverManager\<lparr>llm := fail_n [0, 0] (llm NewFailoverManager)\<rparr>) ''u1'')) \<noteq> []"
  using HandleLLMFailure_spec [of "NewFailoverManager\<lparr>llm := fail_n [0, 0] (llm NewFailoverManager)\<rparr>"
      "\<lambda>i. int i" "\<lambda>_. Inr ''+OK''" rev "''u1''"]
  by (simp add: NewFailoverManager_def NewCircuitBreaker_def breaker_defs cb_inv_def second_def since_def)

end
