(* ===== verification/Scale.thy ===== *)
theory Scale
  imports Prelude Complex_Main
begin

text \<open>
  The scaling layer of \<open>gateway/scale.go\<close>: the round-robin worker pool, the token-bucket rate
  limiter and the admission controller.

  The pool's counter is the 64-bit word the source has; a negative index is a panic (\<open>None\<close>).
  Floating point in the limiter is real arithmetic followed by a rounding function \<open>rnd\<close> after
  every operation; what IEEE 754 promises of it and the lemmas need is in \<open>float_rounding\<close>.
  The admission controller is modelled down to its atomic instructions, for any number of
  threads that interleave.
\<close>

subsection \<open>Worker pool\<close>

record WorkerPool =
  pool_name :: string
  urls :: "string list"
  index :: "64 word"
  healthy :: "bool list"

definition NewWorkerPool :: "string \<Rightarrow> string list \<Rightarrow> WorkerPool" where
  "NewWorkerPool nm us = \<lparr>pool_name = nm, urls = us, index = 0, healthy = replicate (length us) True\<rparr>"

text \<open>
  \<open>for i := 0; i < n; i++ { idx := (start + i) % n ... }\<close>: the first healthy index in cyclic
  order, if any.
\<close>

definition scan_healthy :: "bool list \<Rightarrow> nat \<Rightarrow> nat option" where
  "scan_healthy hs start =
     find (\<lambda>i. hs ! i) (map (\<lambda>i. (start + i) mod length hs) [0..<length hs])"

definition Next :: "(nat \<Rightarrow> nat) \<Rightarrow> WorkerPool \<Rightarrow> (WorkerPool \<times> (string + string)) option" where
  "Next rand_Intn wp =
     (let n = length (urls wp) in
      if n = 0 then Some (wp, Inl (''no '' @ pool_name wp @ '' workers configured''))
      else
        let idx = index wp + 1; start = go_mod (sint idx) (int n); wp' = wp\<lparr>index := idx\<rparr> in
        if start < 0 then None
        else case scan_healthy (healthy wp) (nat start) of
               Some i \<Rightarrow> Some (wp', Inr (urls wp ! i))
             | None \<Rightarrow> Some (wp', Inr (urls wp ! rand_Intn n)))"

fun first_index :: "'a \<Rightarrow> 'a list \<Rightarrow> nat option" where
  "first_index x [] = None"
| "first_index x (y # ys) = (if y = x then Some 0 else map_option Suc (first_index x ys))"

definition MarkUnhealthy :: "string \<Rightarrow> WorkerPool \<Rightarrow> WorkerPool" where
  "MarkUnhealthy url wp =
     (case first_index url (urls wp) of
        None \<Rightarrow> wp
      | Some i \<Rightarrow> wp\<lparr>healthy := (healthy wp)[i := False]\<rparr>)"

text \<open>The goroutine that \<open>MarkUnhealthy\<close> starts, when its cooldown has passed.\<close>

definition MarkUnhealthy_recover :: "nat \<Rightarrow> WorkerPool \<Rightarrow> WorkerPool" where
  "MarkUnhealthy_recover idx wp = wp\<lparr>healthy := (healthy wp)[idx := True]\<rparr>"

definition HealthyCount :: "WorkerPool \<Rightarrow> nat" where
  "HealthyCount wp = length (filter id (healthy wp))"

definition WorkerPool_Status :: "WorkerPool \<Rightarrow> string \<times> nat \<times> nat \<times> (string \<times> bool) list" where
  "WorkerPool_Status wp =
     (pool_name wp, length (urls wp), HealthyCount wp, zip (urls wp) (healthy wp))"

text \<open>
  One tick of the health checker; \<open>get\<close> is the outcome of the HTTP request, \<open>None\<close> an error.
\<close>

definition health_tick :: "(string \<Rightarrow> nat option) \<Rightarrow> string \<Rightarrow> WorkerPool \<Rightarrow> WorkerPool" where
  "health_tick get healthPath wp =
     wp\<lparr>healthy := map (\<lambda>url. case get (url @ healthPath) of None \<Rightarrow> False | Some code \<Rightarrow> code < 500)
        (urls wp)\<rparr>"

definition pool_inv :: "WorkerPool \<Rightarrow> bool" where
  "pool_inv wp \<longleftrightarrow> length (healthy wp) = length (urls wp)"

inductive pool_step :: "WorkerPool \<Rightarrow> WorkerPool \<Rightarrow> bool" where
  next_worker: "Next r wp = Some (wp', res) \<Longrightarrow> pool_step wp wp'"
| unhealthy: "pool_step wp (MarkUnhealthy url wp)"
| recovered: "pool_step wp (MarkUnhealthy_recover i wp)"
| ticked: "pool_step wp (health_tick get path wp)"

subsection \<open>Rate limiter\<close>

record tokenBucket =
  tokens :: real
  lastFill :: instant
  rate :: real
  burst :: int

record RateLimiter =
  buckets :: "string \<rightharpoonup> tokenBucket"
  rl_rate :: real
  rl_burst :: int

definition NewRateLimiter :: "real \<Rightarrow> int \<Rightarrow> RateLimiter" where
  "NewRateLimiter r b = \<lparr>buckets = Map.empty, rl_rate = r, rl_burst = b\<rparr>"

text \<open>
  The body of \<open>Allow\<close> under the bucket's lock; \<open>Duration.Seconds\<close> and the arithmetic round.
\<close>

definition bucket_take :: "(real \<Rightarrow> real) \<Rightarrow> instant \<Rightarrow> tokenBucket \<Rightarrow> tokenBucket \<times> bool" where
  "bucket_take rnd now b =
     (let elapsed = rnd (of_int (since now (lastFill b)) / 1000000000);
          t1 = rnd (tokens b + rnd (elapsed * rate b));
          t2 = (if t1 > of_int (burst b) then of_int (burst b) else t1);
          b' = b\<lparr>tokens := t2, lastFill := now\<rparr>
      in if t2 \<ge> 1 then (b'\<lparr>tokens := rnd (t2 - 1)\<rparr>, True) else (b', False))"

definition RateLimiter_Allow ::
  "(real \<Rightarrow> real) \<Rightarrow> instant \<Rightarrow> instant \<Rightarrow> string \<Rightarrow> RateLimiter \<Rightarrow> RateLimiter \<times> bool" where
  "RateLimiter_Allow rnd created now key rl =
     (let b = (case buckets rl key of
                 Some b \<Rightarrow> b
               | None \<Rightarrow> \<lparr>tokens = of_int (rl_burst rl), lastFill = created,
                          rate = rl_rate rl, burst = rl_burst rl\<rparr>);
          (b', ok) = bucket_take rnd now b
      in (rl\<lparr>buckets := (buckets rl)(key \<mapsto> b')\<rparr>, ok))"

definition Remaining :: "string \<Rightarrow> RateLimiter \<Rightarrow> int" where
  "Remaining key rl =
     (case buckets rl key of None \<Rightarrow> rl_burst rl
      | Some b \<Rightarrow> (if tokens b < 0 then \<lceil>tokens b\<rceil> else \<lfloor>tokens b\<rfloor>))"

text \<open>
  The HTTP middleware: the key is the \<open>X-Forwarded-For\<close> header when it is present, else the
  peer's address; \<open>Inl\<close> is the 429 response, \<open>Inr\<close> the next handler's.
\<close>

definition Middleware ::
  "(real \<Rightarrow> real) \<Rightarrow> instant \<Rightarrow> instant \<Rightarrow> string \<Rightarrow> string \<Rightarrow> RateLimiter
    \<Rightarrow> (unit \<Rightarrow> 'a response) \<Rightarrow> RateLimiter \<times> 'a response" where
  "Middleware rnd created now remoteAddr fwd rl next_handler =
     (let key = (if fwd \<noteq> '''' then fwd else remoteAddr);
          (rl', ok) = RateLimiter_Allow rnd created now key rl
      in if \<not> ok then (rl', HttpError 429 ''{\"error\":\"rate limit exceeded\"}'') else (rl', next_handler ()))"

fun allow_calls :: "(real \<Rightarrow> real) \<Rightarrow> instant \<Rightarrow> nat \<Rightarrow> string \<Rightarrow> RateLimiter \<Rightarrow> bool list" where
  "allow_calls rnd now 0 key rl = []"
| "allow_calls rnd now (Suc n) key rl =
     (let (rl', ok) = RateLimiter_Allow rnd now now key rl in ok # allow_calls rnd now n key rl')"

definition float_rounding :: "(real \<Rightarrow> real) \<Rightarrow> bool" where
  "float_rounding rnd \<longleftrightarrow>
     (\<forall>x y. x \<le> y \<longrightarrow> rnd x \<le> rnd y) \<and> (\<forall>k :: int. \<bar>k\<bar> \<le> 2 ^ 53 \<longrightarrow> rnd (of_int k) = of_int k)"

subsection \<open>Admission controller\<close>

record AdmissionController =
  maxSessions :: int
  current :: int

definition NewAdmissionController :: "int \<Rightarrow> AdmissionController" where
  "NewAdmissionController m = \<lparr>maxSessions = m, current = 0\<rparr>"

text \<open>
  One thread of \<open>Admit\<close> and \<open>Release\<close>: outside, between the \<open>Load\<close> and the \<open>CompareAndSwap\<close>
  with the value it read, or holding an admitted session.
\<close>

datatype admit_pc = Outside | Loaded int | Admitted

type_synonym admission = "AdmissionController \<times> admit_pc list"

inductive admit_step :: "admission \<Rightarrow> admission \<Rightarrow> bool" where
  load_full:
    "i < length ts \<Longrightarrow> ts ! i = Outside \<Longrightarrow> current ac \<ge> maxSessions ac
     \<Longrightarrow> admit_step (ac, ts) (ac, ts)"
| load_room:
    "i < length ts \<Longrightarrow> ts ! i = Outside \<Longrightarrow> \<not> current ac \<ge> maxSessions ac
     \<Longrightarrow> admit_step (ac, ts) (ac, ts[i := Loaded (current ac)])"
| cas_ok:
    "i < length ts \<Longrightarrow> ts ! i = Loaded c \<Longrightarrow> current ac = c
     \<Longrightarrow> admit_step (ac, ts) (ac\<lparr>current := c + 1\<rparr>, ts[i := Admitted])"
| cas_retry:
    "i < length ts \<Longrightarrow> ts ! i = Loaded c \<Longrightarrow> current ac \<noteq> c
     \<Longrightarrow> admit_step (ac, ts) (ac, ts[i := Outside])"
| release:
    "i < length ts \<Longrightarrow> ts ! i = Admitted
     \<Longrightarrow> admit_step (ac, ts) (ac\<lparr>current := current ac - 1\<rparr>, ts[i := Outside])"

text \<open>\<open>Admit\<close> and \<open>Release\<close> when no other thread runs in between.\<close>

definition Admit :: "AdmissionController \<Rightarrow> AdmissionController \<times> bool" where
  "Admit ac = (if current ac \<ge> maxSessions ac then (ac, False) else (ac\<lparr>current := current ac + 1\<rparr>, True))"

definition Release :: "AdmissionController \<Rightarrow> AdmissionController" where
  "Release ac = ac\<lparr>current := current ac - 1\<rparr>"

definition Admission_Status :: "AdmissionController \<Rightarrow> int \<times> int \<times> int" where
  "Admission_Status ac = (maxSessions ac, current ac, maxSessions ac - current ac)"

definition admitted :: "admit_pc list \<Rightarrow> nat" where
  "admitted ts = count_list ts Admitted"

definition fresh_admission :: "admission \<Rightarrow> bool" where
  "fresh_admission s \<longleftrightarrow> maxSessions (fst s) \<ge> 0 \<and> current (fst s) = 0 \<and> (\<forall>t \<in> set (snd s). t = Outside)"

definition admission_inv :: "admission \<Rightarrow> bool" where
  "admission_inv s \<longleftrightarrow>
     current (fst s) = int (admitted (snd s)) \<and> current (fst s) \<le> maxSessions (fst s) \<and>
     (\<forall>t \<in> set (snd s). \<forall>c. t = Loaded c \<longrightarrow> c < maxSessions (fst s))"

subsection \<open>Lemmas: the pool\<close>

lemma cyclic_cover: "j < n \<Longrightarrow> \<exists>i < n. (start + i) mod n = (j :: nat)"
proof -
  assume j: "j < n"
  let ?i = "(j + (n - start mod n)) mod n"
  have "(start + ?i) mod n = (start mod n + (j + (n - start mod n))) mod n"
    by (simp add: mod_add_left_eq mod_add_right_eq)
  also have "\<dots> = (j + n) mod n" using j by (metis add.assoc add.commute le_add_diff_inverse2
        mod_less_divisor gr_implies_not_zero nat_neq_iff less_imp_le_nat neq0_conv)
  finally show ?thesis using j by (intro exI [of _ ?i]) simp
qed

lemma find_mapD: "find P (map f xs) = Some y \<Longrightarrow> P y \<and> y \<in> f ` set xs"
  by (induction xs) (auto split: if_splits)

lemma scan_healthy_Some:
  assumes "scan_healthy hs start = Some i"
  shows "i < length hs \<and> hs ! i"
proof -
  from find_mapD [OF assms [unfolded scan_healthy_def]]
  have h: "hs ! i" "i \<in> (\<lambda>k. (start + k) mod length hs) ` set [0..<length hs]" by blast+
  then have "length hs > 0" by auto
  with h show ?thesis by auto
qed

lemma scan_healthy_None:
  "scan_healthy hs start = None \<longleftrightarrow> (\<forall>i < length hs. \<not> hs ! i)"
proof
  assume none: "scan_healthy hs start = None"
  show "\<forall>i < length hs. \<not> hs ! i"
  proof (intro allI impI)
    fix j assume "j < length hs"
    then obtain i where "i < length hs" "(start + i) mod length hs = j" using cyclic_cover by blast
    then have "j \<in> set (map (\<lambda>i. (start + i) mod length hs) [0..<length hs])" by (auto simp: image_iff)
    with none show "\<not> hs ! j" unfolding scan_healthy_def find_None_iff by blast
  qed
next
  assume "\<forall>i < length hs. \<not> hs ! i"
  then show "scan_healthy hs start = None" using scan_healthy_Some by (cases "scan_healthy hs start") auto
qed

lemma scan_healthy_hit:
  assumes "hs \<noteq> []" "hs ! (start mod length hs)"
  shows "scan_healthy hs start = Some (start mod length hs)"
  using assms by (cases "length hs") (auto simp: scan_healthy_def upt_rec)

lemma pool_step_inv: "pool_inv wp \<Longrightarrow> pool_step wp wp' \<Longrightarrow> pool_inv wp'"
  by (erule pool_step.cases)
     (auto simp: pool_inv_def Next_def MarkUnhealthy_def MarkUnhealthy_recover_def health_tick_def Let_def
       split: if_splits option.splits)

interpretation pool: invariant_machine "\<lambda>wp. \<exists>nm us. wp = NewWorkerPool nm us" pool_step pool_inv
  by unfold_locales (auto simp: pool_inv_def NewWorkerPool_def elim: pool_step_inv [unfolded pool_inv_def])

lemma Next_index:
  assumes "urls wp \<noteq> []" "0 \<le> sint (index wp)" "sint (index wp) < 2 ^ 63 - 1"
  defines "k \<equiv> nat ((sint (index wp) + 1) mod int (length (urls wp)))"
  shows "sint (index wp + 1) = sint (index wp) + 1"
    and "Next r wp = Some (wp\<lparr>index := index wp + 1\<rparr>,
           case scan_healthy (healthy wp) k of
             Some i \<Rightarrow> Inr (urls wp ! i) | None \<Rightarrow> Inr (urls wp ! r (length (urls wp))))"
proof -
  show s: "sint (index wp + 1) = sint (index wp) + 1"
    using assms(2,3) by (simp add: sint_word_ariths(1) signed_take_bit_int_eq_self)
  have "go_mod (sint (index wp + 1)) (int (length (urls wp))) = int k"
    using assms(1,2) unfolding s k_def go_mod_def go_div_def
    by (simp add: minus_mult_div_eq_mod)
  then show "Next r wp = Some (wp\<lparr>index := index wp + 1\<rparr>,
           case scan_healthy (healthy wp) k of
             Some i \<Rightarrow> Inr (urls wp ! i) | None \<Rightarrow> Inr (urls wp ! r (length (urls wp))))"
    using assms(1) by (simp add: Next_def Let_def split: option.splits)
qed

subsection \<open>Lemmas: the limiter\<close>

lemma float_roundingD:
  assumes "float_rounding rnd"
  shows "x \<le> y \<Longrightarrow> rnd x \<le> rnd y" "\<bar>k\<bar> \<le> 2 ^ 53 \<Longrightarrow> rnd (of_int k) = of_int k"
    "rnd 0 = 0" "0 \<le> x \<Longrightarrow> 0 \<le> rnd x"
proof -
  show m: "x \<le> y \<Longrightarrow> rnd x \<le> rnd y" for x y using assms by (auto simp: float_rounding_def)
  show "\<bar>k\<bar> \<le> 2 ^ 53 \<Longrightarrow> rnd (of_int k) = of_int k" for k using assms by (auto simp: float_rounding_def)
  have "\<bar>0 :: int\<bar> \<le> 2 ^ 53 \<longrightarrow> rnd (of_int 0) = of_int 0"
    using assms unfolding float_rounding_def by blast
  then show "rnd 0 = 0" by simp
  with m [of 0] show "0 \<le> x \<Longrightarrow> 0 \<le> rnd x" for x by simp
qed

definition bucket_inv :: "tokenBucket \<Rightarrow> bool" where
  "bucket_inv b \<longleftrightarrow> 0 \<le> tokens b \<and> tokens b \<le> of_int (burst b) \<and> 0 \<le> rate b \<and> burst b \<le> 2 ^ 53"

lemma bucket_take_inv:
  assumes "float_rounding rnd" "bucket_inv b" "lastFill b \<le> now"
  shows "bucket_inv (fst (bucket_take rnd now b))" "lastFill (fst (bucket_take rnd now b)) = now"
proof -
  define t1 where "t1 = rnd (tokens b + rnd (rnd (of_int (since now (lastFill b)) / 1000000000) * rate b))"
  define t2 where "t2 = (if t1 > of_int (burst b) then of_int (burst b) else t1)"
  have "0 \<le> t1"
  proof -
    note nn = float_roundingD(4) [OF assms(1)]
    have "0 \<le> rnd (of_int (since now (lastFill b)) / 1000000000)"
      by (rule nn) (use assms(3) in \<open>simp add: since_def\<close>)
    then have "0 \<le> rnd (rnd (of_int (since now (lastFill b)) / 1000000000) * rate b)"
      by (intro nn [of "_ * _"] mult_nonneg_nonneg) (use assms(2) in \<open>simp_all add: bucket_inv_def\<close>)
    then show ?thesis
      unfolding t1_def by (intro nn [of "_ + _"] add_nonneg_nonneg) (use assms(2) in \<open>simp_all add: bucket_inv_def\<close>)
  qed
  then have t2: "0 \<le> t2" "t2 \<le> of_int (burst b)"
    using assms(2) by (auto simp: t2_def bucket_inv_def)
  have "t2 \<ge> 1 \<Longrightarrow> rnd (t2 - 1) \<le> of_int (burst b)" "t2 \<ge> 1 \<Longrightarrow> 0 \<le> rnd (t2 - 1)"
  proof -
    assume "t2 \<ge> 1"
    then show "0 \<le> rnd (t2 - 1)" by (intro float_roundingD(4) [OF assms(1)]) simp
    have "rnd (t2 - 1) \<le> rnd (of_int (burst b))"
      by (rule float_roundingD(1) [OF assms(1)]) (use t2 in simp)
    also have "\<dots> = of_int (burst b)"
      by (rule float_roundingD(2) [OF assms(1)]) (use assms(2) t2 in \<open>auto simp: bucket_inv_def\<close>)
    finally show "rnd (t2 - 1) \<le> of_int (burst b)" .
  qed
  moreover have "bucket_take rnd now b =
      (if t2 \<ge> 1 then (b\<lparr>tokens := rnd (t2 - 1), lastFill := now\<rparr>, True)
       else (b\<lparr>tokens := t2, lastFill := now\<rparr>, False))"
    unfolding t2_def t1_def bucket_take_def Let_def by simp
  ultimately show "bucket_inv (fst (bucket_take rnd now b))"
    using t2 assms(2) by (simp add: bucket_inv_def)
  show "lastFill (fst (bucket_take rnd now b)) = now"
    by (simp add: bucket_take_def Let_def)
qed

lemma bucket_take_same_instant:
  assumes "float_rounding rnd" "lastFill b = now" "tokens b = of_int k" "0 \<le> k" "k \<le> burst b" "burst b \<le> 2 ^ 53"
  shows "bucket_take rnd now b = (b\<lparr>tokens := of_int (if k \<ge> 1 then k - 1 else 0)\<rparr>, k \<ge> 1)"
proof -
  have "rnd (of_int k) = of_int k" "rnd (of_int (k - 1)) = of_int (k - 1)"
    using assms by (intro float_roundingD(2); auto)+
  then show ?thesis
    using assms float_roundingD(3) [OF assms(1)]
    by (auto simp: bucket_take_def Let_def since_def)
qed

subsection \<open>Lemmas: admission\<close>

lemma count_list_update:
  "i < length xs \<Longrightarrow> count_list (xs[i := y]) a + (if xs ! i = a then 1 else 0)
     = count_list xs a + (if y = a then 1 else 0)"
proof (induction xs arbitrary: i)
  case (Cons x xs)
  then show ?case by (cases i) (simp_all split: if_splits, force)
qed simp

lemma admitted_update [simp]:
  assumes "i < length ts"
  shows "int (admitted (ts[i := y])) =
     int (admitted ts) + (if y = Admitted then 1 else 0) - (if ts ! i = Admitted then 1 else 0)"
  using count_list_update [OF assms, of y Admitted] by (auto simp: admitted_def)

lemma admit_step_inv: "admission_inv s \<Longrightarrow> admit_step s t \<Longrightarrow> admission_inv t"
proof (erule admit_step.cases)
  fix i ts c ac
  assume inv: "admission_inv s" and eq: "s = (ac, ts)" "t = (ac\<lparr>current := c + 1\<rparr>, ts[i := Admitted])"
    and i: "i < length ts" "ts ! i = Loaded c" "current ac = c"
  from inv i nth_mem [OF i(1)] have "c < maxSessions ac" by (auto simp: admission_inv_def eq)
  with inv i show "admission_inv t"
    by (auto simp: admission_inv_def eq dest!: set_update_subset_insert [THEN subsetD])
qed (auto simp: admission_inv_def dest!: set_update_subset_insert [THEN subsetD])

interpretation admission: invariant_machine fresh_admission admit_step admission_inv
proof
  show "fresh_admission s \<Longrightarrow> admission_inv s" for s
    by (auto simp: fresh_admission_def admission_inv_def admitted_def count_list_0_iff)
qed (rule admit_step_inv)

subsection \<open>Lemmas: bursts\<close>

definition limiter_bucket :: "RateLimiter \<Rightarrow> string \<Rightarrow> instant \<Rightarrow> tokenBucket" where
  "limiter_bucket rl key now =
     (case buckets rl key of Some b \<Rightarrow> b
      | None \<Rightarrow> \<lparr>tokens = of_int (rl_burst rl), lastFill = now, rate = rl_rate rl, burst = rl_burst rl\<rparr>)"

lemma RateLimiter_Allow_bucket:
  "RateLimiter_Allow rnd now now key rl =
     (rl\<lparr>buckets := (buckets rl)(key \<mapsto> fst (bucket_take rnd now (limiter_bucket rl key now)))\<rparr>,
      snd (bucket_take rnd now (limiter_bucket rl key now)))"
  by (simp add: RateLimiter_Allow_def limiter_bucket_def Let_def split_beta)

lemma limiter_bucket_upd [simp]:
  "limiter_bucket (rl\<lparr>buckets := (buckets rl)(key \<mapsto> b)\<rparr>) key now = b"
  by (simp add: limiter_bucket_def)

lemma allow_calls_burst:
  assumes "float_rounding rnd" "lastFill b = now" "tokens b = of_int k" "0 \<le> k" "k \<le> burst b" "burst b \<le> 2 ^ 53"
    "limiter_bucket rl key now = b"
  shows "allow_calls rnd now n key rl = map (\<lambda>i. int i < k) [0..<n]"
  using assms(2-7)
proof (induction n arbitrary: k b rl)
  case (Suc n)
  let ?k = "if k \<ge> 1 then k - 1 else 0" and ?b = "b\<lparr>tokens := of_int (if k \<ge> 1 then k - 1 else 0)\<rparr>"
  let ?rl = "rl\<lparr>buckets := (buckets rl)(key \<mapsto> ?b)\<rparr>"
  have t: "bucket_take rnd now b = (?b, k \<ge> 1)"
    by (rule bucket_take_same_instant [OF assms(1)]) (use Suc.prems in auto)
  have "allow_calls rnd now n key ?rl = map (\<lambda>i. int i < ?k) [0..<n]"
    by (rule Suc.IH [of ?b]) (use Suc.prems in auto)
  then have "allow_calls rnd now (Suc n) key rl = (k \<ge> 1) # map (\<lambda>i. int i < ?k) [0..<n]"
    using Suc.prems(6) by (simp add: RateLimiter_Allow_bucket t)
  also have "\<dots> = map (\<lambda>i. int i < k) (0 # map Suc [0..<n])"
    using Suc.prems by auto
  also have "0 # map Suc [0..<n] = [0..<Suc n]"
    by (simp add: map_Suc_upt upt_conv_Cons del: upt_Suc)
  finally show ?case .
qed simp

fun next_n :: "(nat \<Rightarrow> nat) \<Rightarrow> nat \<Rightarrow> WorkerPool \<Rightarrow> (string + string) list option" where
  "next_n r 0 wp = Some []"
| "next_n r (Suc n) wp =
     (case Next r wp of None \<Rightarrow> None
      | Some (wp', u) \<Rightarrow> map_option (\<lambda>us. u # us) (next_n r n wp'))"

lemma next_n_round_robin:
  assumes "urls wp \<noteq> []" "healthy wp = replicate (length (urls wp)) True"
    and "sint (index wp) = int k" "int k + int n < 2 ^ 63"
  shows "next_n r n wp = Some (map (\<lambda>i. Inr (urls wp ! ((k + 1 + i) mod length (urls wp)))) [0..<n])"
  using assms
proof (induction n arbitrary: k wp)
  case (Suc n)
  let ?m = "length (urls wp)" and ?wp = "wp\<lparr>index := index wp + 1\<rparr>"
  have pre: "urls wp \<noteq> []" "0 \<le> sint (index wp)" "sint (index wp) < 2 ^ 63 - 1" using Suc.prems by simp_all
  have k: "nat ((sint (index wp) + 1) mod int ?m) = (k + 1) mod ?m"
    using Suc.prems(3) by (simp add: nat_mod_distrib) (simp add: nat_add_distrib add.commute)
  have "scan_healthy (healthy wp) ((k + 1) mod ?m) = Some ((k + 1) mod ?m)"
    using scan_healthy_hit [of "healthy wp" "(k + 1) mod ?m"] Suc.prems(1,2) by simp
  then have nx: "Next r wp = Some (?wp, Inr (urls wp ! ((k + 1) mod ?m)))"
    using Next_index(2) [OF pre, of r] unfolding k by simp
  have "next_n r n ?wp = Some (map (\<lambda>i. Inr (urls wp ! ((Suc k + 1 + i) mod ?m))) [0..<n])"
    using Suc.IH [of ?wp "Suc k"] Suc.prems Next_index(1) [OF pre] by simp
  then have "next_n r (Suc n) wp =
      Some (map (\<lambda>i. Inr (urls wp ! ((k + 1 + i) mod ?m))) (0 # map Suc [0..<n]))"
    using nx by (simp add: o_def)
  then show ?case by (simp add: map_Suc_upt upt_conv_Cons del: upt_Suc)
qed simp

text \<open>
  At every non-decreasing instant a call of the limiter keeps each bucket's tokens between
  zero and \<open>burst\<close>, whatever the rounding, and leaves the buckets of other keys alone.
\<close>

lemma RateLimiter_tokens_bounded:
  fixes key :: string
  assumes "float_rounding rnd" "0 \<le> rl_rate rl" "0 \<le> rl_burst rl" "rl_burst rl \<le> 2 ^ 53" "created \<le> now"
    and "\<forall>k b. buckets rl k = Some b \<longrightarrow> bucket_inv b \<and> lastFill b \<le> now"
  defines "rl' \<equiv> fst (RateLimiter_Allow rnd created now key rl)"
  shows "(\<forall>k b. buckets rl' k = Some b \<longrightarrow> bucket_inv b \<and> lastFill b \<le> now) \<and>
         (\<forall>k. k \<noteq> key \<longrightarrow> buckets rl' k = buckets rl k)"
proof -
  define b where "b = (case buckets rl key of Some b \<Rightarrow> b
     | None \<Rightarrow> \<lparr>tokens = of_int (rl_burst rl), lastFill = created, rate = rl_rate rl, burst = rl_burst rl\<rparr>)"
  have "bucket_inv b" "lastFill b \<le> now"
    using assms(2-6) by (auto simp: b_def bucket_inv_def split: option.splits)
  then have "bucket_inv (fst (bucket_take rnd now b))" "lastFill (fst (bucket_take rnd now b)) = now"
    using bucket_take_inv [OF assms(1)] by blast+
  moreover have "buckets rl' = (buckets rl)(key \<mapsto> fst (bucket_take rnd now b))"
    by (simp add: rl'_def RateLimiter_Allow_def Let_def split_beta b_def)
  ultimately show ?thesis using assms(6) by auto
qed

subsection \<open>Properties\<close>

text \<open>
  C15: however the threads of the gateway interleave their atomic loads, compare-and-swaps and
  releases, the admission counter equals the number of admitted sessions and never exceeds
  \<open>maxSessions\<close>.
\<close>

theorem admission_never_exceeds:
  assumes "reachable admit_step (NewAdmissionController m, replicate n Outside) (ac, ts)" "m \<ge> 0"
  shows "int (count_list ts Admitted) = current ac \<and> current ac \<le> maxSessions ac"
proof -
  have "fresh_admission (NewAdmissionController m, replicate n Outside)"
    using assms(2) by (simp add: fresh_admission_def NewAdmissionController_def)
  from admission.reachable_inv [OF assms(1) this]
  show ?thesis by (simp add: admission_inv_def admitted_def)
qed

theorem admission_never_exceeds_witness:
  "reachable admit_step (NewAdmissionController 1, [Outside]) (\<lparr>maxSessions = 1, current = 1\<rparr>, [Admitted])
   \<and> int (count_list [Admitted] Admitted) \<le> 1"
proof -
  have l: "admit_step (NewAdmissionController 1, [Outside]) (NewAdmissionController 1, [Loaded 0])"
    using admit_step.load_room [of 0 "[Outside]" "NewAdmissionController 1"]
    by (simp add: NewAdmissionController_def)
  have c: "admit_step (NewAdmissionController 1, [Loaded 0]) (\<lparr>maxSessions = 1, current = 1\<rparr>, [Admitted])"
    using admit_step.cas_ok [of 0 "[Loaded 0]" 0 "NewAdmissionController 1"]
    by (simp add: NewAdmissionController_def)
  have r: "reachable admit_step (NewAdmissionController 1, replicate 1 Outside)
             (\<lparr>maxSessions = 1, current = 1\<rparr>, [Admitted])"
    using reachable.move [OF reachable_step [of admit_step, OF l] c] by simp
  show ?thesis using r admission_never_exceeds [OF r] by simp
qed

text \<open>
  a pool reached by any sequence of requests, failure marks, recoveries and health checks
  hands out a healthy worker whenever there is one, without a panic as long as the request
  counter has not passed 2^63 - 1; with none it still hands out one of its workers.
\<close>

theorem Next_serves:
  assumes "reachable pool_step (NewWorkerPool nm us) wp"
    and "urls wp \<noteq> []" "0 \<le> sint (index wp)" "sint (index wp) < 2 ^ 63 - 1"
    and "\<forall>n > 0. r n < n"
  shows "\<exists>wp' i. Next r wp = Some (wp', Inr (urls wp ! i)) \<and> i < length (urls wp) \<and>
           (True \<in> set (healthy wp) \<longrightarrow> healthy wp ! i)"
proof -
  have inv: "length (healthy wp) = length (urls wp)"
    using pool.reachable_inv [OF assms(1)] by (auto simp: pool_inv_def)
  let ?s = "scan_healthy (healthy wp) (nat ((sint (index wp) + 1) mod int (length (urls wp))))"
  show ?thesis
  proof (cases ?s)
    case None
    then have "True \<notin> set (healthy wp)" by (auto simp: scan_healthy_None in_set_conv_nth)
    with None show ?thesis using Next_index(2) [OF assms(2-4), of r] assms(2,5) by auto
  next
    case (Some i)
    then show ?thesis using Next_index(2) [OF assms(2-4), of r] scan_healthy_Some [OF Some] inv by auto
  qed
qed

theorem Next_serves_witness:
  "\<exists>wp' i. Next (\<lambda>_. 0) (MarkUnhealthy ''b'' (NewWorkerPool ''stt'' [''a'', ''b'']))
      = Some (wp', Inr ([''a'', ''b''] ! i)) \<and> i < 2 \<and> [True, False] ! i"
proof -
  let ?wp = "MarkUnhealthy ''b'' (NewWorkerPool ''stt'' [''a'', ''b''])"
  have r: "reachable pool_step (NewWorkerPool ''stt'' [''a'', ''b'']) ?wp"
    by (rule reachable_step, rule pool_step.unhealthy)
  show ?thesis
    using Next_serves [OF r, of "\<lambda>_. 0"]
    by (simp add: MarkUnhealthy_def NewWorkerPool_def numeral_2_eq_2)
qed

text \<open>
  with every worker healthy, successive requests walk the pool in cyclic order, so that any
  \<open>length urls\<close> consecutive requests use each worker exactly once.
\<close>

theorem Next_round_robin:
  assumes "urls wp \<noteq> []" "healthy wp = replicate (length (urls wp)) True"
    and "sint (index wp) = int k" "int k + int (length (urls wp)) < 2 ^ 63"
  shows "\<exists>is. next_n r (length (urls wp)) wp = Some (map (\<lambda>i. Inr (urls wp ! i)) is) \<and>
           distinct is \<and> set is = {..<length (urls wp)}"
proof -
  let ?n = "length (urls wp)"
  let ?is = "map (\<lambda>i. (k + 1 + i) mod ?n) [0..<?n]"
  have "set ?is = {..<?n}"
    using cyclic_cover [of _ ?n "k + 1"] assms(1) by (auto simp: image_iff) fastforce
  moreover from this have "distinct ?is" by (intro card_distinct) simp
  ultimately show ?thesis
    using next_n_round_robin [OF assms, of r] by (intro exI [of _ ?is]) (simp add: o_def)
qed

theorem Next_round_robin_witness:
  "\<exists>is. next_n (\<lambda>_. 0) 3 (NewWorkerPool ''tts'' [''a'', ''b'', ''c''])
      = Some (map (\<lambda>i. Inr ([''a'', ''b'', ''c''] ! i)) is) \<and> distinct is \<and> set is = {..<3}"
  using Next_round_robin [of "NewWorkerPool ''tts'' [''a'', ''b'', ''c'']" 0 "\<lambda>_. 0"]
  by (simp add: NewWorkerPool_def eval_nat_numeral)

text \<open>
  a key not seen before gets exactly \<open>burst\<close> requests through at one instant and every
  further request at that instant is refused, with any rounding that is exact on integers.
\<close>

theorem RateLimiter_burst:
  assumes "float_rounding rnd" "buckets rl key = None" "0 \<le> rl_burst rl" "rl_burst rl \<le> 2 ^ 53"
  shows "allow_calls rnd now n key rl = map (\<lambda>i. int i < rl_burst rl) [0..<n]"
  by (rule allow_calls_burst [where b = "limiter_bucket rl key now", OF assms(1)])
     (use assms in \<open>auto simp: limiter_bucket_def\<close>)

theorem RateLimiter_burst_witness:
  "allow_calls id 5 3 ''ip'' (NewRateLimiter (1 / 2) 2) = [True, True, False]"
  using RateLimiter_burst [of id "NewRateLimiter (1 / 2) 2" "''ip''" 5 3]
  by (simp add: float_rounding_def NewRateLimiter_def numeral_3_eq_3)

end
