(* ===== verification/Queue_Manager.thy ===== *)
theory Queue_Manager
  imports Prelude "HOL-Library.Multiset" "HOL-Library.List_Lexorder" "HOL-Library.Char_ord"
begin

text \<open>
  The in-memory queue manager and the agent directory of \<open>gateway/queue.go\<close>. Every operation
  runs under the manager's mutex, so each is one atomic step. \<open>range\<close> over a Go map visits the
  keys in an unspecified order: the operations that do it take an enumeration \<open>ord\<close> of the
  map's keys, and the theorems hold for every enumeration. Logging is dropped; the insertion
  into \<open>queue_entries\<close> that \<open>AddCaller\<close> makes when a database is configured is its second
  result. \<open>Duration.Seconds\<close> truncated to \<open>int\<close> is integer division.
\<close>

subsection \<open>State\<close>

record queueEntry =
  ID :: string
  CallID :: string
  Number :: string
  WaitSec :: int
  Reason :: string
  Priority :: string
  QueueName :: string
  EnterTime :: instant

record queueInfo =
  Name :: string
  AvgHandle :: string
  SLA :: int
  Callers :: "queueEntry list"

type_synonym queues = "string \<rightharpoonup> queueInfo"
type_synonym enumeration = "queues \<Rightarrow> string list"

definition NewQueueManager :: queues where
  "NewQueueManager =
     [''Support'' \<mapsto> \<lparr>Name = ''Support'', AvgHandle = ''6:30'', SLA = 85, Callers = []\<rparr>,
      ''Sales'' \<mapsto> \<lparr>Name = ''Sales'', AvgHandle = ''8:15'', SLA = 92, Callers = []\<rparr>,
      ''Billing'' \<mapsto> \<lparr>Name = ''Billing'', AvgHandle = ''4:45'', SLA = 78, Callers = []\<rparr>,
      ''Escalation'' \<mapsto> \<lparr>Name = ''Escalation'', AvgHandle = ''12:00'', SLA = 95, Callers = []\<rparr>]"

definition tickWaitTimes :: "instant \<Rightarrow> queues \<Rightarrow> queues" where
  "tickWaitTimes now qs =
     map_option (\<lambda>q. q\<lparr>Callers := map (\<lambda>c. c\<lparr>WaitSec := go_div (since now (EnterTime c)) second\<rparr>) (Callers q)\<rparr>)
       \<circ> qs"

datatype db_insert = EnqueueCaller string string string string string

definition AddCaller :: "bool \<Rightarrow> instant \<Rightarrow> string \<Rightarrow> queueEntry \<Rightarrow> queues \<Rightarrow> queues \<times> db_insert list" where
  "AddCaller database now queueName entry qs =
     (let q = (case qs queueName of Some q \<Rightarrow> q
               | None \<Rightarrow> \<lparr>Name = queueName, AvgHandle = ''5:00'', SLA = 80, Callers = []\<rparr>);
          e = entry\<lparr>EnterTime := now, QueueName := queueName\<rparr>
      in (qs(queueName \<mapsto> q\<lparr>Callers := Callers q @ [e]\<rparr>),
          if database then [EnqueueCaller (CallID e) (Number e) queueName (Reason e) (Priority e)] else []))"

text \<open>
  The nested loops that remove the first caller satisfying a test from the first queue that
  has one: \<open>RemoveCaller\<close>, \<open>RemoveCallerByCallID\<close> and the look-up in \<open>handlePickCall\<close>.
\<close>

fun take_caller :: "(queueEntry \<Rightarrow> bool) \<Rightarrow> string list \<Rightarrow> queues \<Rightarrow> queues \<times> queueEntry option" where
  "take_caller P [] qs = (qs, None)"
| "take_caller P (k # ks) qs =
     (case qs k of
        None \<Rightarrow> take_caller P ks qs
      | Some q \<Rightarrow>
          (case find P (Callers q) of
             None \<Rightarrow> take_caller P ks qs
           | Some c \<Rightarrow> (qs(k \<mapsto> q\<lparr>Callers := remove_first P (Callers q)\<rparr>), Some c)))"

definition RemoveCallerByCallID :: "enumeration \<Rightarrow> string \<Rightarrow> queues \<Rightarrow> queues" where
  "RemoveCallerByCallID ord callID qs = fst (take_caller (\<lambda>c. CallID c = callID) (ord qs) qs)"

definition RemoveCaller :: "enumeration \<Rightarrow> string \<Rightarrow> queues \<Rightarrow> queues \<times> queueEntry option" where
  "RemoveCaller ord entryID qs = take_caller (\<lambda>c. ID c = entryID) (ord qs) qs"

subsection \<open>Handlers\<close>

text \<open>Go compares strings bytewise, as the lexicographic order on \<^typ>\<open>string\<close> does.\<close>

definition handleListQueues :: "enumeration \<Rightarrow> queues \<Rightarrow> queueInfo list response" where
  "handleListQueues ord qs = WriteJSON 200 (sort_key Name (List.map_filter qs (ord qs)))"

record addQueueRequest =
  aq_queue_name :: string
  aq_call_id :: string
  aq_number :: string
  aq_caller_number :: string
  aq_reason :: string
  aq_priority :: string

text \<open>
  \<open>decoded\<close> is \<open>None\<close> when the JSON body does not decode; \<open>entryID\<close> is \<open>q-<UnixNano>\<close>.
\<close>

definition handleAddToQueue ::
  "bool \<Rightarrow> addQueueRequest option \<Rightarrow> bool \<Rightarrow> instant \<Rightarrow> string \<Rightarrow> queues
    \<Rightarrow> queues \<times> db_insert list \<times> json_obj response" where
  "handleAddToQueue isPost decoded database now entryID qs =
     (if \<not> isPost then (qs, [], HttpError 405 ''{\"error\":\"method not allowed\"}'')
      else case decoded of
        None \<Rightarrow> (qs, [], HttpError 400 ''{\"error\":\"queue_name required\"}'')
      | Some req \<Rightarrow>
          if aq_queue_name req = '''' then (qs, [], HttpError 400 ''{\"error\":\"queue_name required\"}'')
          else
            let prio = (if aq_priority req = '''' then ''normal'' else aq_priority req);
                number = (if aq_number req = '''' then aq_caller_number req else aq_number req);
                entry = \<lparr>ID = entryID, CallID = aq_call_id req, Number = number, WaitSec = 0,
                         Reason = aq_reason req, Priority = prio, QueueName = '''', EnterTime = 0\<rparr>;
                (qs', ins) = AddCaller database now (aq_queue_name req) entry qs
            in (qs', ins, WriteJSON 200 [(''status'', ''ok''), (''id'', entryID)]))"

subsection \<open>Agent directory\<close>

record agentInfo =
  ai_id :: string
  ai_name :: string
  ai_ext :: string
  ai_status :: string
  ai_department :: string
  ai_activeCalls :: int

type_synonym agents = "string \<rightharpoonup> agentInfo"

definition SetStatus :: "string \<Rightarrow> string \<Rightarrow> agents \<Rightarrow> agents" where
  "SetStatus agentID st ags =
     (case ags agentID of
        Some a \<Rightarrow> ags(agentID \<mapsto> a\<lparr>ai_status := st\<rparr>)
      | None \<Rightarrow> ags(agentID \<mapsto> \<lparr>ai_id = agentID, ai_name = '''', ai_ext = '''', ai_status = st,
                               ai_department = '''', ai_activeCalls = 0\<rparr>))"

definition handleAgentStatus ::
  "bool \<Rightarrow> (string \<times> string) option \<Rightarrow> agents \<Rightarrow> agents \<times> json_obj response" where
  "handleAgentStatus isPost decoded ags =
     (if \<not> isPost then (ags, HttpError 405 ''{\"error\":\"method not allowed\"}'')
      else case decoded of
        None \<Rightarrow> (ags, HttpError 400 ''{\"error\":\"agent_id and status required\"}'')
      | Some (agentID, st) \<Rightarrow>
          if agentID = '''' \<or> st = '''' then (ags, HttpError 400 ''{\"error\":\"agent_id and status required\"}'')
          else (SetStatus agentID st ags, WriteJSON 200 [(''status'', ''ok'')]))"

text \<open>
  \<open>sessions\<close> are the agent numbers of the active SIPREC sessions; the directory counts them per
  extension.
\<close>

definition enrich_agent :: "string list \<Rightarrow> agentInfo \<Rightarrow> agentInfo" where
  "enrich_agent sessions a =
     (let n = count_list (filter (\<lambda>s. s \<noteq> '''') sessions) (ai_ext a) in
      if n > 0 then
        (let a' = a\<lparr>ai_activeCalls := int n\<rparr> in
         if ai_status a' = ''Available'' then a'\<lparr>ai_status := ''On Call''\<rparr> else a')
      else a)"

definition handleAgentDirectory ::
  "(agents \<Rightarrow> string list) \<Rightarrow> string list \<Rightarrow> agents \<Rightarrow> agentInfo list response" where
  "handleAgentDirectory ord sessions ags =
     WriteJSON 200 (map (enrich_agent sessions) (List.map_filter ags (ord ags)))"

subsection \<open>The waiting callers, as a multiset\<close>

definition callers_of :: "queues \<Rightarrow> string \<Rightarrow> queueEntry list" where
  "callers_of qs k = (case qs k of None \<Rightarrow> [] | Some q \<Rightarrow> Callers q)"

definition waiting :: "queues \<Rightarrow> queueEntry multiset" where
  "waiting qs = (\<Sum>k \<in> dom qs. mset (callers_of qs k))"

definition enumerates :: "enumeration \<Rightarrow> bool" where
  "enumerates ord \<longleftrightarrow> (\<forall>qs. finite (dom qs) \<longrightarrow> set (ord qs) = dom qs)"

text \<open>
  What the rest of the gateway relies on: a caller that is put into the queues waits there
  until it is taken out, and taking removes exactly one matching caller, or none if none waits.
\<close>

locale call_queue =
  fixes wf :: "'q \<Rightarrow> bool" and content :: "'q \<Rightarrow> 'e multiset"
    and put :: "'a \<Rightarrow> 'q \<Rightarrow> 'q" and stamp :: "'a \<Rightarrow> 'e"
    and takes :: "'k \<Rightarrow> 'q \<Rightarrow> 'q \<times> 'e option" and hits :: "'k \<Rightarrow> 'e \<Rightarrow> bool" and valid :: "'k \<Rightarrow> bool"
  assumes put_wf: "wf q \<Longrightarrow> wf (put a q)"
    and takes_wf: "wf q \<Longrightarrow> valid k \<Longrightarrow> wf (fst (takes k q))"
    and content_put: "wf q \<Longrightarrow> content (put a q) = add_mset (stamp a) (content q)"
    and takes_Some: "wf q \<Longrightarrow> valid k \<Longrightarrow> takes k q = (q', Some e)
          \<Longrightarrow> hits k e \<and> e \<in># content q \<and> content q' = content q - {#e#}"
    and takes_None: "wf q \<Longrightarrow> valid k \<Longrightarrow> takes k q = (q', None)
          \<Longrightarrow> q' = q \<and> (\<forall>e \<in># content q. \<not> hits k e)"
begin

lemma run_conserves:
  assumes "wf q" "\<forall>op \<in> set ops. \<forall>k. op = Inr k \<longrightarrow> valid k"
  defines "step \<equiv> \<lambda>op (q, got). case op of Inl a \<Rightarrow> (put a q, got)
      | Inr k \<Rightarrow> (let (q', r) = takes k q in (q', case r of None \<Rightarrow> got | Some e \<Rightarrow> add_mset e got))"
  shows "content (fst (fold step ops (q, got))) + snd (fold step ops (q, got))
     = content q + got + mset (map stamp (List.map_filter (case_sum Some (\<lambda>_. None)) ops))
     \<and> wf (fst (fold step ops (q, got)))"
  using assms(1,2)
proof (induction ops arbitrary: q got)
  case Nil
  then show ?case by (simp add: map_filter_simps)
next
  case (Cons op ops)
  show ?case
  proof (cases op)
    case (Inl a)
    then show ?thesis
      using Cons.IH [of "put a q" got] Cons.prems
      by (simp add: step_def put_wf content_put map_filter_simps)
  next
    case (Inr k)
    obtain q' r where t: "takes k q = (q', r)" by (cases "takes k q")
    have v: "valid k" "wf q'" using Cons.prems Inr takes_wf [of q k] t by auto
    show ?thesis
    proof (cases r)
      case None
      with takes_None [OF Cons.prems(1) v(1)] t have "q' = q" by blast
      then show ?thesis
        using Cons.IH [of q got] Cons.prems Inr t None by (simp add: step_def map_filter_simps)
    next
      case (Some e)
      have e: "e \<in># content q" "content q' = content q - {#e#}"
        using takes_Some [OF Cons.prems(1) v(1)] t Some by blast+
      then show ?thesis
        using Cons.IH [of q' "add_mset e got"] Cons.prems v Inr t Some
        by (simp add: step_def map_filter_simps)
    qed
  qed
qed

text \<open>Taking the only entry that is wanted leaves the others.\<close>

lemma takes_clears:
  assumes "wf q" "valid k" "size (filter_mset (hits k) (content q)) \<le> 1"
  shows "content (fst (takes k q)) = filter_mset (\<lambda>e. \<not> hits k e) (content q)"
proof -
  obtain q' r where t: "takes k q = (q', r)" by fastforce
  show ?thesis
  proof (cases r)
    case None
    with takes_None [OF assms(1,2)] t have "q' = q" "\<forall>e \<in># content q. \<not> hits k e" by auto
    then show ?thesis using t by (simp add: filter_mset_cong [of "content q" "content q" _ "\<lambda>_. True", OF refl])
  next
    case (Some e)
    with takes_Some [OF assms(1,2)] t have e: "hits k e" "e \<in># content q" "content q' = content q - {#e#}" by auto
    have "e \<in># filter_mset (hits k) (content q)" using e by simp
    then obtain M where M: "filter_mset (hits k) (content q) = add_mset e M" by (meson multi_member_split)
    then have "M = {#}" using assms(3) by simp
    then have "filter_mset (hits k) (content q) = {#e#}" using M by simp
    then have "content q = {#e#} + filter_mset (\<lambda>e. \<not> hits k e) (content q)" by (metis multiset_partition)
    then show ?thesis using t e(3) by (metis add_diff_cancel_left' fst_conv)
  qed
qed

end

subsection \<open>Lemmas\<close>

lemma waiting_upd:
  assumes "finite (dom qs)"
  shows "waiting (qs(k \<mapsto> q)) + mset (callers_of qs k) = waiting qs + mset (Callers q)"
proof -
  let ?r = "\<Sum>j \<in> dom qs - {k}. mset (callers_of qs j)"
  have "waiting (qs(k \<mapsto> q)) = mset (Callers q) + (\<Sum>j \<in> dom qs - {k}. mset (callers_of (qs(k \<mapsto> q)) j))"
    using assms by (simp add: waiting_def callers_of_def sum.insert_remove)
  also have "(\<Sum>j \<in> dom qs - {k}. mset (callers_of (qs(k \<mapsto> q)) j)) = ?r"
    by (rule sum.cong) (auto simp: callers_of_def)
  finally have 1: "waiting (qs(k \<mapsto> q)) = mset (Callers q) + ?r" .
  have "waiting qs = mset (callers_of qs k) + ?r"
  proof (cases "k \<in> dom qs")
    case True
    then show ?thesis using assms by (simp add: waiting_def sum.remove)
  next
    case False
    then have "dom qs - {k} = dom qs" "qs k = None" by auto
    then show ?thesis by (simp add: waiting_def callers_of_def)
  qed
  with 1 show ?thesis by simp
qed

lemma in_waiting_iff:
  "finite (dom qs) \<Longrightarrow> e \<in># waiting qs \<longleftrightarrow> (\<exists>k. e \<in> set (callers_of qs k))"
  by (auto simp: waiting_def set_mset_sum callers_of_def split: option.splits)
     (metis domI option.simps(5))

lemma remove_first_mset:
  "find P xs = Some c \<Longrightarrow> P c \<and> c \<in> set xs \<and> mset xs = add_mset c (mset (remove_first P xs))"
  by (induction xs) (auto split: if_splits)

lemma take_caller_Some:
  assumes "take_caller P ks qs = (qs', Some c)" "finite (dom qs)"
  shows "P c \<and> c \<in># waiting qs \<and> waiting qs' = waiting qs - {#c#} \<and> dom qs' = dom qs"
  using assms
proof (induction P ks qs rule: take_caller.induct)
  case (2 P k ks qs)
  show ?case
  proof (cases "qs k")
    case None
    with 2 show ?thesis by simp
  next
    case (Some q)
    show ?thesis
    proof (cases "find P (Callers q)")
      case None
      with 2 Some show ?thesis by simp
    next
      case (Some d)
      then have q: "qs' = qs(k \<mapsto> q\<lparr>Callers := remove_first P (Callers q)\<rparr>)" "d = c"
        using "2.prems"(1) \<open>qs k = Some q\<close> by simp_all
      have m: "P c" "c \<in> set (Callers q)" "mset (Callers q) = add_mset c (mset (remove_first P (Callers q)))"
        using remove_first_mset [OF Some] q(2) by auto
      have "waiting qs' + add_mset c (mset (remove_first P (Callers q)))
          = waiting qs + mset (remove_first P (Callers q))"
        using waiting_upd [OF "2.prems"(2), of k "q\<lparr>Callers := remove_first P (Callers q)\<rparr>"]
          \<open>qs k = Some q\<close> m(3) by (simp add: q callers_of_def)
      then have "waiting qs = add_mset c (waiting qs')" by simp
      moreover have "dom qs' = dom qs" unfolding q using \<open>qs k = Some q\<close> by (simp add: domI insert_absorb)
      moreover have "c \<in># waiting qs" using calculation(1) by simp
      ultimately show ?thesis using m(1) by simp
    qed
  qed
qed simp

lemma take_caller_None:
  assumes "take_caller P ks qs = (qs', None)"
  shows "qs' = qs \<and> (\<forall>k \<in> set ks. \<forall>c \<in> set (callers_of qs k). \<not> P c)"
  using assms
  by (induction P ks qs rule: take_caller.induct)
     (auto simp: callers_of_def find_None_iff split: option.splits)

interpretation qm: call_queue "\<lambda>qs. finite (dom qs)" waiting
  "\<lambda>(database, now, name, entry) qs. fst (AddCaller database now name entry qs)"
  "\<lambda>(database, now, name, entry). entry\<lparr>EnterTime := now, QueueName := name\<rparr>"
  "\<lambda>(ord, P) qs. take_caller P (ord qs) qs" "\<lambda>(ord, P). P" "\<lambda>(ord, P). enumerates ord"
proof (unfold_locales, goal_cases)
  case (1 q a)
  then show ?case by (cases a) (simp add: AddCaller_def Let_def)
next
  case (2 q k)
  then show ?case
    by (cases k; cases "take_caller (snd k) (fst k q) q"; cases "snd (take_caller (snd k) (fst k q) q)")
       (auto dest: take_caller_Some take_caller_None)
next
  case (3 q a)
  obtain database now name entry where a: "a = (database, now, name, entry)" by (cases a)
  let ?e = "entry\<lparr>EnterTime := now, QueueName := name\<rparr>"
  define q0 where "q0 = (case q name of Some q \<Rightarrow> q
      | None \<Rightarrow> \<lparr>Name = name, AvgHandle = ''5:00'', SLA = 80, Callers = []\<rparr>)"
  have "Callers q0 = callers_of q name" by (auto simp: q0_def callers_of_def split: option.splits)
  then have "waiting (q(name \<mapsto> q0\<lparr>Callers := Callers q0 @ [?e]\<rparr>)) = add_mset ?e (waiting q)"
    using waiting_upd [OF 3, of name "q0\<lparr>Callers := Callers q0 @ [?e]\<rparr>"] by simp
  then show ?case by (simp add: a AddCaller_def Let_def q0_def)
next
  case (4 q k q' e)
  then show ?case by (cases k) (auto dest: take_caller_Some)
next
  case (5 q k q')
  obtain ord P where k: "k = (ord, P)" by (cases k)
  have d: "set (ord q) = dom q" using 5 k by (auto simp: enumerates_def)
  have n: "q' = q" "\<forall>j \<in> dom q. \<forall>c \<in> set (callers_of q j). \<not> P c"
    using take_caller_None [of P "ord q" q q'] 5 k d by auto
  moreover have "callers_of q j = []" if "j \<notin> dom q" for j
    using that by (auto simp: callers_of_def split: option.splits)
  ultimately show ?case using k 5(1)
    by (auto simp: in_waiting_iff) (metis empty_iff list.set(1))
qed

lemma RemoveCallerByCallID_clears:
  assumes "finite (dom qs)" "enumerates ord" "size (filter_mset (\<lambda>e. CallID e = callID) (waiting qs)) \<le> 1"
  shows "waiting (RemoveCallerByCallID ord callID qs) = filter_mset (\<lambda>e. CallID e \<noteq> callID) (waiting qs)"
  using qm.takes_clears [OF assms(1), of "(ord, \<lambda>c. CallID c = callID)"] assms(2,3) by (simp add: RemoveCallerByCallID_def)

subsection \<open>Arrival order\<close>

text \<open>The manager together with the instant of the last operation.\<close>

inductive qm_step :: "queues \<times> instant \<Rightarrow> queues \<times> instant \<Rightarrow> bool" where
  add: "now \<le> now' \<Longrightarrow> qm_step (qs, now) (fst (AddCaller database now' name entry qs), now')"
| remove_id: "now \<le> now' \<Longrightarrow> qm_step (qs, now) (fst (RemoveCaller ord eid qs), now')"
| remove_call: "now \<le> now' \<Longrightarrow> qm_step (qs, now) (RemoveCallerByCallID ord cid qs, now')"
| tick: "now \<le> now' \<Longrightarrow> qm_step (qs, now) (tickWaitTimes now' qs, now')"

definition fifo :: "queues \<times> instant \<Rightarrow> bool" where
  "fifo s \<longleftrightarrow> (\<forall>k. sorted (map EnterTime (callers_of (fst s) k)) \<and>
     (\<forall>c \<in> set (callers_of (fst s) k). EnterTime c \<le> snd s))"

lemma sorted_remove_first: "sorted (map f xs) \<Longrightarrow> sorted (map f (remove_first P xs))"
  by (induction xs) auto

lemma callers_of_AddCaller:
  "callers_of (fst (AddCaller database now name entry qs)) k =
     callers_of qs k @ (if k = name then [entry\<lparr>EnterTime := now, QueueName := name\<rparr>] else [])"
  by (simp add: AddCaller_def Let_def callers_of_def split: option.splits)

lemma callers_of_take:
  "callers_of (fst (take_caller P ks qs)) k \<in> {callers_of qs k, remove_first P (callers_of qs k)}"
  by (induction P ks qs rule: take_caller.induct) (auto simp: callers_of_def split: option.splits)

lemma callers_of_tick:
  "callers_of (tickWaitTimes now qs) k =
     map (\<lambda>c. c\<lparr>WaitSec := go_div (since now (EnterTime c)) second\<rparr>) (callers_of qs k)"
  by (simp add: tickWaitTimes_def callers_of_def split: option.splits)

lemma fifo_take: "fifo (qs, now) \<Longrightarrow> now \<le> now' \<Longrightarrow> fifo (fst (take_caller P ks qs), now')"
  unfolding fifo_def
proof (intro allI)
  fix k
  assume "\<forall>k. sorted (map EnterTime (callers_of (fst (qs, now)) k)) \<and>
     (\<forall>c \<in> set (callers_of (fst (qs, now)) k). EnterTime c \<le> snd (qs, now))" and le: "now \<le> now'"
  then have h: "sorted (map EnterTime (callers_of qs k))" "\<forall>c \<in> set (callers_of qs k). EnterTime c \<le> now"
    by auto
  then show "sorted (map EnterTime (callers_of (fst (fst (take_caller P ks qs), now')) k)) \<and>
     (\<forall>c \<in> set (callers_of (fst (fst (take_caller P ks qs), now')) k). EnterTime c \<le> snd (fst (take_caller P ks qs), now'))"
    using callers_of_take [of P ks qs k] le by (force simp: sorted_remove_first)
qed

lemma qm_step_fifo: "fifo s \<Longrightarrow> qm_step s t \<Longrightarrow> fifo t"
proof (erule qm_step.cases)
  fix now now' qs database name entry
  assume h: "fifo s" "s = (qs, now)" "t = (fst (AddCaller database now' name entry qs), now')" "now \<le> now'"
  then show "fifo t"
    by (auto simp: fifo_def callers_of_AddCaller sorted_append intro: order_trans)
next
  fix now now' qs
  assume h: "fifo s" "s = (qs, now)" "t = (tickWaitTimes now' qs, now')" "now \<le> now'"
  then show "fifo t"
    by (auto simp: fifo_def callers_of_tick o_def intro: order_trans)
qed (auto simp: RemoveCaller_def RemoveCallerByCallID_def intro: fifo_take)

interpretation arrival: invariant_machine "\<lambda>s. fst s = NewQueueManager" qm_step fifo
proof
  show "fst s = NewQueueManager \<Longrightarrow> fifo s" for s :: "queues \<times> instant"
    by (auto simp: fifo_def callers_of_def NewQueueManager_def split: option.splits if_splits)
qed (rule qm_step_fifo)

definition qm_run ::
  "((bool \<times> instant \<times> string \<times> queueEntry) + (enumeration \<times> (queueEntry \<Rightarrow> bool))) list \<Rightarrow>
    queues \<times> queueEntry multiset \<Rightarrow> queues \<times> queueEntry multiset" where
  "qm_run ops s = fold (\<lambda>op (qs, got). case op of
       Inl (database, now, name, entry) \<Rightarrow> (fst (AddCaller database now name entry qs), got)
     | Inr (ord, P) \<Rightarrow>
         (let (qs', r) = take_caller P (ord qs) qs in
          (qs', case r of None \<Rightarrow> got | Some e \<Rightarrow> add_mset e got))) ops s"

definition key_order :: enumeration where
  "key_order qs = sorted_list_of_set (dom qs)"

lemma enumerates_key_order: "enumerates key_order"
  by (simp add: enumerates_def key_order_def)

definition example_entry :: queueEntry where
  "example_entry = \<lparr>ID = ''q-1'', CallID = ''c-1'', Number = ''100'', WaitSec = 0, Reason = '''',
     Priority = ''normal'', QueueName = '''', EnterTime = 0\<rparr>"

subsection \<open>Properties\<close>

text \<open>
  C3: no caller is lost or duplicated. After any sequence of additions and removals, with any
  order of map iteration, the callers still waiting and those handed out are together exactly
  the callers that waited at the start and those added, each stamped with its queue and arrival.
\<close>

theorem queue_conservation:
  assumes "finite (dom qs)" "\<forall>op \<in> set ops. \<forall>ord P. op = Inr (ord, P) \<longrightarrow> enumerates ord"
  shows "waiting (fst (qm_run ops (qs, {#}))) + snd (qm_run ops (qs, {#})) =
         waiting qs + mset (map (\<lambda>(database, now, name, entry). entry\<lparr>EnterTime := now, QueueName := name\<rparr>)
                        (List.map_filter (case_sum Some (\<lambda>_. None)) ops))"
proof -
  have eq: "(\<lambda>op (q, got). case op of
        Inl a \<Rightarrow> ((case a of (database, now, name, entry) \<Rightarrow> \<lambda>qs. fst (AddCaller database now name entry qs)) q, got)
      | Inr k \<Rightarrow> (let (q', r) = (case k of (ord, P) \<Rightarrow> \<lambda>qs. take_caller P (ord qs) qs) q
                  in (q', case r of None \<Rightarrow> got | Some e \<Rightarrow> add_mset e got)))
    = (\<lambda>op (qs, got). case op of
       Inl (database, now, name, entry) \<Rightarrow> (fst (AddCaller database now name entry qs), got)
     | Inr (ord, P) \<Rightarrow>
         (let (qs', r) = take_caller P (ord qs) qs in
          (qs', case r of None \<Rightarrow> got | Some e \<Rightarrow> add_mset e got)))"
    by (intro ext) (auto split: sum.splits)
  show ?thesis
    using qm.run_conserves [of qs ops "{#}"] assms unfolding eq qm_run_def by auto
qed

theorem queue_conservation_witness:
  "waiting (fst (qm_run [Inl (True, 5, ''Sales'', example_entry), Inr (key_order, \<lambda>c. ID c = ''q-2'')] (Map.empty, {#})))
   + snd (qm_run [Inl (True, 5, ''Sales'', example_entry), Inr (key_order, \<lambda>c. ID c = ''q-2'')] (Map.empty, {#}))
   = {#example_entry\<lparr>EnterTime := 5, QueueName := ''Sales''\<rparr>#}"
  using queue_conservation [of Map.empty "[Inl (True, 5, ''Sales'', example_entry), Inr (key_order, \<lambda>c. ID c = ''q-2'')]"]
  by (simp add: waiting_def map_filter_simps enumerates_key_order)

text \<open>
  C27: in every reachable state of the queue manager the callers of each queue stand in order of
  arrival, so the caller the distributor takes first is the one who has waited longest.
\<close>

theorem queue_arrival_order:
  assumes "reachable qm_step (NewQueueManager, t0) (qs, now)" "qs k = Some q" "Callers q = c # cs"
  shows "(\<forall>d \<in> set cs. EnterTime c \<le> EnterTime d) \<and> EnterTime c \<le> now"
proof -
  have "fifo (qs, now)" using arrival.reachable_inv [OF assms(1)] by simp
  then have "sorted (map EnterTime (callers_of qs k)) \<and> (\<forall>c \<in> set (callers_of qs k). EnterTime c \<le> now)"
    by (simp add: fifo_def)
  then show ?thesis using assms(2,3) by (simp add: callers_of_def)
qed

theorem queue_arrival_order_witness:
  "\<exists>q c. fst (AddCaller False 8 ''Sales'' example_entry NewQueueManager) ''Sales'' = Some q \<and>
     Callers q = [c] \<and> EnterTime c \<le> 8"
proof -
  let ?s = "(fst (AddCaller False 8 ''Sales'' example_entry NewQueueManager), 8)"
  have r: "reachable qm_step (NewQueueManager, 0) ?s"
    by (rule reachable_step, rule qm_step.add) simp
  show ?thesis
    using queue_arrival_order [OF r, of "''Sales''"]
    by (simp add: AddCaller_def NewQueueManager_def Let_def)
qed

end
