(* ===== verification/Acd.thy ===== *)
theory Acd
  imports Queue_Manager
begin

text \<open>
  The automatic call distributor of \<open>gateway/acd.go\<close> and the pick handler of
  \<open>gateway/queue.go\<close>, which shares its state. The tables \<open>agents\<close> (joined with its queues) and
  \<open>queues\<close> are the rows the SQL of the source reads and writes, with \<open>None\<close> for NULL; rows come
  in the table's order, which is arbitrary. \<open>sort.Slice\<close> with a descending comparison is the
  parameter \<open>sort_desc\<close>: it is not stable, and the theorems use of it only the contract
  \<open>ranking\<close>. One reading of the clock stands for all readings of one tick.
\<close>

subsection \<open>Rankings\<close>

text \<open>
  A routine that orders candidates by descending score. The clients only look at the first.
\<close>

locale ranking =
  fixes score :: "'a \<Rightarrow> int" and rank :: "'a list \<Rightarrow> 'a list"
  assumes rank_mset: "mset (rank xs) = mset xs"
    and rank_desc: "sorted_wrt (\<lambda>a b. score a \<ge> score b) (rank xs)"
begin

lemma rank_set: "set (rank xs) = set xs"
  using rank_mset mset_eq_setD by blast

lemma rank_Nil_iff: "rank xs = [] \<longleftrightarrow> xs = []"
  by (metis mset_zero_iff rank_mset)

lemma rank_hd: "xs \<noteq> [] \<Longrightarrow> hd (rank xs) \<in> set xs \<and> (\<forall>y \<in> set xs. score y \<le> score (hd (rank xs)))"
proof -
  assume "xs \<noteq> []"
  then obtain a as where r: "rank xs = a # as" by (metis list.exhaust rank_Nil_iff)
  with rank_desc [of xs] rank_set [of xs] show ?thesis by auto
qed

end

subsection \<open>State\<close>

record agent_row =
  ag_id :: string
  ag_name :: string
  ag_status :: "string option"
  ag_expertise :: "string option"
  ag_active_calls :: "int option"
  ag_max_calls :: "int option"
  ag_priority :: "int option"
  ag_last_call_end :: "instant option"
  ag_queues :: "string list"

record acd_db =
  agents_tbl :: "agent_row list"
  queues_tbl :: "(string \<times> string option) list"

record ACD =
  db :: "acd_db option"
  has_agentMgr :: bool
  ringing :: "string \<rightharpoonup> instant"

record acdAgent =
  aID :: string
  aName :: string
  aStatus :: string
  Expertise :: "string list"
  ActiveCalls :: int
  MaxCalls :: int
  aPriority :: int
  LastCallEnd :: "instant option"

record acdScore =
  Agent :: acdAgent
  Score :: int

definition NewACD :: "acd_db option \<Rightarrow> bool \<Rightarrow> ACD" where
  "NewACD d m = \<lparr>db = d, has_agentMgr = m, ringing = Map.empty\<rparr>"

definition coalesce :: "'a option \<Rightarrow> 'a \<Rightarrow> 'a" where
  "coalesce x d = (case x of None \<Rightarrow> d | Some v \<Rightarrow> v)"

subsection \<open>Choosing an agent\<close>

definition scoreAgent :: "instant \<Rightarrow> acdAgent \<Rightarrow> string list \<Rightarrow> int" where
  "scoreAgent now agent queueSkills =
     int (length (filter (\<lambda>(qs, as). trim_space as = trim_space qs)
       (List.product queueSkills (Expertise agent)))) * 10
     + 5 * aPriority agent - 10 * ActiveCalls agent
     + (case LastCallEnd agent of
          Some t \<Rightarrow> go_div (go_div (since now t) second) 10
        | None \<Rightarrow> 30)"

definition getQueueSkills :: "acd_db option \<Rightarrow> string \<Rightarrow> string list" where
  "getQueueSkills d queueName =
     (case d of None \<Rightarrow> []
      | Some t \<Rightarrow>
          (case map_of (queues_tbl t) queueName of
             None \<Rightarrow> []
           | Some sk \<Rightarrow>
               let skills = trim_cutset (coalesce sk ''{}'') ''{}'' in
               if skills = '''' then [] else split_on (CHR '','') skills))"

definition scan_agent :: "agent_row \<Rightarrow> acdAgent" where
  "scan_agent r =
     (let expertise = trim_cutset (coalesce (ag_expertise r) ''{}'') ''{}'' in
      \<lparr>aID = ag_id r, aName = ag_name r, aStatus = coalesce (ag_status r) ''Offline'',
       Expertise = (if expertise \<noteq> '''' then split_on (CHR '','') expertise else []),
       ActiveCalls = coalesce (ag_active_calls r) 0, MaxCalls = coalesce (ag_max_calls r) 3,
       aPriority = coalesce (ag_priority r) 1, LastCallEnd = ag_last_call_end r\<rparr>)"

definition eligible :: "instant \<Rightarrow> acdAgent \<Rightarrow> bool" where
  "eligible now ag \<longleftrightarrow> \<not> ActiveCalls ag \<ge> MaxCalls ag \<and>
     (case LastCallEnd ag of None \<Rightarrow> True | Some t \<Rightarrow> \<not> since now t < 15 * second)"

definition queue_agents :: "acd_db \<Rightarrow> string \<Rightarrow> acdAgent list" where
  "queue_agents t queueName =
     map scan_agent (filter (\<lambda>r. queueName \<in> set (ag_queues r) \<and> ag_status r = Some ''Available'') (agents_tbl t))"

text \<open>\<open>queryOk\<close> is false when the query returns an error.\<close>

definition findBestAgent ::
  "(acdScore list \<Rightarrow> acdScore list) \<Rightarrow> bool \<Rightarrow> instant \<Rightarrow> acd_db option \<Rightarrow> string \<Rightarrow> string list \<Rightarrow> acdAgent option" where
  "findBestAgent sort_desc queryOk now d queueName queueSkills =
     (case d of None \<Rightarrow> None
      | Some t \<Rightarrow>
          if \<not> queryOk then None
          else
            let candidates = map (\<lambda>ag. \<lparr>Agent = ag, Score = scoreAgent now ag queueSkills\<rparr>)
                               (filter (eligible now) (queue_agents t queueName))
            in if candidates = [] then None else Some (Agent (hd (sort_desc candidates))))"

subsection \<open>The distribution loop\<close>

datatype ring = RingAgent (ring_agent: string) (ring_call: string) (ring_number: string) (ring_queue: string) (ring_wait: int)

text \<open>One iteration of \<open>for queueName, q := range qm.queues\<close>.\<close>

definition process_queue ::
  "(acdScore list \<Rightarrow> acdScore list) \<Rightarrow> bool \<Rightarrow> instant \<Rightarrow> queues \<Rightarrow> string \<Rightarrow> ACD \<times> ring list \<Rightarrow> ACD \<times> ring list" where
  "process_queue sort_desc queryOk now qs queueName st =
     (let (a, rings) = st in
      case callers_of qs queueName of
        [] \<Rightarrow> (a, rings)
      | caller # _ \<Rightarrow>
          let queueSkills = getQueueSkills (db a) queueName;
              wait = (case ringing a (CallID caller) of None \<Rightarrow> False | Some t \<Rightarrow> since now t < 30 * second)
          in if wait then (a, rings)
             else
               let a1 = a\<lparr>ringing := (ringing a)(CallID caller := None)\<rparr> in
               case findBestAgent sort_desc queryOk now (db a) queueName queueSkills of
                 None \<Rightarrow> (a1, rings)
               | Some agent \<Rightarrow>
                   (a1\<lparr>ringing := (ringing a1)(CallID caller \<mapsto> now)\<rparr>,
                    if has_agentMgr a
                    then rings @ [RingAgent (aID agent) (CallID caller) (Number caller) queueName (WaitSec caller)]
                    else rings))"

definition processQueues ::
  "enumeration \<Rightarrow> (acdScore list \<Rightarrow> acdScore list) \<Rightarrow> bool \<Rightarrow> instant \<Rightarrow> queues option \<Rightarrow> ACD \<Rightarrow> ACD \<times> ring list" where
  "processQueues ord sort_desc queryOk now queueMgr a =
     (case queueMgr of None \<Rightarrow> (a, [])
      | Some qs \<Rightarrow> fold (process_queue sort_desc queryOk now qs) (ord qs) (a, []))"

subsection \<open>Call start and end\<close>

definition update_agent :: "(agent_row \<Rightarrow> bool) \<Rightarrow> (agent_row \<Rightarrow> agent_row) \<Rightarrow> acd_db \<Rightarrow> acd_db" where
  "update_agent P f t = t\<lparr>agents_tbl := map (\<lambda>r. if P r then f r else r) (agents_tbl t)\<rparr>"

definition OnCallEnd :: "instant \<Rightarrow> string \<Rightarrow> ACD \<Rightarrow> ACD" where
  "OnCallEnd now agentID a =
     (case db a of None \<Rightarrow> a
      | Some t \<Rightarrow>
          let t1 = update_agent (\<lambda>r. ag_id r = agentID)
                     (\<lambda>r. r\<lparr>ag_last_call_end := Some now,
                            ag_active_calls := Some (case ag_active_calls r of None \<Rightarrow> 0 | Some n \<Rightarrow> max (n - 1) 0)\<rparr>) t;
              t2 = update_agent (\<lambda>r. ag_id r = agentID \<and> (case ag_active_calls r of None \<Rightarrow> False | Some n \<Rightarrow> n \<le> 0)
                                     \<and> ag_status r = Some ''On Call'')
                     (\<lambda>r. r\<lparr>ag_status := Some ''Available''\<rparr>) t1
          in a\<lparr>db := Some t2\<rparr>)"

definition OnCallStart :: "string \<Rightarrow> ACD \<Rightarrow> ACD" where
  "OnCallStart agentID a =
     (case db a of None \<Rightarrow> a
      | Some t \<Rightarrow>
          a\<lparr>db := Some (update_agent (\<lambda>r. ag_id r = agentID)
              (\<lambda>r. r\<lparr>ag_active_calls := map_option (\<lambda>n. n + 1) (ag_active_calls r), ag_status := Some ''On Call''\<rparr>) t)\<rparr>)"

subsection \<open>Picking a call\<close>

record pickRequest =
  pk_queue_entry_id :: string
  pk_call_id :: string
  pk_agent_id :: string
  pk_webrtc_bridge :: bool

datatype pick_effect = PickExecute string | StopAnnouncements string

text \<open>
  \<open>gw\<close> and \<open>announcer\<close> tell which of the optional parts of the gateway are set; the
  distributor is part of the state.
\<close>

definition handlePickCall ::
  "bool \<Rightarrow> pickRequest option \<Rightarrow> enumeration \<Rightarrow> bool \<Rightarrow> bool \<Rightarrow> queues \<times> ACD option
    \<Rightarrow> (queues \<times> ACD option) \<times> pick_effect list \<times> json_obj response" where
  "handlePickCall isPost decoded ord gw announcer st =
     (let (qs, acd) = st in
      if \<not> isPost then (st, [], HttpError 405 ''{\"error\":\"method not allowed\"}'')
      else case decoded of
        None \<Rightarrow> (st, [], HttpError 400 ''{\"error\":\"invalid request\"}'')
      | Some req \<Rightarrow>
          if pk_queue_entry_id req = '''' \<and> pk_call_id req = '''' then
            (st, [], HttpError 400 ''{\"error\":\"queue_entry_id or call_id required\"}'')
          else
            let (qs', found) =
                  (if pk_queue_entry_id req \<noteq> '''' then RemoveCaller ord (pk_queue_entry_id req) qs
                   else take_caller (\<lambda>c. CallID c = pk_call_id req) (ord qs) qs)
            in case found of
                 None \<Rightarrow> ((qs', acd), [], WriteJSON 404 [(''error'', ''queue entry not found'')])
               | Some caller \<Rightarrow>
                   let agentExt = (if pk_agent_id req = '''' then ''1000'' else pk_agent_id req);
                       bridge = (if CallID caller \<noteq> '''' \<and> gw \<and> \<not> pk_webrtc_bridge req
                                 then [PickExecute (''uuid_transfer '' @ CallID caller @ '' '' @ agentExt @ '' XML default'')]
                                 else []);
                       stop = (if gw \<and> announcer then [StopAnnouncements (CallID caller)] else []);
                       acd' = (case acd of None \<Rightarrow> None
                               | Some a \<Rightarrow>
                                   if gw \<and> pk_agent_id req \<noteq> '''' then
                                     let a1 = OnCallStart (pk_agent_id req) a in
                                     Some (a1\<lparr>ringing := (ringing a1)(CallID caller := None)\<rparr>)
                                   else Some a)
                   in ((qs', acd'), bridge @ stop,
                       WriteJSON 200 [(''status'', ''ok''), (''call_id'', CallID caller)]))"

subsection \<open>Lemmas\<close>

definition recent :: "instant \<Rightarrow> ACD \<Rightarrow> string \<Rightarrow> bool" where
  "recent now a c \<longleftrightarrow> (case ringing a c of None \<Rightarrow> False | Some t \<Rightarrow> since now t < 30 * second)"

definition tick_inv :: "instant \<Rightarrow> ACD \<Rightarrow> ACD \<times> ring list \<Rightarrow> bool" where
  "tick_inv now a0 s \<longleftrightarrow>
     (let (a, rings) = s in
      (\<forall>r \<in> set rings. \<not> recent now a0 (ring_call r) \<and> ringing a (ring_call r) = Some now) \<and>
      distinct (map ring_call rings) \<and>
      (\<forall>c. recent now a0 c \<longrightarrow> ringing a c = ringing a0 c))"

lemma process_queue_cases:
  assumes "process_queue sort_desc ok now qs k (a, rings) = (a', rings')"
  obtains (idle) "a' = a" "rings' = rings"
  | (cleared) c where "\<not> recent now a c" "a' = a\<lparr>ringing := (ringing a)(c := None)\<rparr>" "rings' = rings"
  | (rung) c r where "\<not> recent now a c" "a' = a\<lparr>ringing := (ringing a)(c \<mapsto> now)\<rparr>" "ring_call r = c"
      "rings' = rings \<or> rings' = rings @ [r]"
proof (cases "callers_of qs k")
  case Nil
  then show thesis using assms idle by (simp add: process_queue_def)
next
  case (Cons c cs)
  show thesis
  proof (cases "recent now a (CallID c)")
    case True
    then show thesis using assms idle Cons by (simp add: process_queue_def recent_def Let_def)
  next
    case False
    show thesis
    proof (cases "findBestAgent sort_desc ok now (db a) k (getQueueSkills (db a) k)")
      case None
      then show thesis using assms cleared [of "CallID c"] Cons False
        by (simp add: process_queue_def recent_def Let_def split: option.splits)
    next
      case (Some ag)
      then show thesis
        using assms Cons False
          rung [of "CallID c" "RingAgent (aID ag) (CallID c) (Number c) k (WaitSec c)"]
        by (simp add: process_queue_def recent_def Let_def split: option.splits if_splits)
    qed
  qed
qed

lemma tick_inv_step:
  assumes "tick_inv now a0 (a, rings)" "process_queue sort_desc ok now qs k (a, rings) = (a', rings')"
  shows "tick_inv now a0 (a', rings')"
  using assms(2)
proof (cases rule: process_queue_cases)
  case idle
  then show ?thesis using assms(1) by simp
next
  case (cleared c)
  have "\<not> recent now a0 c" using cleared(1) assms(1) by (auto simp: tick_inv_def recent_def split: option.splits)
  moreover have "c \<notin> ring_call ` set rings"
    using cleared(1) assms(1) by (auto simp: tick_inv_def recent_def since_def second_def)
  ultimately show ?thesis using assms(1) cleared by (auto simp: tick_inv_def)
next
  case (rung c r)
  have "\<not> recent now a0 c" using rung(1) assms(1) by (auto simp: tick_inv_def recent_def split: option.splits)
  moreover have "c \<notin> ring_call ` set rings"
    using rung(1) assms(1) by (auto simp: tick_inv_def recent_def since_def second_def)
  ultimately show ?thesis using assms(1) rung by (auto simp: tick_inv_def)
qed

lemma tick_inv_fold:
  "tick_inv now a0 st \<Longrightarrow> tick_inv now a0 (fold (process_queue sort_desc ok now qs) ks st)"
proof (induction ks arbitrary: st)
  case (Cons k ks)
  obtain a rings where st: "st = (a, rings)" by (cases st)
  have "tick_inv now a0 (process_queue sort_desc ok now qs k st)"
    using tick_inv_step [of now a0 a rings sort_desc ok qs k] Cons.prems
    unfolding st by (metis surj_pair)
  then show ?case using Cons.IH by simp
qed simp

lemma processQueues_inv: "tick_inv now a (processQueues ord sort_desc ok now queueMgr a)"
proof -
  have "tick_inv now a (a, [])" by (simp add: tick_inv_def)
  then show ?thesis by (cases queueMgr) (simp_all add: processQueues_def tick_inv_fold)
qed

definition calls_ok :: "ACD \<Rightarrow> bool" where
  "calls_ok a \<longleftrightarrow> (case db a of None \<Rightarrow> True
     | Some t \<Rightarrow> \<forall>r \<in> set (agents_tbl t). \<forall>n. ag_active_calls r = Some n \<longrightarrow> 0 \<le> n)"

lemma calls_ok_start: "calls_ok a \<Longrightarrow> calls_ok (OnCallStart agentID a)"
  by (auto simp: calls_ok_def OnCallStart_def update_agent_def split: option.splits if_splits)

lemma calls_ok_end: "calls_ok a \<Longrightarrow> calls_ok (OnCallEnd now agentID a)"
  by (auto simp: calls_ok_def OnCallEnd_def update_agent_def Let_def split: option.splits if_splits)

subsection \<open>Properties\<close>






definition example_acd :: ACD where
  "example_acd = NewACD (Some \<lparr>agents_tbl = [\<lparr>ag_id = ''a1'', ag_name = ''Ann'', ag_status = Some ''Available'',
      ag_expertise = None, ag_active_calls = Some 0, ag_max_calls = Some 2, ag_priority = Some 1,
      ag_last_call_end = None, ag_queues = [''Sales'']\<rparr>], queues_tbl = [(''Sales'', None)]\<rparr>) True"


end
