(* ===== verification/Routing.thy ===== *)
theory Routing
  imports Acd
begin

text \<open>
  The skill-based call router of \<open>gateway/routing.go\<close>. \<open>None\<close> for the rows is a failing query.
  The agents' skills and languages are Postgres arrays scanned into \<open>[]string\<close>; whether the driver
  can do that is the parameter \<open>arrays\<close>: if it cannot, \<open>rows.Scan\<close> stops at the first array with an
  error nobody looks at, and the variables from there on keep their zero values. Scores are \<open>float64\<close> in the source:
  every operation is on integers of small magnitude, where \<open>float64\<close> is exact, so they are
  integers here. The router orders agents with its own exchange sort, modelled as its two loops
  over the slice.
\<close>

subsection \<open>Postgres arrays\<close>

definition parsePostgresArray :: "string \<Rightarrow> string list" where
  "parsePostgresArray s0 =
     (let s = trim_space s0 in
      if s = '''' \<or> s = ''{}'' \<or> s = ''NULL'' then []
      else
        let s1 = trim_suffix (trim_prefix s ''{'') ''}'' in
        filter (\<lambda>p. p \<noteq> '''')
          (map (\<lambda>p. trim_cutset (trim_space p) [CHR 0x22]) (split_on (CHR '','') s1)))"

text \<open>\<open>arrayToPostgres\<close> of \<open>db.go\<close>, also how Postgres prints an array of plain words.\<close>

definition arrayToPostgres :: "string list \<Rightarrow> string" where
  "arrayToPostgres ws = ''{'' @ join ws '','' @ ''}''"

subsection \<open>Data\<close>

record QueueDef =
  qd_ID :: string
  qd_Name :: string
  qd_Description :: string
  qd_SkillsRequired :: "string list"
  qd_MaxWaitSeconds :: int
  qd_OverflowQueue :: string
  qd_CallerCount :: int

record AgentScore =
  AgentID :: string
  as_Name :: string
  Extension :: string
  as_Score :: int
  as_Reason :: string

record route_row =
  rr_id :: string
  rr_name :: string
  rr_extension :: "string option"
  rr_expertise :: "string list"
  rr_languages :: "string list"
  rr_priority :: int
  rr_current_calls :: int
  rr_max_calls :: int
  rr_status :: string
  rr_queues :: "string list"

subsection \<open>Choosing the queue\<close>

definition skill_hits :: "string \<Rightarrow> string list \<Rightarrow> nat" where
  "skill_hits text skills = length (filter (\<lambda>skill. str_contains text (to_lower skill)) skills)"

fun match_rows :: "string \<Rightarrow> (string \<times> string list) list \<Rightarrow> string \<times> nat \<Rightarrow> string \<times> nat" where
  "match_rows intentLower [] best = best"
| "match_rows intentLower ((name, skills) # rows) (bestQueue, bestScore) =
     (let score = skill_hits intentLower skills in
      match_rows intentLower rows (if score > bestScore then (name, score) else (bestQueue, bestScore)))"

definition matchQueue :: "(string \<times> string list) list option \<Rightarrow> string \<Rightarrow> string" where
  "matchQueue rows intent =
     (case rows of None \<Rightarrow> ''Support''
      | Some rs \<Rightarrow> fst (match_rows (to_lower intent) (sort_key fst rs) (''Support'', 0)))"

subsection \<open>Scoring and sorting\<close>

definition scan_row :: "bool \<Rightarrow> route_row \<Rightarrow> route_row" where
  "scan_row arrays r =
     (if arrays then r
      else r\<lparr>rr_expertise := [], rr_languages := [], rr_priority := 0, rr_current_calls := 0, rr_max_calls := 0,
             rr_status := ''''\<rparr>)"

definition score_row :: "string \<Rightarrow> string \<Rightarrow> route_row \<Rightarrow> AgentScore" where
  "score_row intentLower langLower r =
     (let skills = filter (\<lambda>s. str_contains intentLower (to_lower s)) (rr_expertise r);
          langs = filter (\<lambda>l. str_contains langLower (to_lower l)) (rr_languages r);
          reasons = map (\<lambda>s. ''skill:'' @ s) skills @ map (\<lambda>l. ''language:'' @ l) langs
                    @ (if rr_priority r > 1 then [''senior''] else [])
                    @ (if rr_current_calls r > 0 then [''busy''] else [])
      in \<lparr>AgentID = rr_id r, as_Name = rr_name r, Extension = coalesce (rr_extension r) '''',
          as_Score = 10 * int (length skills) + 20 * int (length langs)
                     + rr_priority r * 5 - rr_current_calls r * 10,
          as_Reason = join reasons '', ''\<rparr>)"

text \<open>
  \<open>for j := i + 1; j < len; j++ { if scored[j].Score > scored[i].Score { swap } }\<close>
\<close>

definition exchange_row :: "nat \<Rightarrow> nat \<Rightarrow> AgentScore list \<Rightarrow> AgentScore list" where
  "exchange_row i j xs =
     (if as_Score (xs ! j) > as_Score (xs ! i) then xs[i := xs ! j, j := xs ! i] else xs)"

definition exchange_inner :: "nat \<Rightarrow> AgentScore list \<Rightarrow> AgentScore list" where
  "exchange_inner i xs = fold (exchange_row i) [i + 1..<length xs] xs"

definition exchange_sort :: "AgentScore list \<Rightarrow> AgentScore list" where
  "exchange_sort xs = fold exchange_inner [0..<length xs] xs"

definition select_route_rows :: "route_row list \<Rightarrow> string \<Rightarrow> route_row list" where
  "select_route_rows tbl queueName =
     sort_key (\<lambda>r. - rr_priority r) (sort_key rr_current_calls
       (filter (\<lambda>r. queueName \<in> set (rr_queues r) \<and> rr_status r = ''Available''
                   \<and> rr_current_calls r < rr_max_calls r) tbl))"

definition scoreAgents :: "bool \<Rightarrow> route_row list option \<Rightarrow> string \<Rightarrow> string \<Rightarrow> string \<Rightarrow> string + AgentScore list" where
  "scoreAgents arrays tbl queueName intent language =
     (case tbl of None \<Rightarrow> Inl ''query failed''
      | Some rows \<Rightarrow>
          let langLower = (if to_lower language = '''' then ''english'' else to_lower language) in
          Inr (exchange_sort (map (score_row (to_lower intent) langLower \<circ> scan_row arrays) (select_route_rows rows queueName))))"

definition RouteCall ::
  "bool \<Rightarrow> ((string \<times> string list) list option \<times> route_row list option) option \<Rightarrow> string \<Rightarrow> string
    \<Rightarrow> AgentScore option \<times> string \<times> string option" where
  "RouteCall arrays database intent language =
     (case database of None \<Rightarrow> (None, '''', None)
      | Some (qrows, arows) \<Rightarrow>
          let q0 = matchQueue qrows intent; queueName = (if q0 = '''' then ''Support'' else q0) in
          (case scoreAgents arrays arows queueName intent language of
             Inl err \<Rightarrow> (None, queueName, Some err)
           | Inr [] \<Rightarrow> (None, queueName, None)
           | Inr (a # _) \<Rightarrow> (Some a, queueName, None)))"

subsection \<open>Handlers\<close>

text \<open>
  A row of the queue listing: the columns, the skills as Postgres prints them, and the number
  of waiting entries; \<open>None\<close> a row that fails to scan and is skipped.
\<close>

definition Routing_handleListQueues ::
  "(string + (string \<times> string \<times> string \<times> string \<times> int \<times> string \<times> int) option list) option \<Rightarrow> QueueDef list response" where
  "Routing_handleListQueues rows =
     (case rows of None \<Rightarrow> WriteJSON 200 []
      | Some (Inl err) \<Rightarrow> HttpError 500 err
      | Some (Inr rs) \<Rightarrow>
          WriteJSON 200 (List.map_filter (map_option (\<lambda>(i, n, d, sk, mw, ov, c).
            \<lparr>qd_ID = i, qd_Name = n, qd_Description = d, qd_SkillsRequired = parsePostgresArray sk,
             qd_MaxWaitSeconds = mw, qd_OverflowQueue = ov, qd_CallerCount = c\<rparr>)) rs))"

type_synonym queues_table = "string \<rightharpoonup> QueueDef"

text \<open>
  \<open>INSERT ... ON CONFLICT (name) DO UPDATE SET description, skills_required\<close>: on conflict the
  wait limit and the overflow queue keep their old values.
\<close>

definition upsert_queue :: "string \<Rightarrow> QueueDef \<Rightarrow> queues_table \<Rightarrow> queues_table" where
  "upsert_queue new_id q tbl =
     (case tbl (qd_Name q) of
        None \<Rightarrow> tbl(qd_Name q \<mapsto> q\<lparr>qd_ID := new_id\<rparr>)
      | Some old \<Rightarrow> tbl(qd_Name q \<mapsto> old\<lparr>qd_Description := qd_Description q,
                                          qd_SkillsRequired := qd_SkillsRequired q\<rparr>))"

definition handleCreateQueue ::
  "bool \<Rightarrow> queues_table option \<Rightarrow> string + QueueDef \<Rightarrow> string \<Rightarrow> string option \<Rightarrow> queues_table option \<times> json_obj response" where
  "handleCreateQueue isPost tbl decoded new_id execErr =
     (if \<not> isPost then (tbl, HttpError 405 ''POST required'')
      else case tbl of
        None \<Rightarrow> (tbl, HttpError 503 ''database required'')
      | Some t \<Rightarrow>
          (case decoded of
             Inl err \<Rightarrow> (tbl, HttpError 400 err)
           | Inr q \<Rightarrow>
               (case execErr of
                  Some err \<Rightarrow> (tbl, HttpError 500 err)
                | None \<Rightarrow> (Some (upsert_queue new_id q t), WriteJSON 200 [(''status'', ''created'')]))))"

definition handleQueueAgents :: "bool \<Rightarrow> string \<Rightarrow> route_row list option option \<Rightarrow> AgentScore list response" where
  "handleQueueAgents arrays queueName database =
     (if queueName = '''' then HttpError 400 ''queue parameter required''
      else case database of
        None \<Rightarrow> WriteJSON 200 []
      | Some tbl \<Rightarrow>
          (case scoreAgents arrays tbl queueName '''' '''' of
             Inl err \<Rightarrow> HttpError 500 err
           | Inr agents \<Rightarrow> WriteJSON 200 agents))"

definition handleTestRouting ::
  "bool \<Rightarrow> bool \<Rightarrow> string \<times> string \<Rightarrow> ((string \<times> string list) list option \<times> route_row list option) option
    \<Rightarrow> (string \<times> AgentScore option) response" where
  "handleTestRouting arrays isPost body database =
     (if \<not> isPost then HttpError 405 ''POST required''
      else let (agent, queue, err) = RouteCall arrays database (fst body) (snd body) in
           case err of Some e \<Rightarrow> HttpError 500 e | None \<Rightarrow> WriteJSON 200 (queue, agent))"

subsection \<open>Lemmas: the exchange sort\<close>

lemma length_exchange_row [simp]: "length (exchange_row i j xs) = length xs"
  by (simp add: exchange_row_def)

lemma mset_exchange_row: "i < length xs \<Longrightarrow> j < length xs \<Longrightarrow> mset (exchange_row i j xs) = mset xs"
  by (simp add: exchange_row_def mset_swap)

definition settled :: "nat \<Rightarrow> AgentScore list \<Rightarrow> bool" where
  "settled i xs \<longleftrightarrow> (\<forall>p < i. \<forall>q < length xs. p < q \<longrightarrow> as_Score (xs ! q) \<le> as_Score (xs ! p))"

lemma exchange_fold:
  assumes "i < m" "m \<le> n" "n = length xs" "settled i xs"
    and "\<forall>q. i < q \<longrightarrow> q < m \<longrightarrow> as_Score (xs ! q) \<le> as_Score (xs ! i)"
  defines "ys \<equiv> fold (exchange_row i) [m..<n] xs"
  shows "length ys = n \<and> mset ys = mset xs \<and> settled (Suc i) ys"
  using assms(1-5) unfolding ys_def
proof (induction "n - m" arbitrary: m xs)
  case 0
  then show ?case by (auto simp: settled_def less_Suc_eq)
next
  case (Suc k)
  let ?xs = "exchange_row i m xs"
  have m: "m < n" "i < n" using Suc.hyps(2) Suc.prems by linarith+
  have up: "[m..<n] = m # [Suc m..<n]" using m by (simp add: upt_conv_Cons)
  have st: "settled i ?xs"
    using Suc.prems m by (auto simp: settled_def exchange_row_def nth_list_update)
  have mx: "\<forall>q. i < q \<longrightarrow> q < Suc m \<longrightarrow> as_Score (?xs ! q) \<le> as_Score (?xs ! i)"
    using Suc.prems m by (auto simp: exchange_row_def nth_list_update less_Suc_eq intro: order_trans less_imp_le)
  have "length (fold (exchange_row i) [Suc m..<n] ?xs) = n \<and>
        mset (fold (exchange_row i) [Suc m..<n] ?xs) = mset ?xs \<and>
        settled (Suc i) (fold (exchange_row i) [Suc m..<n] ?xs)"
    by (rule Suc.hyps(1)) (use Suc.hyps(2) Suc.prems m st mx in auto)
  then show ?case using up m Suc.prems mset_exchange_row [of i xs m] by simp
qed

lemma exchange_outer:
  assumes "settled i xs" "i \<le> length xs"
  defines "ys \<equiv> fold exchange_inner [i..<length xs] xs"
  shows "length ys = length xs \<and> mset ys = mset xs \<and> settled (length xs) ys"
  using assms(1,2) unfolding ys_def
proof (induction "length xs - i" arbitrary: i xs)
  case (Suc k)
  have i: "i < length xs" using Suc.hyps(2) by simp
  let ?ys = "exchange_inner i xs"
  have y: "length ?ys = length xs" "mset ?ys = mset xs" "settled (Suc i) ?ys"
    using exchange_fold [of i "i + 1" "length xs" xs] i Suc.prems(1) by (auto simp: exchange_inner_def)
  have "[i..<length xs] = i # [Suc i..<length ?ys]" using i y(1) by (simp add: upt_conv_Cons)
  then show ?case using Suc.hyps(1) [of ?ys "Suc i"] Suc.hyps(2) y i by simp
qed simp

interpretation exchange: ranking as_Score exchange_sort
proof
  fix xs :: "AgentScore list"
  have s: "length (exchange_sort xs) = length xs \<and> mset (exchange_sort xs) = mset xs
           \<and> settled (length xs) (exchange_sort xs)"
    using exchange_outer [of 0 xs] by (simp add: settled_def exchange_sort_def)
  then show "mset (exchange_sort xs) = mset xs" by simp
  show "sorted_wrt (\<lambda>a b. as_Score a \<ge> as_Score b) (exchange_sort xs)"
    using s by (auto simp: sorted_wrt_iff_nth_less settled_def)
qed

subsection \<open>Lemmas: queue choice\<close>

lemma match_rows_best:
  assumes "match_rows intentLower rows (b0, s0) = (b, sc)"
  shows "s0 \<le> sc \<and> (\<forall>(n, sk) \<in> set rows. skill_hits intentLower sk \<le> sc) \<and>
         ((b, sc) = (b0, s0) \<or> (\<exists>sk. (b, sk) \<in> set rows \<and> skill_hits intentLower sk = sc \<and> s0 < sc))"
  using assms
proof (induction intentLower rows "(b0, s0)" arbitrary: b0 s0 rule: match_rows.induct)
  case (2 intentLower name skills rows b0 s0)
  show ?case
  proof (cases "skill_hits intentLower skills > s0")
    case True
    with "2.hyps" [OF refl, of name "skill_hits intentLower skills"] "2.prems" show ?thesis by (auto simp: Let_def)
  next
    case False
    with "2.hyps" [OF refl, of b0 s0] "2.prems" show ?thesis by (auto simp: Let_def)
  qed
qed auto

subsection \<open>Properties\<close>

text \<open>
  the router returns the best agent. The agent it names comes from an Available row of the
  chosen queue with fewer calls than its limit, and scores at least as high as every other such
  row; the exchange sort behind it is a correct descending sort.
\<close>

theorem RouteCall_best:
  assumes "RouteCall arrays (Some (qrows, Some tbl)) intent language = (Some a, queue, err)"
  defines "sc \<equiv> score_row (to_lower intent) (if to_lower language = '''' then ''english'' else to_lower language) \<circ> scan_row arrays"
    and "avail \<equiv> {r \<in> set tbl. queue \<in> set (rr_queues r) \<and> rr_status r = ''Available'' \<and> rr_current_calls r < rr_max_calls r}"
  shows "err = None \<and> (\<exists>r \<in> avail. a = sc r) \<and> (\<forall>r \<in> avail. as_Score (sc r) \<le> as_Score a)"
proof -
  let ?xs = "map sc (select_route_rows tbl queue)"
  have x: "set (select_route_rows tbl queue) = avail"
    by (auto simp: select_route_rows_def avail_def)
  obtain as where r: "exchange_sort ?xs = a # as" "err = None"
    using assms(1) unfolding RouteCall_def scoreAgents_def sc_def Let_def
    by (auto split: list.splits if_splits)
  then have ne: "?xs \<noteq> []" using exchange.rank_Nil_iff [of ?xs] by auto
  from exchange.rank_hd [OF ne] r show ?thesis by (auto simp: x)
qed

theorem RouteCall_best_witness:
  "\<exists>a. RouteCall True (Some (None, Some [\<lparr>rr_id = ''1'', rr_name = ''Ann'', rr_extension = None, rr_expertise = [],
      rr_languages = [], rr_priority = 2, rr_current_calls = 0, rr_max_calls = 3, rr_status = ''Available'',
      rr_queues = [''Support'']\<rparr>])) ''refund'' '''' = (Some a, ''Support'', None) \<and> as_Score a \<ge> 10"
proof -
  let ?r = "\<lparr>rr_id = ''1'', rr_name = ''Ann'', rr_extension = None, rr_expertise = [],
      rr_languages = [], rr_priority = 2, rr_current_calls = 0, rr_max_calls = 3, rr_status = ''Available'',
      rr_queues = [''Support'']\<rparr>"
  obtain a where a: "RouteCall True (Some (None, Some [?r])) ''refund'' '''' = (Some a, ''Support'', None)"
    by (simp add: RouteCall_def scoreAgents_def matchQueue_def select_route_rows_def exchange_sort_def
        exchange_inner_def to_lower_def Let_def)
  from RouteCall_best [OF a] show ?thesis
    using a by (auto simp: score_row_def scan_row_def Let_def)
qed

text \<open>
  the queue chosen for an intent has the most skills mentioned in it; an intent that
  mentions no queue's skill, or a failing query, goes to Support.
\<close>

theorem matchQueue_best:
  "\<exists>n. (\<forall>(name, sk) \<in> set rs. skill_hits (to_lower intent) sk \<le> n) \<and>
       (if n = 0 then matchQueue (Some rs) intent = ''Support''
        else \<exists>sk. (matchQueue (Some rs) intent, sk) \<in> set rs \<and> skill_hits (to_lower intent) sk = n)"
proof -
  obtain b sc where m: "match_rows (to_lower intent) (sort_key fst rs) (''Support'', 0) = (b, sc)"
    by (cases "match_rows (to_lower intent) (sort_key fst rs) (''Support'', 0)")
  from match_rows_best [OF this] show ?thesis
    by (intro exI [of _ sc]) (auto simp: matchQueue_def m)
qed

theorem matchQueue_best_witness:
  "\<exists>n. skill_hits (to_lower ''Refund please'') [''refund''] \<le> n \<and>
     matchQueue (Some [(''Billing'', [''refund''])]) ''Refund please'' = (if n = 0 then ''Support'' else ''Billing'')"
proof -
  obtain n where "\<forall>(name, sk) \<in> set [(''Billing'', [''refund''])]. skill_hits (to_lower ''Refund please'') sk \<le> n"
    "if n = 0 then matchQueue (Some [(''Billing'', [''refund''])]) ''Refund please'' = ''Support''
     else \<exists>sk. (matchQueue (Some [(''Billing'', [''refund''])]) ''Refund please'', sk) \<in> set [(''Billing'', [''refund''])]
        \<and> skill_hits (to_lower ''Refund please'') sk = n"
    using matchQueue_best [of "[(''Billing'', [''refund''])]" "''Refund please''"] by (elim exE conjE)
  then show ?thesis by (intro exI [of _ n]) (cases "n = 0"; simp)
qed

text \<open>
  parsing what Postgres prints for an array of words gives the words back, for words that
  are not empty, hold no comma or double quote and do not start or end with white space.
\<close>

theorem parsePostgresArray_roundtrip:
  assumes "\<forall>w \<in> set ws. w \<noteq> '''' \<and> CHR '','' \<notin> set w \<and> CHR 0x22 \<notin> set w \<and> \<not> is_space (hd w) \<and> \<not> is_space (last w)"
  shows "parsePostgresArray (arrayToPostgres ws) = ws"
proof (cases "ws = []")
  case True
  then show ?thesis
    by (simp add: parsePostgresArray_def arrayToPostgres_def trim_space_def trim_by_def trim_left_def
        trim_right_def is_space_def)
next
  case False
  let ?s = "arrayToPostgres ws"
  have t: "trim_space ?s = ?s"
    unfolding trim_space_def by (rule trim_by_id) (simp_all add: arrayToPostgres_def is_space_def)
  have j: "join ws '','' \<noteq> ''''"
    using assms False by (cases ws rule: remdups_adj.cases) auto
  have "trim_suffix (trim_prefix ?s ''{'') ''}'' = join ws '',''"
    by (simp add: arrayToPostgres_def trim_prefix_def has_prefix_def)
  moreover have "split_on (CHR '','') (join ws '','') = ws"
    by (rule split_on_join) (use assms False in auto)
  moreover have "?s \<noteq> ''{}''" "?s \<noteq> '''' " "?s \<noteq> ''NULL''"
    using j by (auto simp: arrayToPostgres_def)
  moreover have "map (\<lambda>p. trim_cutset (trim_space p) [CHR 0x22]) ws = ws"
  proof (rule map_idI)
    fix w assume w: "w \<in> set ws"
    have "trim_space w = w" unfolding trim_space_def by (rule trim_by_id) (use assms w in auto)
    moreover have "trim_cutset w [CHR 0x22] = w"
      unfolding trim_cutset_def by (rule trim_by_no_hits) (use assms w in auto)
    ultimately show "trim_cutset (trim_space w) [CHR 0x22] = w" by simp
  qed
  ultimately show ?thesis
    using assms by (auto simp: parsePostgresArray_def t Let_def filter_id_conv)
qed

theorem parsePostgresArray_roundtrip_witness:
  "parsePostgresArray (arrayToPostgres [''sales'', ''up sell'']) = [''sales'', ''up sell'']"
  by (rule parsePostgresArray_roundtrip) (simp add: is_space_def)

end
