(* ===== verification/Did_Routing.thy ===== *)
theory Did_Routing
  imports Prelude "HOL-Library.List_Lexorder" "HOL-Library.Char_ord"
begin

text \<open>
  Inbound number routing, \<open>gateway/did_routing.go\<close>. The table \<open>did_routes\<close> is a list of rows
  in arbitrary order; the router's cache is what \<open>loadRoutes\<close> read last. Parameters: \<open>compile\<close>,
  the regular-expression library (\<open>None\<close> for a pattern that does not compile), and
  \<open>unmarshal\<close>, the JSON decoder of a time condition (\<open>None\<close> on an error). The clock is today's
  index from Monday and the time as the text \<open>now.Format("15:04")\<close>; strings compare bytewise.
\<close>

subsection \<open>Data\<close>

record DIDRoute =
  rt_ID :: string
  DIDPattern :: string
  MatchType :: string
  TrunkID :: "string option"
  DestinationType :: string
  DestinationValue :: string
  rt_Priority :: int
  TimeCondition :: string
  OverflowDestination :: string
  IvrID :: "string option"
  Enabled :: bool
  CreatedAt :: string

record DIDRouter =
  did_db :: "DIDRoute list option"
  did_routes :: "DIDRoute list"

record time_cond =
  Days :: string
  Start :: string
  End :: string

subsection \<open>Loading\<close>

definition select_routes :: "DIDRoute list \<Rightarrow> DIDRoute list" where
  "select_routes tbl = sort_key (\<lambda>r. - rt_Priority r) (sort_key CreatedAt (filter Enabled tbl))"

text \<open>\<open>queryOk\<close> is false when the query fails: the cache is then kept.\<close>

definition loadRoutes :: "bool \<Rightarrow> DIDRouter \<Rightarrow> DIDRouter" where
  "loadRoutes queryOk r =
     (case did_db r of
        Some tbl \<Rightarrow> if queryOk then r\<lparr>did_routes := select_routes tbl\<rparr> else r
      | None \<Rightarrow> r)"

definition NewDIDRouter :: "bool \<Rightarrow> DIDRoute list option \<Rightarrow> DIDRouter" where
  "NewDIDRouter queryOk d = loadRoutes queryOk \<lparr>did_db = d, did_routes = []\<rparr>"

subsection \<open>Matching\<close>

definition matchPattern :: "(string \<Rightarrow> (string \<Rightarrow> bool) option) \<Rightarrow> string \<Rightarrow> string \<Rightarrow> string \<Rightarrow> bool" where
  "matchPattern compile number pattern matchType =
     (if matchType = ''exact'' then number = pattern
      else if matchType = ''prefix'' then
        (if pattern = ''*'' then True else has_prefix number (trim_suffix pattern ''*''))
      else if matchType = ''regex'' then
        (case compile pattern of None \<Rightarrow> False | Some re \<Rightarrow> re number)
      else number = pattern)"

definition dayOrder :: "string list" where
  "dayOrder = [''mon'', ''tue'', ''wed'', ''thu'', ''fri'', ''sat'', ''sun'']"

text \<open>The loop that looks a day up in \<open>dayOrder\<close>; \<open>-1\<close> when it is not a day's name.\<close>

definition day_index :: "string \<Rightarrow> int" where
  "day_index d = fold (\<lambda>i k. if dayOrder ! i = d then int i else k) [0..<7] (- 1)"

definition dayMatch :: "string \<Rightarrow> nat \<Rightarrow> bool" where
  "dayMatch days today =
     (if str_contains days ''-'' then
        let parts = split_n2 days ''-'';
            startIdx = day_index (parts ! 0); endIdx = day_index (parts ! 1); todayIdx = day_index (dayOrder ! today)
        in todayIdx \<ge> startIdx \<and> todayIdx \<le> endIdx
      else \<exists>d \<in> set (split_on (CHR '','') days). trim_space d = dayOrder ! today)"

definition matchTimeCondition ::
  "(string \<Rightarrow> time_cond option) \<Rightarrow> nat \<Rightarrow> string \<Rightarrow> string \<Rightarrow> bool" where
  "matchTimeCondition unmarshal today nowTime condJSON =
     (case unmarshal condJSON of
        None \<Rightarrow> True
      | Some cond \<Rightarrow>
          if Days cond \<noteq> '''' \<and> \<not> dayMatch (Days cond) today then False
          else if Start cond \<noteq> '''' \<and> End cond \<noteq> '''' \<and> (nowTime < Start cond \<or> nowTime \<ge> End cond) then False
          else True)"

definition route_matches ::
  "(string \<Rightarrow> (string \<Rightarrow> bool) option) \<Rightarrow> (string \<Rightarrow> time_cond option) \<Rightarrow> nat \<Rightarrow> string
    \<Rightarrow> string \<Rightarrow> string \<Rightarrow> DIDRoute \<Rightarrow> bool" where
  "route_matches compile unmarshal today nowTime dialed trunk rt \<longleftrightarrow>
     \<not> (TrunkID rt \<noteq> None \<and> TrunkID rt \<noteq> Some trunk) \<and>
     \<not> (TimeCondition rt \<noteq> '''' \<and> \<not> matchTimeCondition unmarshal today nowTime (TimeCondition rt)) \<and>
     matchPattern compile dialed (DIDPattern rt) (MatchType rt)"

definition route_result :: "DIDRoute \<Rightarrow> string \<times> string \<times> string \<times> string" where
  "route_result rt =
     (DestinationType rt, DestinationValue rt, OverflowDestination rt,
      case IvrID rt of None \<Rightarrow> '''' | Some i \<Rightarrow> i)"

definition MatchDID ::
  "(string \<Rightarrow> (string \<Rightarrow> bool) option) \<Rightarrow> (string \<Rightarrow> time_cond option) \<Rightarrow> nat \<Rightarrow> string
    \<Rightarrow> DIDRouter \<Rightarrow> string \<Rightarrow> string \<Rightarrow> string \<times> string \<times> string \<times> string" where
  "MatchDID compile unmarshal today nowTime r dialedNumber trunk =
     (case find (route_matches compile unmarshal today nowTime (trim_space dialedNumber) trunk) (did_routes r) of
        Some rt \<Rightarrow> route_result rt
      | None \<Rightarrow> ('''', '''', '''', ''''))"

subsection \<open>The HTTP handler\<close>

datatype did_request = GET | POST "DIDRoute option" | DELETE string | OtherMethod

datatype did_body = Routes "DIDRoute list" | Fields json_obj

text \<open>
  \<open>insertRes\<close> is the outcome of the INSERT: an error or the new row's id and time stamp. A new
  row is always stored enabled and, since the statement does not name \<open>ivr_id\<close>, without an IVR.
\<close>

definition handleDIDs ::
  "bool \<Rightarrow> string + (string \<times> string) \<Rightarrow> did_request \<Rightarrow> DIDRouter \<Rightarrow> DIDRouter \<times> did_body response" where
  "handleDIDs queryOk insertRes req r =
     (case req of
        GET \<Rightarrow> (r, WriteJSON 200 (Routes (did_routes r)))
      | POST None \<Rightarrow> (r, HttpError 400 ''{\"error\":\"invalid JSON\"}'')
      | POST (Some rt0) \<Rightarrow>
          if DIDPattern rt0 = '''' \<or> DestinationType rt0 = '''' \<or> DestinationValue rt0 = ''''
          then (r, HttpError 400 ''{\"error\":\"did_pattern, destination_type, destination_value required\"}'')
          else
            let rt = (if MatchType rt0 = '''' then rt0\<lparr>MatchType := ''exact''\<rparr> else rt0) in
            (case did_db r of
               None \<Rightarrow> (r, WriteJSON 200 (Fields [(''id'', ''no-db''), (''status'', ''created'')]))
             | Some tbl \<Rightarrow>
                 (case insertRes of
                    Inl err \<Rightarrow> (r, WriteJSON 500 (Fields [(''error'', err)]))
                  | Inr (newId, created) \<Rightarrow>
                      let row = rt\<lparr>rt_ID := newId, CreatedAt := created, Enabled := True, IvrID := None\<rparr> in
                      (loadRoutes queryOk (r\<lparr>did_db := Some (tbl @ [row])\<rparr>),
                       WriteJSON 201 (Fields [(''id'', newId), (''status'', ''created'')]))))
      | DELETE i \<Rightarrow>
          if i = '''' then (r, HttpError 400 ''{\"error\":\"id required\"}'')
          else
            ((case did_db r of
                None \<Rightarrow> r
              | Some tbl \<Rightarrow> loadRoutes queryOk (r\<lparr>did_db := Some (filter (\<lambda>rt. rt_ID rt \<noteq> i) tbl)\<rparr>)),
             WriteJSON 200 (Fields [(''status'', ''deleted'')]))
      | OtherMethod \<Rightarrow> (r, HttpError 405 ''method not allowed''))"

fun handle_all :: "(string + (string \<times> string)) list \<Rightarrow> did_request list \<Rightarrow> DIDRouter \<Rightarrow> DIDRouter" where
  "handle_all (i # is) (q # qs) r = handle_all is qs (fst (handleDIDs True i q r))"
| "handle_all _ _ r = r"

subsection \<open>Lemmas\<close>

definition coherent :: "DIDRouter \<Rightarrow> bool" where
  "coherent r \<longleftrightarrow> (case did_db r of None \<Rightarrow> did_routes r = [] | Some tbl \<Rightarrow> did_routes r = select_routes tbl)"

lemma coherent_handle: "coherent r \<Longrightarrow> coherent (fst (handleDIDs True i q r))"
  by (auto simp: coherent_def handleDIDs_def loadRoutes_def Let_def split: did_request.splits option.splits sum.splits)

lemma coherent_handle_all: "coherent r \<Longrightarrow> coherent (handle_all is qs r)"
  by (induction "is" qs r rule: handle_all.induct) (auto intro: coherent_handle)

lemma set_select_routes: "set (select_routes tbl) = {r \<in> set tbl. Enabled r}"
  by (auto simp: select_routes_def)

lemma sorted_select_routes:
  "sorted_wrt (\<lambda>a b. rt_Priority a \<ge> rt_Priority b \<and> (rt_Priority a = rt_Priority b \<longrightarrow> CreatedAt a \<le> CreatedAt b))
     (select_routes tbl)"
proof -
  let ?xs = "sort_key CreatedAt (filter Enabled tbl)"
  have p: "sorted_wrt (\<lambda>a b. rt_Priority a \<ge> rt_Priority b) (select_routes tbl)"
    using sorted_sort_key [of "\<lambda>r. - rt_Priority r" ?xs] by (simp add: select_routes_def sorted_wrt_map)
  have "filter (\<lambda>r. - rt_Priority r = k) (select_routes tbl) = filter (\<lambda>r. - rt_Priority r = k) ?xs" for k
    unfolding select_routes_def by (rule sort_key_stable)
  then have c: "sorted_wrt (\<lambda>a b. CreatedAt a \<le> CreatedAt b) (filter (\<lambda>r. - rt_Priority r = k) (select_routes tbl))" for k
    using sorted_sort_key [of CreatedAt "filter Enabled tbl"]
    by (simp add: sorted_wrt_filter sorted_map sorted_wrt_map)
  show ?thesis
    unfolding sorted_wrt_iff_nth_less
  proof (intro allI impI)
    fix i j assume ij: "i < j" "j < length (select_routes tbl)"
    let ?a = "select_routes tbl ! i" and ?b = "select_routes tbl ! j"
    have "rt_Priority ?a \<ge> rt_Priority ?b" using p ij by (auto simp: sorted_wrt_iff_nth_less)
    moreover have "CreatedAt ?a \<le> CreatedAt ?b" if "rt_Priority ?a = rt_Priority ?b"
    proof -
      let ?L = "select_routes tbl" and ?P = "\<lambda>r. - rt_Priority r = - rt_Priority ?a"
      have split: "?L = take j ?L @ drop j ?L" by simp
      have "?a \<in> set (filter ?P (take j ?L))" using ij by (force simp: in_set_conv_nth)
      moreover have "?b \<in> set (filter ?P (drop j ?L))"
        using ij that by (simp flip: Cons_nth_drop_Suc)
      moreover have "sorted_wrt (\<lambda>a b. CreatedAt a \<le> CreatedAt b) (filter ?P (take j ?L) @ filter ?P (drop j ?L))"
        using c [of "- rt_Priority ?a"] by (simp flip: filter_append)
      ultimately show ?thesis by (auto simp: sorted_wrt_append)
    qed
    ultimately show "rt_Priority ?b \<le> rt_Priority ?a \<and> (rt_Priority ?a = rt_Priority ?b \<longrightarrow> CreatedAt ?a \<le> CreatedAt ?b)"
      by blast
  qed
qed

lemma find_sorted_wrt:
  assumes "sorted_wrt R xs" "find P xs = Some x" "y \<in> set xs" "P y" "y \<noteq> x"
  shows "R x y"
  using assms by (induction xs) (auto split: if_splits)

lemma day_index_range: "- 1 \<le> day_index d \<and> day_index d < 7"
  by (simp add: day_index_def upt_rec)

lemma day_index_dayOrder: "t < 7 \<Longrightarrow> day_index (dayOrder ! t) = int t"
proof -
  assume "t < 7"
  then have "t \<in> {0, 1, 2, 3, 4, 5, 6}" by auto
  then show ?thesis by (elim insertE emptyE) (simp_all add: day_index_def upt_rec dayOrder_def)
qed

lemma dayMatch_range:
  assumes "CHR ''-'' \<notin> set a" "t < 7"
  shows "dayMatch (a @ ''-'' @ b) t \<longleftrightarrow> day_index a \<le> int t \<and> int t \<le> day_index b"
proof -
  have "str_contains (a @ ''-'' @ b) ''-''" by (rule str_contains_append)
  moreover have "str_index (a @ ''-'' @ b) ''-'' = Some (length a)"
  proof -
    have "takeWhile (\<lambda>c. c \<noteq> CHR ''-'') (a @ CHR ''-'' # b) = a"
      using assms(1) by (subst takeWhile_append2) auto
    then show ?thesis by (simp add: str_index_single)
  qed
  ultimately show ?thesis
    using day_index_dayOrder [OF assms(2)] by (simp add: dayMatch_def split_n2_def Let_def)
qed

subsection \<open>Properties\<close>

text \<open>
  C9: after any sequence of API requests (with the reload query succeeding) the cache the calls
  are routed from is exactly the enabled rows of the table, and a dialed number goes to the
  matching route of highest priority, the oldest among equals; with no matching route the
  destination is empty.
\<close>

theorem MatchDID_best:
  fixes compile unmarshal today nowTime dialed trunk
  assumes "coherent r0" "did_db (handle_all is reqs r0) = Some tbl"
  defines "ok \<equiv> route_matches compile unmarshal today nowTime (trim_space dialed) trunk"
    and "res \<equiv> MatchDID compile unmarshal today nowTime (handle_all is reqs r0) dialed trunk"
  shows "((\<forall>rt \<in> set tbl. Enabled rt \<longrightarrow> \<not> ok rt) \<and> res = ('''', '''', '''', '''')) \<or>
         (\<exists>rt \<in> set tbl. Enabled rt \<and> ok rt \<and> res = route_result rt \<and>
            (\<forall>r' \<in> set tbl. Enabled r' \<longrightarrow> ok r' \<longrightarrow> rt_Priority r' \<le> rt_Priority rt \<and>
               (rt_Priority r' = rt_Priority rt \<longrightarrow> CreatedAt rt \<le> CreatedAt r')))"
proof -
  let ?r = "handle_all is reqs r0"
  have routes: "did_routes ?r = select_routes tbl"
    using coherent_handle_all [OF assms(1), of "is" reqs] assms(2) by (simp add: coherent_def)
  show ?thesis
  proof (cases "find ok (select_routes tbl)")
    case None
    then have "res = ('''', '''', '''', '''')" unfolding res_def ok_def by (simp add: MatchDID_def routes)
    with None show ?thesis by (auto simp: find_None_iff set_select_routes)
  next
    case (Some rt)
    then have rt: "rt \<in> set (select_routes tbl)" "ok rt" by (auto simp: find_Some_iff)
    have "rt_Priority r' \<le> rt_Priority rt \<and> (rt_Priority r' = rt_Priority rt \<longrightarrow> CreatedAt rt \<le> CreatedAt r')"
      if "r' \<in> set tbl" "Enabled r'" "ok r'" for r'
      using find_sorted_wrt [OF sorted_select_routes Some, of r'] that
      by (cases "r' = rt") (auto simp: set_select_routes)
    moreover have "res = route_result rt" using Some unfolding res_def ok_def by (simp add: MatchDID_def routes)
    ultimately show ?thesis using rt by (auto simp: set_select_routes)
  qed
qed

definition example_route :: "string \<Rightarrow> int \<Rightarrow> DIDRoute" where
  "example_route pat pr = \<lparr>rt_ID = '''', DIDPattern = pat, MatchType = ''prefix'', TrunkID = None,
     DestinationType = ''queue'', DestinationValue = ''Sales'', rt_Priority = pr, TimeCondition = '''',
     OverflowDestination = '''', IvrID = None, Enabled = True, CreatedAt = ''''\<rparr>"

theorem MatchDID_best_witness:
  "MatchDID (\<lambda>_. None) (\<lambda>_. None) 0 ''12:00''
     (handle_all [Inr (''r1'', ''2024'')] [POST (Some (example_route ''+1*'' 5))] \<lparr>did_db = Some [], did_routes = []\<rparr>)
     '' +1555 '' ''t'' = (''queue'', ''Sales'', '''', '''')"
proof -
  let ?r0 = "\<lparr>did_db = Some [], did_routes = []\<rparr>"
  let ?is = "[Inr (''r1'', ''2024'')]" and ?q = "[POST (Some (example_route ''+1*'' 5))]"
  let ?row = "(example_route ''+1*'' 5)\<lparr>rt_ID := ''r1'', CreatedAt := ''2024'', IvrID := None\<rparr>"
  have 1: "coherent ?r0" by (simp add: coherent_def select_routes_def)
  have 2: "did_db (handle_all ?is ?q ?r0) = Some [?row]"
    by (simp add: handleDIDs_def loadRoutes_def example_route_def Let_def)
  have 3: "trim_space '' +1555 '' = ''+1555''"
    by (simp add: trim_space_def trim_by_def trim_left_def trim_right_def is_space_def)
  have 4: "route_matches (\<lambda>_. None) (\<lambda>_. None) 0 ''12:00'' ''+1555'' ''t'' ?row"
    by (simp add: route_matches_def matchPattern_def example_route_def trim_suffix_def has_suffix_def has_prefix_def)
  have 5: "Enabled ?row" "route_result ?row = (''queue'', ''Sales'', '''', '''')"
    by (simp_all add: example_route_def route_result_def)
  show ?thesis
    using MatchDID_best [OF 1 2, of "\<lambda>_. None" "\<lambda>_. None" 0 "''12:00''" "'' +1555 ''" "''t''"]
    by (simp only: 3) (use 4 5 in auto)
qed

text \<open>
  a day range that wraps round the week, such as \<open>sat-mon\<close>, and a window that wraps round
  midnight, such as 22:00 to 06:00, match at no time at all.
\<close>

theorem wrapping_condition_never_matches:
  assumes "unmarshal cj = Some \<lparr>Days = a @ ''-'' @ b, Start = s, End = e\<rparr>" "CHR ''-'' \<notin> set a" "today < 7"
    and "day_index b < day_index a \<or> (s \<noteq> '''' \<and> e \<noteq> '''' \<and> e \<le> s)"
  shows "\<not> matchTimeCondition unmarshal today nowTime cj"
  using assms dayMatch_range [OF assms(2,3), of b]
  by (auto simp: matchTimeCondition_def not_less)

theorem wrapping_condition_never_matches_witness:
  "\<not> matchTimeCondition (\<lambda>_. Some \<lparr>Days = ''sat-mon'', Start = '''', End = ''''\<rparr>) 6 ''12:00'' ''{}''"
  using wrapping_condition_never_matches [of "\<lambda>_. Some \<lparr>Days = ''sat-mon'', Start = '''', End = ''''\<rparr>" "''{}''"
      "''sat''" "''mon''" "''''" "''''" 6 "''12:00''"]
  by (simp add: day_index_def upt_rec dayOrder_def)

text \<open>
  a day range in the order of the week matches exactly the days from its first to its last.
\<close>

theorem day_range_spec:
  assumes "i < 7" "j < 7" "t < 7" "i \<le> j"
  shows "dayMatch (dayOrder ! i @ ''-'' @ dayOrder ! j) t \<longleftrightarrow> i \<le> t \<and> t \<le> j"
proof -
  have "i \<in> {0, 1, 2, 3, 4, 5, 6}" using assms(1) by auto
  then have "CHR ''-'' \<notin> set (dayOrder ! i)"
    by (elim insertE emptyE) (simp_all add: dayOrder_def)
  from dayMatch_range [OF this assms(3)] show ?thesis
    using assms by (simp add: day_index_dayOrder)
qed

theorem day_range_spec_witness:
  "dayMatch (dayOrder ! 0 @ ''-'' @ dayOrder ! 4) 2 \<and> \<not> dayMatch (dayOrder ! 0 @ ''-'' @ dayOrder ! 4) 5"
  using day_range_spec [of 0 4 2] day_range_spec [of 0 4 5] by simp

end
