(* ===== verification/Sip_Security.thy ===== *)
theory Sip_Security
  imports Prelude
begin

text \<open>
  SIP trunk security, \<open>gateway/sip_security.go\<close>: access by source address, security policies,
  the digest challenge and its nonces. Addresses are IPv4 (\<open>net.ParseIP\<close>, \<open>net.ParseCIDR\<close> and
  \<open>SplitHostPort\<close> are modelled for dotted quads; an IPv6 source is outside the model). A SIP
  request is the part of it the code reads. Random nonces are arguments. The security log is a
  list of events, returned beside the result. bcrypt and the loading of TLS certificates are
  calls into libraries and not modelled.
\<close>

subsection \<open>IPv4 addresses\<close>

definition dec_value :: "string \<Rightarrow> nat" where
  "dec_value s = fold (\<lambda>c n. 10 * n + (of_char c - 48)) s 0"

text \<open>One field of a dotted quad: one to three digits, no leading zero, at most 255.\<close>

definition quad_field :: "string \<Rightarrow> nat option" where
  "quad_field s =
     (if s \<noteq> '''' \<and> length s \<le> 3 \<and> list_all is_digit s \<and> (length s > 1 \<longrightarrow> hd s \<noteq> CHR ''0'') \<and> dec_value s \<le> 255
      then Some (dec_value s) else None)"

definition ParseIP :: "string \<Rightarrow> 32 word option" where
  "ParseIP s =
     (case map quad_field (split_on (CHR ''.'') s) of
        [Some a, Some b, Some c, Some d] \<Rightarrow> Some (word_of_nat (((a * 256 + b) * 256 + c) * 256 + d))
      | _ \<Rightarrow> None)"

record IPNet =
  net_ip :: "32 word"
  net_bits :: nat

definition ParseCIDR :: "string \<Rightarrow> int \<Rightarrow> IPNet option" where
  "ParseCIDR s bits =
     (case ParseIP s of None \<Rightarrow> None
      | Some ip \<Rightarrow> if 0 \<le> bits \<and> bits \<le> 32 then Some \<lparr>net_ip = ip, net_bits = nat bits\<rparr> else None)"

definition Contains :: "IPNet \<Rightarrow> 32 word \<Rightarrow> bool" where
  "Contains n ip \<longleftrightarrow> drop_bit (32 - net_bits n) ip = drop_bit (32 - net_bits n) (net_ip n)"

subsection \<open>State\<close>

record sipTrunkEntry =
  t_ID :: string
  t_Name :: string
  t_Address :: string
  t_Port :: int
  TrunkType :: string
  AuthRealm :: string
  AuthUser :: string
  AuthPassHash :: string
  TLSEnabled :: bool
  SRTPEnabled :: bool
  SecurityPolicy :: string

record aclEntry =
  acl_TrunkID :: string
  IPAddress :: string
  CIDRBits :: int
  network :: "IPNet option"

record nonceEntry =
  n_value :: string
  n_trunkID :: string
  n_created :: instant

record SIPSecurity =
  ss_db :: bool
  trunks :: "sipTrunkEntry list"
  acls :: "aclEntry list"
  nonces :: "string \<rightharpoonup> nonceEntry"

record sip_request =
  source :: string
  via_host :: "string option"
  call_id :: string
  authorization :: "string option"

type_synonym security_event = "string \<times> string \<times> string"

text \<open>The rows of the two tables, as the queries deliver them (NULLs already replaced).\<close>

definition loadTrunks :: "(sipTrunkEntry \<times> string) list option \<Rightarrow> SIPSecurity \<Rightarrow> SIPSecurity" where
  "loadTrunks rows ss =
     (if \<not> ss_db ss then ss
      else case rows of None \<Rightarrow> ss
      | Some rs \<Rightarrow> ss\<lparr>trunks := map fst (filter (\<lambda>r. snd r = ''active'') rs)\<rparr>)"

definition loadACLs :: "(string \<times> string \<times> int) list option \<Rightarrow> SIPSecurity \<Rightarrow> SIPSecurity" where
  "loadACLs rows ss =
     (if \<not> ss_db ss then ss
      else case rows of None \<Rightarrow> ss
      | Some rs \<Rightarrow> ss\<lparr>acls := map (\<lambda>(t, ip, bits). \<lparr>acl_TrunkID = t, IPAddress = ip, CIDRBits = bits,
                                                    network = ParseCIDR ip bits\<rparr>) rs\<rparr>)"

definition NewSIPSecurity ::
  "bool \<Rightarrow> (sipTrunkEntry \<times> string) list option \<Rightarrow> (string \<times> string \<times> int) list option \<Rightarrow> SIPSecurity" where
  "NewSIPSecurity hasdb trows arows =
     (let ss = \<lparr>ss_db = hasdb, trunks = [], acls = [], nonces = Map.empty\<rparr> in
      if hasdb then loadACLs arows (loadTrunks trows ss) else ss)"

definition Security_Reload ::
  "(sipTrunkEntry \<times> string) list option \<Rightarrow> (string \<times> string \<times> int) list option \<Rightarrow> SIPSecurity \<Rightarrow> SIPSecurity" where
  "Security_Reload trows arows ss = loadACLs arows (loadTrunks trows ss)"

subsection \<open>Matching the source address\<close>

definition SplitHostPort :: "string \<Rightarrow> (string \<times> string) option" where
  "SplitHostPort s = (case split_on (CHR '':'') s of [h, p] \<Rightarrow> Some (h, p) | _ \<Rightarrow> None)"

definition extractSourceIP :: "sip_request \<Rightarrow> string" where
  "extractSourceIP req =
     (if source req = '''' then (case via_host req of Some h \<Rightarrow> h | None \<Rightarrow> '''')
      else case SplitHostPort (source req) of None \<Rightarrow> source req | Some (host, _) \<Rightarrow> host)"

definition trunk_by_id :: "string \<Rightarrow> sipTrunkEntry list \<Rightarrow> sipTrunkEntry option" where
  "trunk_by_id i ts = find (\<lambda>t. t_ID t = i) ts"

fun scan_acls :: "32 word \<Rightarrow> string \<Rightarrow> sipTrunkEntry list \<Rightarrow> aclEntry list \<Rightarrow> sipTrunkEntry option" where
  "scan_acls ip sourceIP ts [] = None"
| "scan_acls ip sourceIP ts (acl # rest) =
     (let hit = (case network acl of Some n \<Rightarrow> Contains n ip | None \<Rightarrow> False) \<or> IPAddress acl = sourceIP in
      case (if hit then trunk_by_id (acl_TrunkID acl) ts else None) of
        Some t \<Rightarrow> Some t
      | None \<Rightarrow> scan_acls ip sourceIP ts rest)"

definition findTrunkByIP :: "string \<Rightarrow> sipTrunkEntry list \<Rightarrow> aclEntry list \<Rightarrow> sipTrunkEntry option" where
  "findTrunkByIP sourceIP ts as =
     (case ParseIP sourceIP of None \<Rightarrow> None
      | Some ip \<Rightarrow>
          (case scan_acls ip sourceIP ts as of
             Some t \<Rightarrow> Some t
           | None \<Rightarrow> find (\<lambda>t. t_Address t = sourceIP) ts))"

subsection \<open>Digest\<close>

definition digest_part :: "string \<Rightarrow> (string \<times> string) option" where
  "digest_part part0 =
     (let part = trim_space part0 in
      case str_index part ''='' of
        None \<Rightarrow> None
      | Some eq \<Rightarrow> Some (trim_space (take eq part), trim_cutset (trim_space (drop (eq + 1) part)) [CHR 0x22]))"

definition parseDigestParams :: "string \<Rightarrow> string \<rightharpoonup> string" where
  "parseDigestParams auth =
     fold (\<lambda>part m. case digest_part part of None \<Rightarrow> m | Some (k, v) \<Rightarrow> m(k \<mapsto> v))
       (split_on (CHR '','') (trim_prefix auth ''Digest '')) Map.empty"

definition param :: "(string \<rightharpoonup> string) \<Rightarrow> string \<Rightarrow> string" where
  "param m k = (case m k of None \<Rightarrow> '''' | Some v \<Rightarrow> v)"

definition generateNonce :: "string \<Rightarrow> instant \<Rightarrow> string \<Rightarrow> SIPSecurity \<Rightarrow> SIPSecurity" where
  "generateNonce fresh now trunkID ss =
     ss\<lparr>nonces := (nonces ss)(fresh \<mapsto> \<lparr>n_value = fresh, n_trunkID = trunkID, n_created = now\<rparr>)\<rparr>"

definition cleanupNonces :: "instant \<Rightarrow> SIPSecurity \<Rightarrow> SIPSecurity" where
  "cleanupNonces now ss =
     ss\<lparr>nonces := (\<lambda>k. case nonces ss k of None \<Rightarrow> None
        | Some v \<Rightarrow> if since now (n_created v) > 60 * second then None else Some v)\<rparr>"

type_synonym auth_result = "sipTrunkEntry option \<times> int \<times> string"

definition digestAuth ::
  "string \<Rightarrow> instant \<Rightarrow> sip_request \<Rightarrow> sipTrunkEntry \<Rightarrow> SIPSecurity \<Rightarrow> SIPSecurity \<times> security_event list \<times> auth_result" where
  "digestAuth fresh now req trunk ss =
     (case authorization req of
        None \<Rightarrow>
          (generateNonce fresh now (t_ID trunk) ss, [(''auth_challenge'', t_ID trunk, ''digest challenge sent'')],
           Some trunk, 401, ''nonce='' @ fresh @ '',realm='' @ AuthRealm trunk)
      | Some authValue \<Rightarrow>
          let params = parseDigestParams authValue;
              nonce = param params ''nonce''; username = param params ''username'';
              entry = nonces ss nonce;
              ss' = ss\<lparr>nonces := (nonces ss)(nonce := None)\<rparr>
          in case entry of
               None \<Rightarrow> (ss', [(''auth_failure'', t_ID trunk, ''invalid nonce'')], None, 403, ''invalid nonce'')
             | Some e \<Rightarrow>
                 if n_trunkID e \<noteq> t_ID trunk then
                   (ss', [(''auth_failure'', t_ID trunk, ''invalid nonce'')], None, 403, ''invalid nonce'')
                 else if since now (n_created e) > 30 * second then
                   (ss', [(''auth_failure'', t_ID trunk, ''expired nonce'')], None, 403, ''expired nonce'')
                 else if username \<noteq> AuthUser trunk then
                   (ss', [(''auth_failure'', t_ID trunk, ''username mismatch: got '' @ username @ '', expected '' @ AuthUser trunk)],
                    None, 403, ''invalid credentials'')
                 else (ss', [(''auth_success'', t_ID trunk, ''digest auth OK for user '' @ username)], Some trunk, 0, ''''))"

definition AuthenticateRequest ::
  "string \<Rightarrow> instant \<Rightarrow> sip_request \<Rightarrow> SIPSecurity \<Rightarrow> SIPSecurity \<times> security_event list \<times> auth_result" where
  "AuthenticateRequest fresh now req ss =
     (let sourceIP = extractSourceIP req in
      if trunks ss = [] then
        (ss, [(''no_trunks'', '''', ''no trunks configured'')], None, 503, ''no SIP trunks configured'')
      else case findTrunkByIP sourceIP (trunks ss) (acls ss) of
        None \<Rightarrow>
          (ss, [(''ip_blocked'', '''', ''no trunk matches source IP '' @ sourceIP)], None, 403,
           ''source IP '' @ sourceIP @ '' not in any trunk ACL'')
      | Some trunk \<Rightarrow>
          if SecurityPolicy trunk = ''disabled'' then
            (ss, [(''auth_success'', t_ID trunk, ''policy=disabled'')], Some trunk, 0, '''')
          else if SecurityPolicy trunk = ''permissive'' then
            (ss, [(''auth_success'', t_ID trunk, ''policy=permissive (IP only)'')], Some trunk, 0, '''')
          else if SecurityPolicy trunk = ''strict'' then
            (if AuthUser trunk = '''' then
               (ss, [(''auth_success'', t_ID trunk, ''policy=strict (no auth configured)'')], Some trunk, 0, '''')
             else digestAuth fresh now req trunk ss)
          else (ss, [(''auth_success'', t_ID trunk, ''policy=unknown, allowing'')], Some trunk, 0, ''''))"

text \<open>The row that \<open>logEvent\<close> inserts for an event, when a database is configured.\<close>

definition logEvent :: "SIPSecurity \<Rightarrow> sip_request \<Rightarrow> security_event \<Rightarrow>
    (string \<times> string option \<times> string \<times> string \<times> string \<times> string) list" where
  "logEvent ss req ev =
     (let (eventType, trunkID, details) = ev in
      if \<not> ss_db ss then []
      else [(eventType, if trunkID \<noteq> '''' then Some trunkID else None,
             case trunk_by_id trunkID (trunks ss) of Some t \<Rightarrow> t_Name t | None \<Rightarrow> '''',
             extractSourceIP req, call_id req, details)])"

subsection \<open>Lemmas\<close>

definition listed :: "SIPSecurity \<Rightarrow> string \<Rightarrow> sipTrunkEntry \<Rightarrow> bool" where
  "listed ss sourceIP t \<longleftrightarrow> t \<in> set (trunks ss) \<and>
     (\<exists>ip. ParseIP sourceIP = Some ip \<and>
       (t_Address t = sourceIP \<or>
        (\<exists>acl \<in> set (acls ss). acl_TrunkID acl = t_ID t \<and>
           (IPAddress acl = sourceIP \<or> (\<exists>n. network acl = Some n \<and> Contains n ip)))))"

lemma trunk_by_id_Some: "trunk_by_id i ts = Some t \<Longrightarrow> t \<in> set ts \<and> t_ID t = i"
  by (auto simp: trunk_by_id_def find_Some_iff)

lemma scan_acls_Some:
  assumes "scan_acls ip src ts as = Some t"
  shows "t \<in> set ts \<and> (\<exists>acl \<in> set as. acl_TrunkID acl = t_ID t \<and>
           (IPAddress acl = src \<or> (\<exists>n. network acl = Some n \<and> Contains n ip)))"
  using assms
proof (induction as)
  case (Cons a as)
  show ?case
  proof (cases "scan_acls ip src ts as = Some t")
    case True
    with Cons.IH show ?thesis by auto
  next
    case False
    then show ?thesis
      using Cons.prems
      by (auto simp: Let_def split: option.splits if_splits dest!: trunk_by_id_Some)
  qed
qed simp

lemma findTrunkByIP_listed:
  "findTrunkByIP src (trunks ss) (acls ss) = Some t \<Longrightarrow> listed ss src t"
  by (auto simp: findTrunkByIP_def listed_def find_Some_iff split: option.splits dest!: scan_acls_Some)

lemma digestAuth_accept:
  assumes "digestAuth fresh now req trunk ss = (ss', ev, t, 0, err)"
  obtains v e where "authorization req = Some v"
    "nonces ss (param (parseDigestParams v) ''nonce'') = Some e" "n_trunkID e = t_ID trunk"
    "now - n_created e \<le> 30 * second" "param (parseDigestParams v) ''username'' = AuthUser trunk"
    "t = Some trunk" "ss' = ss\<lparr>nonces := (nonces ss)(param (parseDigestParams v) ''nonce'' := None)\<rparr>"
  using assms
  by (auto simp: digestAuth_def Let_def since_def split: option.splits if_splits intro: that)

lemma AuthenticateRequest_trunk:
  assumes "AuthenticateRequest fresh now req ss = (ss', ev, t, code, err)" "code = 0"
  obtains trunk where "t = Some trunk" "findTrunkByIP (extractSourceIP req) (trunks ss) (acls ss) = Some trunk"
    "SecurityPolicy trunk = ''strict'' \<and> AuthUser trunk \<noteq> '''' \<longrightarrow>
       digestAuth fresh now req trunk ss = (ss', ev, t, code, err)"
proof (cases "findTrunkByIP (extractSourceIP req) (trunks ss) (acls ss)")
  case None
  then show ?thesis using assms by (simp add: AuthenticateRequest_def Let_def split: if_splits)
next
  case (Some trunk)
  show ?thesis
  proof (cases "SecurityPolicy trunk = ''strict'' \<and> AuthUser trunk \<noteq> ''''")
    case True
    then have d: "digestAuth fresh now req trunk ss = (ss', ev, t, code, err)"
      using assms Some by (simp add: AuthenticateRequest_def Let_def split: if_splits)
    then have "t = Some trunk" using assms(2) by (auto elim: digestAuth_accept)
    then show ?thesis using that Some d by simp
  next
    case False
    then have "t = Some trunk"
      using assms Some by (auto simp: AuthenticateRequest_def Let_def split: if_splits)
    then show ?thesis using that Some False by blast
  qed
qed

subsection \<open>Properties\<close>


definition example_trunk :: sipTrunkEntry where
  "example_trunk = \<lparr>t_ID = ''t1'', t_Name = ''Carrier'', t_Address = ''10.0.0.1'', t_Port = 5060, TrunkType = ''direct'',
     AuthRealm = ''r'', AuthUser = ''alice'', AuthPassHash = ''h'', TLSEnabled = False, SRTPEnabled = False,
     SecurityPolicy = ''strict''\<rparr>"

definition example_security :: SIPSecurity where
  "example_security = \<lparr>ss_db = True, trunks = [example_trunk], acls = [],
     nonces = [''n1'' \<mapsto> \<lparr>n_value = ''n1'', n_trunkID = ''t1'', n_created = 0\<rparr>]\<rparr>"

definition example_request :: sip_request where
  "example_request = \<lparr>source = ''10.0.0.1:5060'', via_host = None, call_id = ''c'',
     authorization = Some ''Digest username=alice, nonce=n1, response=wrong''\<rparr>"

lemmas string_eval = trim_space_def trim_by_def trim_left_def trim_right_def is_space_def trim_cutset_def
  trim_prefix_def has_prefix_def

lemma example_params:
  "param (parseDigestParams ''Digest username=alice, nonce=n1, response=wrong'') ''nonce'' = ''n1''"
  "param (parseDigestParams ''Digest username=alice, nonce=n1, response=wrong'') ''username'' = ''alice''"
  by (simp_all add: parseDigestParams_def digest_part_def param_def string_eval Let_def)

lemma example_source: "extractSourceIP example_request = ''10.0.0.1''"
  by (simp add: extractSourceIP_def example_request_def SplitHostPort_def)

lemma example_find: "findTrunkByIP ''10.0.0.1'' [example_trunk] [] = Some example_trunk"
  by (simp add: findTrunkByIP_def ParseIP_def quad_field_def is_digit_def dec_value_def example_trunk_def)

lemma example_auth:
  "AuthenticateRequest ''x'' 5 example_request example_security =
     (example_security\<lparr>nonces := (nonces example_security)(''n1'' := None)\<rparr>,
      [(''auth_success'', ''t1'', ''digest auth OK for user alice'')], Some example_trunk, 0, '''')"
  unfolding AuthenticateRequest_def Let_def example_source
  by (simp add: example_security_def example_find digestAuth_def example_request_def example_params Let_def)
     (simp add: example_trunk_def since_def second_def)


text \<open>
  replaying an accepted authorization is refused: after a strict trunk with a user accepted
  a request, the same request is answered 403, whatever the time, as long as the trunk
  configuration is unchanged and no new challenge reissues that nonce.
\<close>

theorem digest_replay_refused:
  assumes "AuthenticateRequest fresh now req ss = (ss', ev, Some trunk, 0, err)"
    and "SecurityPolicy trunk = ''strict''" "AuthUser trunk \<noteq> ''''"
  shows "fst (snd (snd (snd (AuthenticateRequest fresh' now' req ss')))) = 403"
proof -
  obtain tr where tr: "tr = trunk" "findTrunkByIP (extractSourceIP req) (trunks ss) (acls ss) = Some tr"
    "digestAuth fresh now req tr ss = (ss', ev, Some trunk, 0, err)"
    using AuthenticateRequest_trunk [OF assms(1) refl] assms(2,3) by (metis option.inject)
  obtain v where v: "authorization req = Some v"
    "ss' = ss\<lparr>nonces := (nonces ss)(param (parseDigestParams v) ''nonce'' := None)\<rparr>"
    using digestAuth_accept [OF tr(3)] by metis
  have "trunks ss \<noteq> []" using findTrunkByIP_listed [OF tr(2)] by (auto simp: listed_def)
  then show ?thesis
    using tr(1,2) v assms(2,3) by (simp add: AuthenticateRequest_def Let_def digestAuth_def)
qed

theorem digest_replay_refused_witness:
  "fst (snd (snd (snd (AuthenticateRequest ''y'' 6 example_request
     (example_security\<lparr>nonces := (nonces example_security)(''n1'' := None)\<rparr>))))) = 403"
  by (rule digest_replay_refused [OF example_auth]) (simp_all add: example_trunk_def)

text \<open>
  the digest response is never checked. For every trunk, two requests that differ in
  everything but source, nonce and user name get the same answer, and the stored password
  hash plays no part: any client that names the right user and echoes a fresh nonce is accepted.
\<close>

theorem digest_response_ignored:
  assumes "authorization req = Some v" "authorization req' = Some w"
    and "param (parseDigestParams v) ''nonce'' = param (parseDigestParams w) ''nonce''"
    and "param (parseDigestParams v) ''username'' = param (parseDigestParams w) ''username''"
  shows "snd (snd (snd (digestAuth fresh now req trunk ss))) =
         snd (snd (snd (digestAuth fresh' now req' (trunk\<lparr>AuthPassHash := h\<rparr>) ss)))"
  using assms by (auto simp: digestAuth_def Let_def split: option.splits)

theorem digest_response_ignored_witness:
  "snd (snd (snd (digestAuth ''x'' 5 example_request example_trunk example_security))) = (0, '''')
   \<and> snd (snd (snd (digestAuth ''x'' 5 (example_request\<lparr>authorization := Some ''Digest username=alice, nonce=n1''\<rparr>)
       (example_trunk\<lparr>AuthPassHash := ''other''\<rparr>) example_security))) = (0, '''')"
proof -
  have w: "param (parseDigestParams ''Digest username=alice, nonce=n1'') ''nonce'' = ''n1''"
    "param (parseDigestParams ''Digest username=alice, nonce=n1'') ''username'' = ''alice''"
    by (simp_all add: parseDigestParams_def digest_part_def param_def string_eval Let_def)
  have 1: "snd (snd (snd (digestAuth ''x'' 5 example_request example_trunk example_security))) = (0, '''')"
    by (simp add: digestAuth_def example_request_def example_params example_security_def Let_def
        example_trunk_def since_def second_def)
  have "snd (snd (snd (digestAuth ''x'' 5 example_request example_trunk example_security))) =
    snd (snd (snd (digestAuth ''x'' 5 (example_request\<lparr>authorization := Some ''Digest username=alice, nonce=n1''\<rparr>)
       (example_trunk\<lparr>AuthPassHash := ''other''\<rparr>) example_security)))"
    by (rule digest_response_ignored [where v = "''Digest username=alice, nonce=n1, response=wrong''"
          and w = "''Digest username=alice, nonce=n1''"]) (simp_all add: example_request_def example_params w)
  with 1 show ?thesis by simp
qed

end
