(* ===== verification/Dtmf.thy ===== *)
theory Dtmf
  imports Prelude
begin

text \<open>
  Keypad input, \<open>gateway/dtmf.go\<close>: the RFC 2833 payload parser, the digit collector with its
  inter-digit timeout, and the test endpoint. The collector's goroutine is the sequence of its
  ticks; its callback is the list of strings it is called with. The detector of in-band
  tones (\<open>ParseInbandDTMF\<close>, \<open>goertzel\<close>) is in the theory of the tone detector.
\<close>

subsection \<open>Data\<close>

record DTMFEvent =
  Digit :: string
  Duration :: int
  Time :: instant

record DTMFCollector =
  buffer :: "DTMFEvent list"
  timeout :: duration
  lastDigit :: instant

definition NewDTMFCollector :: "duration \<Rightarrow> DTMFCollector" where
  "NewDTMFCollector t = \<lparr>buffer = [], timeout = t, lastDigit = 0\<rparr>"

subsection \<open>Parsing\<close>

definition dtmfEventToChar :: "byte \<Rightarrow> string" where
  "dtmfEventToChar code =
     (if code \<le> 9 then [char_of (48 + unat code)]
      else if code = 10 then ''*'' else if code = 11 then ''#''
      else if code = 12 then ''A'' else if code = 13 then ''B''
      else if code = 14 then ''C'' else if code = 15 then ''D''
      else '''')"

definition ParseRFC2833 :: "instant \<Rightarrow> byte list \<Rightarrow> DTMFEvent option" where
  "ParseRFC2833 now payload =
     (if length payload < 4 then None
      else
        let eventCode = payload ! 0;
            endBit = (payload ! 1) AND 0x80 \<noteq> 0;
            dur = push_bit 8 (uint (payload ! 2)) OR uint (payload ! 3)
        in if \<not> endBit then None
           else
             let digit = dtmfEventToChar eventCode in
             if digit = '''' then None
             else Some \<lparr>Digit = digit, Duration = go_div (dur * 1000) 8000, Time = now\<rparr>)"

subsection \<open>Collecting\<close>

definition AddDigit :: "DTMFEvent \<Rightarrow> DTMFCollector \<Rightarrow> DTMFCollector" where
  "AddDigit evt dc = dc\<lparr>buffer := buffer dc @ [evt], lastDigit := Time evt\<rparr>"

definition DTMF_String :: "DTMFCollector \<Rightarrow> string" where
  "DTMF_String dc = concat (map Digit (buffer dc))"

definition Flush :: "DTMFCollector \<Rightarrow> DTMFCollector \<times> string" where
  "Flush dc = (if buffer dc = [] then (dc, '''') else (dc\<lparr>buffer := []\<rparr>, concat (map Digit (buffer dc))))"

text \<open>One tick of \<open>flushLoop\<close>: the new state and the argument of the callback, if it is called.\<close>

definition flushLoop_tick :: "instant \<Rightarrow> DTMFCollector \<Rightarrow> DTMFCollector \<times> string option" where
  "flushLoop_tick now dc =
     (if length (buffer dc) > 0 \<and> since now (lastDigit dc) > timeout dc
      then (dc\<lparr>buffer := []\<rparr>, Some (concat (map Digit (buffer dc))))
      else (dc, None))"

datatype dtmf_reply = Typed string string | Event DTMFEvent | NoEvent | NeedInput

definition handleDTMFTest :: "instant \<Rightarrow> byte list \<Rightarrow> string \<Rightarrow> nat \<times> dtmf_reply" where
  "handleDTMFTest now payload text =
     (if text \<noteq> '''' then (200, Typed text (''User typed: '' @ text))
      else if length payload \<ge> 4 then
        (200, case ParseRFC2833 now payload of Some evt \<Rightarrow> Event evt | None \<Rightarrow> NoEvent)
      else (400, NeedInput))"

subsection \<open>What happens to a collector\<close>

datatype dtmf_op = Add DTMFEvent | Tick instant | FlushNow

text \<open>The strings delivered (by the callback or as the result of \<open>Flush\<close>) and the final state.\<close>

fun dtmf_run :: "dtmf_op list \<Rightarrow> DTMFCollector \<Rightarrow> DTMFCollector \<times> string list" where
  "dtmf_run [] dc = (dc, [])"
| "dtmf_run (Add e # ops) dc = dtmf_run ops (AddDigit e dc)"
| "dtmf_run (Tick t # ops) dc =
     (let (dc', out) = flushLoop_tick t dc; (dc'', outs) = dtmf_run ops dc' in
      (dc'', (case out of None \<Rightarrow> [] | Some s \<Rightarrow> [s]) @ outs))"
| "dtmf_run (FlushNow # ops) dc =
     (let (dc', s) = Flush dc; (dc'', outs) = dtmf_run ops dc' in (dc'', s # outs))"

fun added :: "dtmf_op list \<Rightarrow> string" where
  "added [] = ''''"
| "added (Add e # ops) = Digit e @ added ops"
| "added (_ # ops) = added ops"

lemma dtmf_run_conserves:
  "concat (snd (dtmf_run ops dc)) @ DTMF_String (fst (dtmf_run ops dc)) = DTMF_String dc @ added ops"
proof (induction ops dc rule: dtmf_run.induct)
  case (3 t ops dc)
  then show ?case
    by (cases "flushLoop_tick t dc") (auto simp: flushLoop_tick_def DTMF_String_def split: prod.splits if_splits)
next
  case (4 ops dc)
  then show ?case by (cases "Flush dc") (auto simp: Flush_def DTMF_String_def split: prod.splits if_splits)
qed (simp_all add: AddDigit_def DTMF_String_def)

text \<open>The four payload bytes of RFC 2833 for an event.\<close>

definition rfc2833_payload :: "nat \<Rightarrow> bool \<Rightarrow> nat \<Rightarrow> nat \<Rightarrow> byte list" where
  "rfc2833_payload code fin volume dur =
     [word_of_nat code, word_of_nat ((if fin then 128 else 0) + volume mod 64),
      word_of_nat (dur div 256), word_of_nat (dur mod 256)]"

definition dtmf_keys :: string where
  "dtmf_keys = ''0123456789*#ABCD''"

lemma dtmfEventToChar_keys: "c < 16 \<Longrightarrow> dtmfEventToChar (word_of_nat c) = [dtmf_keys ! c]"
proof -
  assume "c < 16"
  then have "c \<in> set [0..<16]" by simp
  then show ?thesis
    by (simp add: upt_rec) (elim disjE; simp add: dtmfEventToChar_def dtmf_keys_def char_of_def bit_0)
qed

lemma end_bit: "((word_of_nat ((if fin then 128 else 0) + v mod 64) :: byte) AND 0x80 \<noteq> 0) = fin"
proof -
  have "v mod 64 < 64" by simp
  then have "unat (word_of_nat ((if fin then 128 else 0) + v mod 64) :: byte) = (if fin then 128 else 0) + v mod 64"
    by (simp only: unat_of_nat) auto
  moreover have "(x AND 0x80 \<noteq> 0) = (128 \<le> unat x)" for x :: byte
  proof -
    have "(0x80 :: byte) = 2 ^ 7" by simp
    then have "(x AND 0x80 \<noteq> 0) = bit x 7" by (simp only: and_exp_eq_0_iff_not_bit) simp
    also have "\<dots> = bit (unat x) 7" by (simp add: bit_unsigned_iff)
    also have "\<dots> = odd (unat x div 128)" by (simp only: bit_iff_odd) simp
    also have "\<dots> = (128 \<le> unat x)" 
    proof (cases "unat x < 128")
      case False
      then have "unat x div 128 = 1" using unsigned_less [of x, where 'a = nat] by (intro div_nat_eqI) auto
      then show ?thesis using False by simp
    qed simp
    finally show ?thesis .
  qed
  ultimately show ?thesis using \<open>v mod 64 < 64\<close> by auto
qed

lemma push_or_add:
  assumes "0 \<le> y" "y < 256"
  shows "push_bit 8 x OR y = 256 * x + (y :: int)"
proof -
  have "take_bit 8 y = y" using assms by (simp add: take_bit_int_eq_self)
  then have "push_bit 8 x AND y = 0"
    by (intro bit_eqI) (auto simp: bit_simps, metis bit_take_bit_iff not_less)
  then show ?thesis using plus_and_or [of "push_bit 8 x" y] by (simp add: push_bit_eq_mult)
qed

subsection \<open>Properties\<close>

text \<open>
  the parser inverts RFC 2833: the end packet of key \<open>c\<close> (0-9, *, #, A-D) with duration
  \<open>dur\<close> time-stamp units yields that key and the duration in milliseconds; packets before the
  end of the event and other event codes yield nothing, so a key press counts once.
\<close>

theorem ParseRFC2833_roundtrip:
  assumes "dur < 65536" "code < 256"
  shows "ParseRFC2833 now (rfc2833_payload code fin volume dur) =
           (if fin \<and> code < 16 then Some \<lparr>Digit = [dtmf_keys ! code], Duration = int dur div 8, Time = now\<rparr> else None)"
proof -
  have "uint (word_of_nat (dur div 256) :: byte) = int dur div 256"
    "uint (word_of_nat (dur mod 256) :: byte) = int dur mod 256"
    using assms(1) by (simp_all add: unsigned_of_nat take_bit_nat_eq_self zdiv_int zmod_int)
  then have d: "push_bit 8 (uint (word_of_nat (dur div 256) :: byte)) OR uint (word_of_nat (dur mod 256) :: byte) = int dur"
    using push_or_add [of "int dur mod 256" "int dur div 256"] by simp
  have g: "go_div (int dur * 1000) 8000 = int dur div 8"
    by (simp add: go_div_def sgn_if)
  have c: "\<not> code < 16 \<Longrightarrow> dtmfEventToChar (word_of_nat code) = ''''"
  proof -
    assume "\<not> code < 16"
    moreover have "unat (word_of_nat code :: byte) = code" using assms(2) by (simp add: unat_of_nat)
    moreover have "\<forall>k < 16. unat (word_of_nat k :: byte) = k" by (simp add: unat_of_nat)
    ultimately have "\<not> (word_of_nat code :: byte) \<le> 9" "\<forall>k < 16. (word_of_nat code :: byte) \<noteq> word_of_nat k"
      by (auto simp: word_le_nat_alt)
    from this(1) this(2) [rule_format, of 10] this(2) [rule_format, of 11] this(2) [rule_format, of 12]
      this(2) [rule_format, of 13] this(2) [rule_format, of 14] this(2) [rule_format, of 15]
    show ?thesis by (simp add: dtmfEventToChar_def)
  qed
  show ?thesis
    using c dtmfEventToChar_keys [of code] end_bit [of fin volume]
    by (simp add: ParseRFC2833_def rfc2833_payload_def Let_def d g)
qed

theorem ParseRFC2833_roundtrip_witness:
  "ParseRFC2833 0 (rfc2833_payload 11 True 10 1600) = Some \<lparr>Digit = ''#'', Duration = 200, Time = 0\<rparr>"
  using ParseRFC2833_roundtrip [of 1600 11 0 True 10] by (simp add: dtmf_keys_def)

text \<open>
  the collector neither loses, repeats nor reorders digits: after any sequence of key
  presses, timer ticks and flushes, what was delivered followed by what is still buffered is
  what was typed.
\<close>

theorem collector_conserves:
  "concat (snd (dtmf_run ops (NewDTMFCollector t))) @ DTMF_String (fst (dtmf_run ops (NewDTMFCollector t))) = added ops"
  using dtmf_run_conserves [of ops "NewDTMFCollector t"] by (simp add: NewDTMFCollector_def DTMF_String_def)

end
