(* ===== verification/Ivr.thy ===== *)
theory Ivr
  imports Dtmf Did_Routing
begin

text \<open>
  Interactive voice response, \<open>gateway/ivr.go\<close>: the interpreter of a flow, the digit collection
  it calls, and the CRUD handler with the table \<open>ivr_flows\<close>. Nodes are an association list, as
  the JSON object has them. Parameters: \<open>ctxDone\<close>, whether the context is cancelled at an
  iteration; \<open>unmarshal\<close>, the JSON decoder of \<open>flow_data\<close>. Prompts played through the announcer
  are returned as a list.
\<close>

subsection \<open>Data\<close>

record IVRNode =
  iv_Type :: string
  Prompt :: string
  iv_Next :: string
  TimeoutMs :: int
  Retries :: int
  DTMFMap :: "(string \<times> string) list"
  TimeoutNode :: string
  DestType :: string
  DestValue :: string

record IVRFlow =
  fl_ID :: string
  fl_Name :: string
  fl_Description :: string
  Entry :: string
  Nodes :: "(string \<times> IVRNode) list"
  fl_Enabled :: bool

subsection \<open>Collecting a digit\<close>

text \<open>
  A fresh collector is created and nothing else holds a reference to it: between its creation
  and the timeout only the ticks of its own goroutine happen. The digit is what the callback
  put into the channel first, cut to one character.
\<close>

definition collectDTMF :: "bool \<Rightarrow> instant list \<Rightarrow> duration \<Rightarrow> string" where
  "collectDTMF hasListener ticks tmo =
     (if \<not> hasListener then ''''
      else case filter (\<lambda>s. s \<noteq> '''') (snd (dtmf_run (map Tick ticks) (NewDTMFCollector tmo))) of
             [] \<Rightarrow> '''' | digits # _ \<Rightarrow> take 1 digits)"

text \<open>
  The loop \<open>for attempt := 0; attempt < retries; attempt++\<close> of a collect node, by the number of
  attempts left; the result is the next node, or \<open>None\<close> for \<open>return "", ""\<close>. \<open>collect\<close> is
  called with the number of digit collections made before and the timeout.
\<close>

definition retry_prompts :: "bool \<Rightarrow> IVRNode \<Rightarrow> string list" where
  "retry_prompts announcer node =
     (if announcer then [''Sorry, I didn'' @ [CHR 0x27] @ ''t get that. Please try again.'']
        @ (if Prompt node \<noteq> '''' then [Prompt node] else []) else [])"

definition node_timeout :: "IVRNode \<Rightarrow> duration" where
  "node_timeout node = (if TimeoutMs node \<le> 0 then 5000 else TimeoutMs node) * millisecond"

fun collect_attempts ::
  "(nat \<Rightarrow> duration \<Rightarrow> string) \<Rightarrow> bool \<Rightarrow> IVRNode \<Rightarrow> nat \<Rightarrow> nat \<Rightarrow> string list \<Rightarrow> string option \<times> nat \<times> string list" where
  "collect_attempts collect announcer node 0 c played = (None, c, played)"
| "collect_attempts collect announcer node (Suc left) c played =
     (let digit = collect c (node_timeout node);
          giveUp = (if TimeoutNode node \<noteq> '''' then Some (TimeoutNode node) else None)
      in if digit = '''' then
           (if left > 0 then collect_attempts collect announcer node left (Suc c) (played @ retry_prompts announcer node)
            else (giveUp, Suc c, played))
         else case map_of (DTMFMap node) digit of
                Some nextNode \<Rightarrow> (Some nextNode, Suc c, played)
              | None \<Rightarrow> if left = 0 then (giveUp, Suc c, played)
                        else collect_attempts collect announcer node left (Suc c) played)"

subsection \<open>The interpreter\<close>

type_synonym ivr_result = "(string \<times> string) \<times> string list"

fun run_nodes ::
  "(nat \<Rightarrow> bool) \<Rightarrow> (nat \<Rightarrow> duration \<Rightarrow> string) \<Rightarrow> bool \<Rightarrow> IVRFlow \<Rightarrow> nat \<Rightarrow> nat \<Rightarrow> nat \<Rightarrow> string \<Rightarrow> string list \<Rightarrow> ivr_result" where
  "run_nodes ctxDone collect announcer flow 0 i c currentNode played = (('''', ''''), played)"
| "run_nodes ctxDone collect announcer flow (Suc left) i c currentNode played =
     (if ctxDone i then (('''', ''''), played)
      else case map_of (Nodes flow) currentNode of
        None \<Rightarrow> (('''', ''''), played)
      | Some node \<Rightarrow>
          let played1 = (if Prompt node \<noteq> '''' \<and> announcer then played @ [Prompt node] else played) in
          if iv_Type node = ''play'' then
            (if iv_Next node \<noteq> '''' then run_nodes ctxDone collect announcer flow left (Suc i) c (iv_Next node) played1
             else (('''', ''''), played1))
          else if iv_Type node = ''collect'' then
            (let retries = (if Retries node \<le> 0 then 1 else nat (Retries node));
                 (nxt, c', played2) = collect_attempts collect announcer node retries c played1
             in case nxt of None \<Rightarrow> (('''', ''''), played2)
                | Some n \<Rightarrow> run_nodes ctxDone collect announcer flow left (Suc i) c' n played2)
          else if iv_Type node = ''transfer'' then ((DestType node, DestValue node), played)
          else if iv_Type node = ''hangup'' then ((''hangup'', ''''), played)
          else (('''', ''''), played))"

definition run_ivr ::
  "(nat \<Rightarrow> bool) \<Rightarrow> (nat \<Rightarrow> duration \<Rightarrow> string) \<Rightarrow> bool \<Rightarrow> IVRFlow option \<Rightarrow> ivr_result" where
  "run_ivr ctxDone collect announcer flow =
     (case flow of None \<Rightarrow> (('''', ''''), [])
      | Some f \<Rightarrow>
          if Entry f = '''' \<or> Nodes f = [] then (('''', ''''), [])
          else run_nodes ctxDone collect announcer f 20 0 0 (Entry f) [])"

definition RunIVR :: "(nat \<Rightarrow> bool) \<Rightarrow> bool \<Rightarrow> (nat \<Rightarrow> instant list) \<Rightarrow> bool \<Rightarrow> IVRFlow option \<Rightarrow> ivr_result" where
  "RunIVR ctxDone hasListener ticks announcer flow =
     run_ivr ctxDone (\<lambda>c tmo. collectDTMF hasListener (ticks c) tmo) announcer flow"

subsection \<open>The table and its handler\<close>

record ivr_row =
  iv_id :: string
  iv_name :: string
  iv_desc :: "string option"
  iv_flow_data :: string
  iv_enabled :: bool
  iv_created :: string

record ivr_store =
  ivr_tbl :: "ivr_row list"
  did_tbl :: "DIDRoute list"

definition LoadIVRFlow ::
  "(string \<Rightarrow> (string \<times> (string \<times> IVRNode) list) option) \<Rightarrow> ivr_store option \<Rightarrow> string \<Rightarrow> string + IVRFlow option" where
  "LoadIVRFlow unmarshal d ivrID =
     (case d of None \<Rightarrow> Inr None
      | Some st \<Rightarrow>
          if ivrID = '''' then Inr None
          else case find (\<lambda>r. iv_id r = ivrID \<and> iv_enabled r) (ivr_tbl st) of
            None \<Rightarrow> Inl ''sql: no rows in result set''
          | Some r \<Rightarrow>
              (case unmarshal (iv_flow_data r) of
                 None \<Rightarrow> Inl ''parse IVR flow''
               | Some (entry, nodes) \<Rightarrow>
                   Inr (Some \<lparr>fl_ID = iv_id r, fl_Name = iv_name r,
                              fl_Description = (case iv_desc r of None \<Rightarrow> '''' | Some s \<Rightarrow> s),
                              Entry = entry, Nodes = nodes, fl_Enabled = iv_enabled r\<rparr>)))"

record ivr_put =
  pu_id :: string
  pu_name :: string
  pu_description :: string
  pu_flow_data :: "string option"
  pu_enabled :: "bool option"

datatype ivr_request = IvrGet string | IvrPost "(string \<times> string \<times> string) option" | IvrPut "ivr_put option"
  | IvrDelete string | IvrOther

datatype ivr_body = Flow IVRFlow | FlowList "(string \<times> string \<times> string \<times> bool \<times> string) list" | IvrFields json_obj

definition ivr_update :: "ivr_put \<Rightarrow> ivr_row \<Rightarrow> ivr_row" where
  "ivr_update req r =
     (if iv_id r = pu_id req then
        r\<lparr>iv_name := (if pu_name req = '''' then iv_name r else pu_name req),
          iv_desc := (if pu_description req = '''' then iv_desc r else Some (pu_description req)),
          iv_flow_data := (case pu_flow_data req of None \<Rightarrow> iv_flow_data r | Some f \<Rightarrow> f),
          iv_enabled := (case pu_enabled req of None \<Rightarrow> iv_enabled r | Some e \<Rightarrow> e)\<rparr>
      else r)"

text \<open>
  \<open>outcome\<close> is the error of the statement, or the id and time stamp a new row gets; statement
  errors of the list query and of the deletions are ignored by the source.
\<close>

definition handleIVR ::
  "(string \<Rightarrow> (string \<times> (string \<times> IVRNode) list) option) \<Rightarrow> string + (string \<times> string) \<Rightarrow> ivr_request
    \<Rightarrow> ivr_store option \<Rightarrow> ivr_store option \<times> ivr_body response" where
  "handleIVR unmarshal outcome req d =
     (case req of
        IvrGet i \<Rightarrow>
          (d, if i \<noteq> '''' then
                (case LoadIVRFlow unmarshal d i of
                   Inr (Some f) \<Rightarrow> WriteJSON 200 (Flow f)
                 | _ \<Rightarrow> WriteJSON 404 (IvrFields [(''error'', ''IVR flow not found'')]))
              else case d of
                None \<Rightarrow> WriteJSON 200 (FlowList [])
              | Some st \<Rightarrow>
                  WriteJSON 200 (FlowList (map (\<lambda>r. (iv_id r, iv_name r, case iv_desc r of None \<Rightarrow> '''' | Some s \<Rightarrow> s,
                      iv_enabled r, iv_created r)) (rev (sort_key iv_created (ivr_tbl st))))))
      | IvrPost None \<Rightarrow> (d, WriteJSON 400 (IvrFields [(''error'', ''invalid JSON'')]))
      | IvrPost (Some (nm, desc, fd)) \<Rightarrow>
          if nm = '''' then (d, WriteJSON 400 (IvrFields [(''error'', ''name required'')]))
          else
            let flowData = (if fd = '''' then ''{\"entry\":\"\",\"nodes\":{}}'' else fd) in
            (case d of
               None \<Rightarrow> (d, WriteJSON 500 (IvrFields [(''error'', ''no database'')]))
             | Some st \<Rightarrow>
                 (case outcome of
                    Inl err \<Rightarrow> (d, WriteJSON 500 (IvrFields [(''error'', err)]))
                  | Inr (newId, created) \<Rightarrow>
                      (Some (st\<lparr>ivr_tbl := ivr_tbl st @ [\<lparr>iv_id = newId, iv_name = nm, iv_desc = Some desc,
                           iv_flow_data = flowData, iv_enabled = True, iv_created = created\<rparr>]\<rparr>),
                       WriteJSON 201 (IvrFields [(''id'', newId), (''status'', ''created'')]))))
      | IvrPut None \<Rightarrow> (d, WriteJSON 400 (IvrFields [(''error'', ''id required'')]))
      | IvrPut (Some u) \<Rightarrow>
          if pu_id u = '''' then (d, WriteJSON 400 (IvrFields [(''error'', ''id required'')]))
          else
            (case d of
               None \<Rightarrow> (d, WriteJSON 500 (IvrFields [(''error'', ''no database'')]))
             | Some st \<Rightarrow>
                 (case outcome of
                    Inl err \<Rightarrow> (d, WriteJSON 500 (IvrFields [(''error'', err)]))
                  | Inr _ \<Rightarrow> (Some (st\<lparr>ivr_tbl := map (ivr_update u) (ivr_tbl st)\<rparr>),
                              WriteJSON 200 (IvrFields [(''status'', ''updated'')]))))
      | IvrDelete i \<Rightarrow>
          if i = '''' then (d, WriteJSON 400 (IvrFields [(''error'', ''id required'')]))
          else
            (map_option (\<lambda>st. st\<lparr>did_tbl := map (\<lambda>r. if IvrID r = Some i then r\<lparr>IvrID := None\<rparr> else r) (did_tbl st),
                                ivr_tbl := filter (\<lambda>r. iv_id r \<noteq> i) (ivr_tbl st)\<rparr>) d,
             WriteJSON 200 (IvrFields [(''status'', ''deleted'')]))
      | IvrOther \<Rightarrow> (d, HttpError 405 ''method not allowed''))"

subsection \<open>The graph of a flow\<close>

text \<open>
  Edges the interpreter may follow; \<open>keys\<close> tells whether edges labelled with keypad digits count.
\<close>

inductive ivr_edge :: "bool \<Rightarrow> IVRFlow \<Rightarrow> string \<Rightarrow> string \<Rightarrow> bool" for keys flow where
  play_next: "map_of (Nodes flow) n = Some node \<Longrightarrow> iv_Type node = ''play'' \<Longrightarrow> iv_Next node \<noteq> ''''
      \<Longrightarrow> ivr_edge keys flow n (iv_Next node)"
| timed_out: "map_of (Nodes flow) n = Some node \<Longrightarrow> iv_Type node = ''collect'' \<Longrightarrow> TimeoutNode node \<noteq> ''''
      \<Longrightarrow> ivr_edge keys flow n (TimeoutNode node)"
| key: "keys \<Longrightarrow> map_of (Nodes flow) n = Some node \<Longrightarrow> iv_Type node = ''collect''
      \<Longrightarrow> map_of (DTMFMap node) d = Some m \<Longrightarrow> ivr_edge keys flow n m"

definition ends_call :: "IVRFlow \<Rightarrow> string \<Rightarrow> string \<times> string \<Rightarrow> bool" where
  "ends_call flow n r \<longleftrightarrow> (\<exists>node. map_of (Nodes flow) n = Some node \<and>
     (iv_Type node = ''transfer'' \<and> r = (DestType node, DestValue node) \<or>
      iv_Type node = ''hangup'' \<and> r = (''hangup'', '''')))"

lemma collect_attempts_edge:
  assumes "collect_attempts collect ann node left c played = (Some n, c', played')"
  shows "TimeoutNode node \<noteq> '''' \<and> n = TimeoutNode node \<or>
         (\<exists>k t. collect k t \<noteq> '''' \<and> map_of (DTMFMap node) (collect k t) = Some n)"
  using assms
  by (induction collect ann node left c played rule: collect_attempts.induct)
     (auto simp: Let_def split: if_splits option.splits)

lemma run_nodes_ends:
  assumes "fst (run_nodes ctxDone collect ann flow left i c cur played) = r" "r \<noteq> ('''', '''')"
    and "reachable (ivr_edge keys flow) start cur"
    and "\<not> keys \<longrightarrow> (\<forall>k t. collect k t = '''')"
  shows "\<exists>n. reachable (ivr_edge keys flow) start n \<and> ends_call flow n r"
  using assms(1,3)
proof (induction left arbitrary: i c cur played)
  case (Suc left)
  let ?run = "\<lambda>c' n p. run_nodes ctxDone collect ann flow left (Suc i) c' n p"
  obtain node where node: "map_of (Nodes flow) cur = Some node"
    using Suc.prems(1) assms(2) by (auto split: if_splits option.splits)
  have nd: "\<not> ctxDone i" using Suc.prems(1) assms(2) by (auto split: if_splits)
  have go: ?thesis if "ivr_edge keys flow cur n" "fst (?run c' n p) = r" for n c' p
    using Suc.IH [OF that(2)] reachable.move [OF Suc.prems(2) that(1)] by blast
  consider "iv_Type node = ''play''" | "iv_Type node = ''collect''"
    | "iv_Type node \<noteq> ''play''" "iv_Type node \<noteq> ''collect''" by blast
  then show ?case
  proof cases
    case 1
    then have "iv_Next node \<noteq> ''''" using Suc.prems(1) assms(2) node nd by (auto simp: Let_def)
    moreover obtain p where "fst (?run c (iv_Next node) p) = r"
      using Suc.prems(1) node nd 1 calculation by (simp add: Let_def)
    ultimately show ?thesis using go ivr_edge.play_next [OF node 1] by blast
  next
    case 2
    define played1 where "played1 = (if Prompt node \<noteq> '''' \<and> ann then played @ [Prompt node] else played)"
    define k where "k = (if Retries node \<le> 0 then 1 else nat (Retries node))"
    obtain nxt c' p where ca: "collect_attempts collect ann node k c played1 = (nxt, c', p)"
      using prod_cases3 by blast
    obtain n where n: "nxt = Some n" "fst (?run c' n p) = r"
      using Suc.prems(1) assms(2) node nd 2 ca
      by (cases nxt) (auto simp: Let_def played1_def [symmetric] k_def [symmetric])
    have "ivr_edge keys flow cur n"
      using collect_attempts_edge [of collect ann node k c played1 n c' p] ca n(1) assms(4)
        ivr_edge.timed_out [OF node 2] ivr_edge.key [OF _ node 2] by metis
    then show ?thesis using go n(2) by blast
  next
    case 3
    then have "ends_call flow cur r"
      using Suc.prems(1) assms(2) node nd by (auto simp: Let_def ends_call_def split: if_splits)
    then show ?thesis using Suc.prems(2) by blast
  qed
qed (use assms(2) in simp)

lemma dtmf_run_ticks: "buffer dc = [] \<Longrightarrow> snd (dtmf_run (map Tick ts) dc) = []"
  by (induction ts arbitrary: dc) (auto simp: flushLoop_tick_def split: prod.splits)

lemma collectDTMF_empty: "collectDTMF hasListener ticks tmo = ''''"
  using dtmf_run_ticks [of "NewDTMFCollector tmo" ticks]
  by (simp add: collectDTMF_def NewDTMFCollector_def)

subsection \<open>Properties\<close>


definition example_flow :: IVRFlow where
  "example_flow = \<lparr>fl_ID = ''f'', fl_Name = ''main'', fl_Description = '''', Entry = ''menu'',
     Nodes = [(''menu'', \<lparr>iv_Type = ''collect'', Prompt = ''Press 1'', iv_Next = '''', TimeoutMs = 0, Retries = 0,
                DTMFMap = [(''1'', ''sales'')], TimeoutNode = '''', DestType = '''', DestValue = ''''\<rparr>),
              (''sales'', \<lparr>iv_Type = ''transfer'', Prompt = '''', iv_Next = '''', TimeoutMs = 0, Retries = 0,
                DTMFMap = [], TimeoutNode = '''', DestType = ''queue'', DestValue = ''Sales''\<rparr>)],
     fl_Enabled = True\<rparr>"

lemma example_flow_run:
  "fst (run_ivr (\<lambda>_. False) (\<lambda>_ _. ''1'') True (Some example_flow)) = (''queue'', ''Sales'')"
  by (simp add: run_ivr_def example_flow_def numeral_eq_Suc)


text \<open>
  keypad menus never work: since the collector of a collect node is fed by nobody, every
  digit collection times out, and a flow can only reach destinations that its play and timeout
  edges lead to.
\<close>

theorem RunIVR_ignores_keys:
  assumes "fst (RunIVR ctxDone hasListener ticks ann (Some flow)) = r" "r \<noteq> ('''', '''')"
  shows "\<exists>n. reachable (ivr_edge False flow) (Entry flow) n \<and> ends_call flow n r"
  using assms run_nodes_ends [where keys = False, OF _ assms(2) reachable.start]
  by (auto simp: RunIVR_def run_ivr_def collectDTMF_empty split: if_splits)

definition example_timeout_flow :: IVRFlow where
  "example_timeout_flow = example_flow\<lparr>Nodes := [(''menu'', \<lparr>iv_Type = ''collect'', Prompt = '''', iv_Next = '''',
     TimeoutMs = 0, Retries = 0, DTMFMap = [(''1'', ''sales'')], TimeoutNode = ''bye'', DestType = '''', DestValue = ''''\<rparr>),
     (''bye'', \<lparr>iv_Type = ''hangup'', Prompt = '''', iv_Next = '''', TimeoutMs = 0, Retries = 0, DTMFMap = [],
       TimeoutNode = '''', DestType = '''', DestValue = ''''\<rparr>)]\<rparr>"

theorem RunIVR_ignores_keys_witness:
  "\<exists>n. reachable (ivr_edge False example_timeout_flow) ''menu'' n \<and> ends_call example_timeout_flow n (''hangup'', '''')"
proof -
  have "fst (RunIVR (\<lambda>_. False) True (\<lambda>_. [1, 2]) True (Some example_timeout_flow)) = (''hangup'', '''')"
    by (simp add: RunIVR_def run_ivr_def collectDTMF_empty example_timeout_flow_def example_flow_def numeral_eq_Suc)
  from RunIVR_ignores_keys [OF this] show ?thesis
    by (simp add: example_timeout_flow_def example_flow_def)
qed

text \<open>
  A deleted flow leaves no trace: it is not loaded any more and no inbound route refers to it.
\<close>

lemma delete_ivr_no_dangling:
  assumes "i \<noteq> ''''" "fst (handleIVR unmarshal outcome (IvrDelete i) (Some st)) = Some st'"
  shows "(\<forall>r \<in> set (did_tbl st'). IvrID r \<noteq> Some i) \<and> (\<exists>e. LoadIVRFlow unmarshal (Some st') i = Inl e)"
proof -
  have "find (\<lambda>r. iv_id r = i \<and> iv_enabled r) (filter (\<lambda>r. iv_id r \<noteq> i) (ivr_tbl st)) = None"
    by (auto simp: find_None_iff)
  then show ?thesis using assms by (auto simp: handleIVR_def LoadIVRFlow_def)
qed

end
