(* ===== verification/Sip_Server.thy ===== *)
theory Sip_Server
  imports Sip_Security Ivr Acd
begin

text \<open>
  The SIP user agent server, \<open>gateway/sipserver.go\<close>: port allocation, the INVITE handler with
  its security gate, body and media parsing, inbound routing and enqueueing, the BYE handler,
  and the SDP answer. Parameters: \<open>unmarshal_sdp\<close> (the pion/sdp parser), \<open>parse_meta\<close> (the XML
  decoder of the recording metadata), \<open>env\<close>, the readings of the clock, the random nonces and
  the outcome of opening the RTP socket. Sockets, goroutines and the sending of the final
  responses are not modelled; the handler returns the response it sends. A Go panic is \<open>None\<close>.
\<close>

subsection \<open>Round-robin port allocation\<close>

text \<open>
  An allocator over the even ports of a range: both the SIP server and the RTP relay have one.
\<close>

locale port_allocator =
  fixes alloc :: "int \<Rightarrow> int \<times> int" and lo :: int and n :: nat
  assumes n_pos: "n > 0"
    and alloc_step: "k < n \<Longrightarrow> alloc (lo + 2 * int k) = (lo + 2 * int k, lo + 2 * int (Suc k mod n))"
begin

fun alloc_n :: "nat \<Rightarrow> int \<Rightarrow> int list \<times> int" where
  "alloc_n 0 s = ([], s)"
| "alloc_n (Suc m) s = (let (p, s') = alloc s; (ps, s'') = alloc_n m s' in (p # ps, s''))"

lemma alloc_n_eq:
  "k < n \<Longrightarrow> alloc_n m (lo + 2 * int k) =
     (map (\<lambda>i. lo + 2 * int ((k + i) mod n)) [0..<m], lo + 2 * int ((k + m) mod n))"
proof (induction m arbitrary: k)
  case (Suc m)
  have "Suc k mod n < n" using n_pos by simp
  from Suc.IH [OF this] Suc.prems alloc_step [OF Suc.prems]
  have "alloc_n (Suc m) (lo + 2 * int k) =
      ((lo + 2 * int k) # map (\<lambda>i. lo + 2 * int ((Suc k mod n + i) mod n)) [0..<m],
       lo + 2 * int ((Suc k mod n + m) mod n))" by simp
  also have "\<dots> = (map (\<lambda>i. lo + 2 * int ((k + i) mod n)) (0 # map Suc [0..<m]), lo + 2 * int ((k + Suc m) mod n))"
    using Suc.prems by (simp add: mod_add_left_eq)
  also have "0 # map Suc [0..<m] = [0..<Suc m]" by (simp add: map_Suc_upt upt_conv_Cons del: upt_Suc)
  finally show ?case .
qed simp

lemma shift_mod_inj:
  assumes "(k + i) mod n = (k + j) mod n" "i \<le> j" "j < n"
  shows "i = j"
proof -
  have "n dvd (k + j) - (k + i)" using assms(1,2) mod_eq_dvd_iff_nat [of "k + i" "k + j" n] by simp
  then have "n dvd j - i" by simp
  then show ?thesis using assms(2,3) by (metis diff_is_0_eq dvd_imp_le le_antisym less_imp_diff_less not_less zero_less_iff_neq_zero)
qed

lemma alloc_n_distinct:
  assumes "k < n" "m \<le> n"
  shows "distinct (fst (alloc_n m (lo + 2 * int k)))"
proof -
  have "inj_on (\<lambda>i. lo + 2 * int ((k + i) mod n)) {0..<m}"
  proof (rule inj_onI)
    fix i j assume ij: "i \<in> {0..<m}" "j \<in> {0..<m}" "lo + 2 * int ((k + i) mod n) = lo + 2 * int ((k + j) mod n)"
    then have "(k + i) mod n = (k + j) mod n" by simp
    with ij assms shift_mod_inj [of k i j] shift_mod_inj [of k j i] show "i = j" by (cases "i \<le> j") auto
  qed
  then show ?thesis using assms(1) by (simp add: alloc_n_eq distinct_map)
qed

lemma alloc_n_range:
  assumes "k < n" "p \<in> set (fst (alloc_n m (lo + 2 * int k)))"
  shows "lo \<le> p \<and> p < lo + 2 * int n \<and> even (p - lo)"
  using assms n_pos by (auto simp: alloc_n_eq)

end

definition allocateRTPPort :: "int \<Rightarrow> int \<Rightarrow> int \<times> int" where
  "allocateRTPPort rtpBase rtpNext =
     (rtpNext, if rtpNext + 2 > rtpBase + 100 then rtpBase else rtpNext + 2)"

text \<open>The relay of \<open>tools/rtprelay\<close> has its own copy, with an exclusive upper bound.\<close>

definition allocPort :: "int \<Rightarrow> int \<Rightarrow> int \<Rightarrow> int \<times> int" where
  "allocPort basePort maxPorts nextPort =
     (nextPort, if nextPort + 2 \<ge> basePort + maxPorts then basePort else nextPort + 2)"

lemma wrap_next: "k < n \<Longrightarrow> Suc k mod n = (if Suc k = n then 0 else Suc k)"
  by simp

interpretation rtp: port_allocator "allocateRTPPort base" base 51
  by unfold_locales (auto simp: allocateRTPPort_def wrap_next)

interpretation relay: port_allocator "allocPort base 100" base 50
  by unfold_locales (auto simp: allocPort_def wrap_next)

subsection \<open>Media descriptions and bodies\<close>

record sdp_media =
  md_port :: int
  md_conn :: "string option"
  md_formats :: "string list"

record sdp_desc =
  sd_conn :: "string option"
  sd_media :: "sdp_media list"

definition parseSDPOffer :: "(string \<Rightarrow> sdp_desc option) \<Rightarrow> string \<Rightarrow> string + string \<times> int \<times> string" where
  "parseSDPOffer unmarshal_sdp body =
     (case unmarshal_sdp body of
        None \<Rightarrow> Inl ''sdp unmarshal''
      | Some sd \<Rightarrow>
          (case sd_media sd of
             [] \<Rightarrow> Inl ''no media descriptions in SDP''
           | media # _ \<Rightarrow>
               let addr = (case md_conn media of Some a \<Rightarrow> a
                           | None \<Rightarrow> (case sd_conn sd of Some a \<Rightarrow> a | None \<Rightarrow> ''''));
                   codec = (case md_formats media of
                              [] \<Rightarrow> ''PCMU''
                            | f # _ \<Rightarrow> if f = ''0'' then ''PCMU'' else if f = ''8'' then ''PCMA'' else ''PCMU'')
               in Inr (addr, md_port media, codec)))"

definition crlf :: string where
  "crlf = [CHR 0x0D, CHR 0x0A]"

text \<open>\<open>stamp\<close> is the decimal text of the current time in milliseconds, \<open>port\<close> of the local port.\<close>

definition buildSDPAnswerWithMode :: "string \<Rightarrow> string \<Rightarrow> string \<Rightarrow> string \<Rightarrow> string \<Rightarrow> string \<Rightarrow> string" where
  "buildSDPAnswerWithMode stamp1 stamp2 localIP port codec trunkType =
     (let pt = (if codec = ''PCMA'' then ''8'' else ''0'');
          codecName = (if codec = ''PCMA'' then ''PCMA'' else ''PCMU'');
          mode = (if trunkType = ''siprec'' then ''recvonly'' else ''sendrecv'')
      in ''v=0'' @ crlf
         @ ''o=VoiceAgent '' @ stamp1 @ '' '' @ stamp2 @ '' IN IP4 '' @ localIP @ crlf
         @ ''s=VoiceAgent'' @ crlf
         @ ''c=IN IP4 '' @ localIP @ crlf
         @ ''t=0 0'' @ crlf
         @ ''m=audio '' @ port @ '' RTP/AVP '' @ pt @ '' 101'' @ crlf
         @ ''a=rtpmap:'' @ pt @ '' '' @ codecName @ ''/8000'' @ crlf
         @ ''a=rtpmap:101 telephone-event/8000'' @ crlf
         @ ''a=fmtp:101 0-16'' @ crlf
         @ ''a='' @ mode @ crlf
         @ ''a=ptime:20'' @ crlf)"

definition multipart_boundary :: "string \<Rightarrow> string" where
  "multipart_boundary contentType =
     (case find (\<lambda>p. has_prefix p ''boundary='') (map trim_space (split_on (CHR '';'') contentType)) of
        None \<Rightarrow> ''''
      | Some p \<Rightarrow> trim_cutset (trim_prefix p ''boundary='') [CHR 0x22])"

definition multipart_part :: "string \<Rightarrow> string \<times> string \<Rightarrow> string \<times> string" where
  "multipart_part part0 acc =
     (let part = trim_space part0 in
      if part = '''' \<or> part = ''--'' then acc
      else
        let lower = to_lower part;
            idx = (case str_index part (crlf @ crlf) of Some i \<Rightarrow> Some i
                   | None \<Rightarrow> str_index part [CHR 0x0A, CHR 0x0A])
        in case idx of
             None \<Rightarrow> acc
           | Some i \<Rightarrow>
               let partBody = trim_space (drop i part) in
               if str_contains lower ''application/sdp'' then (partBody, snd acc)
               else if str_contains lower ''application/rs-metadata'' \<or> str_contains lower ''xml'' then (fst acc, partBody)
               else acc)"

definition parseMultipartBody :: "string \<Rightarrow> string \<Rightarrow> string \<times> string" where
  "parseMultipartBody body contentType =
     (let boundary = multipart_boundary contentType in
      if boundary = '''' then (body, '''')
      else fold multipart_part (split_str (''--'' @ boundary) body) ('''', ''''))"

subsection \<open>State\<close>

record siprec_stream =
  st_ParticipantID :: string
  st_Label :: string

record siprec_participant =
  pa_ID :: string
  pa_AOR :: string

record siprec_meta =
  Participants :: "siprec_participant list"
  Streams :: "siprec_stream list"

record siprecRTPSession =
  se_callID :: string
  se_fromTag :: string
  remoteAddr :: string
  remotePort :: int
  se_codec :: string
  localPort :: int
  sipFrom :: string
  sipTo :: string
  sipSource :: string
  isOutbound :: bool
  two_way :: bool

record copilot =
  callerNumber :: string
  agentNumber :: string

record SIPServer =
  security :: "SIPSecurity option"
  rtpBase :: int
  rtpNext :: int
  sip_sessions :: "string \<rightharpoonup> siprecRTPSession"
  registrations :: "string \<rightharpoonup> string"
  sip_didRouter :: "DIDRouter option"
  sip_queues :: "queues option"
  has_announcer :: bool
  announcing :: "string list"
  copilots :: "string \<rightharpoonup> copilot"

record invite =
  inv_sip :: sip_request
  inv_from_user :: string
  inv_from_value :: string
  inv_from_tag :: string
  inv_to_user :: string
  inv_to_value :: string
  inv_content_type :: "string option"
  inv_body :: string

record sip_env =
  nonce_src :: "nat \<Rightarrow> string"
  clock :: "nat \<Rightarrow> instant"
  entry_id :: string
  listen_ok :: bool
  local_ip :: string
  unmarshal_sdp :: "string \<Rightarrow> sdp_desc option"
  parse_meta :: "string \<Rightarrow> siprec_meta option"
  did_match :: "DIDRouter \<Rightarrow> string \<Rightarrow> string \<Rightarrow> string \<times> string \<times> string \<times> string"
  run_flow :: "string \<Rightarrow> (string \<times> string) option"
  database_on :: bool

datatype sip_reply = Challenge string string | Reply int string | OkSDP string int string | NoReply

definition handleRegister :: "string \<Rightarrow> (string \<times> int \<times> string) option \<Rightarrow> SIPServer \<Rightarrow> SIPServer" where
  "handleRegister user contact s =
     (case contact of None \<Rightarrow> s
      | Some (host, port, portText) \<Rightarrow>
          s\<lparr>registrations := (registrations s)(user \<mapsto> (if port = 0 then host @ '':5060'' else host @ '':'' @ portText))\<rparr>)"

subsection \<open>INVITE, step by step\<close>

text \<open>The security gate: the new security state and, if the request stops here, the reply.\<close>

definition invite_auth :: "string \<Rightarrow> instant \<Rightarrow> sip_request \<Rightarrow> SIPSecurity option \<Rightarrow> SIPSecurity option \<times> sip_reply option" where
  "invite_auth fresh now req sec =
     (case sec of None \<Rightarrow> (None, None)
      | Some ss \<Rightarrow>
          (case AuthenticateRequest fresh now req ss of
             (ss', _, trunk, code, err) \<Rightarrow>
               if code = 0 then (Some ss', None)
               else if code = 401 then
                 let params = parseDigestParams (''nonce='' @ err);
                     realm = param params ''realm''
                 in (Some ss', Some (Challenge (if realm = '''' then ''voiceagent'' else realm) (param params ''nonce'')))
               else (Some ss', Some (Reply code ''Forbidden''))))"

definition invite_trunk :: "string \<Rightarrow> instant \<Rightarrow> sip_request \<Rightarrow> SIPSecurity option \<Rightarrow> SIPSecurity option \<times> sipTrunkEntry option" where
  "invite_trunk fresh now req sec =
     (case sec of None \<Rightarrow> (None, None)
      | Some ss \<Rightarrow> (case AuthenticateRequest fresh now req ss of (ss', _, trunk, _, _) \<Rightarrow> (Some ss', trunk)))"

definition is_multipart :: "invite \<Rightarrow> bool" where
  "is_multipart iv = (case inv_content_type iv of None \<Rightarrow> False | Some ct \<Rightarrow> str_contains ct ''multipart'')"

definition invite_trunk_type :: "invite \<Rightarrow> sipTrunkEntry option \<Rightarrow> string" where
  "invite_trunk_type iv trunk =
     (if is_multipart iv \<and> str_contains (inv_body iv) ''recording'' then ''siprec''
      else case trunk of None \<Rightarrow> ''direct''
           | Some t \<Rightarrow> if TrunkType t \<noteq> '''' then TrunkType t else ''direct'')"

definition invite_bodies :: "invite \<Rightarrow> string \<times> string" where
  "invite_bodies iv =
     (if is_multipart iv then
        parseMultipartBody (inv_body iv) (case inv_content_type iv of Some ct \<Rightarrow> ct | None \<Rightarrow> '''')
      else (inv_body iv, ''''))"

definition invite_role :: "sip_env \<Rightarrow> string \<Rightarrow> string" where
  "invite_role env xml =
     (let role = (if xml = '''' then ''''
                  else case parse_meta env xml of None \<Rightarrow> ''''
                       | Some m \<Rightarrow> (case Streams m of [] \<Rightarrow> '''' | st # _ \<Rightarrow> st_Label st))
      in if role = '''' then ''caller'' else role)"

definition meta_identity :: "siprec_meta \<Rightarrow> copilot \<Rightarrow> copilot" where
  "meta_identity m cp =
     fold (\<lambda>p c. if pa_AOR p = '''' then c
        else fold (\<lambda>st c'. if st_ParticipantID st \<noteq> pa_ID p then c'
               else if st_Label st = ''caller'' \<or> st_Label st = '''' then c'\<lparr>callerNumber := pa_AOR p\<rparr>
               else c'\<lparr>agentNumber := pa_AOR p\<rparr>) (Streams m) c) (Participants m) cp"

definition invite_identity :: "sip_env \<Rightarrow> invite \<Rightarrow> string \<Rightarrow> copilot \<Rightarrow> copilot" where
  "invite_identity env iv xml cp0 =
     (let cp1 = (if inv_from_user iv \<noteq> '''' then cp0\<lparr>callerNumber := inv_from_user iv\<rparr> else cp0);
          cp2 = (if inv_to_user iv \<noteq> '''' then cp1\<lparr>agentNumber := inv_to_user iv\<rparr> else cp1)
      in if xml = '''' then cp2
         else case parse_meta env xml of None \<Rightarrow> cp2 | Some m \<Rightarrow> meta_identity m cp2)"

text \<open>
  Inbound routing for the caller's leg: \<open>Inl ()\<close> when an IVR hangs up, else the queue's name.
\<close>

definition invite_route :: "sip_env \<Rightarrow> string \<Rightarrow> DIDRouter option \<Rightarrow> string \<Rightarrow> string \<Rightarrow> unit + string" where
  "invite_route env role router dialed trunkID =
     (if role \<noteq> ''caller'' then Inr ''Support''
      else case router of None \<Rightarrow> Inr ''Support''
      | Some r \<Rightarrow>
          (case did_match env r dialed trunkID of
             (destType, destValue, _, ivrID) \<Rightarrow>
               let dest = (if ivrID = '''' then Some (destType, destValue)
                           else case run_flow env ivrID of
                                  None \<Rightarrow> Some (destType, destValue)
                                | Some (t, v) \<Rightarrow>
                                    if t = ''queue'' \<and> v \<noteq> '''' then Some (''queue'', v)
                                    else if t = ''agent'' \<and> v \<noteq> '''' then Some (''agent'', v)
                                    else if t = ''hangup'' then None
                                    else Some (destType, destValue))
               in case dest of
                    None \<Rightarrow> Inl ()
                  | Some (t, v) \<Rightarrow>
                      Inr (if t = ''queue'' \<and> v \<noteq> '''' then v
                           else if t = ''agent'' \<and> v \<noteq> '''' then ''Direct'' else ''Support'')))"

text \<open>
  Enqueueing; the caller's number falls back to \<open>callID[:12]\<close>, which panics for a shorter id.
\<close>

definition invite_enqueue :: "sip_env \<Rightarrow> string \<Rightarrow> string \<Rightarrow> string \<Rightarrow> string \<Rightarrow> copilot \<Rightarrow> SIPServer \<Rightarrow> SIPServer option" where
  "invite_enqueue env role callID queueName trunkType cp s =
     (case sip_queues s of
        Some qs \<Rightarrow>
          if role \<noteq> ''caller'' then Some s
          else if callerNumber cp = '''' \<and> length callID < 12 then None
          else
            let callerNum = (if callerNumber cp = '''' then take 12 callID else callerNumber cp);
                reason = (if trunkType = ''siprec'' then ''SIPREC observation'' else ''Incoming call'');
                entry = \<lparr>ID = entry_id env, CallID = callID, Number = callerNum, WaitSec = 0, Reason = reason,
                         Priority = ''normal'', QueueName = '''', EnterTime = 0\<rparr>;
                s1 = s\<lparr>sip_queues := Some (fst (AddCaller (database_on env) (clock env 3) queueName entry qs))\<rparr>
            in Some (if trunkType = ''direct'' \<and> has_announcer s \<and> callID \<notin> set (announcing s)
                     then s1\<lparr>announcing := callID # announcing s\<rparr> else s1)
      | None \<Rightarrow> Some s)"

text \<open>From the open RTP socket on: identity, session, routing, enqueueing and the answer.\<close>

definition invite_session ::
  "sip_env \<Rightarrow> invite \<Rightarrow> string \<Rightarrow> string \<Rightarrow> string \<times> int \<times> string \<Rightarrow> int \<Rightarrow> SIPServer \<Rightarrow> (SIPServer \<times> sip_reply) option" where
  "invite_session env iv trunkType xml media lport s =
     (let req = inv_sip iv; callID = call_id req; role = invite_role env xml;
          (addr, port, codec) = media;
          cp0 = (case copilots s callID of Some c \<Rightarrow> c | None \<Rightarrow> \<lparr>callerNumber = '''', agentNumber = ''''\<rparr>);
          cp = invite_identity env iv xml cp0;
          sess = \<lparr>se_callID = callID, se_fromTag = inv_from_tag iv, remoteAddr = addr,
                  remotePort = port, se_codec = codec, localPort = lport,
                  sipFrom = inv_from_value iv, sipTo = inv_to_value iv, sipSource = source req,
                  isOutbound = False, two_way = (trunkType = ''direct'')\<rparr>;
          s4 = s\<lparr>copilots := (copilots s)(callID \<mapsto> cp),
                 sip_sessions := (sip_sessions s)(callID @ ''_'' @ role \<mapsto> sess)\<rparr>;
          (sec3, trunk3) =
            (if role = ''caller'' \<and> sip_didRouter s \<noteq> None
             then invite_trunk (nonce_src env 2) (clock env 2) req (security s) else (security s, None));
          trunkID = (case trunk3 of Some t \<Rightarrow> t_ID t | None \<Rightarrow> '''');
          s5 = s4\<lparr>security := sec3\<rparr>
      in case invite_route env role (sip_didRouter s) (inv_to_user iv) trunkID of
           Inl _ \<Rightarrow> Some (s5, NoReply)
         | Inr queueName \<Rightarrow>
             (case invite_enqueue env role callID queueName trunkType cp s5 of
                None \<Rightarrow> None
              | Some s6 \<Rightarrow> Some (s6, OkSDP (local_ip env) lport trunkType)))"

definition handleInvite :: "sip_env \<Rightarrow> invite \<Rightarrow> SIPServer \<Rightarrow> (SIPServer \<times> sip_reply) option" where
  "handleInvite env iv s =
     (let req = inv_sip iv;
          (sec1, stop) = invite_auth (nonce_src env 0) (clock env 0) req (security s)
      in case stop of
           Some reply \<Rightarrow> Some (s\<lparr>security := sec1\<rparr>, reply)
         | None \<Rightarrow>
             let (sec2, trunk) = invite_trunk (nonce_src env 1) (clock env 1) req sec1;
                 trunkType = invite_trunk_type iv trunk;
                 (sdpBody, xml) = invite_bodies iv;
                 s2 = s\<lparr>security := sec2\<rparr>
             in case parseSDPOffer (unmarshal_sdp env) sdpBody of
                  Inl _ \<Rightarrow> Some (s2, Reply 488 ''Not Acceptable Here'')
                | Inr (addr0, port, codec) \<Rightarrow>
                    let addr = (if addr0 = ''0.0.0.0'' then
                                  (case SplitHostPort (source req) of Some (h, _) \<Rightarrow> h | None \<Rightarrow> addr0) else addr0);
                        (lport, nextPort) = allocateRTPPort (rtpBase s) (rtpNext s);
                        s3 = s2\<lparr>rtpNext := nextPort\<rparr>
                    in if \<not> listen_ok env then Some (s3, Reply 500 ''RTP Setup Failed'')
                       else invite_session env iv trunkType xml (addr, port, codec) lport s3)"

subsection \<open>BYE\<close>

text \<open>
  The state the BYE handler touches beside the server's: the WebRTC bridge sessions with their
  agents and the distributor.
\<close>

type_synonym bye_state = "SIPServer \<times> (string \<rightharpoonup> string) option \<times> ACD option"

definition bye_bridge :: "instant \<Rightarrow> string \<Rightarrow> (string \<rightharpoonup> string) option \<times> ACD option \<Rightarrow> (string \<rightharpoonup> string) option \<times> ACD option" where
  "bye_bridge now callID st =
     (case st of
        (None, acd) \<Rightarrow> (None, acd)
      | (Some wm, acd) \<Rightarrow>
          (case wm (''bridge-'' @ callID) of
             None \<Rightarrow> (Some wm, acd)
           | Some agentID \<Rightarrow>
               (Some (wm(''bridge-'' @ callID := None)),
                if agentID \<noteq> '''' then map_option (OnCallEnd now agentID) acd else acd)))"

definition handleBye :: "enumeration \<Rightarrow> instant \<Rightarrow> string \<Rightarrow> bye_state \<Rightarrow> bye_state" where
  "handleBye ord now callID st =
     (case st of (s, wm, acd) \<Rightarrow>
        let s1 = s\<lparr>sip_sessions := (\<lambda>key. if has_prefix key callID then None else sip_sessions s key)\<rparr>;
            (wm', acd1) = bye_bridge now callID (wm, acd);
            s2 = (if has_announcer s then s1\<lparr>announcing := filter (\<lambda>c. c \<noteq> callID) (announcing s)\<rparr> else s1);
            s3 = s2\<lparr>sip_queues := map_option (RemoveCallerByCallID ord callID) (sip_queues s)\<rparr>;
            acd2 = map_option (\<lambda>a. a\<lparr>ringing := (ringing a)(callID := None)\<rparr>) acd1
        in (s3, wm', acd2))"

text \<open>
  The session \<open>SendBYE\<close> picks, in the order \<open>ks\<close> in which the map is visited, and the dialog
  headers it sends: destination, From, To and Call-ID.
\<close>

definition SendBYE :: "string list \<Rightarrow> string \<Rightarrow> (string \<Rightarrow> string) \<Rightarrow> SIPServer \<Rightarrow> (string \<times> string \<times> string \<times> string) option" where
  "SendBYE ks callID toTag s =
     (case find (\<lambda>k. has_prefix k callID \<and> sip_sessions s k \<noteq> None) ks of
        None \<Rightarrow> None
      | Some k \<Rightarrow>
          (case sip_sessions s k of None \<Rightarrow> None
           | Some se \<Rightarrow>
               if sipSource se = '''' then None
               else
                 let remote = sipTo se @ '';tag='' @ toTag k in
                 Some (sipSource se,
                       if isOutbound se then sipFrom se else remote,
                       if isOutbound se then remote else sipFrom se @ '';tag='' @ se_fromTag se,
                       se_callID se)))"

definition ActiveSessions :: "SIPServer \<Rightarrow> nat" where
  "ActiveSessions s = card (dom (sip_sessions s))"

subsection \<open>Lemmas\<close>

lemma digest_part_simple:
  assumes "CHR ''='' \<notin> set k" "k \<noteq> ''''" "\<not> is_space (hd k)" "\<not> is_space (last k)"
    and "\<forall>c \<in> set v. \<not> is_space c \<and> c \<noteq> CHR 0x22"
  shows "digest_part (k @ ''='' @ v) = Some (k, v)"
proof -
  have t: "trim_space (k @ ''='' @ v) = k @ ''='' @ v"
    unfolding trim_space_def
    by (rule trim_by_id) (use assms in \<open>auto simp: last_append is_space_def\<close>)
  have i: "str_index (k @ ''='' @ v) ''='' = Some (length k)"
  proof -
    have "takeWhile (\<lambda>c. c \<noteq> CHR ''='') (k @ CHR ''='' # v) = k"
      using assms(1) by (subst takeWhile_append2) auto
    then show ?thesis by (simp add: str_index_single)
  qed
  have "trim_space k = k" unfolding trim_space_def by (rule trim_by_id) (use assms in auto)
  moreover have "trim_space v = v" unfolding trim_space_def by (rule trim_by_no_hits) (use assms in auto)
  moreover have "trim_cutset v [CHR 0x22] = v" unfolding trim_cutset_def by (rule trim_by_no_hits) (use assms in auto)
  ultimately show ?thesis by (simp only: digest_part_def Let_def t i) simp
qed

definition token :: "string \<Rightarrow> bool" where
  "token s \<longleftrightarrow> (\<forall>c \<in> set s. \<not> is_space c \<and> c \<noteq> CHR 0x22 \<and> c \<noteq> CHR '','')"

lemma challenge_params:
  assumes "token n" "token r"
  shows "param (parseDigestParams (''nonce='' @ ''nonce='' @ n @ '',realm='' @ r)) ''nonce'' = ''nonce='' @ n"
proof -
  let ?s = "''nonce='' @ ''nonce='' @ n @ '',realm='' @ r"
  have p: "trim_prefix ?s ''Digest '' = ?s" by (simp add: trim_prefix_def has_prefix_def)
  have "split_on (CHR '','') (''nonce='' @ ''nonce='' @ n @ '',realm='' @ r) = [''nonce='' @ ''nonce='' @ n, ''realm='' @ r]"
  proof -
    have 1: "CHR '','' \<notin> set (''nonce='' @ ''nonce='' @ n)" "CHR '','' \<notin> set (''realm='' @ r)"
      using assms by (auto simp: token_def)
    have 2: "?s = (''nonce='' @ ''nonce='' @ n) @ CHR '','' # (''realm='' @ r)" by simp
    show ?thesis unfolding 2 split_on_append [OF 1(1)] split_on_no_sep [OF 1(2)] ..
  qed
  moreover have "digest_part (''nonce'' @ ''='' @ (''nonce='' @ n)) = Some (''nonce'', ''nonce='' @ n)"
    by (rule digest_part_simple) (use assms in \<open>auto simp: token_def is_space_def\<close>)
  moreover have "digest_part (''realm'' @ ''='' @ r) = Some (''realm'', r)"
    by (rule digest_part_simple) (use assms in \<open>auto simp: token_def is_space_def\<close>)
  ultimately show ?thesis by (simp only: parseDigestParams_def p) (simp add: param_def)
qed

lemma invite_auth_pass:
  assumes "invite_auth fresh now req (Some ss) = (sec', None)"
  shows "\<exists>trunk. findTrunkByIP (extractSourceIP req) (trunks ss) (acls ss) = Some trunk"
proof -
  obtain ss' ev t code err where a: "AuthenticateRequest fresh now req ss = (ss', ev, t, code, err)"
    by (cases "AuthenticateRequest fresh now req ss")
  then have "code = 0" using assms by (auto simp: invite_auth_def Let_def split: if_splits)
  from AuthenticateRequest_trunk [OF a this] show ?thesis by metis
qed

lemma fold_upd_mono:
  assumes "\<And>x c. P c \<Longrightarrow> P (f x c)" "P c"
  shows "P (fold f xs c)"
  using assms by (induction xs arbitrary: c) auto

lemma meta_identity_keeps:
  assumes "callerNumber cp \<noteq> ''''"
  shows "callerNumber (meta_identity m cp) \<noteq> ''''"
  unfolding meta_identity_def
proof (rule fold_upd_mono [where P = "\<lambda>c. callerNumber c \<noteq> ''''"])
  fix p and c :: copilot assume c: "callerNumber c \<noteq> ''''"
  show "callerNumber (if pa_AOR p = '''' then c
        else fold (\<lambda>st c'. if st_ParticipantID st \<noteq> pa_ID p then c'
               else if st_Label st = ''caller'' \<or> st_Label st = '''' then c'\<lparr>callerNumber := pa_AOR p\<rparr>
               else c'\<lparr>agentNumber := pa_AOR p\<rparr>) (Streams m) c) \<noteq> ''''"
  proof (cases "pa_AOR p = ''''")
    case False
    show ?thesis
      using False c by (simp del: not_None_eq) (rule fold_upd_mono [where P = "\<lambda>c. callerNumber c \<noteq> ''''"]; simp)
  qed (use c in simp)
qed (rule assms)

lemma invite_identity_caller:
  "inv_from_user iv \<noteq> '''' \<Longrightarrow> callerNumber (invite_identity env iv xml cp0) \<noteq> ''''"
  by (auto simp: invite_identity_def Let_def meta_identity_keeps split: option.splits)

lemma handleInvite_session:
  assumes "handleInvite env iv s = r" "r = None \<or> (\<exists>s' ip p tt. r = Some (s', OkSDP ip p tt))"
  obtains tt media lport s3 where "invite_session env iv tt (snd (invite_bodies iv)) media lport s3 = r"
    "sip_queues s3 = sip_queues s"
    "snd (invite_auth (nonce_src env 0) (clock env 0) (inv_sip iv) (security s)) = None"
proof -
  obtain sec1 stop where a: "invite_auth (nonce_src env 0) (clock env 0) (inv_sip iv) (security s) = (sec1, stop)"
    by (meson surj_pair)
  obtain sec2 trunk where t: "invite_trunk (nonce_src env 1) (clock env 1) (inv_sip iv) sec1 = (sec2, trunk)"
    by (meson surj_pair)
  have stop: "stop = None"
  proof (rule ccontr)
    assume "stop \<noteq> None"
    then obtain reply where rep: "stop = Some reply" by blast
    then have "\<forall>ip p tt. reply \<noteq> OkSDP ip p tt"
      using a by (auto simp: invite_auth_def Let_def split: option.splits prod.splits if_splits)
    then show False using assms rep a by (auto simp: handleInvite_def)
  qed
  obtain sb xml where b: "invite_bodies iv = (sb, xml)" by (meson surj_pair)
  obtain addr0 port codec where sd: "parseSDPOffer (unmarshal_sdp env) sb = Inr (addr0, port, codec)"
    using assms stop a t b by (cases "parseSDPOffer (unmarshal_sdp env) sb") (auto simp: handleInvite_def)
  obtain lport np where l: "allocateRTPPort (rtpBase s) (rtpNext s) = (lport, np)" by (meson surj_pair)
  have "listen_ok env" using assms stop a t b sd l by (cases "listen_ok env") (auto simp: handleInvite_def Let_def)
  then have "invite_session env iv (invite_trunk_type iv trunk) xml
      (if addr0 = ''0.0.0.0'' then (case SplitHostPort (source (inv_sip iv)) of Some (h, _) \<Rightarrow> h | None \<Rightarrow> addr0) else addr0,
       port, codec) lport (s\<lparr>security := sec2, rtpNext := np\<rparr>) = r"
    using assms(1) stop a t b sd l by (simp add: handleInvite_def Let_def)
  then show thesis using that [where ?s3.0 = "s\<lparr>security := sec2, rtpNext := np\<rparr>"] b a stop by simp
qed

lemma invite_session_enqueue:
  assumes "invite_session env iv tt xml media lport s3 = r" "r = None \<or> (\<exists>s' ip p t. r = Some (s', OkSDP ip p t))"
  obtains queueName cp s5 where
    "invite_enqueue env (invite_role env xml) (call_id (inv_sip iv)) queueName tt cp s5 = map_option fst r"
    "sip_queues s5 = sip_queues s3" "inv_from_user iv \<noteq> '''' \<longrightarrow> callerNumber cp \<noteq> ''''"
proof -
  obtain addr port codec where m: "media = (addr, port, codec)" by (cases media)
  define cp where "cp = invite_identity env iv xml
     (case copilots s3 (call_id (inv_sip iv)) of Some c \<Rightarrow> c | None \<Rightarrow> \<lparr>callerNumber = '''', agentNumber = ''''\<rparr>)"
  define st where "st = (if invite_role env xml = ''caller'' \<and> sip_didRouter s3 \<noteq> None
     then invite_trunk (nonce_src env 2) (clock env 2) (inv_sip iv) (security s3) else (security s3, None))"
  define sess where "sess = \<lparr>se_callID = call_id (inv_sip iv), se_fromTag = inv_from_tag iv, remoteAddr = addr,
     remotePort = port, se_codec = codec, localPort = lport, sipFrom = inv_from_value iv, sipTo = inv_to_value iv,
     sipSource = source (inv_sip iv), isOutbound = False, two_way = (tt = ''direct'')\<rparr>"
  define s5 where "s5 = s3\<lparr>copilots := (copilots s3)(call_id (inv_sip iv) \<mapsto> cp),
     sip_sessions := (sip_sessions s3)(call_id (inv_sip iv) @ ''_'' @ invite_role env xml \<mapsto> sess), security := fst st\<rparr>"
  have cp: "inv_from_user iv \<noteq> '''' \<longrightarrow> callerNumber cp \<noteq> ''''" by (auto simp: cp_def invite_identity_caller)
  have eq: "r = (case invite_route env (invite_role env xml) (sip_didRouter s3) (inv_to_user iv)
        (case snd st of Some t \<Rightarrow> t_ID t | None \<Rightarrow> '''') of
      Inl _ \<Rightarrow> Some (s5, NoReply)
    | Inr q \<Rightarrow> (case invite_enqueue env (invite_role env xml) (call_id (inv_sip iv)) q tt cp s5 of
        None \<Rightarrow> None | Some s6 \<Rightarrow> Some (s6, OkSDP (local_ip env) lport tt)))"
    unfolding assms(1) [symmetric] invite_session_def m s5_def sess_def st_def cp_def
    by (simp only: Let_def split_beta fst_conv snd_conv)
  obtain q where q: "invite_route env (invite_role env xml) (sip_didRouter s3) (inv_to_user iv)
        (case snd st of Some t \<Rightarrow> t_ID t | None \<Rightarrow> '''') = Inr q"
    using eq assms(2) by (auto split: sum.splits)
  have "invite_enqueue env (invite_role env xml) (call_id (inv_sip iv)) q tt cp s5 = map_option fst r"
    using eq by (simp add: q split: option.splits)
  then show thesis by (rule that) (simp_all add: s5_def cp)
qed

lemma invite_enqueue_waiting:
  assumes "invite_enqueue env ''caller'' callID queueName tt cp s = Some s'" "sip_queues s = Some qs" "finite (dom qs)"
  shows "\<exists>qs' e. sip_queues s' = Some qs' \<and> waiting qs' = add_mset e (waiting qs) \<and> CallID e = callID \<and> QueueName e = queueName
    \<and> finite (dom qs')"
  using assms qm.content_put [of qs "(database_on env, clock env 3, queueName, _)"] qm.put_wf [of qs "(database_on env, clock env 3, queueName, _)"]
  by (auto simp: invite_enqueue_def Let_def split: if_splits)

text \<open>A caller's leg that is answered passes the security check and adds one entry to the queues.\<close>

lemma handleInvite_enqueues:
  assumes "handleInvite env iv s = Some (s', OkSDP ip port tt)"
    and "sip_queues s = Some qs" "finite (dom qs)" "invite_role env (snd (invite_bodies iv)) = ''caller''"
  shows "snd (invite_auth (nonce_src env 0) (clock env 0) (inv_sip iv) (security s)) = None"
    and "\<exists>qs' e. sip_queues s' = Some qs' \<and> waiting qs' = add_mset e (waiting qs) \<and> CallID e = call_id (inv_sip iv) \<and> finite (dom qs')"
proof -
  obtain tt' media lport s3 where h: "invite_session env iv tt' (snd (invite_bodies iv)) media lport s3 = Some (s', OkSDP ip port tt)"
    "sip_queues s3 = sip_queues s"
    "snd (invite_auth (nonce_src env 0) (clock env 0) (inv_sip iv) (security s)) = None"
    by (rule handleInvite_session [OF assms(1)]) blast+
  obtain queueName cp s5 where q: "invite_enqueue env ''caller'' (call_id (inv_sip iv)) queueName tt' cp s5 = Some s'"
    "sip_queues s5 = sip_queues s3"
    using invite_session_enqueue [OF h(1)] assms(4) by (metis fst_conv option.simps(9))
  show "snd (invite_auth (nonce_src env 0) (clock env 0) (inv_sip iv) (security s)) = None" by (rule h(3))
  show "\<exists>qs' e. sip_queues s' = Some qs' \<and> waiting qs' = add_mset e (waiting qs) \<and> CallID e = call_id (inv_sip iv) \<and> finite (dom qs')"
    using invite_enqueue_waiting [OF q(1)] q(2) h(2) assms(2,3) by metis
qed

subsection \<open>Properties\<close>


definition example_env :: sip_env where
  "example_env = \<lparr>nonce_src = (\<lambda>_. ''abc''), clock = (\<lambda>i. int i), entry_id = ''q-1'', listen_ok = True, local_ip = ''10.0.0.9'',
     unmarshal_sdp = (\<lambda>_. Some \<lparr>sd_conn = Some ''10.0.0.1'', sd_media = [\<lparr>md_port = 4000, md_conn = None, md_formats = [''0'']\<rparr>]\<rparr>),
     parse_meta = (\<lambda>_. None), did_match = (\<lambda>_ _ _. ('''', '''', '''', '''')), run_flow = (\<lambda>_. None), database_on = False\<rparr>"

definition example_invite :: invite where
  "example_invite = \<lparr>inv_sip = example_request\<lparr>authorization := None, call_id := ''c-1''\<rparr>, inv_from_user = ''100'', inv_from_value = '''',
     inv_from_tag = '''', inv_to_user = ''200'', inv_to_value = '''', inv_content_type = None, inv_body = ''v=0''\<rparr>"

definition example_server :: SIPServer where
  "example_server = \<lparr>security = Some (example_security\<lparr>trunks := [example_trunk\<lparr>SecurityPolicy := ''permissive''\<rparr>]\<rparr>),
     rtpBase = 30000, rtpNext = 30000, sip_sessions = Map.empty, registrations = Map.empty, sip_didRouter = None,
     sip_queues = Some Map.empty, has_announcer = False, announcing = [], copilots = Map.empty\<rparr>"

lemma example_find_permissive:
  "findTrunkByIP ''10.0.0.1'' [example_trunk\<lparr>SecurityPolicy := ''permissive''\<rparr>] []
     = Some (example_trunk\<lparr>SecurityPolicy := ''permissive''\<rparr>)"
  by (simp add: findTrunkByIP_def ParseIP_def quad_field_def is_digit_def dec_value_def example_trunk_def)

lemma example_invite_ok:
  "\<exists>s'. handleInvite example_env example_invite example_server = Some (s', OkSDP ''10.0.0.9'' 30000 ''direct'')"
proof -
  have src: "extractSourceIP (inv_sip example_invite) = ''10.0.0.1''"
    by (simp add: example_invite_def example_request_def extractSourceIP_def SplitHostPort_def)
  have a: "AuthenticateRequest f n (inv_sip example_invite) (example_security\<lparr>trunks := [example_trunk\<lparr>SecurityPolicy := ''permissive''\<rparr>]\<rparr>)
     = (example_security\<lparr>trunks := [example_trunk\<lparr>SecurityPolicy := ''permissive''\<rparr>]\<rparr>, [(''auth_success'', ''t1'', ''policy=permissive (IP only)'')],
        Some (example_trunk\<lparr>SecurityPolicy := ''permissive''\<rparr>), 0, '''')" for f n
    by (simp add: AuthenticateRequest_def Let_def src example_security_def example_find_permissive)
       (simp add: example_trunk_def)
  show ?thesis
    by (simp add: handleInvite_def Let_def example_server_def invite_auth_def invite_trunk_def a example_env_def
        invite_bodies_def is_multipart_def invite_trunk_type_def parseSDPOffer_def invite_role_def allocateRTPPort_def
        invite_session_def invite_route_def invite_enqueue_def invite_identity_def)
       (simp add: example_invite_def example_trunk_def)
qed


text \<open>
  C38: digest authentication can never succeed. The challenge built from a 401 carries the text
  \<open>nonce=\<close> in front of the nonce that was stored, so a client that answers with the nonce it
  was given is refused with 403 as long as every stored nonce is a plain token without an
  equals sign, as the hexadecimal ones are.
\<close>

theorem digest_challenge_unanswerable:
  assumes "findTrunkByIP (extractSourceIP req) (trunks ss) (acls ss) = Some trunk"
    and "SecurityPolicy trunk = ''strict''" "AuthUser trunk \<noteq> ''''" "authorization req = None"
    and "token fresh" "token (AuthRealm trunk)"
    and "invite_auth fresh now req (Some ss) = (Some ss', Some (Challenge realm nonce))"
    and "\<forall>n \<in> dom (nonces ss2). CHR ''='' \<notin> set n" "trunks ss2 = trunks ss" "acls ss2 = acls ss"
    and "param (parseDigestParams v) ''nonce'' = nonce"
  shows "snd (invite_auth fresh2 now2 (req\<lparr>authorization := Some v\<rparr>) (Some ss2)) = Some (Reply 403 ''Forbidden'')"
proof -
  have ne: "trunks ss \<noteq> []" using findTrunkByIP_listed [OF assms(1)] by (auto simp: listed_def)
  have "nonce = ''nonce='' @ fresh"
    using assms(2-4,7) ne challenge_params [OF assms(5,6)]
    by (simp add: invite_auth_def AuthenticateRequest_def Let_def assms(1) digestAuth_def)
  then have n: "nonces ss2 nonce = None" using assms(8) by (metis Un_iff domIff list.set_intros(1) list.set_intros(2) set_append)
  have src: "extractSourceIP (req\<lparr>authorization := Some v\<rparr>) = extractSourceIP req" by (simp add: extractSourceIP_def split: option.split)
  show ?thesis
    using ne assms(1-3,9-11) n
    by (simp add: invite_auth_def AuthenticateRequest_def Let_def src digestAuth_def)
qed

theorem digest_challenge_unanswerable_witness:
  "snd (invite_auth ''x'' 7 (example_request\<lparr>authorization := Some ''Digest username=alice, nonce=nonce=abc''\<rparr>)
     (Some (generateNonce ''abc'' 5 ''t1'' example_security))) = Some (Reply 403 ''Forbidden'')"
proof -
  let ?req = "example_request\<lparr>authorization := None\<rparr>"
  have src: "extractSourceIP ?req = ''10.0.0.1''"
    by (simp add: extractSourceIP_def example_request_def SplitHostPort_def)
  have f: "findTrunkByIP (extractSourceIP ?req) (trunks example_security) (acls example_security) = Some example_trunk"
    unfolding src by (simp add: example_security_def example_find)
  have a: "AuthenticateRequest ''abc'' 5 ?req example_security = (generateNonce ''abc'' 5 ''t1'' example_security,
      [(''auth_challenge'', ''t1'', ''digest challenge sent'')], Some example_trunk, 401, ''nonce='' @ ''abc'' @ '',realm='' @ ''r'')"
    unfolding AuthenticateRequest_def Let_def f
    by (simp add: digestAuth_def) (simp add: example_security_def example_trunk_def)
  obtain realm nonce where i: "invite_auth ''abc'' 5 ?req (Some example_security) =
      (Some (generateNonce ''abc'' 5 ''t1'' example_security), Some (Challenge realm nonce))"
    by (simp add: invite_auth_def a Let_def)
  have n: "nonce = ''nonce='' @ ''abc''"
    using i challenge_params [of "''abc''" "''r''"] by (simp add: invite_auth_def a Let_def token_def is_space_def)
  have v: "param (parseDigestParams ''Digest username=alice, nonce=nonce=abc'') ''nonce'' = nonce"
    unfolding n by (simp add: parseDigestParams_def digest_part_def param_def string_eval Let_def)
  have "snd (invite_auth ''x'' 7 (?req\<lparr>authorization := Some ''Digest username=alice, nonce=nonce=abc''\<rparr>)
      (Some (generateNonce ''abc'' 5 ''t1'' example_security))) = Some (Reply 403 ''Forbidden'')"
    by (rule digest_challenge_unanswerable [OF f _ _ _ _ _ i _ _ _ v])
       (simp_all add: example_trunk_def token_def is_space_def generateNonce_def example_security_def)
  then show ?thesis by simp
qed

text \<open>
  the only INVITE that makes the handler panic is one without a caller number whose Call-ID
  is shorter than twelve bytes; the slice \<open>callID[:12]\<close> is then out of range.
\<close>

theorem handleInvite_panic_only_if:
  assumes "handleInvite env iv s = None"
  shows "inv_from_user iv = '''' \<and> length (call_id (inv_sip iv)) < 12 \<and> sip_queues s \<noteq> None"
proof -
  obtain tt media lport s3 where h: "invite_session env iv tt (snd (invite_bodies iv)) media lport s3 = None"
    "sip_queues s3 = sip_queues s"
    by (rule handleInvite_session [OF assms disjI1 [OF refl]])
  show ?thesis
  proof (rule invite_session_enqueue [OF h(1)])
    fix queueName cp s5
    assume "invite_enqueue env (invite_role env (snd (invite_bodies iv))) (call_id (inv_sip iv)) queueName tt cp s5
        = map_option fst None"
      and "sip_queues s5 = sip_queues s3" "inv_from_user iv \<noteq> '''' \<longrightarrow> callerNumber cp \<noteq> ''''"
    then show ?thesis using h(2) by (auto simp: invite_enqueue_def Let_def split: option.splits if_splits)
  qed simp
qed

theorem handleInvite_panic_only_if_witness:
  "handleInvite example_env (example_invite\<lparr>inv_from_user := ''''\<rparr>) example_server = None
   \<and> length (call_id (inv_sip (example_invite\<lparr>inv_from_user := ''''\<rparr>))) < 12"
proof -
  let ?iv = "example_invite\<lparr>inv_from_user := ''''\<rparr>"
  let ?ss = "example_security\<lparr>trunks := [example_trunk\<lparr>SecurityPolicy := ''permissive''\<rparr>]\<rparr>"
  have src: "extractSourceIP (inv_sip ?iv) = ''10.0.0.1''"
    by (simp add: example_invite_def example_request_def extractSourceIP_def SplitHostPort_def)
  have a: "AuthenticateRequest f n (inv_sip ?iv) ?ss = (?ss, [(''auth_success'', ''t1'', ''policy=permissive (IP only)'')],
        Some (example_trunk\<lparr>SecurityPolicy := ''permissive''\<rparr>), 0, '''')" for f n
    unfolding AuthenticateRequest_def Let_def src
    by (simp add: example_security_def example_find_permissive) (simp add: example_trunk_def)
  have "handleInvite example_env ?iv example_server = None"
    by (simp add: handleInvite_def Let_def example_server_def invite_auth_def invite_trunk_def a [simplified] example_env_def
        invite_bodies_def is_multipart_def invite_trunk_type_def parseSDPOffer_def invite_role_def allocateRTPPort_def
        invite_session_def invite_route_def invite_enqueue_def invite_identity_def)
       (simp add: example_invite_def example_trunk_def)
  from this handleInvite_panic_only_if [OF this] show ?thesis by simp
qed

text \<open>
  a BYE ends every session whose key starts with its Call-ID, so also the sessions of any
  other call whose Call-ID extends it, and leaves all other sessions alone.
\<close>

theorem handleBye_sessions:
  shows "sip_sessions (fst (handleBye ord now callID (s, wm, acd))) =
           (\<lambda>key. if \<exists>rest. key = callID @ rest then None else sip_sessions s key) \<and>
         sip_sessions (fst (handleBye ord now callID (s, wm, acd))) ((callID @ suffix) @ ''_'' @ role) = None"
  by (auto simp: handleBye_def Let_def has_prefix_iff fun_eq_iff split: prod.splits)

end
