(* ===== verification/Wav.thy ===== *)
theory Wav
  imports Prelude
begin

text \<open>
  The WAV container helpers of \<open>gateway/main.go\<close>: \<open>buildWAV\<close>, which the speech-to-text upload and
  the call recorder use, and \<open>stripWAVHeader\<close>, which unpacks synthesised speech. Sizes are the
  32-bit and 16-bit words of the format; \<open>int\<close> holds a \<open>uint32\<close> without loss. The byte offset of
  the chunk search is a natural number.
\<close>

definition put_u32 :: "32 word \<Rightarrow> byte list" where
  "put_u32 w = [ucast w, ucast (drop_bit 8 w), ucast (drop_bit 16 w), ucast (drop_bit 24 w)]"

definition u32_le :: "byte list \<Rightarrow> 32 word" where
  "u32_le bs = ucast (bs ! 0) OR push_bit 8 (ucast (bs ! 1)) OR push_bit 16 (ucast (bs ! 2))
               OR push_bit 24 (ucast (bs ! 3))"

definition ascii :: "string \<Rightarrow> byte list" where
  "ascii s = map (\<lambda>c. word_of_nat (of_char c)) s"

definition buildWAV :: "byte list \<Rightarrow> int \<Rightarrow> int \<Rightarrow> int \<Rightarrow> byte list" where
  "buildWAV pcm rate channels bitsPerSample =
     (let dataLen = int (length pcm);
          byteRate = go_div (rate * channels * bitsPerSample) 8;
          blockAlign = go_div (channels * bitsPerSample) 8
      in ascii ''RIFF'' @ put_u32 (word_of_int (36 + dataLen)) @ ascii ''WAVE''
         @ ascii ''fmt '' @ put_u32 16 @ put_u16 1 @ put_u16 (word_of_int channels)
         @ put_u32 (word_of_int rate) @ put_u32 (word_of_int byteRate)
         @ put_u16 (word_of_int blockAlign) @ put_u16 (word_of_int bitsPerSample)
         @ ascii ''data'' @ put_u32 (word_of_int dataLen) @ pcm)"

text \<open>The loop \<open>for pos+8 < len(wav)\<close>, which looks for the data chunk.\<close>

function find_data :: "byte list \<Rightarrow> nat \<Rightarrow> byte list" where
  "find_data wav pos =
     (if pos + 8 < length wav then
        let chunkID = take 4 (drop pos wav);
            chunkSize = unat (u32_le (take 4 (drop (pos + 4) wav)))
        in if chunkID = ascii ''data'' then
             (let end0 = pos + 8 + chunkSize; e = (if end0 > length wav then length wav else end0) in
              take (e - (pos + 8)) (drop (pos + 8) wav))
           else find_data wav (pos + 8 + chunkSize)
      else drop 44 wav)"
  by auto
termination
  by (relation "measure (\<lambda>(wav, pos). length wav - pos)") auto

declare find_data.simps [simp del]

definition stripWAVHeader :: "byte list \<Rightarrow> byte list" where
  "stripWAVHeader wav =
     (if length wav < 44 \<or> take 4 wav \<noteq> ascii ''RIFF'' then wav else find_data wav 12)"

subsection \<open>Lemmas\<close>

lemma length_put_u32 [simp]: "length (put_u32 w) = 4"
  by (simp add: put_u32_def)

lemma length_ascii [simp]: "length (ascii s) = length s"
  by (simp add: ascii_def)

lemma u32_le_put [simp]: "u32_le (put_u32 w) = w"
proof (rule bit_word_eqI)
  fix n assume "n < LENGTH(32)"
  then consider "n < 8" | "8 \<le> n \<and> n < 16" | "16 \<le> n \<and> n < 24" | "24 \<le> n \<and> n < 32" by fastforce
  then show "bit (u32_le (put_u32 w)) n = bit w n"
    by cases (auto simp: u32_le_def put_u32_def bit_simps)
qed

lemma ascii_data_fmt: "ascii ''fmt '' \<noteq> ascii ''data''"
  by (simp add: ascii_def)

lemma length_buildWAV: "length (buildWAV pcm r c b) = 44 + length pcm"
  by (simp add: buildWAV_def Let_def)

lemma drop_prefix: "length xs = n \<Longrightarrow> drop n (xs @ ys) = ys"
  by simp

lemma buildWAV_split:
  obtains h f where "length h = 12" "length f = 16"
    "buildWAV pcm r c b = h @ ascii ''fmt '' @ put_u32 16 @ f @ ascii ''data'' @ put_u32 (word_of_nat (length pcm)) @ pcm"
    "take 4 h = ascii ''RIFF''"
proof -
  let ?h = "ascii ''RIFF'' @ put_u32 (word_of_int (36 + int (length pcm))) @ ascii ''WAVE''"
  let ?f = "put_u16 1 @ put_u16 (word_of_int c) @ put_u32 (word_of_int r)
     @ put_u32 (word_of_int (go_div (r * c * b) 8)) @ put_u16 (word_of_int (go_div (c * b) 8)) @ put_u16 (word_of_int b)"
  show ?thesis by (rule that [of ?h ?f]) (simp_all add: buildWAV_def Let_def)
qed

lemma find_data_skip:
  assumes "wav = pre @ cid @ put_u32 n @ rest" "length cid = 4" "cid \<noteq> ascii ''data''" "rest \<noteq> []"
  shows "find_data wav (length pre) = find_data wav (length pre + 8 + unat n)"
  using assms by (subst find_data.simps) (simp add: Let_def)

lemma find_data_hit:
  assumes "wav = pre @ ascii ''data'' @ put_u32 n @ pcm" "pcm \<noteq> []" "unat n = length pcm"
  shows "find_data wav (length pre) = pcm"
  using assms by (subst find_data.simps) (simp add: Let_def)

subsection \<open>Properties\<close>

text \<open>
  C35: unpacking a WAV built by the gateway gives the samples back, for every rate, channel count
  and sample width, as long as the data fits the format's 32-bit size field.
\<close>

theorem wav_roundtrip:
  assumes "length pcm < 2 ^ 32"
  shows "stripWAVHeader (buildWAV pcm rate channels bits) = pcm"
proof -
  obtain h f where w: "length h = 12" "length f = 16"
    "buildWAV pcm rate channels bits = h @ ascii ''fmt '' @ put_u32 16 @ f @ ascii ''data'' @ put_u32 (word_of_nat (length pcm)) @ pcm"
    "take 4 h = ascii ''RIFF''"
    by (rule buildWAV_split)
  let ?w = "buildWAV pcm rate channels bits"
  have riff: "take 4 ?w = ascii ''RIFF''" using w by simp
  have "find_data ?w (length h) = find_data ?w (length h + 8 + unat (16 :: 32 word))"
    by (rule find_data_skip [of _ h "ascii ''fmt ''" 16
          "f @ ascii ''data'' @ put_u32 (word_of_nat (length pcm)) @ pcm"])
       (use w in \<open>auto simp: ascii_def\<close>)
  then have 1: "find_data ?w 12 = find_data ?w 36" using w(1) by simp
  have 2: "find_data ?w 36 = pcm"
  proof (cases "pcm = []")
    case True
    then have "length ?w = 44" by (simp add: length_buildWAV)
    then show ?thesis using True by (subst find_data.simps) simp
  next
    case False
    have "find_data ?w (length (h @ ascii ''fmt '' @ put_u32 16 @ f)) = pcm"
      by (rule find_data_hit [of _ _ "word_of_nat (length pcm)"])
         (use w(3) False assms in \<open>simp_all add: unat_of_nat\<close>)
    then show ?thesis using w(1,2) by simp
  qed
  show ?thesis
    unfolding stripWAVHeader_def using riff 1 2 by (simp add: length_buildWAV)
qed

theorem wav_roundtrip_witness:
  "stripWAVHeader (buildWAV [1, 2, 3, 4] 16000 1 16) = [1, 2, 3, 4]"
  by (rule wav_roundtrip) simp

end
