(* ===== verification/Fanout.thy ===== *)
theory Fanout
  imports Prelude
begin

text \<open>
  Fan-out of messages to bounded channels with non-blocking sends: the contract, and the audio and
  agent taps of a call (\<open>AddAudioTap\<close>, \<open>RemoveAudioTap\<close>, \<open>broadcastToTaps\<close> and their agent
  counterparts in \<open>gateway/siprec.go\<close>). A channel is its identity and the messages buffered in it.
\<close>

subsection \<open>The contract\<close>

type_synonym 'm chan = "nat \<times> 'm list"

text \<open>\<open>select { case ch <- m: default: }\<close>\<close>

definition send_nb :: "nat \<Rightarrow> 'm \<Rightarrow> 'm chan \<Rightarrow> 'm chan" where
  "send_nb cap m c = (if length (snd c) < cap then (fst c, snd c @ [m]) else c)"

lemma fst_send_nb [simp]: "fst (send_nb cap m c) = fst c"
  by (simp add: send_nb_def)

lemma length_send_nb: "length (snd c) \<le> cap \<Longrightarrow> length (snd (send_nb cap m c)) \<le> cap"
  by (simp add: send_nb_def)

lemma fst_image_send_nb [simp]: "fst ` set (map (send_nb cap m) cs) = fst ` set cs"
  by (simp add: image_image)

lemma map_of_send_nb:
  "map_of (map (send_nb cap m) cs) i = map_option (\<lambda>b. snd (send_nb cap m (i, b))) (map_of cs i)"
  by (induction cs) (auto simp: send_nb_def)

lemma send_all: "fold (\<lambda>m b. snd (send_nb cap m (i, b))) ms b = b @ take (cap - length b) ms"
proof (induction ms arbitrary: b)
  case (Cons m ms)
  show ?case
  proof (cases "length b < cap")
    case True
    then obtain k where "cap - length b = Suc k" by (metis Suc_diff_Suc)
    moreover have "cap - Suc (length b) = k" using calculation by simp
    ultimately show ?thesis using True Cons.IH [of "b @ [m]"] by (simp add: send_nb_def)
  qed (use Cons.IH [of b] in \<open>simp add: send_nb_def\<close>)
qed simp

locale fanout =
  fixes wf :: "'s \<Rightarrow> bool" and subs :: "'s \<Rightarrow> 'm chan list" and cap :: nat
    and add :: "'s \<Rightarrow> 's \<times> nat" and remove :: "nat \<Rightarrow> 's \<Rightarrow> 's" and publish :: "'m \<Rightarrow> 's \<Rightarrow> 's"
  assumes distinct_subs: "wf s \<Longrightarrow> distinct (map fst (subs s))"
    and add_law: "wf s \<Longrightarrow> add s = (s', i) \<Longrightarrow> wf s' \<and> i \<notin> fst ` set (subs s) \<and> subs s' = subs s @ [(i, [])]"
    and remove_law: "wf s \<Longrightarrow> i \<in> fst ` set (subs s)
          \<Longrightarrow> wf (remove i s) \<and> subs (remove i s) = remove_first (\<lambda>c. fst c = i) (subs s)"
    and publish_law: "wf s \<Longrightarrow> wf (publish m s) \<and> subs (publish m s) = map (send_nb cap m) (subs s)"
begin

lemma publish_run:
  "wf s \<Longrightarrow> wf (fold publish ms s) \<and>
     map_of (subs (fold publish ms s)) i
       = map_option (\<lambda>b. b @ take (cap - length b) ms) (map_of (subs s) i)"
proof (induction ms arbitrary: s)
  case (Cons m ms)
  have w: "wf (publish m s)" "subs (publish m s) = map (send_nb cap m) (subs s)"
    using publish_law Cons.prems by auto
  show ?case
    using Cons.IH [OF w(1)] w(2) send_all [of cap i "m # ms"] send_all [of cap i ms]
    by (cases "map_of (subs s) i") (simp_all add: map_of_send_nb)
qed (simp add: option.map_ident)

text \<open>A new subscriber receives the messages published from then on, in order, up to the buffer.\<close>

lemma new_subscriber:
  assumes "wf s" "add s = (s', i)"
  shows "map_of (subs (fold publish ms s')) i = Some (take cap ms)"
proof -
  have *: "wf s'" "i \<notin> fst ` set (subs s)" "subs s' = subs s @ [(i, [])]" using add_law assms by auto
  then have "map_of (subs s') i = Some []" by (simp add: map_add_def map_of_eq_None_iff [symmetric])
  then show ?thesis using publish_run [OF *(1), of ms i] by simp
qed

text \<open>The other subscribers notice neither the arrival nor the departure of one.\<close>

lemma others_unaffected:
  assumes "wf s" "add s = (s', i)" "j \<noteq> i"
  shows "map_of (subs (fold publish ms s')) j = map_of (subs (fold publish ms s)) j"
proof -
  have *: "wf s'" "subs s' = subs s @ [(i, [])]" using add_law assms by auto
  then have "map_of (subs s') j = map_of (subs s) j" using assms(3)
    by (simp add: map_add_def split: option.splits)
  then show ?thesis using publish_run [OF *(1), of ms j] publish_run [OF assms(1), of ms j] by simp
qed

lemma removed_gets_nothing:
  assumes "wf s" "i \<in> fst ` set (subs s)"
  shows "map_of (subs (fold publish ms (remove i s))) j
       = (if j = i then None else map_of (subs (fold publish ms s)) j)"
proof -
  have r: "wf (remove i s)" "subs (remove i s) = remove_first (\<lambda>c. fst c = i) (subs s)"
    using remove_law assms by auto
  have "map_of (remove_first (\<lambda>c. fst c = i) cs) j = (if j = i then None else map_of cs j)"
    if "distinct (map fst cs)" for cs :: "'m chan list"
    using that by (induction cs) (auto simp: map_of_eq_None_iff rev_image_eqI)
  then have "map_of (subs (remove i s)) j = (if j = i then None else map_of (subs s) j)"
    using distinct_subs assms(1) r(2) by simp
  then show ?thesis using publish_run [OF r(1), of ms j] publish_run [OF assms(1), of ms j] by simp
qed

end

subsection \<open>Taps of a call\<close>

definition pcmChanBufSize :: nat where "pcmChanBufSize = 50"

text \<open>\<open>next_chan\<close> is the identity of the next channel that \<open>make\<close> returns.\<close>

record siprec_taps =
  audioTaps :: "byte list chan list"
  agentTaps :: "byte list chan list"
  next_chan :: nat

definition AddAudioTap :: "siprec_taps \<Rightarrow> siprec_taps \<times> nat" where
  "AddAudioTap s = (s\<lparr>audioTaps := audioTaps s @ [(next_chan s, [])], next_chan := next_chan s + 1\<rparr>, next_chan s)"

definition RemoveAudioTap :: "nat \<Rightarrow> siprec_taps \<Rightarrow> siprec_taps" where
  "RemoveAudioTap ch s = s\<lparr>audioTaps := remove_first (\<lambda>t. fst t = ch) (audioTaps s)\<rparr>"

definition broadcastToTaps :: "byte list \<Rightarrow> siprec_taps \<Rightarrow> siprec_taps" where
  "broadcastToTaps frame s = s\<lparr>audioTaps := map (send_nb pcmChanBufSize frame) (audioTaps s)\<rparr>"

definition AddAgentTap :: "siprec_taps \<Rightarrow> siprec_taps \<times> nat" where
  "AddAgentTap s = (s\<lparr>agentTaps := agentTaps s @ [(next_chan s, [])], next_chan := next_chan s + 1\<rparr>, next_chan s)"

definition RemoveAgentTap :: "nat \<Rightarrow> siprec_taps \<Rightarrow> siprec_taps" where
  "RemoveAgentTap ch s = s\<lparr>agentTaps := remove_first (\<lambda>t. fst t = ch) (agentTaps s)\<rparr>"

definition broadcastToAgentTaps :: "byte list \<Rightarrow> siprec_taps \<Rightarrow> siprec_taps" where
  "broadcastToAgentTaps frame s = s\<lparr>agentTaps := map (send_nb pcmChanBufSize frame) (agentTaps s)\<rparr>"

definition fresh_ids :: "nat \<Rightarrow> 'm chan list \<Rightarrow> bool" where
  "fresh_ids n cs \<longleftrightarrow> distinct (map fst cs) \<and> (\<forall>i \<in> set (map fst cs). i < n)"

definition taps_wf :: "siprec_taps \<Rightarrow> bool" where
  "taps_wf s \<longleftrightarrow> fresh_ids (next_chan s) (audioTaps s) \<and> fresh_ids (next_chan s) (agentTaps s)"

lemma set_map_remove_first: "i \<in> set (map f (remove_first P xs)) \<Longrightarrow> i \<in> set (map f xs)"
  by (induction xs) (auto split: if_splits)

lemma fresh_ids_add: "fresh_ids n cs \<Longrightarrow> fresh_ids (n + 1) (cs @ [(n, b)])"
  by (auto simp: fresh_ids_def less_SucI)

lemma fresh_ids_mono: "fresh_ids n cs \<Longrightarrow> fresh_ids (n + 1) cs"
  by (auto simp: fresh_ids_def less_SucI)

lemma fresh_ids_remove: "fresh_ids n cs \<Longrightarrow> fresh_ids n (remove_first P cs)"
proof (induction cs)
  case (Cons c cs)
  then show ?case using set_map_remove_first [of _ fst P cs] by (auto simp: fresh_ids_def image_iff)
qed simp

lemma fresh_ids_send: "fresh_ids n cs \<Longrightarrow> fresh_ids n (map (send_nb cap m) cs)"
  by (simp add: fresh_ids_def o_def)

lemma fresh_ids_new: "fresh_ids n cs \<Longrightarrow> n \<notin> fst ` set cs"
  by (auto simp: fresh_ids_def)

lemmas taps_simps = taps_wf_def AddAudioTap_def RemoveAudioTap_def broadcastToTaps_def AddAgentTap_def
  RemoveAgentTap_def broadcastToAgentTaps_def fresh_ids_add [simplified] fresh_ids_mono [simplified]
  fresh_ids_remove fresh_ids_send fresh_ids_new

interpretation audio_taps: fanout taps_wf audioTaps pcmChanBufSize AddAudioTap RemoveAudioTap broadcastToTaps
proof (unfold_locales, goal_cases)
  case (1 s)
  then show ?case by (simp add: taps_wf_def fresh_ids_def)
qed (auto simp only: taps_simps siprec_taps.simps prod.inject, (simp add: taps_simps)+)

interpretation agent_taps: fanout taps_wf agentTaps pcmChanBufSize AddAgentTap RemoveAgentTap broadcastToAgentTaps
proof (unfold_locales, goal_cases)
  case (1 s)
  then show ?case by (simp add: taps_wf_def fresh_ids_def)
qed (auto simp only: taps_simps siprec_taps.simps prod.inject, (simp add: taps_simps)+)

end
