(* ===== verification/Resample.thy ===== *)
theory Resample
  imports Complex_Main Codec
begin

text \<open>
  Linear-interpolation resampling of 16-bit audio (\<open>resample\<close> in \<open>gateway/main.go\<close>). Every
  floating-point operation is the real operation followed by the rounding \<open>rnd\<close>; the only fact of
  IEEE 754 used is that multiples of one half up to \<open>2 ^ 52\<close> are represented exactly.
\<close>

text \<open>Go's conversion of a float to an integer truncates towards zero.\<close>

definition trunc :: "real \<Rightarrow> int" where
  "trunc x = (if 0 \<le> x then \<lfloor>x\<rfloor> else \<lceil>x\<rceil>)"

definition resample_at :: "(real \<Rightarrow> real) \<Rightarrow> int16 list \<Rightarrow> real \<Rightarrow> nat \<Rightarrow> int16" where
  "resample_at rnd ins ratio i =
     (let nIn = length ins;
          pos = rnd (rnd (of_nat i) * ratio);
          idx = nat (trunc pos);
          frac = rnd (pos - rnd (of_nat idx))
      in if idx + 1 < nIn then
           word_of_int (trunc (rnd (rnd (of_int (sint (ins ! idx)) * rnd (1 - frac))
                                  + rnd (of_int (sint (ins ! (idx + 1))) * frac))))
         else if idx < nIn then ins ! idx
         else 0)"

definition resample :: "(real \<Rightarrow> real) \<Rightarrow> byte list \<Rightarrow> nat \<Rightarrow> nat \<Rightarrow> byte list" where
  "resample rnd pcm fromRate toRate =
     (if fromRate = toRate \<or> length pcm < 2 then pcm
      else
        let ins = samples pcm;
            nOut = nat (trunc (rnd (rnd (rnd (of_nat (length ins)) * rnd (of_nat toRate)) / rnd (of_nat fromRate))));
            ratio = rnd (rnd (of_nat fromRate) / rnd (of_nat toRate))
        in pcm_bytes (map (resample_at rnd ins ratio) [0..<nOut]))"

definition exact_halves :: "(real \<Rightarrow> real) \<Rightarrow> bool" where
  "exact_halves rnd \<longleftrightarrow> (\<forall>k :: int. \<bar>k\<bar> \<le> 2 ^ 53 \<longrightarrow> rnd (of_int k / 2) = of_int k / 2)"

lemma exact_halvesD: "exact_halves rnd \<Longrightarrow> \<bar>k\<bar> \<le> 2 ^ 53 \<Longrightarrow> x = of_int k / 2 \<Longrightarrow> rnd x = x"
  unfolding exact_halves_def by blast

lemma exact_int: "exact_halves rnd \<Longrightarrow> \<bar>k\<bar> \<le> 2 ^ 52 \<Longrightarrow> rnd (of_int k) = of_int k"
  using exact_halvesD [of rnd "2 * k" "of_int k"] by simp

lemma exact_nat: "exact_halves rnd \<Longrightarrow> n \<le> 2 ^ 52 \<Longrightarrow> rnd (of_nat n) = of_nat n"
  using exact_int [of rnd "int n"] by simp

lemma trunc_of_int [simp]: "trunc (of_int k) = k"
  by (simp add: trunc_def)

lemma trunc_of_nat [simp]: "trunc (of_nat k) = int k"
  by (simp add: trunc_def)

lemma word_of_int_sint: "word_of_int (sint w) = (w :: int16)"
  by (metis of_int_sint scast_eq scast_id)

lemma trunc_half: "trunc (of_int k / 2) = go_div k 2"
proof (cases "0 \<le> k")
  case True
  then show ?thesis using floor_divide_of_int_eq [of k 2] by (auto simp: trunc_def go_div_def sgn_if)
next
  case False
  then have "\<lceil>of_int k / 2 :: real\<rceil> = - (- k div 2)"
    using floor_divide_of_int_eq [of "- k" 2, where ?'a = real] by (simp add: ceiling_def)
  with False show ?thesis by (auto simp: trunc_def go_div_def sgn_if)
qed

lemma trunc_nat_half: "nat (trunc (of_nat n / 2)) = n div 2"
  using trunc_half [of "int n"] by (auto simp: go_div_def sgn_if nat_div_distrib)

text \<open>The interpolation at an integer or half-integer position is exact.\<close>

lemma resample_at_double:
  assumes "exact_halves rnd" "i \<le> 2 ^ 50" "i < 2 * length ins"
  shows "resample_at rnd ins (1 / 2) i
       = (if even i then ins ! (i div 2)
          else interpolate (ins ! (i div 2)) (ins ! min (i div 2 + 1) (length ins - 1)))"
proof -
  have i: "rnd (of_nat i) = of_nat i" using exact_nat [OF assms(1), of i] assms(2) by simp
  have p: "rnd (of_nat i * (1 / 2)) = of_nat i / 2"
    using exact_halvesD [OF assms(1), of "int i" "of_nat i / 2"] assms(2) by simp
  have x: "rnd (of_nat (i div 2)) = of_nat (i div 2)" using exact_nat [OF assms(1)] assms(2) by simp
  define f where "f = (if even i then 0 else 1 / 2 :: real)"
  have d: "of_nat i / 2 - of_nat (i div 2) = f"
    by (cases "even i") (auto simp: f_def elim!: evenE oddE)
  have r: "rnd f = f" "rnd (1 - f) = 1 - f"
    using exact_halvesD [OF assms(1), of 0 0] exact_halvesD [OF assms(1), of 1 "1 / 2"]
      exact_halvesD [OF assms(1), of 2 1] by (auto simp: f_def)
  let ?a = "sint (ins ! (i div 2))" and ?b = "sint (ins ! (i div 2 + 1))"
  have b: "\<bar>?a\<bar> \<le> 2 ^ 53" "\<bar>?b\<bar> \<le> 2 ^ 53" "\<bar>2 * ?a\<bar> \<le> 2 ^ 53" "\<bar>?a + ?b\<bar> \<le> 2 ^ 53"
    using sint_int16_range [of "ins ! (i div 2)"] sint_int16_range [of "ins ! (i div 2 + 1)"] by auto
  note half = exact_halvesD [OF assms(1) b(1)] exact_halvesD [OF assms(1) b(2)]
    exact_halvesD [OF assms(1) b(3)] exact_halvesD [OF assms(1) b(4)]
  have v: "trunc (rnd (rnd (of_int ?a * rnd (1 - f)) + rnd (of_int ?b * f)))
      = (if even i then ?a else go_div (?a + ?b) 2)"
  proof (cases "even i")
    case True
    then show ?thesis using half(3) [of "of_int ?a"] exact_halvesD [OF assms(1), of 0 0] r
      by (simp add: f_def del: of_int_sint)
  next
    case False
    then have f: "f = 1 / 2" "1 - f = 1 / 2" by (auto simp: f_def)
    have "rnd (of_int ?a * (1 / 2)) = of_int ?a / 2" "rnd (of_int ?b * (1 / 2)) = of_int ?b / 2"
      using half(1) [OF refl] half(2) [OF refl] by simp_all
    then have "rnd (of_int ?a * rnd (1 - f)) + rnd (of_int ?b * f) = of_int (?a + ?b) / 2"
      unfolding r unfolding f by (simp add: add_divide_distrib)
    then show ?thesis using False half(4) [OF refl] trunc_half [of "?a + ?b"] by (simp only:) simp
  qed
  have w: "interpolate w w = w" for w :: int16
    using trunc_of_int [of "sint w"] trunc_half [of "2 * sint w"]
    by (simp add: interpolate_def word_of_int_sint del: of_int_sint flip: mult_2)
  have "resample_at rnd ins (1 / 2) i =
     (if i div 2 + 1 < length ins then word_of_int (if even i then ?a else go_div (?a + ?b) 2)
      else if i div 2 < length ins then ins ! (i div 2) else 0)"
    by (simp only: resample_at_def Let_def i p trunc_nat_half x d r v [unfolded r])
  moreover have "i div 2 < length ins" using assms(3) by simp
  ultimately show ?thesis
    by (cases "i div 2 + 1 < length ins"; cases "even i")
       (auto simp: word_of_int_sint interpolate_def [symmetric] w min_def not_less le_Suc_eq)
qed

lemma resample_at_halve:
  assumes "exact_halves rnd" "i \<le> 2 ^ 50" "2 * i + 1 < length ins"
  shows "resample_at rnd ins 2 i = ins ! (2 * i)"
proof -
  have i: "rnd (of_nat i) = of_nat i" "rnd (of_nat i * 2) = of_nat (2 * i)" "rnd (of_nat (2 * i)) = of_nat (2 * i)"
    using exact_nat [OF assms(1), of i] exact_nat [OF assms(1), of "2 * i"] assms(2) by (simp_all add: mult.commute)
  have z: "rnd 0 = 0" "rnd 1 = 1" using exact_int [OF assms(1), of 0] exact_int [OF assms(1), of 1] by auto
  have a: "rnd (of_int (sint w)) = of_int (sint w)" for w :: int16
    by (rule exact_int [OF assms(1)]) (use sint_int16_range [of w] in auto)
  have "nat (trunc (of_nat (2 * i))) = 2 * i" by (simp only: trunc_of_nat nat_int)
  then show ?thesis using assms(3) by (simp only: resample_at_def Let_def i) (simp add: z a word_of_int_sint del: of_int_sint)
qed

subsection \<open>Properties\<close>

text \<open>
  C31: doubling the rate is exact whatever the rounding of floating-point arithmetic: resampling 8
  to 16 kHz in floating point gives, sample for sample, the integer interpolation that
  \<open>ResampleG711toL16\<close> performs, and halving the rate afterwards gives the original samples back.
\<close>

theorem resample_8k_16k:
  assumes "exact_halves rnd" "even (length pcm)" "length pcm < 2 ^ 36"
  shows "resample rnd pcm 8000 16000 = pcm_bytes (resample_2x (samples pcm)) \<and>
         resample rnd (resample rnd pcm 8000 16000) 16000 8000 = pcm"
proof (cases "pcm = []")
  case True
  then show ?thesis by (simp add: resample_def)
next
  case False
  define n where "n = length pcm div 2"
  have n: "length pcm = 2 * n" "0 < n" "n < 2 ^ 35"
    using assms False by (auto simp: n_def elim!: evenE) (metis gr0I length_0_conv mult_0_right)
  have c: "rnd (of_nat k) = of_nat k" if "k \<le> 2 ^ 52" for k using exact_nat [OF assms(1) that] .
  have up: "resample rnd pcm 8000 16000 = pcm_bytes (resample_2x (samples pcm))"
  proof -
    have "map (resample_at rnd (samples pcm) (1 / 2)) [0..<2 * n] = resample_2x (samples pcm)"
    proof (rule nth_equalityI)
      fix i assume "i < length (map (resample_at rnd (samples pcm) (1 / 2)) [0..<2 * n])"
      then have i: "i < 2 * n" by simp
      then have "i div 2 < length (samples pcm)" using n by simp
      then show "map (resample_at rnd (samples pcm) (1 / 2)) [0..<2 * n] ! i = resample_2x (samples pcm) ! i"
        using nth_resample_2x [of "i div 2" "samples pcm"] resample_at_double [OF assms(1), of i "samples pcm"] i n
        by (cases "even i") auto
    qed (use n in simp)
    moreover have "rnd (rnd (rnd (of_nat n) * rnd (of_nat 16000)) / rnd (of_nat 8000)) = of_nat (2 * n)"
      using c [of n] c [of 16000] c [of 8000] c [of "n * 16000"] c [of "2 * n"] n by simp
    moreover have "rnd (rnd (of_nat 8000) / rnd (of_nat 16000)) = 1 / 2"
      using c [of 8000] c [of 16000] exact_halvesD [OF assms(1), of 1 "1 / 2"] by simp
    moreover have "\<not> length pcm < 2" "length (samples pcm) = n" using n by auto
    ultimately show ?thesis by (simp only: resample_def Let_def trunc_of_nat nat_int) simp
  qed
  let ?d = "resample_2x (samples pcm)"
  have "map (resample_at rnd ?d 2) [0..<n] = samples pcm"
    by (rule nth_equalityI)
       (use n nth_resample_2x [of _ "samples pcm"] resample_at_halve [OF assms(1), of _ ?d] in auto)
  moreover have "rnd (rnd (rnd (of_nat (2 * n)) * rnd (of_nat 8000)) / rnd (of_nat 16000)) = of_nat n"
    using c [of "2 * n"] c [of 16000] c [of 8000] c [of "2 * n * 8000"] c [of n] n by simp
  moreover have "rnd (rnd (of_nat 16000) / rnd (of_nat 8000)) = 2"
    using c [of 8000] c [of 16000] c [of 2] by simp
  moreover have "\<not> length (pcm_bytes ?d) < 2" "length ?d = 2 * n" "pcm_bytes (samples pcm) = pcm"
    using n assms(2) by (auto simp: pcm_bytes_samples)
  ultimately have "resample rnd (pcm_bytes ?d) 16000 8000 = pcm"
    by (simp only: resample_def Let_def samples_pcm_bytes trunc_of_nat nat_int) simp
  with up show ?thesis by simp
qed

theorem resample_8k_16k_witness:
  "resample id [0, 1, 0, 2] 8000 16000 = pcm_bytes [256, 384, 512, 512] \<and>
   resample id (resample id [0, 1, 0, 2] 8000 16000) 16000 8000 = [0, 1, 0, 2]"
proof -
  have "resample_2x (samples [0, 1, 0, 2]) = [256, 384, 512, 512]" by code_simp
  moreover have "exact_halves id" by (simp add: exact_halves_def)
  ultimately have "resample id [0, 1, 0, 2] 8000 16000 = pcm_bytes [256, 384, 512, 512]"
      "resample id (resample id [0, 1, 0, 2] 8000 16000) 16000 8000 = [0, 1, 0, 2]"
    using resample_8k_16k [of id "[0, 1, 0, 2]"] by auto
  then show ?thesis by (rule conjI)
qed

end
