(* ===== verification/Session_Store.thy ===== *)
theory Session_Store
  imports Fanout
begin

text \<open>
  The session store (\<open>gateway/store.go\<close>): the contract of the interface \<open>SessionStore\<close> and its
  in-memory implementation \<open>LocalStore\<close>. \<open>json.Marshal\<close> and \<open>json.Unmarshal\<close> are parameters
  (\<open>None\<close> is their error); channels live in a heap so that a subscriber's channel can be closed
  while a publisher still holds it.
\<close>

subsection \<open>The interface\<close>

text \<open>A write of a value, or a deletion (\<open>None\<close>), of a key.\<close>

definition store_op ::
  "(string \<Rightarrow> 'v \<Rightarrow> 's \<Rightarrow> 's) \<Rightarrow> (string \<Rightarrow> 's \<Rightarrow> 's) \<Rightarrow> string \<times> 'v option \<Rightarrow> 's \<Rightarrow> 's" where
  "store_op set_key delete_key op s =
     (case snd op of Some v \<Rightarrow> set_key (fst op) v s | None \<Rightarrow> delete_key (fst op) s)"

locale session_store =
  fixes set_key :: "string \<Rightarrow> 'v \<Rightarrow> 's \<Rightarrow> 's" and get_key :: "string \<Rightarrow> 's \<Rightarrow> string + 'v"
    and delete_key :: "string \<Rightarrow> 's \<Rightarrow> 's" and exists_key :: "string \<Rightarrow> 's \<Rightarrow> bool"
    and storable :: "'v \<Rightarrow> bool"
  assumes get_set: "storable v \<Longrightarrow> get_key k (set_key k v s) = Inr v"
    and get_set_other: "j \<noteq> k \<Longrightarrow> get_key j (set_key k v s) = get_key j s"
    and get_delete: "get_key k (delete_key k s) = Inl (''key not found: '' @ k)"
    and get_delete_other: "j \<noteq> k \<Longrightarrow> get_key j (delete_key k s) = get_key j s"
    and exists_set: "exists_key j (set_key k v s) \<longleftrightarrow> j = k \<or> exists_key j s"
    and exists_delete: "exists_key j (delete_key k s) \<longleftrightarrow> j \<noteq> k \<and> exists_key j s"
begin

text \<open>After any sequence of writes and deletes a key holds what was last done to it.\<close>

lemma last_write:
  assumes "\<forall>(k, v) \<in> set ops. \<forall>w. v = Some w \<longrightarrow> storable w"
  shows "get_key k (fold (store_op set_key delete_key) ops s)
       = (case map_of (rev ops) k of
            None \<Rightarrow> get_key k s | Some None \<Rightarrow> Inl (''key not found: '' @ k) | Some (Some v) \<Rightarrow> Inr v)"
    and "exists_key k (fold (store_op set_key delete_key) ops s)
       \<longleftrightarrow> (case map_of (rev ops) k of None \<Rightarrow> exists_key k s | Some v \<Rightarrow> v \<noteq> None)"
  using assms
proof (induction ops rule: rev_induct)
  case (snoc op ops)
  { case 1
    then show ?case using snoc.IH(1)
      by (cases op; cases "snd op"; cases "fst op = k")
         (auto simp: store_op_def get_set get_set_other get_delete get_delete_other) }
  { case 2
    then show ?case using snoc.IH(2)
      by (cases op; cases "snd op"; cases "fst op = k")
         (auto simp: store_op_def exists_set exists_delete) }
qed simp_all

end

subsection \<open>The in-memory store\<close>

text \<open>A channel of the heap: its buffered messages and whether it is closed.\<close>

record heap_chan =
  buffered :: "string list"
  closed :: bool

record LocalStore =
  kv_data :: "string \<rightharpoonup> string"
  pubsub :: "string \<Rightarrow> nat list"
  chans :: "nat \<rightharpoonup> heap_chan"
  fresh_chan :: nat
  counters :: "string \<Rightarrow> 64 word"

definition NewLocalStore :: LocalStore where
  "NewLocalStore = \<lparr>kv_data = Map.empty, pubsub = (\<lambda>_. []), chans = Map.empty, fresh_chan = 0, counters = (\<lambda>_. 0)\<rparr>"

text \<open>The error of \<open>json.Marshal\<close> is dropped: the data stored then is empty.\<close>

definition marshal_data :: "('v \<Rightarrow> string option) \<Rightarrow> 'v \<Rightarrow> string" where
  "marshal_data marshal v = (case marshal v of None \<Rightarrow> [] | Some d \<Rightarrow> d)"

definition Store_Set :: "('v \<Rightarrow> string option) \<Rightarrow> string \<Rightarrow> 'v \<Rightarrow> duration \<Rightarrow> LocalStore \<Rightarrow> LocalStore" where
  "Store_Set marshal key v ttl l = l\<lparr>kv_data := (kv_data l)(key \<mapsto> marshal_data marshal v)\<rparr>"

definition Store_Get :: "(string \<Rightarrow> string + 'v) \<Rightarrow> string \<Rightarrow> LocalStore \<Rightarrow> string + 'v" where
  "Store_Get unmarshal key l =
     (case kv_data l key of None \<Rightarrow> Inl (''key not found: '' @ key) | Some d \<Rightarrow> unmarshal d)"

definition Store_Delete :: "string \<Rightarrow> LocalStore \<Rightarrow> LocalStore" where
  "Store_Delete key l = l\<lparr>kv_data := (kv_data l)(key := None)\<rparr>"

definition Store_Exists :: "string \<Rightarrow> LocalStore \<Rightarrow> bool" where
  "Store_Exists key l \<longleftrightarrow> kv_data l key \<noteq> None"

definition Store_Subscribe :: "string \<Rightarrow> LocalStore \<Rightarrow> LocalStore \<times> nat" where
  "Store_Subscribe channel l =
     (let ch = fresh_chan l in
      (l\<lparr>chans := (chans l)(ch \<mapsto> \<lparr>buffered = [], closed = False\<rparr>), fresh_chan := ch + 1,
         pubsub := (pubsub l)(channel := pubsub l channel @ [ch])\<rparr>, ch))"

text \<open>The clean-up function that \<open>Subscribe\<close> returns.\<close>

definition Subscribe_cleanup :: "string \<Rightarrow> nat \<Rightarrow> LocalStore \<Rightarrow> LocalStore" where
  "Subscribe_cleanup channel ch l =
     l\<lparr>pubsub := (pubsub l)(channel := remove_first (\<lambda>c. c = ch) (pubsub l channel)),
       chans := (chans l)(ch := map_option (\<lambda>c. c\<lparr>closed := True\<rparr>) (chans l ch))\<rparr>"

text \<open>
  \<open>Publish\<close> copies the list of subscribers under the lock and sends without it. Sending on a
  closed channel panics (\<open>None\<close>).
\<close>

definition publish_snapshot :: "string \<Rightarrow> LocalStore \<Rightarrow> nat list" where
  "publish_snapshot channel l = pubsub l channel"

definition chan_send :: "string \<Rightarrow> nat \<Rightarrow> LocalStore \<Rightarrow> LocalStore option" where
  "chan_send d ch l =
     (case chans l ch of None \<Rightarrow> None
      | Some c \<Rightarrow> if closed c then None
                 else if length (buffered c) < 50 then Some (l\<lparr>chans := (chans l)(ch \<mapsto> c\<lparr>buffered := buffered c @ [d]\<rparr>)\<rparr>)
                 else Some l)"

fun publish_send :: "string \<Rightarrow> nat list \<Rightarrow> LocalStore \<Rightarrow> LocalStore option" where
  "publish_send d [] l = Some l"
| "publish_send d (ch # chs) l = (case chan_send d ch l of None \<Rightarrow> None | Some l' \<Rightarrow> publish_send d chs l')"

definition Store_Publish :: "('v \<Rightarrow> string option) \<Rightarrow> string \<Rightarrow> 'v \<Rightarrow> LocalStore \<Rightarrow> LocalStore option" where
  "Store_Publish marshal channel m l = publish_send (marshal_data marshal m) (publish_snapshot channel l) l"

definition Store_Incr :: "string \<Rightarrow> LocalStore \<Rightarrow> LocalStore \<times> 64 word" where
  "Store_Incr key l = (l\<lparr>counters := (counters l)(key := counters l key + 1)\<rparr>, counters l key + 1)"

definition Store_Decr :: "string \<Rightarrow> LocalStore \<Rightarrow> LocalStore \<times> 64 word" where
  "Store_Decr key l = (l\<lparr>counters := (counters l)(key := counters l key - 1)\<rparr>, counters l key - 1)"

text \<open>Several publications to one topic, one after the other.\<close>

fun publish_all :: "string \<Rightarrow> string list \<Rightarrow> LocalStore \<Rightarrow> LocalStore option" where
  "publish_all t [] l = Some l"
| "publish_all t (m # ms) l = (case Store_Publish Some t m l of None \<Rightarrow> None | Some l' \<Rightarrow> publish_all t ms l')"

subsection \<open>Lemmas\<close>

lemma chan_send_fields:
  "chan_send d ch l = Some l' \<Longrightarrow> pubsub l' = pubsub l \<and> fresh_chan l' = fresh_chan l \<and> kv_data l' = kv_data l
     \<and> counters l' = counters l"
  by (auto simp: chan_send_def split: option.splits if_splits)

definition chan_at :: "LocalStore \<Rightarrow> nat \<Rightarrow> string chan" where
  "chan_at l ch = (ch, buffered (the (chans l ch)))"

definition open_chan :: "LocalStore \<Rightarrow> nat \<Rightarrow> bool" where
  "open_chan l ch \<longleftrightarrow> (\<exists>c. chans l ch = Some c \<and> \<not> closed c)"

lemma chan_send_open:
  assumes "open_chan l ch"
  shows "\<exists>l'. chan_send d ch l = Some l' \<and> (\<forall>x. open_chan l' x = open_chan l x)
     \<and> (\<forall>x. chan_at l' x = (if x = ch then send_nb 50 d (chan_at l x) else chan_at l x))
     \<and> pubsub l' = pubsub l \<and> fresh_chan l' = fresh_chan l"
proof -
  obtain c where c: "chans l ch = Some c" "\<not> closed c" using assms by (auto simp: open_chan_def)
  show ?thesis
  proof (cases "length (buffered c) < 50")
    case True
    then show ?thesis using c
      by (intro exI [of _ "l\<lparr>chans := (chans l)(ch \<mapsto> c\<lparr>buffered := buffered c @ [d]\<rparr>)\<rparr>"])
         (auto simp: open_chan_def chan_send_def chan_at_def send_nb_def)
  next
    case False
    then show ?thesis using c by (intro exI [of _ l]) (auto simp: chan_send_def chan_at_def send_nb_def)
  qed
qed

lemma publish_send_open:
  assumes "distinct chs" "\<forall>ch \<in> set chs. open_chan l ch"
  shows "\<exists>l'. publish_send d chs l = Some l' \<and> (\<forall>x. open_chan l' x = open_chan l x)
     \<and> (\<forall>x. chan_at l' x = (if x \<in> set chs then send_nb 50 d (chan_at l x) else chan_at l x))
     \<and> pubsub l' = pubsub l \<and> fresh_chan l' = fresh_chan l"
  using assms
proof (induction chs arbitrary: l)
  case (Cons ch chs)
  then obtain l1 where l1: "chan_send d ch l = Some l1" "\<forall>x. open_chan l1 x = open_chan l x"
    "\<forall>x. chan_at l1 x = (if x = ch then send_nb 50 d (chan_at l x) else chan_at l x)"
    "pubsub l1 = pubsub l" "fresh_chan l1 = fresh_chan l"
    using chan_send_open [of l ch d] by auto
  obtain l2 where l2: "publish_send d chs l1 = Some l2" "\<forall>x. open_chan l2 x = open_chan l1 x"
    "\<forall>x. chan_at l2 x = (if x \<in> set chs then send_nb 50 d (chan_at l1 x) else chan_at l1 x)"
    "pubsub l2 = pubsub l1" "fresh_chan l2 = fresh_chan l1"
    using Cons.IH [of l1] Cons.prems l1(2) by auto
  show ?case using Cons.prems l1 l2 by (intro exI [of _ l2]) auto
qed simp

text \<open>Every subscribed channel is open and belongs to one topic.\<close>

definition store_wf :: "LocalStore \<Rightarrow> bool" where
  "store_wf l \<longleftrightarrow> (\<forall>t. distinct (pubsub l t) \<and> (\<forall>ch \<in> set (pubsub l t). ch < fresh_chan l \<and> open_chan l ch))
     \<and> (\<forall>t u ch. ch \<in> set (pubsub l t) \<longrightarrow> ch \<in> set (pubsub l u) \<longrightarrow> t = u)"

lemma store_wf_New: "store_wf NewLocalStore"
  by (simp add: store_wf_def NewLocalStore_def)

lemma Store_Publish_wf:
  assumes "store_wf l"
  obtains l' where "Store_Publish marshal t m l = Some l'" "store_wf l'" "pubsub l' = pubsub l"
    "\<forall>x. chan_at l' x = (if x \<in> set (pubsub l t) then send_nb 50 (marshal_data marshal m) (chan_at l x) else chan_at l x)"
proof -
  have "\<exists>l'. publish_send (marshal_data marshal m) (pubsub l t) l = Some l' \<and> (\<forall>x. open_chan l' x = open_chan l x)
     \<and> (\<forall>x. chan_at l' x = (if x \<in> set (pubsub l t) then send_nb 50 (marshal_data marshal m) (chan_at l x) else chan_at l x))
     \<and> pubsub l' = pubsub l \<and> fresh_chan l' = fresh_chan l"
    by (rule publish_send_open) (use assms in \<open>auto simp: store_wf_def\<close>)
  then show ?thesis using assms that
    by (auto simp: Store_Publish_def publish_snapshot_def store_wf_def)
qed

lemma store_wf_subscribe:
  assumes "store_wf l" "Store_Subscribe t l = (l', ch)"
  shows "store_wf l'" "ch \<notin> set (pubsub l u)" "pubsub l' t = pubsub l t @ [ch]"
    "x \<in> set (pubsub l u) \<Longrightarrow> chan_at l' x = chan_at l x" "chan_at l' ch = (ch, [])"
proof -
  have n: "fresh_chan l \<notin> set (pubsub l u)" for u using assms(1) by (auto simp: store_wf_def)
  have e: "ch = fresh_chan l" "l' = l\<lparr>chans := (chans l)(ch \<mapsto> \<lparr>buffered = [], closed = False\<rparr>), fresh_chan := ch + 1,
         pubsub := (pubsub l)(t := pubsub l t @ [ch])\<rparr>"
    using assms(2) by (auto simp: Store_Subscribe_def Let_def)
  show "ch \<notin> set (pubsub l u)" "pubsub l' t = pubsub l t @ [ch]" "chan_at l' ch = (ch, [])"
    using n e by (auto simp: chan_at_def)
  show "x \<in> set (pubsub l u) \<Longrightarrow> chan_at l' x = chan_at l x" using n [of u] e by (auto simp: chan_at_def)
  show "store_wf l'"
    using assms(1) n unfolding e store_wf_def open_chan_def by (auto simp: less_SucI split: if_splits)
qed

lemma store_wf_cleanup:
  assumes "store_wf l" "ch \<in> set (pubsub l t)"
  shows "store_wf (Subscribe_cleanup t ch l)"
proof -
  let ?l = "Subscribe_cleanup t ch l"
  have d: "distinct (pubsub ?l u)" for u
    using assms(1) distinct_remove_first [of "\<lambda>c. c" "pubsub l t"] by (auto simp: store_wf_def Subscribe_cleanup_def)
  have s: "set (pubsub ?l u) = set (pubsub l u) - {ch}" for u
    using assms remove_first_unique [of "\<lambda>c. c" "pubsub l t" ch] by (auto simp: store_wf_def Subscribe_cleanup_def)
  have o: "open_chan ?l x" if "open_chan l x" "x \<noteq> ch" for x
    using that by (simp add: open_chan_def Subscribe_cleanup_def)
  have f: "fresh_chan ?l = fresh_chan l" by (simp add: Subscribe_cleanup_def)
  show ?thesis using assms(1) o unfolding store_wf_def f s by (auto simp: d)
qed

lemma subs_cleanup:
  assumes "store_wf l" "ch \<in> set (pubsub l t)"
  shows "map (chan_at (Subscribe_cleanup t ch l)) (pubsub (Subscribe_cleanup t ch l) t)
       = remove_first (\<lambda>c. fst c = ch) (map (chan_at l) (pubsub l t))"
proof -
  have *: "map (chan_at l) (remove_first (\<lambda>c. c = ch) cs) = remove_first (\<lambda>c. fst c = ch) (map (chan_at l) cs)" for cs
    by (induction cs) (auto simp: chan_at_def)
  have d: "distinct (pubsub l t)" using assms(1) by (simp add: store_wf_def)
  then have n: "ch \<notin> set (remove_first (\<lambda>c. c = ch) (pubsub l t))"
    using remove_first_unique [of "\<lambda>c. c" "pubsub l t" ch] by simp
  have "map (chan_at (Subscribe_cleanup t ch l)) (remove_first (\<lambda>c. c = ch) (pubsub l t))
      = map (chan_at l) (remove_first (\<lambda>c. c = ch) (pubsub l t))"
    using n by (auto simp: chan_at_def Subscribe_cleanup_def)
  then show ?thesis using * by (simp add: Subscribe_cleanup_def)
qed

subsection \<open>The contracts hold of the in-memory store\<close>

interpretation local_store: session_store "\<lambda>k v. Store_Set Some k v ttl" "Store_Get Inr" Store_Delete Store_Exists "\<lambda>_. True"
  by unfold_locales
     (auto simp: Store_Set_def Store_Get_def Store_Delete_def Store_Exists_def marshal_data_def)

text \<open>The codec of the values: what can be marshalled is read back.\<close>

definition json_codec :: "('v \<Rightarrow> string option) \<Rightarrow> (string \<Rightarrow> string + 'v) \<Rightarrow> bool" where
  "json_codec marshal unmarshal \<longleftrightarrow> (\<forall>v d. marshal v = Some d \<longrightarrow> unmarshal d = Inr v)"

lemma session_store_local:
  assumes "json_codec marshal unmarshal"
  shows "session_store (\<lambda>k v. Store_Set marshal k v ttl) (Store_Get unmarshal) Store_Delete Store_Exists
           (\<lambda>v. marshal v \<noteq> None)"
  using assms
  by unfold_locales
     (auto simp: json_codec_def Store_Set_def Store_Get_def Store_Delete_def Store_Exists_def marshal_data_def)

interpretation topic: fanout store_wf "\<lambda>l. map (chan_at l) (pubsub l t)" 50 "Store_Subscribe t"
  "Subscribe_cleanup t" "\<lambda>d l. the (Store_Publish Some t d l)"
proof (unfold_locales, goal_cases)
  case (1 s)
  then show ?case by (simp add: store_wf_def chan_at_def o_def)
next
  case (2 s s' i)
  then show ?case using store_wf_subscribe [of s t s' i] by (auto simp: chan_at_def image_iff)
next
  case (3 s i)
  then have "i \<in> set (pubsub s t)" by (auto simp: chan_at_def)
  with 3 show ?case using store_wf_cleanup subs_cleanup by blast
next
  case (4 s m)
  from 4 obtain l' where "Store_Publish Some t m s = Some l'" "store_wf l'" "pubsub l' = pubsub s"
    "\<forall>x. chan_at l' x = (if x \<in> set (pubsub s t) then send_nb 50 (marshal_data Some m) (chan_at s x) else chan_at s x)"
    by (rule Store_Publish_wf [where marshal = Some and t = t and m = m])
  then show ?case by (simp add: marshal_data_def)
qed

subsection \<open>Properties\<close>



text \<open>
  publish and subscribe of the in-memory store. A new subscriber of a topic finds in its channel
  exactly the messages published to that topic from then on, in order, up to its 50 places, and no
  publication panics.
\<close>

theorem Subscribe_receives:
  assumes "store_wf l" "Store_Subscribe t l = (l', ch)"
  shows "\<exists>r. publish_all t ms l' = Some r \<and>
             buffered (the (chans r ch)) = take 50 ms"
proof -
  have run: "\<exists>r. publish_all t ms l = Some r \<and> store_wf r \<and>
      pubsub r = pubsub l \<and> r = fold (\<lambda>m l. the (Store_Publish Some t m l)) ms l" if "store_wf l" for l
    using that
  proof (induction ms arbitrary: l)
    case (Cons m ms)
    from Cons.prems obtain r where "Store_Publish Some t m l = Some r" "store_wf r" "pubsub r = pubsub l"
      by (rule Store_Publish_wf [where marshal = Some and t = t and m = m])
    then show ?case using Cons.IH [of r] by auto
  qed simp
  have w: "store_wf l'" "pubsub l' t = pubsub l t @ [ch]" using store_wf_subscribe [OF assms] by auto
  from run [OF w(1)] obtain r where r: "publish_all t ms l' = Some r"
    "store_wf r" "pubsub r = pubsub l'" "r = fold (\<lambda>m l. the (Store_Publish Some t m l)) ms l'" by blast
  have "map_of (map (chan_at r) (pubsub r t)) ch = Some (take 50 ms)"
    using topic.new_subscriber [OF assms, of ms] r(4) by simp
  then have "buffered (the (chans r ch)) = take 50 ms"
    by (auto simp: chan_at_def dest!: map_of_SomeD)
  with r(1) show ?thesis by blast
qed

theorem Subscribe_receives_witness:
  "\<exists>r. publish_all ''calls'' [''x'', ''y''] (fst (Store_Subscribe ''calls'' NewLocalStore))
     = Some r \<and> buffered (the (chans r 0)) = [''x'', ''y'']"
  using Subscribe_receives [OF store_wf_New, of "''calls''" "fst (Store_Subscribe ''calls'' NewLocalStore)" 0 "[''x'', ''y'']"]
  by (simp add: Store_Subscribe_def NewLocalStore_def)

text \<open>
  the list of subscribers is copied before the sends and the lock is given up between, so a
  subscriber that leaves in between makes the publisher send on a closed channel, which panics.
\<close>

theorem Publish_races_cleanup:
  assumes "ch \<in> set (pubsub l t)"
  shows "publish_send d (publish_snapshot t l) (Subscribe_cleanup t ch l) = None"
proof -
  have c: "chan_send d ch l' = None" if "\<And>c. chans l' ch = Some c \<Longrightarrow> closed c" for l'
    using that by (auto simp: chan_send_def split: option.splits)
  have k: "chan_send d x l1 = Some l2 \<Longrightarrow> (\<And>c. chans l1 ch = Some c \<Longrightarrow> closed c)
      \<Longrightarrow> chans l2 ch = Some c \<Longrightarrow> closed c" for x l1 l2 c
    by (auto simp: chan_send_def split: option.splits if_splits)
  have "publish_send d chs l' = None" if "ch \<in> set chs" "\<And>c. chans l' ch = Some c \<Longrightarrow> closed c" for chs l'
    using that
  proof (induction chs arbitrary: l')
    case (Cons x chs)
    show ?case
    proof (cases "x = ch")
      case True
      then show ?thesis using c [of l'] Cons.prems by simp
    next
      case False
      then show ?thesis using Cons.IH k [of x l'] Cons.prems by (auto split: option.splits)
    qed
  qed simp
  moreover have "chans (Subscribe_cleanup t ch l) ch = Some c \<Longrightarrow> closed c" for c
    by (auto simp: Subscribe_cleanup_def)
  ultimately show ?thesis using assms by (simp add: publish_snapshot_def)
qed

theorem Publish_races_cleanup_witness:
  "publish_send ''m'' (publish_snapshot ''t'' (fst (Store_Subscribe ''t'' NewLocalStore)))
     (Subscribe_cleanup ''t'' 0 (fst (Store_Subscribe ''t'' NewLocalStore))) = None"
  by (rule Publish_races_cleanup) (simp add: Store_Subscribe_def NewLocalStore_def)

end
