(* ===== verification/Conference.thy ===== *)
theory Conference
  imports Acd Resample Fanout
begin

text \<open>
  Three-way conferences (\<open>gateway/conference.go\<close>) and supervisor monitoring
  (\<open>gateway/supervisor.go\<close>): the audio mixers, one tick of the mixer over its bounded channels,
  what the output loops make of a mixed frame, and the life cycle of conference and monitoring
  sessions. Peer connections and sockets are not modelled: they are named by numbers, and the
  outcome of setting one up is an argument. A call is named by its identifier where the code
  holds a pointer to it, so the state describes calls whose identifiers are not used again.
\<close>

subsection \<open>Mixing\<close>

definition mixFrameBytes :: nat where "mixFrameBytes = 640"

definition mixChanBuf :: nat where "mixChanBuf = 50"

definition sample_at :: "byte list \<Rightarrow> nat \<Rightarrow> int" where
  "sample_at f s = (if s * 2 + 1 < length f then sint (u16_le (f ! (s * 2)) (f ! (s * 2 + 1))) else 0)"

definition mixExcluding :: "byte list list \<Rightarrow> nat \<Rightarrow> byte list" where
  "mixExcluding frames exclude =
     concat (map (\<lambda>s. put_u16 (word_of_int (clip16 (\<Sum>i \<leftarrow> filter (\<lambda>i. i \<noteq> exclude) [0..<3]. sample_at (frames ! i) s))))
       [0..<mixFrameBytes div 2])"

definition supervisor_mix :: "byte list \<Rightarrow> byte list \<Rightarrow> byte list" where
  "supervisor_mix callerFrame agentFrame =
     concat (map (\<lambda>s. put_u16 (word_of_int (clip16 (sample_at callerFrame s + sample_at agentFrame s))))
       [0..<mixFrameBytes div 2])"

text \<open>A mixer: its output has one sample per position, the saturated sum of what it mixes.\<close>

locale saturating_mix =
  fixes mix :: "'f \<Rightarrow> byte list" and level :: "'f \<Rightarrow> nat \<Rightarrow> int"
  assumes mix_bytes: "mix f = concat (map (\<lambda>s. put_u16 (word_of_int (clip16 (level f s)))) [0..<320])"
begin

lemma samples_mix: "samples (mix f) = map (\<lambda>s. word_of_int (clip16 (level f s))) [0..<320]"
  using samples_pcm_bytes [of "map (\<lambda>s. word_of_int (clip16 (level f s))) [0..<320]"]
  by (simp add: mix_bytes pcm_bytes_def o_def)

lemma length_mix: "length (mix f) = 640"
  using length_pcm_bytes [of "map (\<lambda>s. word_of_int (clip16 (level f s))) [0..<320]"]
  by (simp add: mix_bytes pcm_bytes_def o_def)

lemma mix_sample: "s < 320 \<Longrightarrow> sint (samples (mix f) ! s) = clip16 (level f s)"
  by (simp add: samples_mix)

lemma mix_exact: "s < 320 \<Longrightarrow> \<bar>level f s\<bar> \<le> 32767 \<Longrightarrow> sint (samples (mix f) ! s) = level f s"
  by (simp add: mix_sample clip16_id)

lemma mix_cong: "(\<And>s. level f s = level g s) \<Longrightarrow> mix f = mix g"
  by (simp add: mix_bytes)

end

interpretation conf_mix: saturating_mix "\<lambda>(frames, exclude). mixExcluding frames exclude"
  "\<lambda>(frames, exclude) s. (\<Sum>i \<leftarrow> filter (\<lambda>i. i \<noteq> exclude) [0..<3]. sample_at (frames ! i) s)"
  by unfold_locales (auto simp: mixExcluding_def mixFrameBytes_def)

interpretation sup_mix: saturating_mix "\<lambda>(c, a). supervisor_mix c a" "\<lambda>(c, a) s. sample_at c s + sample_at a s"
  by unfold_locales (auto simp: supervisor_mix_def mixFrameBytes_def)

subsection \<open>One tick of the mixer\<close>

record mixParticipant =
  mix_name :: string
  pcmIn :: "byte list list"
  pcmOut :: "byte list list"
  active :: bool

definition newAudioMixer :: "mixParticipant list" where
  "newAudioMixer =
     [\<lparr>mix_name = ''caller'', pcmIn = [], pcmOut = [], active = True\<rparr>,
      \<lparr>mix_name = ''agent'', pcmIn = [], pcmOut = [], active = True\<rparr>,
      \<lparr>mix_name = ''third'', pcmIn = [], pcmOut = [], active = False\<rparr>]"

definition silence :: "byte list" where
  "silence = replicate mixFrameBytes 0"

definition read_frame :: "mixParticipant \<Rightarrow> byte list \<times> mixParticipant" where
  "read_frame p =
     (if \<not> active p then (silence, p)
      else case pcmIn p of [] \<Rightarrow> (silence, p) | f # fs \<Rightarrow> (f, p\<lparr>pcmIn := fs\<rparr>))"

definition write_frame :: "byte list list \<Rightarrow> nat \<Rightarrow> mixParticipant \<Rightarrow> mixParticipant" where
  "write_frame frames i p =
     (if \<not> active p then p
      else if length (pcmOut p) < mixChanBuf then p\<lparr>pcmOut := pcmOut p @ [mixExcluding frames i]\<rparr> else p)"

definition mixer_tick :: "mixParticipant list \<Rightarrow> mixParticipant list" where
  "mixer_tick ps =
     (let rs = map read_frame ps; frames = map fst rs in
      map (\<lambda>i. write_frame frames i (snd (rs ! i))) [0..<length ps])"

text \<open>
  The output loop of a WebRTC participant takes a mixed frame from its channel and writes it to the
  track, if the session has one; the input loop of an external party queues what it decodes.
\<close>

definition webrtc_output :: "(real \<Rightarrow> real) \<Rightarrow> bool \<Rightarrow> mixParticipant \<Rightarrow> mixParticipant \<times> byte list option" where
  "webrtc_output rnd hasTrack p =
     (case pcmOut p of [] \<Rightarrow> (p, None)
      | f # fs \<Rightarrow> (p\<lparr>pcmOut := fs\<rparr>, if hasTrack then Some (EncodeG711Ulaw (resample rnd f 16000 8000)) else None))"

definition external_input :: "byte list \<Rightarrow> mixParticipant \<Rightarrow> mixParticipant" where
  "external_input payload p =
     (if payload = [] then p
      else if length (pcmIn p) < mixChanBuf then p\<lparr>pcmIn := pcmIn p @ [ResampleG711toL16 payload ''PCMU'']\<rparr>
      else p)"

subsection \<open>Conference life cycle\<close>

record ConferenceSession =
  cf_callID :: string
  mixer :: "mixParticipant list"
  agentWRTC :: "nat option"
  thirdType :: string
  thirdID :: string
  thirdWRTC :: "nat option"
  thirdRTP :: bool

definition set_third :: "bool \<Rightarrow> ConferenceSession \<Rightarrow> ConferenceSession" where
  "set_third b cs = cs\<lparr>mixer := (mixer cs)[2 := (mixer cs ! 2)\<lparr>active := b\<rparr>]\<rparr>"

text \<open>What conferences and supervisors use of a call: \<open>conference\<close> tells whether the pointer is set.\<close>

record call_view =
  cv_callerNumber :: string
  cv_agentNumber :: string
  cv_conference :: bool
  cv_whisperCh :: bool
  cv_taps :: siprec_taps

record conf_state =
  siprec :: "string \<rightharpoonup> call_view"
  webrtc :: "string \<rightharpoonup> nat"
  conferences :: "string \<rightharpoonup> ConferenceSession"

definition on_call :: "string \<Rightarrow> (call_view \<Rightarrow> call_view) \<Rightarrow> conf_state \<Rightarrow> conf_state" where
  "on_call callID f st = st\<lparr>siprec := (siprec st)(callID := map_option f (siprec st callID))\<rparr>"

datatype conf_effect = ConfRing ring | DialExternal string string | Broadcast string json_obj

text \<open>\<open>hasAgentMgr\<close> tells whether the distributor and its agent manager are set.\<close>

definition startConference ::
  "bool \<Rightarrow> string \<Rightarrow> string \<Rightarrow> string \<Rightarrow> conf_state \<Rightarrow> conf_state \<times> conf_effect list \<times> (string + ConferenceSession)" where
  "startConference hasAgentMgr callID targetType targetValue st =
     (case siprec st callID of
        None \<Rightarrow> (st, [], Inl (''siprec session not found: '' @ callID))
      | Some copilot \<Rightarrow>
          let cs = \<lparr>cf_callID = callID, mixer = newAudioMixer, agentWRTC = webrtc st (''bridge-'' @ callID),
                    thirdType = targetType, thirdID = targetValue, thirdWRTC = None, thirdRTP = False\<rparr>;
              st1 = on_call callID (\<lambda>c. c\<lparr>cv_conference := True\<rparr>) st;
              callerNum = (if cv_callerNumber copilot = '''' then ''Conference'' else cv_callerNumber copilot);
              eff = (if targetType = ''agent'' then
                       (if hasAgentMgr then [ConfRing (RingAgent targetValue callID callerNum ''Conference'' 0)] else [])
                     else if targetType = ''external'' then [DialExternal callID targetValue]
                     else [])
          in (st1\<lparr>conferences := (conferences st1)(callID \<mapsto> cs)\<rparr>,
              eff @ [Broadcast callID [(''type'', ''conference_started''), (''call_id'', callID),
                       (''third_party'', targetValue), (''third_type'', targetType)]],
              Inr cs))"

definition activateThirdAgent :: "string \<Rightarrow> nat \<Rightarrow> conf_state \<Rightarrow> conf_state" where
  "activateThirdAgent callID w st =
     st\<lparr>conferences := (conferences st)(callID := map_option (\<lambda>cs. set_third True (cs\<lparr>thirdWRTC := Some w\<rparr>)) (conferences st callID))\<rparr>"

text \<open>\<open>dialExternalThird\<close>: the outbound trunk found, by its caller ID, and the error of dialing are arguments.\<close>

datatype dial = DialSIPCall (dial_id: string) (dial_number: string) (dial_caller: string)

definition dialExternalThird ::
  "bool \<Rightarrow> string option \<Rightarrow> string option \<Rightarrow> string \<Rightarrow> string \<Rightarrow> conf_state
    \<Rightarrow> conf_state \<times> dial option \<times> conf_effect list" where
  "dialExternalThird hasServer trunk dialErr callID number st =
     (if \<not> hasServer then (st, None, [])
      else case trunk of None \<Rightarrow> (st, None, [])
      | Some trunkCallerID \<Rightarrow>
          let d = Some (DialSIPCall (''conf-'' @ callID) number (if trunkCallerID = '''' then ''voiceagent'' else trunkCallerID)) in
          (case dialErr of
             Some err \<Rightarrow> (st, d, [Broadcast callID [(''type'', ''conference_failed''), (''error'', ''dial failed: '' @ err)]])
           | None \<Rightarrow>
               (st\<lparr>conferences := (conferences st)(callID := map_option (\<lambda>cs. set_third True (cs\<lparr>thirdRTP := True\<rparr>)) (conferences st callID))\<rparr>, d,
                [Broadcast callID [(''type'', ''conference_started''), (''third_party'', number), (''third_type'', ''external'')]])))"

text \<open>\<open>ks\<close> is the order in which the map of WebRTC sessions is walked.\<close>

definition dropThirdParty :: "string list \<Rightarrow> string \<Rightarrow> conf_state \<Rightarrow> conf_state \<times> conf_effect list \<times> string option" where
  "dropThirdParty ks callID st =
     (case conferences st callID of
        None \<Rightarrow> (st, [], Some (''no conference for call: '' @ callID))
      | Some cs \<Rightarrow>
          let w = (case thirdWRTC cs of None \<Rightarrow> webrtc st
                   | Some n \<Rightarrow> (case find (\<lambda>k. webrtc st k = Some n) ks of
                                  None \<Rightarrow> webrtc st | Some k \<Rightarrow> (webrtc st)(k := None)))
          in (st\<lparr>webrtc := w,
                 conferences := (conferences st)(callID \<mapsto> (set_third False cs)\<lparr>thirdWRTC := None, thirdRTP := False\<rparr>)\<rparr>,
              [Broadcast callID [(''type'', ''conference_ended''), (''call_id'', callID)]], None))"

definition endConference :: "string \<Rightarrow> conf_state \<Rightarrow> conf_state" where
  "endConference callID st =
     (case conferences st callID of None \<Rightarrow> st
      | Some _ \<Rightarrow> on_call callID (\<lambda>c. c\<lparr>cv_conference := False\<rparr>) (st\<lparr>conferences := (conferences st)(callID := None)\<rparr>))"

subsection \<open>Supervisor monitoring\<close>

record SupervisorSession =
  sv_callID :: string
  sv_mode :: string
  sv_callerTap :: nat
  sv_agentTap :: nat

record sup_state =
  sup_conf :: conf_state
  supervisorSessions :: "string \<rightharpoonup> SupervisorSession"

definition session_key :: "string \<Rightarrow> string \<Rightarrow> string" where
  "session_key callID userID = callID @ '':'' @ userID"

text \<open>Outcome of setting up the peer connection of a listening or whispering supervisor.\<close>

datatype rtc_outcome = PeerFailed | TrackFailed | AddTrackFailed | InvalidSDP | AnswerFailed | LocalDescFailed | RtcReady string

fun rtc_error :: "rtc_outcome \<Rightarrow> (nat \<times> string) option" where
  "rtc_error PeerFailed = Some (500, ''peer connection failed'')"
| "rtc_error TrackFailed = Some (500, ''track failed'')"
| "rtc_error AddTrackFailed = Some (500, ''add track failed'')"
| "rtc_error InvalidSDP = Some (400, ''invalid SDP'')"
| "rtc_error AnswerFailed = Some (500, ''answer failed'')"
| "rtc_error LocalDescFailed = Some (500, ''set local desc failed'')"
| "rtc_error (RtcReady _) = None"

text \<open>
  The request is decoded to call, mode and SDP; \<open>userID0\<close> is the requester, empty when unknown.
  The whisper channel is made before the remote description is set, so it stays after a later error.
\<close>

definition add_monitor :: "string \<Rightarrow> string \<Rightarrow> string \<Rightarrow> call_view \<Rightarrow> sup_state \<Rightarrow> sup_state" where
  "add_monitor callID userID mode copilot st =
     (let (t1, caller) = AddAudioTap (cv_taps copilot); (t2, agent) = AddAgentTap t1
      in st\<lparr>sup_conf := on_call callID (\<lambda>c. c\<lparr>cv_taps := t2\<rparr>) (sup_conf st),
            supervisorSessions := (supervisorSessions st)(session_key callID userID \<mapsto>
               \<lparr>sv_callID = callID, sv_mode = mode, sv_callerTap = caller, sv_agentTap = agent\<rparr>)\<rparr>)"

definition handleSupervisorMonitor ::
  "bool \<Rightarrow> (string \<times> string \<times> string) option \<Rightarrow> string \<Rightarrow> bool \<Rightarrow> rtc_outcome \<Rightarrow> sup_state
    \<Rightarrow> sup_state \<times> conf_effect list \<times> json_obj response" where
  "handleSupervisorMonitor isPost decoded userID0 hasAgentMgr rtc st =
     (if \<not> isPost then (st, [], HttpError 405 ''{\"error\":\"POST required\"}'')
      else case decoded of
        None \<Rightarrow> (st, [], WriteJSON 400 [(''error'', ''invalid JSON'')])
      | Some (callID, mode, sdp) \<Rightarrow>
          if callID = '''' \<or> mode = '''' then (st, [], WriteJSON 400 [(''error'', ''call_id and mode required'')])
          else
            let userID = (if userID0 = '''' then ''supervisor'' else userID0) in
            (case siprec (sup_conf st) callID of
               None \<Rightarrow> (st, [], WriteJSON 404 [(''error'', ''call not found'')])
             | Some copilot \<Rightarrow>
                 if mode = ''barge'' then
                   (case startConference hasAgentMgr callID ''agent'' userID (sup_conf st) of
                      (c, eff, Inl err) \<Rightarrow> (st\<lparr>sup_conf := c\<rparr>, eff, WriteJSON 500 [(''error'', err)])
                    | (c, eff, Inr cs) \<Rightarrow>
                        (st\<lparr>sup_conf := c\<rparr>, eff,
                         WriteJSON 200 [(''status'', ''monitoring''), (''mode'', ''barge''), (''call_id'', cf_callID cs)]))
                 else if sdp = '''' then (st, [], WriteJSON 400 [(''error'', ''sdp required for listen/whisper'')])
                 else
                   let early = rtc \<in> {PeerFailed, TrackFailed, AddTrackFailed};
                       st1 = (if mode = ''whisper'' \<and> \<not> early
                              then st\<lparr>sup_conf := on_call callID (\<lambda>c. c\<lparr>cv_whisperCh := True\<rparr>) (sup_conf st)\<rparr> else st) in
                   (case rtc of
                      RtcReady localSDP \<Rightarrow>
                        (add_monitor callID userID mode copilot st1,
                         [Broadcast callID [(''type'', ''supervisor_monitoring''), (''mode'', mode)]],
                         WriteJSON 200 [(''status'', ''monitoring''), (''mode'', mode), (''sdp'', localSDP)])
                    | _ \<Rightarrow> (case rtc_error rtc of Some (code, err) \<Rightarrow> (st1, [], WriteJSON code [(''error'', err)])
                            | None \<Rightarrow> (st1, [], WriteJSON 500 [])))))"

definition stopSupervisorSession :: "string \<Rightarrow> string \<Rightarrow> sup_state \<Rightarrow> sup_state \<times> conf_effect list" where
  "stopSupervisorSession callID userID st =
     (case supervisorSessions st (session_key callID userID) of
        None \<Rightarrow> (st, [])
      | Some sess \<Rightarrow>
          (st\<lparr>supervisorSessions := (supervisorSessions st)(session_key callID userID := None),
              sup_conf := on_call (sv_callID sess)
                (\<lambda>c. c\<lparr>cv_taps := RemoveAgentTap (sv_agentTap sess) (RemoveAudioTap (sv_callerTap sess) (cv_taps c)),
                       cv_whisperCh := (if sv_mode sess = ''whisper'' then False else cv_whisperCh c)\<rparr>) (sup_conf st)\<rparr>,
           [Broadcast (sv_callID sess) [(''type'', ''supervisor_stopped'')]]))"

definition handleSupervisorStop ::
  "bool \<Rightarrow> string option \<Rightarrow> string \<Rightarrow> string list \<Rightarrow> sup_state \<Rightarrow> sup_state \<times> conf_effect list \<times> json_obj response" where
  "handleSupervisorStop isPost decoded userID0 ks st =
     (if \<not> isPost then (st, [], HttpError 405 ''{\"error\":\"POST required\"}'')
      else case decoded of
        None \<Rightarrow> (st, [], WriteJSON 400 [(''error'', ''invalid JSON'')])
      | Some callID \<Rightarrow>
          let userID = (if userID0 = '''' then ''supervisor'' else userID0);
              (st1, eff1) = stopSupervisorSession callID userID st;
              (c, eff2) = (if conferences (sup_conf st1) callID \<noteq> None
                           then (let (c', e, _) = dropThirdParty ks callID (sup_conf st1) in (c', e))
                           else (sup_conf st1, []))
          in (st1\<lparr>sup_conf := c\<rparr>, eff1 @ eff2, WriteJSON 200 [(''status'', ''stopped'')]))"

text \<open>One tick of the loop that sends the mixed audio of a call to its supervisor.\<close>

definition read_tap :: "nat \<Rightarrow> byte list chan list \<Rightarrow> byte list \<times> byte list chan list" where
  "read_tap ch cs =
     (case map_of cs ch of
        Some (f # fs) \<Rightarrow> (f, map (\<lambda>c. if fst c = ch then (ch, fs) else c) cs)
      | _ \<Rightarrow> (silence, cs))"

definition supervisor_tick :: "(real \<Rightarrow> real) \<Rightarrow> SupervisorSession \<Rightarrow> siprec_taps \<Rightarrow> siprec_taps \<times> byte list" where
  "supervisor_tick rnd sess t =
     (let (callerFrame, ct) = read_tap (sv_callerTap sess) (audioTaps t);
          (agentFrame, ag) = read_tap (sv_agentTap sess) (agentTaps t)
      in (t\<lparr>audioTaps := ct, agentTaps := ag\<rparr>,
          EncodeG711Ulaw (resample rnd (supervisor_mix callerFrame agentFrame) 16000 8000)))"

text \<open>The flag \<open>monitored\<close> of a call in the supervisor's list of calls.\<close>

definition monitored :: "string list \<Rightarrow> string \<Rightarrow> bool" where
  "monitored keys callID = list_ex (\<lambda>k. length k > length callID \<and> take (length callID) k = callID) keys"

subsection \<open>Lemmas\<close>

lemma length_mixer_tick [simp]: "length (mixer_tick ps) = length ps"
  by (simp add: mixer_tick_def Let_def)

lemma nth_mixer_tick:
  "i < length ps \<Longrightarrow> mixer_tick ps ! i = write_frame (map (fst \<circ> read_frame) ps) i (snd (read_frame (ps ! i)))"
  by (simp add: mixer_tick_def Let_def o_def)

lemma read_frame_fields [simp]:
  "active (snd (read_frame p)) = active p" "pcmOut (snd (read_frame p)) = pcmOut p"
  "pcmIn (snd (read_frame p)) = (if active p then tl (pcmIn p) else pcmIn p)"
  by (auto simp: read_frame_def split: list.splits)

lemma write_frame_fields [simp]:
  "active (write_frame fs i p) = active p" "pcmIn (write_frame fs i p) = pcmIn p"
  by (auto simp: write_frame_def)

lemma sum_others:
  "i < 3 \<Longrightarrow> (\<Sum>j \<leftarrow> filter (\<lambda>j. j \<noteq> i) [0..<3]. g j) = (\<Sum>j \<in> {0, 1, 2} - {i}. g j)" for g :: "nat \<Rightarrow> int"
  by (auto simp: upt_rec numeral_3_eq_3 less_Suc_eq insert_Diff_if numeral_2_eq_2)

text \<open>A conference is well formed when its third channel is open exactly while a third party is attached.\<close>

definition conf_ok :: "ConferenceSession \<Rightarrow> bool" where
  "conf_ok cs \<longleftrightarrow> length (mixer cs) = 3 \<and> (active (mixer cs ! 2) \<longleftrightarrow> thirdWRTC cs \<noteq> None \<or> thirdRTP cs)"

definition conf_inv :: "conf_state \<Rightarrow> bool" where
  "conf_inv st \<longleftrightarrow> (\<forall>callID c. siprec st callID = Some c \<longrightarrow> (cv_conference c \<longleftrightarrow> conferences st callID \<noteq> None))
     \<and> (\<forall>callID cs. conferences st callID = Some cs \<longrightarrow> cf_callID cs = callID \<and> conf_ok cs)"

inductive conf_step :: "conf_state \<Rightarrow> conf_state \<Rightarrow> bool" where
  "conf_step st (fst (startConference m callID ty v st))"
| "conf_step st (activateThirdAgent callID w st)"
| "conf_step st (fst (dialExternalThird srv trunk err callID number st))"
| "conf_step st (fst (dropThirdParty ks callID st))"
| "conf_step st (endConference callID st)"

lemma mixer_set_third [simp]:
  "mixer (set_third b cs) = (mixer cs)[2 := (mixer cs ! 2)\<lparr>active := b\<rparr>]" "cf_callID (set_third b cs) = cf_callID cs"
  "thirdWRTC (set_third b cs) = thirdWRTC cs" "thirdRTP (set_third b cs) = thirdRTP cs"
  by (auto simp: set_third_def)

lemma conf_ok_attach:
  "conf_ok cs \<Longrightarrow> conf_ok (set_third True (cs\<lparr>thirdWRTC := Some w\<rparr>))"
  "conf_ok cs \<Longrightarrow> conf_ok (set_third True (cs\<lparr>thirdRTP := True\<rparr>))"
  "conf_ok cs \<Longrightarrow> conf_ok ((set_third False cs)\<lparr>thirdWRTC := None, thirdRTP := False\<rparr>)"
  by (simp_all add: conf_ok_def)

lemma conf_ok_new:
  "conf_ok \<lparr>cf_callID = c, mixer = newAudioMixer, agentWRTC = a, thirdType = t, thirdID = i, thirdWRTC = None, thirdRTP = False\<rparr>"
  by (simp add: conf_ok_def newAudioMixer_def)

lemma conf_inv_step:
  assumes "conf_inv st" "conf_step st st'"
  shows "conf_inv st'"
  using assms(2,1)
proof cases
  case (1 m callID ty v)
  then show ?thesis using assms(1) conf_ok_new
    by (auto simp: conf_inv_def startConference_def on_call_def Let_def split: option.splits)
next
  case (2 callID w)
  then show ?thesis using assms(1) by (auto simp: conf_inv_def activateThirdAgent_def conf_ok_attach)
next
  case (3 srv trunk err callID number)
  then show ?thesis using assms(1)
    by (auto simp: conf_inv_def dialExternalThird_def Let_def conf_ok_attach split: option.splits if_splits)
next
  case (4 ks callID)
  then show ?thesis using assms(1)
    by (auto simp: conf_inv_def dropThirdParty_def Let_def conf_ok_attach split: option.splits)
next
  case (5 callID)
  then show ?thesis using assms(1)
    by (auto simp: conf_inv_def endConference_def on_call_def split: option.splits)
qed

interpretation conf: invariant_machine "\<lambda>st. conferences st = Map.empty \<and> (\<forall>c \<in> ran (siprec st). \<not> cv_conference c)"
  conf_step conf_inv
proof unfold_locales
  fix st :: conf_state
  assume "conferences st = Map.empty \<and> (\<forall>c \<in> ran (siprec st). \<not> cv_conference c)"
  then show "conf_inv st" by (auto simp: conf_inv_def ran_def)
qed (rule conf_inv_step)

lemma remove_add_tap:
  "taps_wf t \<Longrightarrow> RemoveAgentTap (snd (AddAgentTap (fst (AddAudioTap t))))
     (RemoveAudioTap (snd (AddAudioTap t)) (fst (AddAgentTap (fst (AddAudioTap t)))))
   = t\<lparr>next_chan := next_chan t + 2\<rparr>"
  using fresh_ids_new [of "next_chan t" "audioTaps t"] fresh_ids_new [of "Suc (next_chan t)" "agentTaps t"]
    fresh_ids_mono [of "next_chan t" "agentTaps t"]
  by (auto simp: taps_wf_def AddAudioTap_def AddAgentTap_def RemoveAudioTap_def RemoveAgentTap_def
      remove_first_append remove_first_none image_iff)

subsection \<open>Properties\<close>

text \<open>
  C19: a tick of the three-way mixer. Every active participant with room in its output channel
  receives one frame of 640 bytes, in which each sample is the saturated sum of what the other two
  say at that position (an inactive or silent one counts as zero) and never contains its own voice;
  it consumes at most one frame of its input. A participant that is not active is left alone.
\<close>

theorem mixer_tick_spec:
  assumes "length ps = 3" "i < 3"
  shows "if active (ps ! i) \<and> length (pcmOut (ps ! i)) < 50
         then \<exists>f. pcmOut (mixer_tick ps ! i) = pcmOut (ps ! i) @ [f] \<and> length f = 640 \<and>
                (\<forall>s. s < 320 \<longrightarrow> sint (samples f ! s)
                   = clip16 (\<Sum>j \<in> {0, 1, 2} - {i}. sample_at (fst (read_frame (ps ! j))) s)) \<and>
                pcmIn (mixer_tick ps ! i) = tl (pcmIn (ps ! i))
         else pcmOut (mixer_tick ps ! i) = pcmOut (ps ! i) \<and>
              (\<not> active (ps ! i) \<longrightarrow> mixer_tick ps ! i = ps ! i)"
proof -
  let ?fs = "map (fst \<circ> read_frame) ps"
  have len: "length (mixExcluding ?fs i) = 640" using conf_mix.length_mix [of "(?fs, i)"] by simp
  have smp: "sint (samples (mixExcluding ?fs i) ! s)
      = clip16 (\<Sum>j \<in> {0, 1, 2} - {i}. sample_at (fst (read_frame (ps ! j))) s)" if "s < 320" for s
  proof -
    have "(\<Sum>j \<in> {0, 1, 2} - {i}. sample_at (?fs ! j) s) = (\<Sum>j \<in> {0, 1, 2} - {i}. sample_at (fst (read_frame (ps ! j))) s)"
      by (rule sum.cong) (use assms(1) in auto)
    then show ?thesis
      using conf_mix.mix_sample [OF that, of "(?fs, i)"] sum_others [OF assms(2), of "\<lambda>j. sample_at (?fs ! j) s"] by simp
  qed
  have off: "\<not> active (ps ! i) \<Longrightarrow> snd (read_frame (ps ! i)) = ps ! i" by (simp add: read_frame_def)
  have "mixer_tick ps ! i = write_frame ?fs i (snd (read_frame (ps ! i)))" using assms nth_mixer_tick by simp
  with len smp off show ?thesis by (auto simp: write_frame_def mixChanBuf_def)
qed

theorem mixer_tick_spec_witness:
  "\<exists>f. pcmOut (mixer_tick newAudioMixer ! 0) = [f] \<and> length f = 640"
  using mixer_tick_spec [of newAudioMixer 0] by (auto simp: newAudioMixer_def)

text \<open>
  C20: in every state that conference operations reach, in any order, a call points to a conference
  exactly while one is registered for it, and the third channel of a conference is open exactly
  while a third party, agent or external, is attached: nobody else is mixed into the call.
\<close>

theorem conference_invariant:
  assumes "reachable conf_step st0 st" "conferences st0 = Map.empty" "\<forall>c \<in> ran (siprec st0). \<not> cv_conference c"
  shows "(\<forall>callID c. siprec st callID = Some c \<longrightarrow> (cv_conference c \<longleftrightarrow> conferences st callID \<noteq> None)) \<and>
         (\<forall>callID cs. conferences st callID = Some cs \<longrightarrow>
            (active (mixer cs ! 2) \<longleftrightarrow> thirdWRTC cs \<noteq> None \<or> thirdRTP cs))"
  using conf.reachable_inv [OF assms(1)] assms(2,3) by (auto simp: conf_inv_def conf_ok_def)

definition example_call :: call_view where
  "example_call = \<lparr>cv_callerNumber = ''100'', cv_agentNumber = ''200'', cv_conference = False, cv_whisperCh = False,
     cv_taps = \<lparr>audioTaps = [], agentTaps = [], next_chan = 0\<rparr>\<rparr>"

definition example_conf :: conf_state where
  "example_conf = \<lparr>siprec = [''c1'' \<mapsto> example_call], webrtc = Map.empty, conferences = Map.empty\<rparr>"

theorem conference_invariant_witness:
  "map_option (\<lambda>cs. active (mixer cs ! 2))
     (conferences (activateThirdAgent ''c1'' 7 (fst (startConference True ''c1'' ''agent'' ''a2'' example_conf))) ''c1'')
   = Some True"
proof -
  let ?st = "activateThirdAgent ''c1'' 7 (fst (startConference True ''c1'' ''agent'' ''a2'' example_conf))"
  have "reachable conf_step example_conf ?st"
    by (rule reachable.move [OF reachable_step]) (rule conf_step.intros)+
  then have *: "\<forall>callID cs. conferences ?st callID = Some cs \<longrightarrow>
      (active (mixer cs ! 2) \<longleftrightarrow> thirdWRTC cs \<noteq> None \<or> thirdRTP cs)"
    by (rule conference_invariant [THEN conjunct2]) (auto simp: example_conf_def example_call_def ran_def)
  obtain cs where "conferences ?st ''c1'' = Some cs" "thirdWRTC cs = Some 7"
    by (auto simp: activateThirdAgent_def startConference_def example_conf_def on_call_def Let_def)
  with * show ?thesis by auto
qed

text \<open>
  monitoring leaves no trace. When a supervisor without a running session on a call starts to
  listen and stops again, the sessions, the taps and the whisper channel of the call are what they
  were before.
\<close>

theorem monitor_stop_restores:
  fixes m :: bool and ans :: string
  assumes "siprec (sup_conf st) callID = Some copilot" "taps_wf (cv_taps copilot)" "callID \<noteq> ''''" "sdp \<noteq> ''''"
    and "supervisorSessions st (session_key callID userID) = None" "userID \<noteq> ''''"
  defines "st1 \<equiv> fst (handleSupervisorMonitor True (Some (callID, ''listen'', sdp)) userID m (RtcReady ans) st)"
  shows "supervisorSessions st1 (session_key callID userID) \<noteq> None \<and>
         supervisorSessions (fst (stopSupervisorSession callID userID st1)) = supervisorSessions st \<and>
         siprec (sup_conf (fst (stopSupervisorSession callID userID st1)))
           = (siprec (sup_conf st))(callID \<mapsto> copilot\<lparr>cv_taps := (cv_taps copilot)\<lparr>next_chan := next_chan (cv_taps copilot) + 2\<rparr>\<rparr>)"
  using assms(1-6) remove_add_tap [OF assms(2)]
  by (auto simp: st1_def handleSupervisorMonitor_def add_monitor_def stopSupervisorSession_def on_call_def split_beta
      Let_def fun_upd_idem)

theorem monitor_stop_restores_witness:
  "supervisorSessions (fst (stopSupervisorSession ''c1'' ''u''
     (fst (handleSupervisorMonitor True (Some (''c1'', ''listen'', ''sdp'')) ''u'' True (RtcReady ''ans'')
        \<lparr>sup_conf = example_conf, supervisorSessions = Map.empty\<rparr>)))) = Map.empty"
  using monitor_stop_restores [of "\<lparr>sup_conf = example_conf, supervisorSessions = Map.empty\<rparr>" "''c1''" example_call "''sdp''" "''u''" True "''ans''"]
  by (simp add: example_conf_def example_call_def taps_wf_def fresh_ids_def)

end
