(* ===== verification/Announcer.thy ===== *)
theory Announcer
  imports Queue_Manager Wav Resample
begin

text \<open>
  Announcements to waiting callers (\<open>gateway/queue_announcements.go\<close>): the registry of announcement
  loops, the loops themselves as goroutines that take one step at a time, the position they
  announce, and the framing of synthesised speech. The HTTP exchange with the speech synthesiser
  and the RTP socket are parameters; pauses between frames are not modelled.
\<close>

subsection \<open>The registry and the loops\<close>

text \<open>A running announcement goroutine; its identity stands for its cancel function.\<close>

record announcement =
  an_id :: nat
  an_callID :: string
  an_queue :: string
  an_cancelled :: bool

record QueueAnnouncer =
  qa_active :: "string \<rightharpoonup> nat"
  qa_loops :: "announcement list"
  qa_next :: nat

definition NewQueueAnnouncer :: QueueAnnouncer where
  "NewQueueAnnouncer = \<lparr>qa_active = Map.empty, qa_loops = [], qa_next = 0\<rparr>"

definition StartAnnouncements :: "string \<Rightarrow> string \<Rightarrow> QueueAnnouncer \<Rightarrow> QueueAnnouncer" where
  "StartAnnouncements callID queueName qa =
     (if qa_active qa callID \<noteq> None then qa
      else qa\<lparr>qa_active := (qa_active qa)(callID \<mapsto> qa_next qa),
              qa_loops := qa_loops qa @ [\<lparr>an_id = qa_next qa, an_callID = callID, an_queue = queueName, an_cancelled = False\<rparr>],
              qa_next := qa_next qa + 1\<rparr>)"

definition cancel_loop :: "nat \<Rightarrow> announcement list \<Rightarrow> announcement list" where
  "cancel_loop i ls = map (\<lambda>l. if an_id l = i then l\<lparr>an_cancelled := True\<rparr> else l) ls"

definition StopAnnouncements :: "string \<Rightarrow> QueueAnnouncer \<Rightarrow> QueueAnnouncer" where
  "StopAnnouncements callID qa =
     (case qa_active qa callID of None \<Rightarrow> qa
      | Some i \<Rightarrow> qa\<lparr>qa_loops := cancel_loop i (qa_loops qa), qa_active := (qa_active qa)(callID := None)\<rparr>)"

text \<open>The queue manager may be absent.\<close>

definition getQueuePosition :: "queues option \<Rightarrow> string \<Rightarrow> string \<Rightarrow> nat \<times> nat" where
  "getQueuePosition queueMgr callID queueName =
     (case queueMgr of None \<Rightarrow> (0, 0)
      | Some qs \<Rightarrow>
          (case qs queueName of None \<Rightarrow> (0, 0)
           | Some q \<Rightarrow>
               (case find (\<lambda>i. CallID (Callers q ! i) = callID) [0..<length (Callers q)] of
                  None \<Rightarrow> (0, 0)
                | Some i \<Rightarrow> let position = i + 1; waitMinutes = position * 3
                           in (position, if waitMinutes < 1 then 1 else waitMinutes))))"

definition announcement_text :: "nat \<Rightarrow> nat \<Rightarrow> string" where
  "announcement_text position waitEst =
     (if waitEst > 0 then
        ''You are caller number '' @ dec position @ '' in the queue. Estimated wait time is '' @ dec waitEst @ '' minutes.''
      else ''You are caller number '' @ dec position @ '' in the queue. An agent will be with you shortly.'')"

definition welcome_text :: "string \<Rightarrow> string" where
  "welcome_text queueName =
     ''Thank you for calling '' @ queueName @ ''. Please hold while we connect you to the next available agent.''"

text \<open>
  The deferred clean-up of a loop removes the entry of its call, whichever loop that entry belongs
  to. \<open>loop_step\<close> is what loop \<open>i\<close> does when its context is done or its ticker fires.
\<close>

definition loop_exit :: "announcement \<Rightarrow> QueueAnnouncer \<Rightarrow> QueueAnnouncer" where
  "loop_exit l qa =
     qa\<lparr>qa_active := (qa_active qa)(an_callID l := None), qa_loops := filter (\<lambda>m. an_id m \<noteq> an_id l) (qa_loops qa)\<rparr>"

definition loop_step :: "queues option \<Rightarrow> nat \<Rightarrow> QueueAnnouncer \<Rightarrow> QueueAnnouncer \<times> string option" where
  "loop_step queueMgr i qa =
     (case find (\<lambda>l. an_id l = i) (qa_loops qa) of
        None \<Rightarrow> (qa, None)
      | Some l \<Rightarrow>
          if an_cancelled l then (loop_exit l qa, None)
          else let (position, waitEst) = getQueuePosition queueMgr (an_callID l) (an_queue l) in
               if position \<le> 0 then (loop_exit l qa, None)
               else (qa, Some (announcement_text position waitEst)))"

subsection \<open>Speech\<close>

text \<open>
  The reply of the synthesiser: an error of the request, or a status code with the bytes of the body
  that could be read and the error that ended the reading.
\<close>

datatype http_reply = HttpFailed string | HttpReply nat "byte list" "string option"

definition synthesize :: "(real \<Rightarrow> real) \<Rightarrow> string \<Rightarrow> http_reply \<Rightarrow> string + byte list" where
  "synthesize rnd ttsURL reply =
     (if ttsURL = '''' then Inl ''TTS not configured''
      else case reply of
        HttpFailed err \<Rightarrow> Inl err
      | HttpReply code body readErr \<Rightarrow>
          if code \<noteq> 200 then Inl (''TTS '' @ dec code @ '': '' @ map (\<lambda>b. char_of (unat b)) body)
          else case readErr of Some err \<Rightarrow> Inl err | None \<Rightarrow> Inr (resample rnd (stripWAVHeader body) 22050 16000))"

text \<open>The loop \<open>for off := 0; off < len(pcm); off += frameSize\<close>, with the last frame padded.\<close>

function tts_frames :: "byte list \<Rightarrow> byte list list" where
  "tts_frames pcm =
     (if pcm = [] then []
      else (let chunk = take 640 pcm in chunk @ replicate (640 - length chunk) 0) # tts_frames (drop 640 pcm))"
  by auto
termination by (relation "measure length") auto

declare tts_frames.simps [simp del]

text \<open>
  \<open>sent\<close> is the number of frames that go out before the context is cancelled or a send fails; the
  frames after that are not sent.
\<close>

definition playTTS :: "bool \<Rightarrow> bool \<Rightarrow> string + byte list \<Rightarrow> nat \<Rightarrow> byte list list" where
  "playTTS hasRTP cancelled speech sent =
     (if \<not> hasRTP \<or> cancelled then []
      else case speech of Inl _ \<Rightarrow> [] | Inr pcm \<Rightarrow> take sent (tts_frames pcm))"

text \<open>
  Hold music: the message once, then 100 frames of silence for every check that still finds the
  call; \<open>checks\<close> are the outcomes of the checks, \<open>sent\<close> the frames before a send fails.
\<close>

definition playHoldMusic :: "bool \<Rightarrow> byte list list \<Rightarrow> bool list \<Rightarrow> nat \<Rightarrow> byte list list" where
  "playHoldMusic hasRTP message checks sent =
     (if \<not> hasRTP then []
      else message @ take sent (concat (map (\<lambda>_. replicate 100 (replicate 640 0)) (takeWhile id checks))))"

subsection \<open>Lemmas\<close>

lemma find_index_Some:
  "find (\<lambda>i. P (xs ! i)) [0..<length xs] = Some i \<longleftrightarrow> i < length xs \<and> P (xs ! i) \<and> (\<forall>j < i. \<not> P (xs ! j))"
  by (auto simp: find_Some_iff)

lemma find_index_None: "find (\<lambda>i. P (xs ! i)) [0..<length xs] = None \<longleftrightarrow> (\<forall>x \<in> set xs. \<not> P x)"
  by (auto simp: find_None_iff in_set_conv_nth) (metis nth_mem)

lemma getQueuePosition_none_iff:
  "fst (getQueuePosition (Some qs) callID name) = 0 \<longleftrightarrow> (\<forall>c \<in> set (callers_of qs name). CallID c \<noteq> callID)"
proof (cases "qs name")
  case (Some q)
  show ?thesis
  proof (cases "find (\<lambda>i. CallID (Callers q ! i) = callID) [0..<length (Callers q)]")
    case None
    then show ?thesis using Some find_index_None [of "\<lambda>c. CallID c = callID" "Callers q"]
      by (simp add: getQueuePosition_def callers_of_def)
  next
    case (Some i)
    then have "i < length (Callers q)" "CallID (Callers q ! i) = callID"
      using find_index_Some [of "\<lambda>c. CallID c = callID" "Callers q" i] by auto
    then show ?thesis using \<open>qs name = Some q\<close> Some by (auto simp: getQueuePosition_def callers_of_def Let_def)
  qed
qed (simp add: getQueuePosition_def callers_of_def)

text \<open>Identities of loops are unique, and a registered loop is running, not cancelled, and of that call.\<close>

definition qa_inv :: "QueueAnnouncer \<Rightarrow> bool" where
  "qa_inv qa \<longleftrightarrow> distinct (map an_id (qa_loops qa)) \<and> (\<forall>l \<in> set (qa_loops qa). an_id l < qa_next qa)
     \<and> (\<forall>c i. qa_active qa c = Some i \<longrightarrow> (\<exists>l \<in> set (qa_loops qa). an_id l = i \<and> an_callID l = c \<and> \<not> an_cancelled l))"

inductive qa_step :: "QueueAnnouncer \<Rightarrow> QueueAnnouncer \<Rightarrow> bool" where
  "qa_step qa (StartAnnouncements c q qa)"
| "qa_step qa (StopAnnouncements c qa)"
| "qa_step qa (fst (loop_step queueMgr i qa))"

lemma qa_inv_start: "qa_inv qa \<Longrightarrow> qa_inv (StartAnnouncements c q qa)"
  by (auto simp: qa_inv_def StartAnnouncements_def less_SucI split: if_splits)

lemma same_loop: "distinct (map an_id ls) \<Longrightarrow> l \<in> set ls \<Longrightarrow> m \<in> set ls \<Longrightarrow> an_id l = an_id m \<Longrightarrow> l = m"
  by (simp add: distinct_map inj_on_def)

lemma an_id_cancel [simp]: "map an_id (cancel_loop i ls) = map an_id ls"
  by (simp add: cancel_loop_def)

lemma qa_inv_active:
  assumes "qa_inv qa" "qa_active qa c = Some i"
  obtains l where "l \<in> set (qa_loops qa)" "an_id l = i" "an_callID l = c" "\<not> an_cancelled l" "i < qa_next qa"
  using assms unfolding qa_inv_def by metis

lemma qa_inv_same: "qa_inv qa \<Longrightarrow> l \<in> set (qa_loops qa) \<Longrightarrow> m \<in> set (qa_loops qa) \<Longrightarrow> an_id l = an_id m \<Longrightarrow> l = m"
  using same_loop unfolding qa_inv_def by blast

lemma in_cancel_loop: "m \<in> set ls \<Longrightarrow> an_id m \<noteq> i \<Longrightarrow> m \<in> set (cancel_loop i ls)"
  by (auto simp: cancel_loop_def image_iff intro!: bexI [of _ m])

lemma ids_cancel_loop: "(\<forall>l \<in> set (cancel_loop i ls). an_id l < n) \<longleftrightarrow> (\<forall>l \<in> set ls. an_id l < n)"
proof -
  have "an_id ` set (cancel_loop i ls) = an_id ` set ls" by (metis an_id_cancel set_map)
  then show ?thesis by (metis (mono_tags, lifting) imageE imageI)
qed

lemma qa_inv_stop:
  assumes "qa_inv qa"
  shows "qa_inv (StopAnnouncements c qa)"
proof (cases "qa_active qa c")
  case (Some i)
  then obtain l where l: "l \<in> set (qa_loops qa)" "an_id l = i" "an_callID l = c"
    by (rule qa_inv_active [OF assms])
  have "\<exists>m \<in> set (cancel_loop i (qa_loops qa)). an_id m = j \<and> an_callID m = d \<and> \<not> an_cancelled m"
    if a: "qa_active qa d = Some j" and d: "d \<noteq> c" for d j
  proof -
    obtain m where m: "m \<in> set (qa_loops qa)" "an_id m = j" "an_callID m = d" "\<not> an_cancelled m"
      by (rule qa_inv_active [OF assms a])
    moreover have "j \<noteq> i" using m(1-3) l d qa_inv_same [OF assms, of l m] by metis
    ultimately show ?thesis using in_cancel_loop [of m "qa_loops qa" i] by blast
  qed
  then show ?thesis using assms Some by (simp add: qa_inv_def StopAnnouncements_def ids_cancel_loop)
qed (use assms in \<open>simp add: StopAnnouncements_def\<close>)

lemma qa_inv_exit:
  assumes "qa_inv qa" "l \<in> set (qa_loops qa)"
  shows "qa_inv (loop_exit l qa)"
proof -
  have "\<exists>m \<in> set (qa_loops qa). an_id m \<noteq> an_id l \<and> an_id m = j \<and> an_callID m = d \<and> \<not> an_cancelled m"
    if "qa_active qa d = Some j" "d \<noteq> an_callID l" for d j
    using assms that same_loop [of "qa_loops qa"] by (simp add: qa_inv_def) metis
  then show ?thesis using assms
    by (auto simp: qa_inv_def loop_exit_def distinct_map_filter)
qed

lemma qa_inv_step: "qa_inv qa \<Longrightarrow> qa_step qa qa' \<Longrightarrow> qa_inv qa'"
  by (erule qa_step.cases)
     (auto simp: qa_inv_start qa_inv_stop qa_inv_exit loop_step_def find_Some_iff split_beta Let_def split: option.splits)

interpretation announcer: invariant_machine "\<lambda>qa. qa = NewQueueAnnouncer" qa_step qa_inv
proof
  show "qa = NewQueueAnnouncer \<Longrightarrow> qa_inv qa" for qa by (simp add: qa_inv_def NewQueueAnnouncer_def)
qed (rule qa_inv_step)

lemma concat_tts_frames: "\<exists>k < 640. concat (tts_frames pcm) = pcm @ replicate k 0"
proof (induction pcm rule: tts_frames.induct)
  case (1 pcm)
  show ?case
  proof (cases "pcm = []")
    case True
    then show ?thesis by (auto simp: tts_frames.simps)
  next
    case False
    with 1 obtain k where k: "k < 640" "concat (tts_frames (drop 640 pcm)) = drop 640 pcm @ replicate k 0" by auto
    show ?thesis
    proof (cases "length pcm < 640")
      case True
      then have "tts_frames pcm = [pcm @ replicate (640 - length pcm) 0]"
        using False by (simp add: tts_frames.simps [of pcm] tts_frames.simps [of "[]"])
      then show ?thesis using False by (intro exI [of _ "640 - length pcm"]) auto
    next
      case long: False
      then have "tts_frames pcm = take 640 pcm # tts_frames (drop 640 pcm)"
        using False by (subst tts_frames.simps) simp
      then show ?thesis using k long by (intro exI [of _ k]) simp
    qed
  qed
qed

lemma length_tts_frames: "f \<in> set (tts_frames pcm) \<Longrightarrow> length f = 640"
  by (induction pcm rule: tts_frames.induct) (subst (asm) (2) tts_frames.simps, auto split: if_splits)

subsection \<open>Properties\<close>

text \<open>
  the position announced to a caller is its place in the queue, counted from one, and three
  minutes are estimated for every place; no position is announced exactly when the call is not in
  the queue.
\<close>

theorem getQueuePosition_spec:
  "case getQueuePosition (Some qs) callID name of (pos, wait) \<Rightarrow>
     (if pos = 0 then wait = 0 \<and> callID \<notin> CallID ` set (callers_of qs name)
      else pos \<le> length (callers_of qs name) \<and> CallID (callers_of qs name ! (pos - 1)) = callID \<and>
           callID \<notin> CallID ` set (take (pos - 1) (callers_of qs name)) \<and> wait = 3 * pos)"
proof (cases "fst (getQueuePosition (Some qs) callID name) = 0")
  case True
  moreover have "callID \<notin> CallID ` set (callers_of qs name)"
    using True getQueuePosition_none_iff [of qs callID name] by auto
  moreover have "snd (getQueuePosition (Some qs) callID name) = 0"
    using True by (auto simp: getQueuePosition_def Let_def split: option.splits)
  ultimately show ?thesis by (simp add: split_beta)
next
  case False
  then obtain q i where q: "qs name = Some q"
      and i: "find (\<lambda>i. CallID (Callers q ! i) = callID) [0..<length (Callers q)] = Some i"
    by (auto simp: getQueuePosition_def split: option.splits)
  then have "i < length (Callers q)" "CallID (Callers q ! i) = callID" "\<forall>j < i. CallID (Callers q ! j) \<noteq> callID"
    using find_index_Some [of "\<lambda>c. CallID c = callID" "Callers q" i] by auto
  moreover have "callID \<notin> CallID ` set (take i (Callers q))"
    using calculation by (auto simp: set_conv_nth)
  ultimately show ?thesis using q i by (simp add: getQueuePosition_def callers_of_def Let_def)
qed

text \<open>
  C25: announcements end. Once a caller that waits at most once has been taken out of the queues,
  every announcement loop of its call stops at its next step: it leaves the set of running loops and
  says nothing more.
\<close>

theorem announcements_end:
  assumes "finite (dom qs)" "enumerates ord" "size {#e \<in># waiting qs. CallID e = callID#} \<le> 1"
    and "find (\<lambda>l. an_id l = i) (qa_loops qa) = Some l" "an_callID l = callID"
  shows "case loop_step (Some (RemoveCallerByCallID ord callID qs)) i qa of
           (qa', said) \<Rightarrow> said = None \<and> i \<notin> an_id ` set (qa_loops qa')"
proof -
  obtain qs' r where t: "take_caller (\<lambda>c. CallID c = callID) (ord qs) qs = (qs', r)" by fastforce
  have w: "waiting qs' \<subseteq># waiting qs \<and> {#e \<in># waiting qs'. CallID e = callID#} = {#} \<and> finite (dom qs')"
  proof (cases r)
    case None
    then show ?thesis
      using qm.takes_None [of qs "(ord, \<lambda>c. CallID c = callID)" qs'] assms(1,2) t by (auto simp: filter_mset_eq_mempty_iff)
  next
    case (Some c)
    then have c: "CallID c = callID" "c \<in># waiting qs" "waiting qs' = waiting qs - {#c#}" "finite (dom qs')"
      using take_caller_Some [of _ _ qs qs' c] t assms(1) by auto
    have m: "waiting qs = add_mset c (waiting qs')" using c(2,3) by simp
    then have "{#e \<in># waiting qs. CallID e = callID#} = add_mset c {#e \<in># waiting qs'. CallID e = callID#}"
      using c(1) by simp
    with assms(3) have "size {#e \<in># waiting qs'. CallID e = callID#} = 0" by simp
    with c(4) m show ?thesis by auto
  qed
  have "CallID x \<noteq> callID" if "x \<in> set (callers_of qs' name)" for x name
    using w that in_waiting_iff [of qs' x] by (auto simp: filter_mset_eq_mempty_iff)
  then have "fst (getQueuePosition (Some qs') callID (an_queue l)) = 0"
    using getQueuePosition_none_iff [of qs' callID "an_queue l"] by auto
  moreover have "an_id l = i" using assms(4) by (auto simp: find_Some_iff)
  ultimately show ?thesis using assms(4,5) t
    by (auto simp: loop_step_def loop_exit_def split_beta RemoveCallerByCallID_def)
qed

theorem announcements_end_witness:
  "case loop_step (Some (RemoveCallerByCallID key_order ''c-1'' (fst (AddCaller False 8 ''Sales'' example_entry Map.empty)))) 0
       (StartAnnouncements ''c-1'' ''Sales'' NewQueueAnnouncer) of
     (qa', said) \<Rightarrow> said = None \<and> 0 \<notin> an_id ` set (qa_loops qa')"
proof (rule announcements_end [OF _ enumerates_key_order])
  let ?qs = "fst (AddCaller False 8 ''Sales'' example_entry Map.empty)"
  show "finite (dom ?qs)" by (simp add: AddCaller_def)
  have "waiting ?qs = {#example_entry\<lparr>EnterTime := 8, QueueName := ''Sales''\<rparr>#}"
    using qm.content_put [of Map.empty "(False, 8, ''Sales'', example_entry)"] by (simp add: waiting_def)
  then show "size {#e \<in># waiting ?qs. CallID e = ''c-1''#} \<le> 1" by simp
qed (simp add: StartAnnouncements_def NewQueueAnnouncer_def, simp)

text \<open>
  framing of synthesised speech. The frames sent are 640 bytes each, and together they are the
  audio followed by less than one frame of silence.
\<close>

theorem tts_frames_spec:
  "(\<forall>f. f \<in> set (tts_frames pcm) \<longrightarrow> length f = 640) \<and>
   (\<exists>k < 640. concat (tts_frames pcm) = pcm @ replicate k 0)"
  using length_tts_frames concat_tts_frames by blast

theorem tts_frames_spec_witness: "\<exists>k < 640. concat (tts_frames [1, 2]) = [1, 2] @ replicate k 0"
  using tts_frames_spec [of "[1, 2]"] by blast

text \<open>
  a loop that ends removes the registration of its call even if that belongs to a later loop.
  When a call is re-queued (announcements stopped and started again) and the first loop then
  notices its cancellation, the second loop runs unregistered: stopping the announcements of the
  call has no effect on it any more.
\<close>

theorem announcer_orphan:
  fixes q :: string and queueMgr :: "queues option"
  assumes "reachable qa_step NewQueueAnnouncer qa" "qa_active qa callID = Some i"
  defines "qa2 \<equiv> StartAnnouncements callID q (StopAnnouncements callID qa)"
  defines "qa3 \<equiv> fst (loop_step queueMgr i qa2)"
  shows "StopAnnouncements callID qa3 = qa3 \<and>
         (\<exists>l \<in> set (qa_loops qa3). an_callID l = callID \<and> an_queue l = q \<and> \<not> an_cancelled l)"
proof -
  have inv: "qa_inv qa" using announcer.reachable_inv [OF assms(1)] by simp
  obtain l where l: "l \<in> set (qa_loops qa)" "an_id l = i" "an_callID l = callID" "i < qa_next qa"
    by (rule qa_inv_active [OF inv assms(2)])
  let ?n = "\<lparr>an_id = qa_next qa, an_callID = callID, an_queue = q, an_cancelled = False\<rparr>"
  have loops: "qa_loops qa2 = cancel_loop i (qa_loops qa) @ [?n]"
    using assms(2) by (simp add: qa2_def StartAnnouncements_def StopAnnouncements_def)
  have "l\<lparr>an_cancelled := True\<rparr> \<in> set (qa_loops qa2)" using l by (force simp: loops cancel_loop_def)
  then obtain m where m: "find (\<lambda>l. an_id l = i) (qa_loops qa2) = Some m"
    using l(2) by (cases "find (\<lambda>l. an_id l = i) (qa_loops qa2)") (auto simp: find_None_iff)
  then have "m \<in> set (qa_loops qa2)" "an_id m = i" by (auto simp: find_Some_iff)
  then obtain m0 where m0: "m0 \<in> set (qa_loops qa)" "an_id m0 = i" "m = m0\<lparr>an_cancelled := True\<rparr>"
    using l(4) by (auto simp: loops cancel_loop_def split: if_splits)
  then have "m0 = l" using qa_inv_same [OF inv, of m0 l] l by simp
  then have mm: "an_cancelled m" "an_callID m = callID" "an_id m = i" using m0 l by simp_all
  then have "qa3 = loop_exit m qa2" using m by (simp add: qa3_def loop_step_def)
  then show ?thesis using mm l(4) loops by (simp add: loop_exit_def StopAnnouncements_def)
qed

theorem announcer_orphan_witness:
  "\<exists>l \<in> set (qa_loops (fst (loop_step None 0 (StartAnnouncements ''c'' ''Sales''
      (StopAnnouncements ''c'' (StartAnnouncements ''c'' ''Support'' NewQueueAnnouncer)))))).
     an_callID l = ''c'' \<and> an_queue l = ''Sales'' \<and> \<not> an_cancelled l"
proof -
  let ?qa = "StartAnnouncements ''c'' ''Support'' NewQueueAnnouncer"
  have "reachable qa_step NewQueueAnnouncer ?qa" by (rule reachable_step) (rule qa_step.intros)
  moreover have "qa_active ?qa ''c'' = Some 0" by (simp add: StartAnnouncements_def NewQueueAnnouncer_def)
  ultimately show ?thesis using announcer_orphan [of ?qa "''c''" 0 None "''Sales''"] by blast
qed

end
