(* ===== verification/Call_Control.thy ===== *)
theory Call_Control
  imports Conference Announcer
begin

text \<open>
  Call control (\<open>gateway/callcontrol.go\<close>): hold, resume, mute, transfer to a queue or an agent, and
  the conference requests. The handlers act on the state of several components at once: the WebRTC
  sessions and conferences, the queues, the distributor and the announcer. An optional component is
  \<open>None\<close> where the code has a nil pointer. Readings of the clock are arguments.
\<close>

record call_ctl =
  cc_conf :: conf_state
  cc_webrtcMgr :: bool
  cc_onHold :: "nat \<Rightarrow> bool"
  cc_queues :: "queues option"
  cc_acd :: "ACD option"
  cc_announcer :: "QueueAnnouncer option"

datatype ctl_effect = CtlRing ring | CtlConf conf_effect | HoldMusic string | CtlInsert db_insert | CtlClose nat

definition extractSIPRECCallID :: "string \<Rightarrow> string" where
  "extractSIPRECCallID callID =
     (if length callID > length ''bridge-'' \<and> take (length ''bridge-'') callID = ''bridge-''
      then drop (length ''bridge-'') callID else callID)"

definition broadcastCallState :: "string \<Rightarrow> string \<Rightarrow> call_ctl \<Rightarrow> ctl_effect list" where
  "broadcastCallState callID stt g =
     (if siprec (cc_conf g) callID \<noteq> None
      then [CtlConf (Broadcast callID [(''type'', ''call_state''), (''state'', stt), (''call_id'', callID)])] else [])"

text \<open>The flag of the WebRTC session registered under the call, if there is one.\<close>

definition set_hold :: "bool \<Rightarrow> string \<Rightarrow> call_ctl \<Rightarrow> call_ctl" where
  "set_hold b callID g =
     (if \<not> cc_webrtcMgr g then g
      else case webrtc (cc_conf g) callID of None \<Rightarrow> g
           | Some w \<Rightarrow> g\<lparr>cc_onHold := (cc_onHold g)(w := b)\<rparr>)"

text \<open>A decoded request is \<open>None\<close> when decoding failed.\<close>

definition handleCallHold :: "bool \<Rightarrow> string option \<Rightarrow> call_ctl \<Rightarrow> call_ctl \<times> ctl_effect list \<times> json_obj response" where
  "handleCallHold isPost req g =
     (if \<not> isPost then (g, [], HttpError 405 ''{\"error\":\"method not allowed\"}'')
      else if req = None \<or> req = Some '''' then (g, [], HttpError 400 ''{\"error\":\"call_id required\"}'')
      else let callID = the req; siprecCallID = extractSIPRECCallID callID in
        (set_hold True callID g,
         (if siprec (cc_conf g) siprecCallID \<noteq> None \<and> cc_announcer g \<noteq> None then [HoldMusic callID] else [])
           @ broadcastCallState siprecCallID ''hold'' g,
         WriteJSON 200 [(''status'', ''ok''), (''state'', ''hold'')]))"

definition handleCallResume :: "bool \<Rightarrow> string option \<Rightarrow> call_ctl \<Rightarrow> call_ctl \<times> ctl_effect list \<times> json_obj response" where
  "handleCallResume isPost req g =
     (if \<not> isPost then (g, [], HttpError 405 ''{\"error\":\"method not allowed\"}'')
      else if req = None \<or> req = Some '''' then (g, [], HttpError 400 ''{\"error\":\"call_id required\"}'')
      else let callID = the req in
        (set_hold False callID g, broadcastCallState (extractSIPRECCallID callID) ''connected'' g,
         WriteJSON 200 [(''status'', ''ok''), (''state'', ''connected'')]))"

definition handleCallMute :: "bool \<Rightarrow> json_obj response" where
  "handleCallMute isPost =
     (if \<not> isPost then HttpError 405 ''{\"error\":\"method not allowed\"}''
      else WriteJSON 200 [(''status'', ''ok''), (''state'', ''muted'')])"

definition handleCallUnmute :: "bool \<Rightarrow> json_obj response" where
  "handleCallUnmute isPost =
     (if \<not> isPost then HttpError 405 ''{\"error\":\"method not allowed\"}''
      else WriteJSON 200 [(''status'', ''ok''), (''state'', ''connected'')])"

subsection \<open>Transfer\<close>

record transferRequest =
  tr_CallID :: string
  tr_TargetType :: string
  tr_TargetValue :: string
  tr_AgentID :: string
  tr_Target :: string
  tr_Department :: string

definition transfer_target :: "transferRequest \<Rightarrow> string \<times> string" where
  "transfer_target req =
     (if tr_TargetType req = '''' \<and> tr_Target req \<noteq> '''' then
        (if tr_Department req \<noteq> '''' then (''queue'', tr_Department req) else (''agent'', tr_Target req))
      else (tr_TargetType req, tr_TargetValue req))"

text \<open>Disconnects the current agent: its WebRTC session and its entry in the agents table.\<close>

definition release_agent :: "instant \<Rightarrow> transferRequest \<Rightarrow> call_ctl \<Rightarrow> call_ctl \<times> ctl_effect list" where
  "release_agent now req g =
     (let (g1, eff) = (if \<not> cc_webrtcMgr g then (g, [])
            else case webrtc (cc_conf g) (tr_CallID req) of None \<Rightarrow> (g, [])
            | Some w \<Rightarrow> (g\<lparr>cc_conf := (cc_conf g)\<lparr>webrtc := (webrtc (cc_conf g))(tr_CallID req := None)\<rparr>\<rparr>, [CtlClose w]));
          g2 = (if tr_AgentID req = '''' then g1
                else g1\<lparr>cc_acd := map_option (OnCallEnd now (tr_AgentID req)) (cc_acd g1)\<rparr>)
      in (g2, eff))"

definition requeue ::
  "enumeration \<Rightarrow> bool \<Rightarrow> instant \<Rightarrow> nat \<Rightarrow> string \<Rightarrow> string \<Rightarrow> string \<Rightarrow> string \<Rightarrow> call_ctl \<Rightarrow> call_ctl \<times> ctl_effect list" where
  "requeue ord database now nano callID queue reason prio g =
     (case cc_queues g of None \<Rightarrow> (g, [])
      | Some qs \<Rightarrow>
          let (qs', ins) = AddCaller database now queue
                \<lparr>ID = ''q-'' @ dec nano, CallID = callID, Number = ''Transfer'', WaitSec = 0, Reason = reason,
                 Priority = prio, QueueName = '''', EnterTime = 0\<rparr> (RemoveCallerByCallID ord callID qs)
          in (g\<lparr>cc_queues := Some qs'\<rparr>, map CtlInsert ins))"

definition handleCallTransfer ::
  "enumeration \<Rightarrow> bool \<Rightarrow> instant \<Rightarrow> nat \<Rightarrow> bool \<Rightarrow> transferRequest option \<Rightarrow> call_ctl
    \<Rightarrow> call_ctl \<times> ctl_effect list \<times> json_obj response" where
  "handleCallTransfer ord database now nano isPost decoded g =
     (if \<not> isPost then (g, [], HttpError 405 ''{\"error\":\"method not allowed\"}'')
      else case decoded of
        None \<Rightarrow> (g, [], HttpError 400 ''{\"error\":\"invalid JSON\"}'')
      | Some req \<Rightarrow>
          if tr_CallID req = '''' then (g, [], HttpError 400 ''{\"error\":\"call_id required\"}'')
          else
            let (targetType, targetValue) = transfer_target req;
                siprecCallID = extractSIPRECCallID (tr_CallID req)
            in if targetType = ''queue'' then
                 let (g1, e1) = release_agent now req g;
                     g2 = g1\<lparr>cc_announcer := map_option (Announcer.StopAnnouncements siprecCallID) (cc_announcer g1)\<rparr>;
                     (g3, e3) = requeue ord database now nano siprecCallID targetValue ''Transferred from agent'' ''normal'' g2;
                     g4 = (if siprec (cc_conf g3) siprecCallID \<noteq> None
                           then g3\<lparr>cc_announcer := map_option (StartAnnouncements siprecCallID targetValue) (cc_announcer g3)\<rparr>
                           else g3)
                 in (g4, e1 @ e3, WriteJSON 200 [(''status'', ''transferred''), (''target'', targetValue)])
               else if targetType = ''agent'' then
                 let (g1, e1) = release_agent now req g;
                     (g3, e3) = requeue ord database now nano siprecCallID ''Transfer'' ''Transfer from agent'' ''high'' g1;
                     callerNum = (case siprec (cc_conf g3) siprecCallID of None \<Rightarrow> ''Transfer''
                                  | Some s \<Rightarrow> if cv_callerNumber s \<noteq> '''' then cv_callerNumber s else ''Transfer'');
                     e4 = (case cc_acd g3 of None \<Rightarrow> []
                           | Some a \<Rightarrow> if has_agentMgr a
                                       then [CtlRing (RingAgent targetValue siprecCallID callerNum ''Transfer'' 0)] else [])
                 in (g3, e1 @ e3 @ e4, WriteJSON 200 [(''status'', ''transferred''), (''target'', targetValue)])
               else (g, [], WriteJSON 400 [(''error'', ''unsupported target_type: '' @ targetType)]))"

subsection \<open>Conferences\<close>

record conferenceRequest =
  cr_CallID :: string
  cr_Target :: string
  cr_TargetType :: string

definition handleCallConference ::
  "bool \<Rightarrow> conferenceRequest option \<Rightarrow> call_ctl \<Rightarrow> call_ctl \<times> ctl_effect list \<times> json_obj response" where
  "handleCallConference isPost decoded g =
     (if \<not> isPost then (g, [], HttpError 405 ''{\"error\":\"method not allowed\"}'')
      else case decoded of
        None \<Rightarrow> (g, [], WriteJSON 400 [(''error'', ''invalid JSON'')])
      | Some req \<Rightarrow>
          if cr_CallID req = '''' \<or> cr_Target req = '''' then
            (g, [], WriteJSON 400 [(''error'', ''call_id and target required'')])
          else
            let targetType = (if cr_TargetType req = '''' then ''agent'' else cr_TargetType req);
                siprecCallID = extractSIPRECCallID (cr_CallID req);
                ringable = (case cc_acd g of None \<Rightarrow> False | Some a \<Rightarrow> has_agentMgr a);
                (c, eff, r) = startConference ringable siprecCallID targetType (cr_Target req) (cc_conf g)
            in case r of
                 Inl err \<Rightarrow> (g\<lparr>cc_conf := c\<rparr>, map CtlConf eff, WriteJSON 500 [(''error'', err)])
               | Inr cs \<Rightarrow> (g\<lparr>cc_conf := c\<rparr>, map CtlConf eff,
                   WriteJSON 200 [(''status'', ''conference_started''), (''call_id'', cf_callID cs), (''third_party'', cr_Target req)]))"

text \<open>The request names the call and who leaves.\<close>

definition handleConferenceDrop ::
  "bool \<Rightarrow> (string \<times> string) option \<Rightarrow> string list \<Rightarrow> call_ctl \<Rightarrow> call_ctl \<times> ctl_effect list \<times> json_obj response" where
  "handleConferenceDrop isPost decoded ks g =
     (if \<not> isPost then (g, [], HttpError 405 ''{\"error\":\"method not allowed\"}'')
      else case decoded of
        None \<Rightarrow> (g, [], WriteJSON 400 [(''error'', ''invalid JSON'')])
      | Some (callID, who) \<Rightarrow>
          let siprecCallID = extractSIPRECCallID callID in
          if who = ''third'' then
            (let (c, eff, err) = dropThirdParty ks siprecCallID (cc_conf g) in
             case err of
               Some e \<Rightarrow> (g\<lparr>cc_conf := c\<rparr>, map CtlConf eff, WriteJSON 500 [(''error'', e)])
             | None \<Rightarrow> (g\<lparr>cc_conf := c\<rparr>, map CtlConf eff, WriteJSON 200 [(''status'', ''third_party_dropped'')]))
          else if who = ''self'' then
            (g\<lparr>cc_conf := endConference siprecCallID (cc_conf g)\<rparr>, [], WriteJSON 200 [(''status'', ''left_conference'')])
          else (g, [], WriteJSON 400 [(''error'', ''who must be '' @ [CHR 0x27] @ ''third'' @ [CHR 0x27] @ '' or '' @ [CHR 0x27] @ ''self'' @ [CHR 0x27])]))"

subsection \<open>Lemmas\<close>

lemma extract_bridge: "callID \<noteq> '''' \<Longrightarrow> extractSIPRECCallID (''bridge-'' @ callID) = callID"
  by (simp add: extractSIPRECCallID_def)

text \<open>Taking the single entry of a call out of the queues.\<close>

lemma waiting_RemoveCallerByCallID:
  assumes "finite (dom qs)" "enumerates ord" "size {#e \<in># waiting qs. CallID e = callID#} \<le> 1"
  shows "waiting (RemoveCallerByCallID ord callID qs) = {#e \<in># waiting qs. CallID e \<noteq> callID#}"
    and "finite (dom (RemoveCallerByCallID ord callID qs))"
proof -
  obtain qs' r where t: "take_caller (\<lambda>c. CallID c = callID) (ord qs) qs = (qs', r)" by fastforce
  have part: "waiting qs = {#e \<in># waiting qs. CallID e = callID#} + {#e \<in># waiting qs. CallID e \<noteq> callID#}"
    by (rule multiset_partition)
  have "waiting qs' = {#e \<in># waiting qs. CallID e \<noteq> callID#} \<and> finite (dom qs')"
  proof (cases r)
    case None
    then have "qs' = qs" "\<forall>e \<in># waiting qs. CallID e \<noteq> callID"
      using qm.takes_None [of qs "(ord, \<lambda>c. CallID c = callID)" qs'] assms(1,2) t by auto
    then show ?thesis using assms(1) filter_mset_eq_conv [of "\<lambda>e. CallID e \<noteq> callID" "waiting qs" "waiting qs"] by auto
  next
    case (Some c)
    then have c: "CallID c = callID" "c \<in># waiting qs" "waiting qs' = waiting qs - {#c#}" "finite (dom qs')"
      using take_caller_Some [of _ _ qs qs' c] t assms(1) by auto
    then have "c \<in># {#e \<in># waiting qs. CallID e = callID#}" by simp
    with assms(3) have "{#e \<in># waiting qs. CallID e = callID#} = {#c#}"
      by (metis empty_not_add_mset le_zero_eq multi_member_split not_less_eq_eq One_nat_def size_add_mset size_eq_0_iff_empty)
    with part c show ?thesis by (metis add_diff_cancel_left')
  qed
  then show "waiting (RemoveCallerByCallID ord callID qs) = {#e \<in># waiting qs. CallID e \<noteq> callID#}"
    and "finite (dom (RemoveCallerByCallID ord callID qs))"
    using t by (auto simp: RemoveCallerByCallID_def)
qed

lemma requeue_waiting:
  assumes "cc_queues g = Some qs" "finite (dom qs)" "enumerates ord" "size {#e \<in># waiting qs. CallID e = callID#} \<le> 1"
  shows "\<exists>qs' e. cc_queues (fst (requeue ord database now nano callID queue reason prio g)) = Some qs'
     \<and> waiting qs' = add_mset e {#e \<in># waiting qs. CallID e \<noteq> callID#}
     \<and> CallID e = callID \<and> QueueName e = queue \<and> Priority e = prio \<and> EnterTime e = now"
proof -
  let ?e = "\<lparr>ID = ''q-'' @ dec nano, CallID = callID, Number = ''Transfer'', WaitSec = 0, Reason = reason,
                 Priority = prio, QueueName = '''', EnterTime = 0\<rparr>"
  have "waiting (fst (AddCaller database now queue ?e (RemoveCallerByCallID ord callID qs)))
      = add_mset (?e\<lparr>EnterTime := now, QueueName := queue\<rparr>) {#e \<in># waiting qs. CallID e \<noteq> callID#}"
    using qm.content_put [of "RemoveCallerByCallID ord callID qs" "(database, now, queue, ?e)"]
      waiting_RemoveCallerByCallID [OF assms(2-4)] by simp
  then show ?thesis using assms(1)
    by (intro exI [of _ "fst (AddCaller database now queue ?e (RemoveCallerByCallID ord callID qs))"]
        exI [of _ "?e\<lparr>EnterTime := now, QueueName := queue\<rparr>"]) (simp add: requeue_def split_beta)
qed

lemma requeue_fields [simp]:
  "cc_conf (fst (requeue ord database now nano callID queue reason prio g)) = cc_conf g"
  "cc_acd (fst (requeue ord database now nano callID queue reason prio g)) = cc_acd g"
  "cc_announcer (fst (requeue ord database now nano callID queue reason prio g)) = cc_announcer g"
  by (auto simp: requeue_def split_beta split: option.splits)

lemma release_agent_fields [simp]:
  "cc_queues (fst (release_agent now req g)) = cc_queues g"
  "cc_announcer (fst (release_agent now req g)) = cc_announcer g"
  "siprec (cc_conf (fst (release_agent now req g))) = siprec (cc_conf g)"
  by (auto simp: release_agent_def split_beta Let_def split: option.splits)

lemma release_agent_webrtc:
  "cc_webrtcMgr g \<Longrightarrow> webrtc (cc_conf (fst (release_agent now req g))) (tr_CallID req) = None"
  by (auto simp: release_agent_def split_beta Let_def split: option.splits)

lemma release_agent_calls_ok:
  "(\<forall>a. cc_acd g = Some a \<longrightarrow> calls_ok a) \<Longrightarrow> cc_acd (fst (release_agent now req g)) = Some a' \<Longrightarrow> calls_ok a'"
  by (auto simp: release_agent_def split_beta Let_def calls_ok_end split: option.splits if_splits)

subsection \<open>Properties\<close>

text \<open>
  C11: a transfer moves the call and nobody else. If the call waits at most once, then after a
  transfer to a queue or an agent it waits exactly once, in the target queue or the queue
  \<open>Transfer\<close> and stamped with the time of the transfer; every other caller waits as before; the WebRTC
  session of the agent is gone, and no agent's number of calls becomes negative.
\<close>

theorem transfer_requeues:
  fixes req :: transferRequest and database :: bool and now :: instant and nano :: nat
  assumes "cc_queues g = Some qs" "finite (dom qs)" "enumerates ord" "cc_webrtcMgr g"
    and "size {#e \<in># waiting qs. CallID e = extractSIPRECCallID (tr_CallID req)#} \<le> 1"
    and "tr_CallID req \<noteq> ''''" "transfer_target req = (ty, v)" "ty = ''queue'' \<or> ty = ''agent''"
    and "\<forall>a. cc_acd g = Some a \<longrightarrow> calls_ok a"
  defines "g' \<equiv> fst (handleCallTransfer ord database now nano True (Some req) g)"
  shows "(\<exists>qs' e. cc_queues g' = Some qs' \<and>
           waiting qs' = add_mset e {#e \<in># waiting qs. CallID e \<noteq> extractSIPRECCallID (tr_CallID req)#} \<and>
           CallID e = extractSIPRECCallID (tr_CallID req) \<and> EnterTime e = now \<and>
           QueueName e = (if ty = ''queue'' then v else ''Transfer'')) \<and>
         webrtc (cc_conf g') (tr_CallID req) = None \<and>
         (\<forall>a. cc_acd g' = Some a \<longrightarrow> calls_ok a)"
proof -
  let ?c = "extractSIPRECCallID (tr_CallID req)"
  define g1 where "g1 = fst (release_agent now req g)"
  define g2 where "g2 = (if ty = ''queue'' then g1\<lparr>cc_announcer := map_option (Announcer.StopAnnouncements ?c) (cc_announcer g1)\<rparr> else g1)"
  define g3 where "g3 = fst (requeue ord database now nano ?c (if ty = ''queue'' then v else ''Transfer'')
      (if ty = ''queue'' then ''Transferred from agent'' else ''Transfer from agent'')
      (if ty = ''queue'' then ''normal'' else ''high'') g2)"
  have eq: "cc_queues g' = cc_queues g3 \<and> cc_conf g' = cc_conf g3 \<and> cc_acd g' = cc_acd g3"
    using assms(6-8) by (auto simp: g'_def g3_def g2_def g1_def handleCallTransfer_def split_beta Let_def)
  have f: "cc_conf g3 = cc_conf g1" "cc_acd g3 = cc_acd g1" by (simp_all add: g3_def g2_def)
  have "cc_queues g2 = Some qs" using assms(1) by (simp add: g2_def g1_def)
  have "\<exists>qs' e. cc_queues g3 = Some qs' \<and> waiting qs' = add_mset e {#e \<in># waiting qs. CallID e \<noteq> ?c#} \<and>
      CallID e = ?c \<and> EnterTime e = now \<and> QueueName e = (if ty = ''queue'' then v else ''Transfer'')"
    using requeue_waiting [OF \<open>cc_queues g2 = Some qs\<close> assms(2,3,5)] unfolding g3_def by blast
  moreover have "webrtc (cc_conf g1) (tr_CallID req) = None"
    using release_agent_webrtc [OF assms(4)] by (simp add: g1_def)
  moreover have "\<forall>a. cc_acd g1 = Some a \<longrightarrow> calls_ok a"
    using release_agent_calls_ok [OF assms(9)] unfolding g1_def by blast
  ultimately show ?thesis using eq f by simp
qed

definition example_ctl :: call_ctl where
  "example_ctl = \<lparr>cc_conf = example_conf, cc_webrtcMgr = True, cc_onHold = (\<lambda>_. False),
     cc_queues = Some Map.empty, cc_acd = None, cc_announcer = Some NewQueueAnnouncer\<rparr>"

definition example_transfer :: transferRequest where
  "example_transfer = \<lparr>tr_CallID = ''bridge-c1'', tr_TargetType = ''queue'', tr_TargetValue = ''Sales'',
     tr_AgentID = '''', tr_Target = '''', tr_Department = ''''\<rparr>"

theorem transfer_requeues_witness:
  "\<exists>qs' e. cc_queues (fst (handleCallTransfer key_order False 5 5 True (Some example_transfer) example_ctl)) = Some qs' \<and>
     waiting qs' = {#e#} \<and> CallID e = ''c1'' \<and> QueueName e = ''Sales''"
proof -
  have "extractSIPRECCallID (tr_CallID example_transfer) = ''c1''"
    using extract_bridge [of "''c1''"] by (simp add: example_transfer_def)
  then show ?thesis
    using transfer_requeues [of example_ctl Map.empty key_order example_transfer "''queue''" "''Sales''" False 5 5]
      enumerates_key_order
    by (auto simp: example_ctl_def waiting_def) (auto simp: example_transfer_def transfer_target_def)
qed

text \<open>
  hold and resume act on one session: putting a call on hold and resuming it leaves every flag
  as it was when the call was not on hold, and a request for a call without a WebRTC session changes
  nothing.
\<close>

theorem hold_resume:
  assumes "callID \<noteq> ''''" "\<forall>w. webrtc (cc_conf g) callID = Some w \<longrightarrow> \<not> cc_onHold g w"
  shows "fst (handleCallResume True (Some callID) (fst (handleCallHold True (Some callID) g))) = g \<and>
         (webrtc (cc_conf g) callID = None \<longrightarrow> fst (handleCallHold True (Some callID) g) = g)"
  using assms
  by (auto simp: handleCallResume_def handleCallHold_def set_hold_def Let_def fun_upd_idem split: option.splits)

theorem hold_resume_witness:
  "fst (handleCallResume True (Some ''bridge-c1'') (fst (handleCallHold True (Some ''bridge-c1'')
     (example_ctl\<lparr>cc_conf := example_conf\<lparr>webrtc := [''bridge-c1'' \<mapsto> 3]\<rparr>\<rparr>))))
   = example_ctl\<lparr>cc_conf := example_conf\<lparr>webrtc := [''bridge-c1'' \<mapsto> 3]\<rparr>\<rparr>"
  using hold_resume [of "''bridge-c1''" "example_ctl\<lparr>cc_conf := example_conf\<lparr>webrtc := [''bridge-c1'' \<mapsto> 3]\<rparr>\<rparr>"]
  by (simp add: example_ctl_def)

end
