(* ===== verification/Sha256.thy ===== *)
theory Sha256
  imports Prelude
begin

text \<open>
  What the gateway uses of Go's \<open>crypto/sha256\<close>, \<open>crypto/hmac\<close> and \<open>encoding/hex\<close>: the hash of FIPS
  180-4 on 32-bit words, HMAC (RFC 2104) over it, and hexadecimal strings, whose decoder accepts
  both cases and refuses odd lengths and foreign characters.
\<close>

subsection \<open>SHA-256\<close>

text \<open>
  The constants are those of the standard by their definition: the first 32 bits of the fractional
  parts of the cube roots of the first 64 primes, and of the square roots of the first 8. The integer
  root is computed bit by bit, 37 bits being enough for roots below 32 with 32 bits of fraction.
\<close>

definition int_root :: "nat \<Rightarrow> int \<Rightarrow> int" where
  "int_root k n = fold (\<lambda>b r. if (r + b) ^ k \<le> n then r + b else r) (map (\<lambda>i. 2 ^ i) (rev [0..<37])) 0"

definition small_primes :: "int list" where
  "small_primes =
    [2, 3, 5, 7, 11, 13, 17, 19, 23, 29, 31, 37, 41, 43, 47, 53,
     59, 61, 67, 71, 73, 79, 83, 89, 97, 101, 103, 107, 109, 113, 127, 131,
     137, 139, 149, 151, 157, 163, 167, 173, 179, 181, 191, 193, 197, 199, 211, 223,
     227, 229, 233, 239, 241, 251, 257, 263, 269, 271, 277, 281, 283, 293, 307, 311]"

definition root_fraction :: "nat \<Rightarrow> int \<Rightarrow> 32 word" where
  "root_fraction k p = word_of_int (int_root k (p * 2 ^ (32 * k)))"

definition sha_K :: "32 word list" where
  "sha_K = map (root_fraction 3) small_primes"

definition sha_H0 :: "32 word list" where
  "sha_H0 = map (root_fraction 2) (take 8 small_primes)"

definition be32 :: "byte list \<Rightarrow> 32 word" where
  "be32 bs = fold (\<lambda>b w. push_bit 8 w OR ucast b) bs 0"

definition be_bytes :: "32 word \<Rightarrow> byte list" where
  "be_bytes w = [ucast (drop_bit 24 w), ucast (drop_bit 16 w), ucast (drop_bit 8 w), ucast w]"

definition sha_pad :: "byte list \<Rightarrow> byte list" where
  "sha_pad msg =
     (let n = length msg in
      msg @ [0x80] @ replicate ((119 - n mod 64) mod 64) 0
      @ map (\<lambda>i. word_of_nat (8 * n div 256 ^ i)) (rev [0..<8]))"

function chunks :: "nat \<Rightarrow> 'a list \<Rightarrow> 'a list list" where
  "chunks k xs = (if xs = [] \<or> k = 0 then [] else take k xs # chunks k (drop k xs))"
  by auto
termination by (relation "measure (\<lambda>(k, xs). length xs)") auto

declare chunks.simps [simp del]

definition sha_schedule :: "byte list \<Rightarrow> 32 word list" where
  "sha_schedule block =
     fold (\<lambda>t ws.
        let w2 = ws ! (t - 2); w15 = ws ! (t - 15);
            s0 = word_rotr 7 w15 XOR word_rotr 18 w15 XOR drop_bit 3 w15;
            s1 = word_rotr 17 w2 XOR word_rotr 19 w2 XOR drop_bit 10 w2
        in ws @ [ws ! (t - 16) + s0 + ws ! (t - 7) + s1]) [16..<64] (map be32 (chunks 4 block))"

fun sha_round :: "32 word \<times> 32 word \<Rightarrow> 32 word list \<Rightarrow> 32 word list" where
  "sha_round (k, w) [a, b, c, d, e, f, g, h] =
     (let t1 = h + (word_rotr 6 e XOR word_rotr 11 e XOR word_rotr 25 e) + ((e AND f) XOR (NOT e AND g)) + k + w;
          t2 = (word_rotr 2 a XOR word_rotr 13 a XOR word_rotr 22 a) + ((a AND b) XOR (a AND c) XOR (b AND c))
      in [t1 + t2, a, b, c, d + t1, e, f, g])"
| "sha_round _ st = st"

definition sha_compress :: "byte list \<Rightarrow> 32 word list \<Rightarrow> 32 word list" where
  "sha_compress block st = map2 (+) st (fold sha_round (zip sha_K (sha_schedule block)) st)"

definition sha256 :: "byte list \<Rightarrow> byte list" where
  "sha256 msg = concat (map be_bytes (fold sha_compress (chunks 64 (sha_pad msg)) sha_H0))"

definition hmac_sha256 :: "byte list \<Rightarrow> byte list \<Rightarrow> byte list" where
  "hmac_sha256 key msg =
     (let k0 = (if length key > 64 then sha256 key else key);
          k = k0 @ replicate (64 - length k0) 0
      in sha256 (map (\<lambda>b. b XOR 0x5c) k @ sha256 (map (\<lambda>b. b XOR 0x36) k @ msg)))"

subsection \<open>Hexadecimal strings\<close>

definition hex_digits :: string where "hex_digits = ''0123456789abcdef''"

definition hex_byte :: "byte \<Rightarrow> string" where
  "hex_byte b = [hex_digits ! (unat b div 16), hex_digits ! (unat b mod 16)]"

definition hex_encode :: "byte list \<Rightarrow> string" where
  "hex_encode bs = concat (map hex_byte bs)"

definition hex_val :: "char \<Rightarrow> nat option" where
  "hex_val c =
     (let n = of_char c in
      if 48 \<le> n \<and> n \<le> 57 then Some (n - 48)
      else if 97 \<le> n \<and> n \<le> 102 then Some (n - 87)
      else if 65 \<le> n \<and> n \<le> 70 then Some (n - 55) else None)"

fun hex_decode :: "string \<Rightarrow> byte list option" where
  "hex_decode [] = Some []"
| "hex_decode [_] = None"
| "hex_decode (c # d # s) =
     (case (hex_val c, hex_val d, hex_decode s) of
        (Some x, Some y, Some bs) \<Rightarrow> Some (word_of_nat (16 * x + y) # bs) | _ \<Rightarrow> None)"

definition bytes_of :: "string \<Rightarrow> byte list" where
  "bytes_of s = map (\<lambda>c. word_of_nat (of_char c)) s"

subsection \<open>Lemmas\<close>

lemma hex_val_digit: "n < 16 \<Longrightarrow> hex_val (hex_digits ! n) = Some n"
proof -
  have "\<forall>n \<in> set [0..<16]. hex_val (hex_digits ! n) = Some n" by code_simp
  then show "n < 16 \<Longrightarrow> hex_val (hex_digits ! n) = Some n" by simp
qed

lemma hex_decode_encode [simp]: "hex_decode (hex_encode bs) = Some bs"
proof (induction bs)
  case (Cons b bs)
  have "unat b < 256" using unsigned_less [of b, where ?'a = nat] by simp
  then have "hex_val (hex_digits ! (unat b div 16)) = Some (unat b div 16)"
      "hex_val (hex_digits ! (unat b mod 16)) = Some (unat b mod 16)"
    by (simp_all add: hex_val_digit)
  moreover have "16 * (unat b div 16) + unat b mod 16 = unat b" by simp
  ultimately show ?case using Cons by (simp add: hex_encode_def hex_byte_def)
qed (simp add: hex_encode_def)

lemma hex_digits_set: "n < 16 \<Longrightarrow> hex_digits ! n \<in> set hex_digits"
  by (rule nth_mem) (simp add: hex_digits_def)

lemma set_hex_encode: "set (hex_encode bs) \<subseteq> set hex_digits"
proof -
  have "set (hex_byte b) \<subseteq> set hex_digits" for b
    using unsigned_less [of b, where ?'a = nat] by (auto simp: hex_byte_def intro: hex_digits_set)
  then show ?thesis by (auto simp: hex_encode_def)
qed

lemma dot_hex_encode [simp]: "CHR ''.'' \<notin> set (hex_encode bs)"
  using set_hex_encode [of bs] by (auto simp: hex_digits_def)

lemma length_sha_round: "length st = 8 \<Longrightarrow> length (sha_round kw st) = 8"
  by (induction kw st rule: sha_round.induct) (simp_all add: Let_def)

lemma length_sha_compress: "length st = 8 \<Longrightarrow> length (sha_compress block st) = 8"
proof -
  assume st: "length st = 8"
  have "length (fold sha_round kws st') = 8" if "length st' = 8" for kws st'
    using that by (induction kws arbitrary: st') (auto simp: length_sha_round)
  with st show ?thesis by (simp add: sha_compress_def)
qed

lemma length_sha256 [simp]: "length (sha256 msg) = 32"
proof -
  have "length (fold sha_compress bs st) = 8" if "length st = 8" for bs st
    using that by (induction bs arbitrary: st) (auto simp: length_sha_compress)
  then have "length (fold sha_compress (chunks 64 (sha_pad msg)) sha_H0) = 8" by (simp add: sha_H0_def small_primes_def)
  moreover have "length (concat (map be_bytes ws)) = 4 * length ws" for ws
    by (induction ws) (auto simp: be_bytes_def)
  ultimately show ?thesis by (simp add: sha256_def)
qed

lemma length_hmac_sha256 [simp]: "length (hmac_sha256 key msg) = 32"
  by (simp add: hmac_sha256_def Let_def)

end
