(* ===== verification/Auth.thy ===== *)
theory Auth
  imports Sha256
begin

text \<open>
  Authentication (\<open>gateway/auth.go\<close>): the users table, login, signed tokens, the middleware in front
  of every route, and user administration. Tokens are signed with HMAC-SHA-256 as the code does;
  \<open>json.Marshal\<close> and \<open>json.Unmarshal\<close> of the claims are the parameters \<open>marshal\<close> and \<open>unmarshal\<close>.
  The database is \<open>None\<close> where the handler has none. Instants are nanoseconds.
\<close>

record UserClaims =
  uc_UserID :: string
  uc_Username :: string
  uc_Role :: string
  uc_Exp :: int

record user_row =
  u_id :: string
  u_username :: string
  u_password_hash :: string
  u_role :: string
  u_api_key :: string

record AuthHandler =
  ah_db :: "user_row list option"
  jwtSecret :: "byte list"

definition unix :: "instant \<Rightarrow> int" where
  "unix t = t div second"

subsection \<open>Hashes and keys\<close>

definition hashPassword :: "string \<Rightarrow> string" where
  "hashPassword password = hex_encode (sha256 (bytes_of (''voiceagent:'' @ password)))"

definition generateAPIKey :: "nat \<Rightarrow> string \<Rightarrow> string" where
  "generateAPIKey nano username = ''va_'' @ hex_encode (take 16 (sha256 (bytes_of (username @ '':'' @ dec nano))))"

definition sign :: "byte list \<Rightarrow> byte list \<Rightarrow> string" where
  "sign secret data = hex_encode (hmac_sha256 secret data)"

text \<open>
  An insertion fails, and changes nothing, when the user name or the API key is taken; the caller
  does not look at the error.
\<close>

definition insert_user :: "user_row \<Rightarrow> user_row list \<Rightarrow> user_row list" where
  "insert_user u t =
     (if u_username u \<in> u_username ` set t \<or> u_api_key u \<in> u_api_key ` set t then t else t @ [u])"

definition seedDefaultUser :: "string \<Rightarrow> nat \<Rightarrow> user_row list \<Rightarrow> user_row list" where
  "seedDefaultUser uuid nano t =
     (if length t = 0
      then insert_user \<lparr>u_id = uuid, u_username = ''admin'', u_password_hash = hashPassword ''admin'', u_role = ''admin'',
             u_api_key = generateAPIKey nano ''admin''\<rparr> t
      else t)"

definition NewAuthHandler :: "string \<Rightarrow> nat \<Rightarrow> user_row list option \<Rightarrow> string \<Rightarrow> AuthHandler" where
  "NewAuthHandler uuid nano database secret =
     \<lparr>ah_db = map_option (seedDefaultUser uuid nano) database,
      jwtSecret = bytes_of (if secret = '''' then ''voiceagent-default-secret-change-in-production'' else secret)\<rparr>"

subsection \<open>Tokens\<close>

definition generateToken :: "(UserClaims \<Rightarrow> byte list) \<Rightarrow> AuthHandler \<Rightarrow> UserClaims \<Rightarrow> string" where
  "generateToken marshal ah claims =
     (let payload = marshal claims in hex_encode payload @ ''.'' @ sign (jwtSecret ah) payload)"

definition validateToken :: "(byte list \<Rightarrow> UserClaims option) \<Rightarrow> instant \<Rightarrow> AuthHandler \<Rightarrow> string \<Rightarrow> UserClaims option" where
  "validateToken unmarshal now ah token =
     (case split_n2 token ''.'' of
        [p0, p1] \<Rightarrow>
          (case hex_decode p0 of
             None \<Rightarrow> None
           | Some payload \<Rightarrow>
               if p1 \<noteq> sign (jwtSecret ah) payload then None
               else case unmarshal payload of
                      None \<Rightarrow> None
                    | Some claims \<Rightarrow> if unix now > uc_Exp claims then None else Some claims)
      | _ \<Rightarrow> None)"

subsection \<open>Login\<close>

definition user_by_name :: "string \<Rightarrow> user_row list \<Rightarrow> user_row option" where
  "user_by_name name t = find (\<lambda>u. u_username u = name) t"

definition handleLogin ::
  "(UserClaims \<Rightarrow> byte list) \<Rightarrow> instant \<Rightarrow> bool \<Rightarrow> string \<Rightarrow> string \<Rightarrow> AuthHandler \<Rightarrow> json_obj response" where
  "handleLogin marshal now isPost username password ah =
     (if \<not> isPost then HttpError 405 ''{\"error\":\"method not allowed\"}''
      else if username = '''' \<or> password = '''' then WriteJSON 400 [(''error'', ''username and password required'')]
      else
        let cred = (case ah_db ah of
              Some t \<Rightarrow> map_option (\<lambda>u. (u_id u, u_password_hash u, u_role u)) (user_by_name username t)
            | None \<Rightarrow> if username = ''admin'' \<and> password = ''admin''
                     then Some (''default'', hashPassword ''admin'', ''admin'') else None)
        in case cred of
             None \<Rightarrow> WriteJSON 401 [(''error'', ''invalid credentials'')]
           | Some (userID, storedHash, role) \<Rightarrow>
               if hashPassword password \<noteq> storedHash then WriteJSON 401 [(''error'', ''invalid credentials'')]
               else WriteJSON 200
                 [(''token'', generateToken marshal ah
                     \<lparr>uc_UserID = userID, uc_Username = username, uc_Role = role, uc_Exp = unix (now + 24 * 3600 * second)\<rparr>),
                  (''username'', username), (''role'', role)])"

subsection \<open>Middleware\<close>

record http_request =
  rq_path :: string
  rq_api_key :: string
  rq_authorization :: string
  rq_query_token :: string

datatype pass = Serve "UserClaims option" | Refuse "json_obj response"

definition public_path :: "string \<Rightarrow> bool" where
  "public_path path \<longleftrightarrow>
     path = ''/healthz'' \<or> path = ''/metrics'' \<or> path = ''/api/auth/login'' \<or> path = ''/ws'' \<or> path = ''/siprec''
     \<or> path = ''/siprec/events'' \<or> has_prefix path ''/_next'' \<or> path = ''/favicon.ico''"

definition bearer_token :: "http_request \<Rightarrow> string" where
  "bearer_token r =
     (if rq_authorization r \<noteq> '''' then trim_prefix (rq_authorization r) ''Bearer '' else rq_query_token r)"

definition user_by_key :: "string \<Rightarrow> user_row list option \<Rightarrow> user_row option" where
  "user_by_key key t = (if key = '''' then None else case t of None \<Rightarrow> None | Some t \<Rightarrow> find (\<lambda>u. u_api_key u = key) t)"

text \<open>\<open>authEnabled\<close> is the environment variable \<open>AUTH_ENABLED\<close>.\<close>

definition Middleware ::
  "(byte list \<Rightarrow> UserClaims option) \<Rightarrow> string \<Rightarrow> instant \<Rightarrow> AuthHandler \<Rightarrow> http_request \<Rightarrow> pass" where
  "Middleware unmarshal authEnabled now ah r =
     (if public_path (rq_path r) then Serve None
      else case user_by_key (rq_api_key r) (ah_db ah) of
        Some u \<Rightarrow> Serve (Some \<lparr>uc_UserID = '''', uc_Username = u_username u, uc_Role = u_role u, uc_Exp = 0\<rparr>)
      | None \<Rightarrow>
          let token = bearer_token r in
          if token = '''' then
            (if authEnabled \<noteq> ''true'' then Serve None
             else Refuse (WriteJSON 401 [(''error'', ''authentication required'')]))
          else case validateToken unmarshal now ah token of
                 None \<Rightarrow> Refuse (WriteJSON 401 [(''error'', ''invalid or expired token'')])
               | Some claims \<Rightarrow> Serve (Some claims))"

subsection \<open>Handlers behind the middleware\<close>

definition handleMe :: "UserClaims option \<Rightarrow> (json_obj + UserClaims) response" where
  "handleMe claims =
     (case claims of None \<Rightarrow> WriteJSON 401 (Inl [(''error'', ''not authenticated'')]) | Some c \<Rightarrow> WriteJSON 200 (Inr c))"

datatype users_request = ListUsers | CreateUser string string string | OtherMethod

definition handleUsers ::
  "string \<Rightarrow> nat \<Rightarrow> UserClaims option \<Rightarrow> users_request \<Rightarrow> AuthHandler \<Rightarrow> AuthHandler \<times> json_obj list response" where
  "handleUsers uuid nano claims req ah =
     (if claims = None \<or> uc_Role (the claims) \<noteq> ''admin'' then (ah, WriteJSON 403 [[(''error'', ''admin only'')]])
      else case req of
        ListUsers \<Rightarrow>
          (case ah_db ah of
             None \<Rightarrow> (ah, WriteJSON 200 [[(''username'', ''admin''), (''role'', ''admin'')]])
           | Some t \<Rightarrow> (ah, WriteJSON 200 (map (\<lambda>u. [(''id'', u_id u), (''username'', u_username u), (''role'', u_role u)]) t)))
      | CreateUser username password role0 \<Rightarrow>
          let role = (if role0 = '''' then ''agent'' else role0) in
          (case ah_db ah of
             Some t \<Rightarrow>
               let apiKey = generateAPIKey nano username in
               (ah\<lparr>ah_db := Some (insert_user \<lparr>u_id = uuid, u_username = username, u_password_hash = hashPassword password,
                     u_role = role, u_api_key = apiKey\<rparr> t)\<rparr>,
                WriteJSON 201 [[(''status'', ''created''), (''api_key'', apiKey)]])
           | None \<Rightarrow> (ah, WriteJSON 200 [[(''status'', ''created (no db)'')]]))
      | OtherMethod \<Rightarrow> (ah, HttpError 405 ''{\"error\":\"method not allowed\"}''))"

definition handleAPIKey :: "UserClaims option \<Rightarrow> AuthHandler \<Rightarrow> json_obj response" where
  "handleAPIKey claims ah =
     (case claims of
        None \<Rightarrow> WriteJSON 401 [(''error'', ''not authenticated'')]
      | Some c \<Rightarrow>
          (case ah_db ah of
             None \<Rightarrow> WriteJSON 200 [(''api_key'', ''no-db-mode'')]
           | Some t \<Rightarrow> WriteJSON 200 [(''api_key'', case user_by_name (uc_Username c) t of None \<Rightarrow> '''' | Some u \<Rightarrow> u_api_key u)]))"

subsection \<open>The user behind a token, as the agent sessions read it\<close>

text \<open>\<open>getUserIDFromRequest\<close> of \<open>gateway/agent_session.go\<close>: the payload is decoded, the signature is not looked at.\<close>

definition getUserIDFromRequest :: "(byte list \<Rightarrow> string option) \<Rightarrow> http_request \<Rightarrow> string" where
  "getUserIDFromRequest unmarshalID r =
     (let token = bearer_token r in
      if token = '''' then ''''
      else case hex_decode (hd (split_n2 token ''.'')) of
             None \<Rightarrow> ''''
           | Some decoded \<Rightarrow> (case unmarshalID decoded of None \<Rightarrow> '''' | Some userID \<Rightarrow> userID))"

subsection \<open>Lemmas\<close>

lemma split_dot: "CHR ''.'' \<notin> set h \<Longrightarrow> split_n2 (h @ ''.'' @ s) ''.'' = [h, s]"
proof -
  assume "CHR ''.'' \<notin> set h"
  then have "str_index (h @ ''.'' @ s) ''.'' = Some (length h)"
    by (induction h) (auto simp: has_prefix_iff)
  then show ?thesis by (simp add: split_n2_def)
qed

lemma split_dot_iff: "split_n2 t ''.'' = [h, s] \<longleftrightarrow> t = h @ ''.'' @ s \<and> CHR ''.'' \<notin> set h"
proof
  assume "split_n2 t ''.'' = [h, s]"
  then obtain i where i: "str_index t ''.'' = Some i" "h = take i t" "s = drop (i + 1) t"
    by (auto simp: split_n2_def split: option.splits)
  have "str_index t ''.'' = Some i \<Longrightarrow> i < length t \<and> t ! i = CHR ''.'' \<and> CHR ''.'' \<notin> set (take i t)" for i
    by (induction t arbitrary: i) (auto simp: has_prefix_iff split: if_splits)
  with i(1) have "i < length t" "t ! i = CHR ''.''" "CHR ''.'' \<notin> set (take i t)" by auto
  then show "t = h @ ''.'' @ s \<and> CHR ''.'' \<notin> set h" using i id_take_nth_drop [of i t] by simp
qed (use split_dot in auto)

lemma validateToken_Some_iff:
  "validateToken unmarshal now ah token = Some c \<longleftrightarrow>
     (\<exists>h payload. token = h @ ''.'' @ sign (jwtSecret ah) payload \<and> CHR ''.'' \<notin> set h \<and> hex_decode h = Some payload
        \<and> unmarshal payload = Some c \<and> unix now \<le> uc_Exp c)"
proof
  assume v: "validateToken unmarshal now ah token = Some c"
  then obtain p0 p1 where p: "split_n2 token ''.'' = [p0, p1]"
    by (auto simp: validateToken_def split: list.splits)
  with v show "\<exists>h payload. token = h @ ''.'' @ sign (jwtSecret ah) payload \<and> CHR ''.'' \<notin> set h
      \<and> hex_decode h = Some payload \<and> unmarshal payload = Some c \<and> unix now \<le> uc_Exp c"
    using split_dot_iff [of token p0 p1] by (auto simp: validateToken_def split: option.splits if_splits)
qed (auto simp: validateToken_def split_dot [simplified])

lemma validate_generated:
  "unmarshal (marshal c) = Some c \<Longrightarrow>
     validateToken unmarshal now ah (generateToken marshal ah c) = (if unix now \<le> uc_Exp c then Some c else None)"
  by (auto simp: validateToken_def generateToken_def Let_def split_dot [simplified])

subsection \<open>Properties\<close>

text \<open>
  C5: with authentication enabled, a request to a protected route reaches its handler only with the
  claims of a user whose API key it carries, or with claims taken from a payload that was signed with
  the server's secret and has not expired.
\<close>

theorem Middleware_protects:
  assumes "Middleware unmarshal ''true'' now ah r = Serve cl" "\<not> public_path (rq_path r)"
  shows "(\<exists>t u. ah_db ah = Some t \<and> u \<in> set t \<and> u_api_key u = rq_api_key r \<and>
            cl = Some \<lparr>uc_UserID = '''', uc_Username = u_username u, uc_Role = u_role u, uc_Exp = 0\<rparr>) \<or>
         (\<exists>c h payload. cl = Some c \<and> bearer_token r = h @ ''.'' @ sign (jwtSecret ah) payload \<and>
            hex_decode h = Some payload \<and> unmarshal payload = Some c \<and> unix now \<le> uc_Exp c)"
proof (cases "user_by_key (rq_api_key r) (ah_db ah)")
  case (Some u)
  then obtain t where "ah_db ah = Some t" "u \<in> set t" "u_api_key u = rq_api_key r"
    by (auto simp: user_by_key_def find_Some_iff split: option.splits if_splits)
  then show ?thesis using assms Some by (auto simp: Middleware_def)
next
  case None
  then have "validateToken unmarshal now ah (bearer_token r) = cl \<and> cl \<noteq> None"
    using assms by (auto simp: Middleware_def Let_def split: if_splits option.splits) metis
  then obtain c where "cl = Some c" "validateToken unmarshal now ah (bearer_token r) = Some c" by auto
  then show ?thesis using validateToken_Some_iff by blast
qed

definition example_auth :: AuthHandler where
  "example_auth = \<lparr>ah_db = Some [\<lparr>u_id = ''1'', u_username = ''ann'', u_password_hash = hashPassword ''pw'', u_role = ''agent'',
     u_api_key = ''va_1''\<rparr>], jwtSecret = bytes_of ''s''\<rparr>"

definition example_request :: http_request where
  "example_request = \<lparr>rq_path = ''/api/queues'', rq_api_key = ''va_1'', rq_authorization = '''', rq_query_token = ''''\<rparr>"

theorem Middleware_protects_witness:
  "\<exists>t u. ah_db example_auth = Some t \<and> u \<in> set t \<and> u_api_key u = ''va_1'' \<and> u_role u = ''agent''"
proof -
  have "Middleware (\<lambda>_. None) ''true'' 0 example_auth example_request
      = Serve (Some \<lparr>uc_UserID = '''', uc_Username = ''ann'', uc_Role = ''agent'', uc_Exp = 0\<rparr>)"
      "\<not> public_path (rq_path example_request)"
    by (simp_all add: Middleware_def public_path_def example_request_def example_auth_def user_by_key_def has_prefix_iff)
  from Middleware_protects [OF this] show ?thesis by (auto simp: example_request_def)
qed

definition claims_of :: "string \<Rightarrow> instant \<Rightarrow> user_row \<Rightarrow> UserClaims" where
  "claims_of name now u = \<lparr>uc_UserID = u_id u, uc_Username = name, uc_Role = u_role u, uc_Exp = unix now + 86400\<rparr>"

text \<open>
  C16: a login succeeds exactly for a user of the table whose stored hash is the hash of the password,
  and the token it issues is accepted, with the user's identity and role, for 24 hours and refused
  afterwards, provided the JSON codec reads back the claims it wrote.
\<close>

theorem login_token:
  fixes marshal :: "UserClaims \<Rightarrow> byte list" and now :: instant and pw :: string
  assumes "ah_db ah = Some t" "name \<noteq> ''''" "pw \<noteq> ''''"
    and "\<forall>u. user_by_name name t = Some u \<longrightarrow> unmarshal (marshal (claims_of name now u)) = Some (claims_of name now u)"
  shows "(case user_by_name name t of
            Some u \<Rightarrow>
              if u_password_hash u = hashPassword pw
              then \<exists>tok. handleLogin marshal now True name pw ah
                       = WriteJSON 200 [(''token'', tok), (''username'', name), (''role'', u_role u)] \<and>
                     (\<forall>later. validateToken unmarshal later ah tok
                        = (if unix later \<le> unix now + 86400 then Some (claims_of name now u) else None))
              else handleLogin marshal now True name pw ah = WriteJSON 401 [(''error'', ''invalid credentials'')]
          | None \<Rightarrow> handleLogin marshal now True name pw ah = WriteJSON 401 [(''error'', ''invalid credentials'')])"
proof (cases "user_by_name name t")
  case (Some u)
  have "unix (now + 24 * 3600 * second) = unix now + 86400" by (simp add: unix_def second_def)
  then have "handleLogin marshal now True name pw ah =
      (if u_password_hash u = hashPassword pw
       then WriteJSON 200 [(''token'', generateToken marshal ah (claims_of name now u)), (''username'', name), (''role'', u_role u)]
       else WriteJSON 401 [(''error'', ''invalid credentials'')])"
    using assms(1-3) Some by (simp add: handleLogin_def claims_of_def)
  moreover have "uc_Exp (claims_of name now u) = unix now + 86400" by (simp add: claims_of_def)
  ultimately show ?thesis
    using Some assms(4) validate_generated [of unmarshal marshal "claims_of name now u" _ ah] by auto
qed (use assms(1-3) in \<open>simp add: handleLogin_def\<close>)

theorem login_token_witness:
  "\<exists>tok. handleLogin (\<lambda>_. []) 0 True ''ann'' ''pw'' example_auth
       = WriteJSON 200 [(''token'', tok), (''username'', ''ann''), (''role'', ''agent'')]"
proof -
  let ?u = "\<lparr>u_id = ''1'', u_username = ''ann'', u_password_hash = hashPassword ''pw'', u_role = ''agent'', u_api_key = ''va_1''\<rparr>"
  have "ah_db example_auth = Some [?u]" by (simp add: example_auth_def)
  then show ?thesis
    using login_token [of example_auth "[?u]" "''ann''" "''pw''" "\<lambda>_. Some (claims_of ''ann'' 0 ?u)" "\<lambda>_. []" 0]
    by (auto simp: user_by_name_def)
qed

text \<open>
  only administrators change the users. Behind the middleware, whether or not authentication is
  enabled, a request changes the users table only if it carries the API key of a user with the role
  admin, or a valid token whose claims have that role.
\<close>

theorem users_admin_only:
  assumes "Middleware unmarshal enabled now ah r = Serve cl" "fst (handleUsers uuid nano cl req ah) \<noteq> ah"
  shows "(\<exists>u. user_by_key (rq_api_key r) (ah_db ah) = Some u \<and> u_role u = ''admin'') \<or>
         (\<exists>c. validateToken unmarshal now ah (bearer_token r) = Some c \<and> uc_Role c = ''admin'')"
proof -
  obtain c where c: "cl = Some c" "uc_Role c = ''admin''"
    using assms(2) by (cases cl) (auto simp: handleUsers_def split: if_splits)
  then show ?thesis using assms(1)
    by (auto simp: Middleware_def Let_def split: if_splits option.splits)
qed

definition admin_auth :: AuthHandler where
  "admin_auth = \<lparr>ah_db = Some [\<lparr>u_id = ''1'', u_username = ''root'', u_password_hash = '''', u_role = ''admin'',
     u_api_key = ''k''\<rparr>], jwtSecret = []\<rparr>"

theorem users_admin_only_witness:
  "(\<exists>u. user_by_key ''k'' (ah_db admin_auth) = Some u \<and> u_role u = ''admin'') \<or>
   (\<exists>c. validateToken (\<lambda>_. None) 0 admin_auth '''' = Some c \<and> uc_Role c = ''admin'')"
proof -
  let ?r = "\<lparr>rq_path = ''/api/auth/users'', rq_api_key = ''k'', rq_authorization = '''', rq_query_token = ''''\<rparr>"
  let ?cl = "Some \<lparr>uc_UserID = '''', uc_Username = ''root'', uc_Role = ''admin'', uc_Exp = 0\<rparr>"
  have 1: "Middleware (\<lambda>_. None) '''' 0 admin_auth ?r = Serve ?cl"
    by (simp add: Middleware_def public_path_def admin_auth_def user_by_key_def has_prefix_iff)
  have 2: "fst (handleUsers ''2'' 7 ?cl (CreateUser ''bob'' ''pw'' '''') admin_auth) \<noteq> admin_auth"
    by (simp add: handleUsers_def admin_auth_def insert_user_def generateAPIKey_def Let_def)
  from users_admin_only [OF 1 2] show ?thesis by (simp add: bearer_token_def)
qed

text \<open>
  the agent sessions trust unsigned tokens. The user that the agent routes see does not depend on
  the signature: whoever writes a payload chooses the user, whatever follows the dot.
\<close>

theorem agent_identity_unsigned:
  assumes "unmarshalID payload = Some victim" "rq_authorization r = ''Bearer '' @ hex_encode payload @ ''.'' @ forged"
  shows "getUserIDFromRequest unmarshalID r = victim"
proof -
  have "bearer_token r = hex_encode payload @ ''.'' @ forged"
    using assms(2) by (simp add: bearer_token_def trim_prefix_append [of "''Bearer ''", simplified])
  then show ?thesis using assms(1) split_dot [of "hex_encode payload" forged] by (simp add: getUserIDFromRequest_def)
qed

theorem agent_identity_unsigned_witness:
  "getUserIDFromRequest (\<lambda>_. Some ''admin'') \<lparr>rq_path = ''/api/agent/me'', rq_api_key = '''',
     rq_authorization = ''Bearer '' @ hex_encode [1] @ ''.'' @ ''no signature'', rq_query_token = ''''\<rparr> = ''admin''"
  by (rule agent_identity_unsigned) simp_all

end
