(* ===== verification/Agent_Session.thy ===== *)
theory Agent_Session
  imports Auth Fanout
begin

text \<open>
  Sessions of logged-in agents (\<open>gateway/agent_session.go\<close>): the agent profile behind a user, the
  online sessions with their event channels, and the rings delivered to them. The tables are lists of
  rows. As in the call router, \<open>arrays\<close> tells whether the database driver scans Postgres arrays into
  \<open>[]string\<close>; if not, a scan stops at the first array and leaves the later fields at zero.
\<close>

record agent_rec =
  ar_id :: string
  ar_user_id :: "string option"
  ar_name :: string
  ar_email :: "string option"
  ar_department :: "string option"
  ar_expertise :: "string list option"
  ar_status :: "string option"
  ar_extension :: "string option"
  ar_languages :: "string list option"
  ar_priority :: "int option"
  ar_max_calls :: "int option"
  ar_current_calls :: "int option"
  ar_customer_tiers :: "string list option"

record agent_db =
  adb_agents :: "agent_rec list"
  adb_queues :: "(string \<times> string) list"
  adb_agent_queues :: "(string \<times> string) list"

record AgentProfile =
  ap_ID :: string
  ap_UserID :: string
  ap_Name :: string
  ap_Email :: string
  ap_Extension :: string
  ap_Department :: string
  ap_Expertise :: "string list"
  ap_Languages :: "string list"
  ap_Priority :: int
  ap_MaxCalls :: int
  ap_CurrentCalls :: int
  ap_Status :: string
  ap_CustomerTiers :: "string list"
  ap_Queues :: "string list"

record AgentOnlineSession =
  os_AgentID :: string
  os_UserID :: string
  os_Status :: string
  os_SSEChans :: "string chan list"
  os_LoginTime :: instant

record AgentSessionManager =
  asm_db :: "agent_db option"
  asm_sessions :: "string \<rightharpoonup> AgentOnlineSession"

definition NewAgentSessionManager :: "agent_db option \<Rightarrow> AgentSessionManager" where
  "NewAgentSessionManager d = \<lparr>asm_db = d, asm_sessions = Map.empty\<rparr>"

definition or_else :: "'a option \<Rightarrow> 'a \<Rightarrow> 'a" where
  "or_else x y = (case x of None \<Rightarrow> y | Some v \<Rightarrow> v)"

subsection \<open>Profiles\<close>

definition zero_profile :: AgentProfile where
  "zero_profile = \<lparr>ap_ID = '''', ap_UserID = '''', ap_Name = '''', ap_Email = '''', ap_Extension = '''', ap_Department = '''',
     ap_Expertise = [], ap_Languages = [], ap_Priority = 0, ap_MaxCalls = 0, ap_CurrentCalls = 0, ap_Status = '''',
     ap_CustomerTiers = [], ap_Queues = []\<rparr>"

definition scan_profile :: "bool \<Rightarrow> agent_rec \<Rightarrow> AgentProfile \<Rightarrow> AgentProfile" where
  "scan_profile arrays a p =
     (let p1 = p\<lparr>ap_ID := ar_id a, ap_UserID := or_else (ar_user_id a) '''', ap_Name := ar_name a,
                 ap_Email := or_else (ar_email a) '''', ap_Department := or_else (ar_department a) ''Support''\<rparr>
      in if arrays then p1\<lparr>ap_Expertise := or_else (ar_expertise a) [], ap_Status := or_else (ar_status a) ''Available''\<rparr>
         else p1)"

definition scan_extended :: "bool \<Rightarrow> agent_rec \<Rightarrow> AgentProfile \<Rightarrow> AgentProfile" where
  "scan_extended arrays a p =
     (let p1 = p\<lparr>ap_Extension := or_else (ar_extension a) ''''\<rparr>
      in if arrays then p1\<lparr>ap_Languages := or_else (ar_languages a) [''English''], ap_Priority := or_else (ar_priority a) 1,
                          ap_MaxCalls := or_else (ar_max_calls a) 3, ap_CurrentCalls := or_else (ar_current_calls a) 0,
                          ap_CustomerTiers := or_else (ar_customer_tiers a) [''standard'']\<rparr>
         else p1)"

text \<open>
  The error of the first query is overwritten by that of the last one, so a user without an agent row
  gets the zero profile, not an error.
\<close>

definition getAgentByUserID :: "bool \<Rightarrow> agent_db option \<Rightarrow> string \<Rightarrow> AgentProfile option" where
  "getAgentByUserID arrays db0 userID =
     (case db0 of None \<Rightarrow> None
      | Some t \<Rightarrow>
          if userID = '''' then None
          else
            let p1 = (case find (\<lambda>a. ar_user_id a = Some userID) (adb_agents t) of
                        None \<Rightarrow> zero_profile | Some a \<Rightarrow> scan_profile arrays a zero_profile);
                p2 = (case find (\<lambda>a. ar_id a = ap_ID p1) (adb_agents t) of
                        None \<Rightarrow> p1 | Some a \<Rightarrow> scan_extended arrays a p1)
            in Some (p2\<lparr>ap_Queues := map snd (filter (\<lambda>q. (ap_ID p2, fst q) \<in> set (adb_agent_queues t)) (adb_queues t))\<rparr>))"

subsection \<open>Handlers\<close>

definition set_status :: "string \<Rightarrow> string \<Rightarrow> agent_db \<Rightarrow> agent_db" where
  "set_status stt agentID t =
     t\<lparr>adb_agents := map (\<lambda>a. if ar_id a = agentID then a\<lparr>ar_status := Some stt\<rparr> else a) (adb_agents t)\<rparr>"

definition handleAgentMe ::
  "bool \<Rightarrow> instant \<Rightarrow> string \<Rightarrow> AgentSessionManager \<Rightarrow> AgentSessionManager \<times> AgentProfile option response" where
  "handleAgentMe arrays now userID m =
     (if userID = '''' then (m, HttpError 401 ''not authenticated'')
      else case getAgentByUserID arrays (asm_db m) userID of
        None \<Rightarrow> (m, WriteJSON 200 None)
      | Some p \<Rightarrow>
          if asm_sessions m (ap_ID p) \<noteq> None then (m, WriteJSON 200 (Some p))
          else (m\<lparr>asm_sessions := (asm_sessions m)(ap_ID p \<mapsto>
                    \<lparr>os_AgentID = ap_ID p, os_UserID = userID, os_Status = ''Available'', os_SSEChans = [], os_LoginTime = now\<rparr>),
                  asm_db := map_option (set_status ''Available'' (ap_ID p)) (asm_db m)\<rparr>,
                WriteJSON 200 (Some p)))"

definition validStatuses :: "string list" where
  "validStatuses = [''Available'', ''Busy'', ''On Break'', ''Wrap-up'', ''Offline'']"

definition handleUpdateStatus ::
  "bool \<Rightarrow> bool \<Rightarrow> string \<Rightarrow> string \<Rightarrow> AgentSessionManager \<Rightarrow> AgentSessionManager \<times> json_obj response" where
  "handleUpdateStatus arrays isPost userID stt m =
     (if \<not> isPost then (m, HttpError 405 ''POST required'')
      else case getAgentByUserID arrays (asm_db m) userID of
        None \<Rightarrow> (m, HttpError 404 ''no agent profile'')
      | Some p \<Rightarrow>
          if stt \<notin> set validStatuses then (m, HttpError 400 ''invalid status'')
          else (m\<lparr>asm_db := map_option (set_status stt (ap_ID p)) (asm_db m),
                  asm_sessions := (asm_sessions m)(ap_ID p := map_option (\<lambda>s. s\<lparr>os_Status := stt\<rparr>) (asm_sessions m (ap_ID p)))\<rparr>,
                WriteJSON 200 [(''status'', stt)]))"

definition handleMyQueues :: "bool \<Rightarrow> string \<Rightarrow> AgentSessionManager \<Rightarrow> string list response" where
  "handleMyQueues arrays userID m =
     (case getAgentByUserID arrays (asm_db m) userID of None \<Rightarrow> WriteJSON 200 [] | Some p \<Rightarrow> WriteJSON 200 (ap_Queues p))"

text \<open>\<open>handleAgentSSE\<close> up to its event loop: the channel \<open>ch\<close> it made is added to the agent's session.\<close>

definition handleAgentSSE ::
  "bool \<Rightarrow> bool \<Rightarrow> string \<Rightarrow> nat \<Rightarrow> AgentSessionManager \<Rightarrow> AgentSessionManager \<times> (nat \<times> string) option" where
  "handleAgentSSE arrays flusher userID ch m =
     (case getAgentByUserID arrays (asm_db m) userID of
        None \<Rightarrow> (m, Some (404, ''no agent profile''))
      | Some p \<Rightarrow>
          if \<not> flusher then (m, Some (500, ''streaming not supported''))
          else (m\<lparr>asm_sessions := (asm_sessions m)(ap_ID p :=
                   map_option (\<lambda>s. s\<lparr>os_SSEChans := os_SSEChans s @ [(ch, [])]\<rparr>) (asm_sessions m (ap_ID p)))\<rparr>, None))"

text \<open>
  A turn of its event loop: the next message of the channel is written to the agent. When the connection
  ends the loop returns and leaves the channel where it is.
\<close>

definition agent_sse_turn :: "string \<Rightarrow> nat \<Rightarrow> AgentSessionManager \<Rightarrow> AgentSessionManager \<times> string option" where
  "agent_sse_turn agentID ch m =
     (case asm_sessions m agentID of
        None \<Rightarrow> (m, None)
      | Some sess \<Rightarrow>
          (case map_of (os_SSEChans sess) ch of
             Some (msg # msgs) \<Rightarrow>
               (m\<lparr>asm_sessions := (asm_sessions m)(agentID \<mapsto>
                  sess\<lparr>os_SSEChans := map (\<lambda>(c, q). (c, if c = ch then msgs else q)) (os_SSEChans sess)\<rparr>)\<rparr>,
                Some (''data: '' @ msg @ [CHR 0x0A, CHR 0x0A]))
           | _ \<Rightarrow> (m, None)))"

text \<open>The event is the JSON text \<open>evt\<close> of the ring.\<close>

definition RingAgent :: "string \<Rightarrow> string \<Rightarrow> AgentSessionManager \<Rightarrow> AgentSessionManager" where
  "RingAgent agentID evt m =
     (case asm_sessions m agentID of None \<Rightarrow> m
      | Some sess \<Rightarrow> m\<lparr>asm_sessions := (asm_sessions m)(agentID \<mapsto> sess\<lparr>os_SSEChans := map (send_nb 10 evt) (os_SSEChans sess)\<rparr>)\<rparr>)"

definition handleOnlineAgents :: "string list \<Rightarrow> AgentSessionManager \<Rightarrow> (string \<times> string \<times> instant) list response" where
  "handleOnlineAgents ks m =
     WriteJSON 200 (map (\<lambda>k. case asm_sessions m k of None \<Rightarrow> (k, '''', 0) | Some s \<Rightarrow> (k, os_Status s, os_LoginTime s)) ks)"

definition handleAssignQueue ::
  "bool \<Rightarrow> string option \<Rightarrow> string \<Rightarrow> string \<Rightarrow> AgentSessionManager \<Rightarrow> AgentSessionManager \<times> json_obj response" where
  "handleAssignQueue isPost execErr agentID queue m =
     (if \<not> isPost then (m, HttpError 405 ''POST required'')
      else case asm_db m of
        None \<Rightarrow> (m, HttpError 503 ''database required'')
      | Some t \<Rightarrow>
          (case execErr of
             Some err \<Rightarrow> (m, HttpError 500 err)
           | None \<Rightarrow>
               let new = filter (\<lambda>aq. aq \<notin> set (adb_agent_queues t)) (map (\<lambda>q. (agentID, fst q)) (filter (\<lambda>q. snd q = queue) (adb_queues t)))
               in (m\<lparr>asm_db := Some (t\<lparr>adb_agent_queues := adb_agent_queues t @ new\<rparr>)\<rparr>, WriteJSON 200 [(''status'', ''assigned'')])))"

definition handleLinkUser ::
  "bool \<Rightarrow> string option \<Rightarrow> string \<Rightarrow> string \<Rightarrow> AgentSessionManager \<Rightarrow> AgentSessionManager \<times> json_obj response" where
  "handleLinkUser isPost execErr agentID userID m =
     (if \<not> isPost then (m, HttpError 405 ''POST required'')
      else case asm_db m of
        None \<Rightarrow> (m, HttpError 503 ''database required'')
      | Some t \<Rightarrow>
          (case execErr of
             Some err \<Rightarrow> (m, HttpError 500 err)
           | None \<Rightarrow>
               (m\<lparr>asm_db := Some (t\<lparr>adb_agents := map (\<lambda>a. if ar_id a = agentID then a\<lparr>ar_user_id := Some userID\<rparr> else a) (adb_agents t)\<rparr>)\<rparr>,
                WriteJSON 200 [(''status'', ''linked'')])))"

subsection \<open>Lemmas\<close>

lemma getAgentByUserID_linked:
  assumes "find (\<lambda>a. ar_user_id a = Some userID) (adb_agents t) = Some a" "userID \<noteq> ''''"
  shows "\<exists>p. getAgentByUserID arrays (Some t) userID = Some p \<and> ap_ID p = ar_id a"
  using assms
  by (auto simp: getAgentByUserID_def scan_profile_def scan_extended_def Let_def split: option.splits)

lemma find_link:
  assumes "distinct (map ar_id as)" "\<forall>a \<in> set as. ar_user_id a \<noteq> Some u" "a \<in> set as"
  shows "find (\<lambda>b. ar_user_id b = Some u) (map (\<lambda>b. if ar_id b = ar_id a then b\<lparr>ar_user_id := Some u\<rparr> else b) as)
       = Some (a\<lparr>ar_user_id := Some u\<rparr>)"
  using assms by (induction as) (auto simp: image_iff)

subsection \<open>Properties\<close>

text \<open>
  from link to ring. After an agent row that no one else holds is linked to a user, that user's
  login opens a session under the agent's identifier, and a ring to this identifier reaches every
  event stream the user then opens, as long as fewer than ten events are pending.
\<close>

theorem link_login_ring:
  fixes arrays :: bool and now :: instant and ch :: nat
  assumes "asm_db m = Some t" "distinct (map ar_id (adb_agents t))" "a \<in> set (adb_agents t)"
    and "\<forall>b \<in> set (adb_agents t). ar_user_id b \<noteq> Some u" "u \<noteq> ''''" "asm_sessions m (ar_id a) = None"
  defines "m1 \<equiv> fst (handleLinkUser True None (ar_id a) u m)"
  defines "m2 \<equiv> fst (handleAgentMe arrays now u m1)"
  defines "m3 \<equiv> fst (handleAgentSSE arrays True u ch m2)"
  shows "map_option os_SSEChans (asm_sessions (RingAgent (ar_id a) evt m3) (ar_id a)) = Some [(ch, [evt])]"
proof -
  let ?t = "t\<lparr>adb_agents := map (\<lambda>b. if ar_id b = ar_id a then b\<lparr>ar_user_id := Some u\<rparr> else b) (adb_agents t)\<rparr>"
  have m1: "asm_db m1 = Some ?t" "asm_sessions m1 = asm_sessions m"
    using assms(1) by (simp_all add: m1_def handleLinkUser_def)
  have "find (\<lambda>b. ar_user_id b = Some u) (adb_agents ?t) = Some (a\<lparr>ar_user_id := Some u\<rparr>)"
    using find_link [OF assms(2,4,3)] by simp
  then obtain p where p: "getAgentByUserID arrays (Some ?t) u = Some p" "ap_ID p = ar_id a"
    using getAgentByUserID_linked [of u ?t "a\<lparr>ar_user_id := Some u\<rparr>" arrays] assms(5) by auto
  have m2: "asm_db m2 = Some (set_status ''Available'' (ar_id a) ?t)"
      "map_option os_SSEChans (asm_sessions m2 (ar_id a)) = Some []"
    using p m1 assms(5,6) by (auto simp: m2_def handleAgentMe_def)
  have "find (\<lambda>b. ar_user_id b = Some u) (map (\<lambda>b. if ar_id b = ar_id a then b\<lparr>ar_status := Some ''Available''\<rparr> else b) (adb_agents ?t)) \<noteq> None"
    using assms(3) by (auto simp: find_None_iff)
  then obtain a2 where a2: "find (\<lambda>b. ar_user_id b = Some u) (adb_agents (set_status ''Available'' (ar_id a) ?t)) = Some a2"
    by (auto simp: set_status_def)
  then have "ar_id a2 = ar_id a"
    using assms(4) by (auto simp: find_Some_iff set_status_def split: if_splits)
  with a2 obtain p2 where p2: "getAgentByUserID arrays (asm_db m2) u = Some p2" "ap_ID p2 = ar_id a"
    using getAgentByUserID_linked [OF a2 assms(5), of arrays] m2(1) by auto
  then show ?thesis using m2(2) by (auto simp: m3_def handleAgentSSE_def RingAgent_def send_nb_def)
qed

definition example_agent :: agent_rec where
  "example_agent = \<lparr>ar_id = ''a1'', ar_user_id = None, ar_name = ''Ann'', ar_email = None, ar_department = None,
     ar_expertise = None, ar_status = None, ar_extension = None, ar_languages = None, ar_priority = None, ar_max_calls = None,
     ar_current_calls = None, ar_customer_tiers = None\<rparr>"

definition example_manager :: AgentSessionManager where
  "example_manager = NewAgentSessionManager (Some \<lparr>adb_agents = [example_agent], adb_queues = [], adb_agent_queues = []\<rparr>)"

theorem link_login_ring_witness:
  "map_option os_SSEChans (asm_sessions (RingAgent ''a1'' ''ring'' (fst (handleAgentSSE True True ''u1'' 4
     (fst (handleAgentMe True 0 ''u1'' (fst (handleLinkUser True None ''a1'' ''u1'' example_manager))))))) ''a1'')
   = Some [(4, [''ring''])]"
proof -
  have i: "ar_id example_agent = ''a1''" by (simp add: example_agent_def)
  show ?thesis
    by (rule link_login_ring [where m = example_manager and a = example_agent and u = "''u1''"
        and t = "\<lparr>adb_agents = [example_agent], adb_queues = [], adb_agent_queues = []\<rparr>", unfolded i])
       (simp_all add: example_manager_def NewAgentSessionManager_def example_agent_def)
qed

text \<open>
  the answer "not linked" cannot occur with a database: every authenticated user, with or without
  an agent row, is reported as linked; a user without one opens the session of the empty agent
  identifier, which all such users share.
\<close>

theorem unlinked_user_linked:
  assumes "asm_db m = Some t" "u \<noteq> ''''" "\<forall>a \<in> set (adb_agents t). ar_user_id a \<noteq> Some u \<and> ar_id a \<noteq> ''''"
    and "asm_sessions m '''' = None"
  shows "\<exists>p. snd (handleAgentMe arrays now u m) = WriteJSON 200 (Some p) \<and> ap_ID p = '''' \<and>
             map_option os_UserID (asm_sessions (fst (handleAgentMe arrays now u m)) '''') = Some u"
proof -
  have "find (\<lambda>a. ar_user_id a = Some u) (adb_agents t) = None" "find (\<lambda>a. ar_id a = '''') (adb_agents t) = None"
    using assms(3) by (auto simp: find_None_iff)
  then show ?thesis using assms(1,2,4)
    by (auto simp: handleAgentMe_def getAgentByUserID_def Let_def zero_profile_def)
qed

theorem unlinked_user_linked_witness:
  "\<exists>p. snd (handleAgentMe False 0 ''eve'' (NewAgentSessionManager (Some \<lparr>adb_agents = [], adb_queues = [], adb_agent_queues = []\<rparr>)))
     = WriteJSON 200 (Some p)"
  using unlinked_user_linked [of "NewAgentSessionManager (Some \<lparr>adb_agents = [], adb_queues = [], adb_agent_queues = []\<rparr>)"
      "\<lparr>adb_agents = [], adb_queues = [], adb_agent_queues = []\<rparr>" "''eve''" False 0]
  by (auto simp: NewAgentSessionManager_def)

end
