(* ===== verification/Robocall.thy ===== *)
theory Robocall
  imports Scale "HOL-Library.Char_ord"
begin

text \<open>
  Robocall detection (\<open>gateway/robocall.go\<close>, with \<open>rmsEnergy\<close> of \<open>gateway/main.go\<close>): the blocklist
  and its table, the audio pattern analysis, the keyword classifier, the combined score and the HTTP
  handlers. Floating point is real arithmetic with a rounding \<open>rnd\<close> after every operation, which also
  rounds the constants; scores and weights are of type \<open>real\<close>.
\<close>

record RobocallResult =
  rc_Score :: real
  rc_Category :: string
  rc_Reason :: string
  rc_Keywords :: "string list"
  rc_Blocked :: bool

text \<open>A row of the table \<open>blocklist\<close>: number, reason, source and call count.\<close>

record block_row =
  bl_number :: string
  bl_reason :: string
  bl_source :: string
  bl_count :: int

record RobocallDetector =
  blocklist :: "string \<rightharpoonup> string"
  customKeywords :: "(string \<times> real) list"
  rd_db :: "block_row list option"
  threshold :: real
  autoBlock :: bool

definition normalizeNumber :: "string \<Rightarrow> string" where
  "normalizeNumber num = filter (\<lambda>c. CHR ''0'' \<le> c \<and> c \<le> CHR ''9'') num"

subsection \<open>Keywords\<close>

definition AddKeyword :: "string \<Rightarrow> real \<Rightarrow> RobocallDetector \<Rightarrow> RobocallDetector" where
  "AddKeyword phrase weight d = d\<lparr>customKeywords := customKeywords d @ [(phrase, weight)]\<rparr>"

definition RemoveKeyword :: "string \<Rightarrow> RobocallDetector \<Rightarrow> RobocallDetector" where
  "RemoveKeyword phrase d = d\<lparr>customKeywords := filter (\<lambda>kw. fst kw \<noteq> phrase) (customKeywords d)\<rparr>"

text \<open>The phrases with their weights in tenths.\<close>

definition robocallKeywords :: "(string \<times> int) list" where
  "robocallKeywords =
     [(''press 1'', 6), (''press 2'', 5), (''press 9'', 5), (''do not hang up'', 7), (''this is not a sales call'', 6),
      (''your account has been'', 5), (''your amazon'', 6), (''your apple'', 5), (''irs'', 6), (''social security'', 6),
      (''auto warranty'', 8), (''car warranty'', 7), (''extended warranty'', 8), (''student loan'', 6),
      (''loan forgiveness'', 5), (''tech support'', 4), (''microsoft support'', 6), (''your computer has'', 6),
      (''you have won'', 7), (''congratulations'', 3), (''free vacation'', 7), (''lower your interest'', 6),
      (''reduce your debt'', 5), (''this is an important message'', 5), (''we have been trying to reach you'', 6),
      (''final notice'', 5), (''legal action'', 5), (''arrest warrant'', 7)]"

definition builtin_keywords :: "(real \<Rightarrow> real) \<Rightarrow> (string \<times> real) list" where
  "builtin_keywords rnd = map (\<lambda>(p, w). (p, rnd (of_int w / 10))) robocallKeywords"

definition ListKeywords :: "(real \<Rightarrow> real) \<Rightarrow> RobocallDetector \<Rightarrow> (string \<times> real \<times> bool) list" where
  "ListKeywords rnd d =
     map (\<lambda>(p, w). (p, w, True)) (builtin_keywords rnd) @ map (\<lambda>(p, w). (p, w, False)) (customKeywords d)"

subsection \<open>Blocklist\<close>

definition loadBlocklist :: "RobocallDetector \<Rightarrow> RobocallDetector" where
  "loadBlocklist d =
     (case rd_db d of None \<Rightarrow> d
      | Some rows \<Rightarrow>
          d\<lparr>blocklist := fold (\<lambda>r m. m(normalizeNumber (bl_number r) \<mapsto> bl_reason r)) rows (blocklist d)\<rparr>)"

definition NewRobocallDetector :: "(real \<Rightarrow> real) \<Rightarrow> block_row list option \<Rightarrow> RobocallDetector" where
  "NewRobocallDetector rnd database =
     loadBlocklist \<lparr>blocklist = Map.empty, customKeywords = [], rd_db = database, threshold = rnd (7 / 10), autoBlock = False\<rparr>"

definition upd_row :: "string \<Rightarrow> (block_row \<Rightarrow> block_row) \<Rightarrow> block_row list \<Rightarrow> block_row list" where
  "upd_row num f rows = map (\<lambda>r. if bl_number r = num then f r else r) rows"

definition CheckBlocklist :: "string \<Rightarrow> RobocallDetector \<Rightarrow> RobocallDetector \<times> RobocallResult option" where
  "CheckBlocklist number d =
     (case blocklist d (normalizeNumber number) of
        None \<Rightarrow> (d, None)
      | Some reason \<Rightarrow>
          (d\<lparr>rd_db := map_option (upd_row (normalizeNumber number) (\<lambda>r. r\<lparr>bl_count := bl_count r + 1\<rparr>)) (rd_db d)\<rparr>,
           Some \<lparr>rc_Score = 1, rc_Category = ''robocall'', rc_Reason = ''blocklist: '' @ reason, rc_Keywords = [], rc_Blocked = True\<rparr>))"

text \<open>\<open>INSERT ... ON CONFLICT (number) DO UPDATE\<close>\<close>

definition upsert_block :: "string \<Rightarrow> string \<Rightarrow> string \<Rightarrow> block_row list \<Rightarrow> block_row list" where
  "upsert_block num reason source rows =
     (if num \<in> bl_number ` set rows
      then upd_row num (\<lambda>r. r\<lparr>bl_reason := reason, bl_count := bl_count r + 1\<rparr>) rows
      else rows @ [\<lparr>bl_number = num, bl_reason = reason, bl_source = source, bl_count = 1\<rparr>])"

definition AddToBlocklist :: "string \<Rightarrow> string \<Rightarrow> string \<Rightarrow> RobocallDetector \<Rightarrow> RobocallDetector" where
  "AddToBlocklist number reason source d =
     (let num = normalizeNumber number in
      d\<lparr>blocklist := (blocklist d)(num \<mapsto> reason), rd_db := map_option (upsert_block num reason source) (rd_db d)\<rparr>)"

definition RemoveFromBlocklist :: "string \<Rightarrow> RobocallDetector \<Rightarrow> RobocallDetector" where
  "RemoveFromBlocklist number d =
     (let num = normalizeNumber number in
      d\<lparr>blocklist := (blocklist d)(num := None), rd_db := map_option (filter (\<lambda>r. bl_number r \<noteq> num)) (rd_db d)\<rparr>)"

subsection \<open>Audio patterns\<close>

definition rmsEnergy :: "(real \<Rightarrow> real) \<Rightarrow> byte list \<Rightarrow> real" where
  "rmsEnergy rnd pcm =
     (let ss = samples pcm in
      if ss = [] then 0
      else rnd (sqrt (rnd (fold (\<lambda>s acc. rnd (acc + rnd (of_int (sint s) * of_int (sint s)))) ss 0 / of_nat (length ss)))))"

definition AnalyzeAudio :: "(real \<Rightarrow> real) \<Rightarrow> byte list list \<Rightarrow> RobocallResult" where
  "AnalyzeAudio rnd frames =
     (if length frames < 10 then
        \<lparr>rc_Score = 0, rc_Category = ''uncertain'', rc_Reason = ''insufficient_audio'', rc_Keywords = [], rc_Blocked = False\<rparr>
      else
        let n = of_nat (length frames);
            energies = map (rmsEnergy rnd) frames;
            avgEnergy = rnd (fold (\<lambda>e acc. rnd (acc + e)) energies 0 / n);
            silenceRatio = rnd (of_nat (length (filter (\<lambda>e. e < 30) energies)) / n);
            variance = rnd (fold (\<lambda>e acc. let diff = rnd (e - avgEnergy) in rnd (acc + rnd (diff * diff))) energies 0 / n);
            stdDev = rnd (sqrt variance);
            cv = (if avgEnergy > 0 then rnd (stdDev / avgEnergy) else 0);
            (s1, r1) = (if cv < rnd (3 / 10) \<and> avgEnergy > 50 then (rnd (0 + rnd (4 / 10)), [''monotone_audio'']) else (0, []));
            (s2, r2) = (if silenceRatio > rnd (7 / 10) then (rnd (s1 + rnd (3 / 10)), r1 @ [''high_silence'']) else (s1, r1));
            (s3, r3) = (if avgEnergy < 10 then (rnd (s2 + rnd (2 / 10)), r2 @ [''dead_channel'']) else (s2, r2));
            score = (if s3 > 1 then 1 else s3)
        in \<lparr>rc_Score = score,
            rc_Category = (if score > rnd (7 / 10) then ''robocall'' else if score > rnd (4 / 10) then ''uncertain'' else ''human''),
            rc_Reason = join r3 '', '', rc_Keywords = [], rc_Blocked = False\<rparr>)"

subsection \<open>Transcript\<close>

definition matching :: "string \<Rightarrow> (string \<times> real) list \<Rightarrow> (string \<times> real) list" where
  "matching text kws = filter (\<lambda>kw. str_contains text (fst kw)) kws"

definition ClassifyTranscript :: "(real \<Rightarrow> real) \<Rightarrow> string \<Rightarrow> RobocallDetector \<Rightarrow> RobocallResult" where
  "ClassifyTranscript rnd text d =
     (let hits = matching (to_lower text) (builtin_keywords rnd @ customKeywords d);
          sum = fold (\<lambda>kw score. rnd (score + snd kw)) hits 0;
          score = (if sum > 1 then 1 else sum)
      in \<lparr>rc_Score = score,
          rc_Category = (if score > rnd (6 / 10) then ''robocall'' else if score > rnd (3 / 10) then ''uncertain'' else ''human''),
          rc_Reason = ''keyword_match'', rc_Keywords = map fst hits, rc_Blocked = False\<rparr>)"

subsection \<open>Combination\<close>

definition positive :: "RobocallResult option \<Rightarrow> bool" where
  "positive r = (case r of None \<Rightarrow> False | Some x \<Rightarrow> rc_Score x > 0)"

definition CombinedScore ::
  "(real \<Rightarrow> real) \<Rightarrow> RobocallResult option \<Rightarrow> RobocallResult option \<Rightarrow> RobocallResult option \<Rightarrow> RobocallDetector \<Rightarrow> RobocallResult" where
  "CombinedScore rnd bl audio kw d =
     (if positive bl then the bl
      else
        let (s1, r1) = (if positive audio then (rnd (0 + rnd (rc_Score (the audio) * rnd (4 / 10))), [rc_Reason (the audio)]) else (0, []));
            (s2, r2) = (if positive kw then (rnd (s1 + rnd (rc_Score (the kw) * rnd (6 / 10))), r1 @ [rc_Reason (the kw)]) else (s1, r1));
            score = (if s2 > 1 then 1 else s2)
        in \<lparr>rc_Score = score,
            rc_Category = (if score > threshold d then ''robocall''
                           else if score > rnd (threshold d * rnd (6 / 10)) then ''uncertain'' else ''human''),
            rc_Reason = join r2 ''; '',
            rc_Keywords = (case kw of None \<Rightarrow> [] | Some k \<Rightarrow> rc_Keywords k),
            rc_Blocked = (score \<ge> threshold d \<and> autoBlock d)\<rparr>)"

subsection \<open>Handlers\<close>

datatype blocklist_request = BlGet | BlPost string string | BlDelete string | BlOther

text \<open>\<open>ks\<close> is the order in which the map is walked.\<close>

definition handleBlocklist ::
  "string list \<Rightarrow> blocklist_request \<Rightarrow> RobocallDetector \<Rightarrow> RobocallDetector \<times> json_obj list response" where
  "handleBlocklist ks req d =
     (case req of
        BlGet \<Rightarrow> (d, WriteJSON 200 (map (\<lambda>k. [(''number'', k), (''reason'', case blocklist d k of None \<Rightarrow> '''' | Some r \<Rightarrow> r)]) ks))
      | BlPost number reason \<Rightarrow>
          if number = '''' then (d, WriteJSON 400 [[(''error'', ''number required'')]])
          else (AddToBlocklist number reason ''manual'' d,
                WriteJSON 201 [[(''status'', ''added''), (''number'', normalizeNumber number)]])
      | BlDelete number \<Rightarrow> (RemoveFromBlocklist number d, WriteJSON 200 [[(''status'', ''removed'')]])
      | BlOther \<Rightarrow> (d, HttpError 405 ''{\"error\":\"method not allowed\"}''))"

definition handleTest ::
  "(real \<Rightarrow> real) \<Rightarrow> string \<Rightarrow> string \<Rightarrow> RobocallDetector
    \<Rightarrow> RobocallDetector \<times> (RobocallResult option option \<times> RobocallResult option) response" where
  "handleTest rnd text number d =
     (let (d1, bl) = (if number = '''' then (d, None) else (let (d', r) = CheckBlocklist number d in (d', Some r)));
          kw = (if text = '''' then None else Some (ClassifyTranscript rnd text d1))
      in (d1, WriteJSON 200 (bl, kw)))"

subsection \<open>Lemmas\<close>

lemma normalizeNumber_idem [simp]: "normalizeNumber (normalizeNumber n) = normalizeNumber n"
  by (simp add: normalizeNumber_def)

text \<open>The table and the map agree: this is what makes a restart harmless.\<close>

definition mirrored :: "RobocallDetector \<Rightarrow> bool" where
  "mirrored d \<longleftrightarrow>
     (case rd_db d of None \<Rightarrow> False
      | Some rows \<Rightarrow> distinct (map bl_number rows) \<and> (\<forall>r \<in> set rows. normalizeNumber (bl_number r) = bl_number r)
          \<and> blocklist d = map_of (map (\<lambda>r. (bl_number r, bl_reason r)) rows))"

lemma map_of_upd_row:
  "distinct (map bl_number rows) \<Longrightarrow>
   map_of (map (\<lambda>r. (bl_number r, bl_reason r)) (upd_row n f rows)) k
     = (if k = n \<and> n \<in> bl_number ` set rows
        then Some (bl_reason (f (the (find (\<lambda>r. bl_number r = n) rows))))
        else map_of (map (\<lambda>r. (bl_number r, bl_reason r)) rows) k)"
  if "\<And>r. bl_number (f r) = bl_number r"
  by (induction rows) (auto simp: upd_row_def that image_iff)

lemma numbers_upd_row: "(\<And>r. bl_number (f r) = bl_number r) \<Longrightarrow> map bl_number (upd_row n f rows) = map bl_number rows"
  by (simp add: upd_row_def)

lemma fold_load:
  "fold (\<lambda>r m. m(f r \<mapsto> g r)) rows m = m ++ map_of (rev (map (\<lambda>r. (f r, g r)) rows))"
  by (induction rows arbitrary: m) (auto simp: fun_eq_iff map_add_def split: option.splits)

lemma load_mirrored:
  assumes "distinct (map bl_number rows)" "\<forall>r \<in> set rows. normalizeNumber (bl_number r) = bl_number r"
  shows "blocklist (NewRobocallDetector rnd (Some rows)) = map_of (map (\<lambda>r. (bl_number r, bl_reason r)) rows)"
proof -
  have "map (\<lambda>r. (normalizeNumber (bl_number r), bl_reason r)) rows = map (\<lambda>r. (bl_number r, bl_reason r)) rows"
    using assms(2) by auto
  moreover have "map_of (rev (map (\<lambda>r. (bl_number r, bl_reason r)) rows)) = map_of (map (\<lambda>r. (bl_number r, bl_reason r)) rows)"
    using assms(1) map_of_inject_set [of "rev (map (\<lambda>r. (bl_number r, bl_reason r)) rows)" "map (\<lambda>r. (bl_number r, bl_reason r)) rows"]
    by (simp add: o_def rev_map [symmetric])
  ultimately have "map_of (rev (map (\<lambda>r. (normalizeNumber (bl_number r), bl_reason r)) rows))
      = map_of (map (\<lambda>r. (bl_number r, bl_reason r)) rows)" by (simp only:)
  then show ?thesis
    using fold_load [of "\<lambda>r. normalizeNumber (bl_number r)" bl_reason rows Map.empty]
    by (simp add: NewRobocallDetector_def loadBlocklist_def)
qed

lemma mirrored_check: "mirrored d \<Longrightarrow> mirrored (fst (CheckBlocklist number d))"
proof -
  assume m: "mirrored d"
  let ?f = "\<lambda>r. r\<lparr>bl_count := bl_count r + 1\<rparr>"
  have "map (\<lambda>r. (bl_number r, bl_reason r)) (upd_row n ?f rows) = map (\<lambda>r. (bl_number r, bl_reason r)) rows"
    "map bl_number (upd_row n ?f rows) = map bl_number rows" for n rows
    by (auto simp: upd_row_def)
  moreover have "\<forall>r \<in> set (upd_row n ?f rows). normalizeNumber (bl_number r) = bl_number r"
    if "\<forall>r \<in> set rows. normalizeNumber (bl_number r) = bl_number r" for n rows
    using that by (auto simp: upd_row_def)
  ultimately show ?thesis using m by (auto simp: mirrored_def CheckBlocklist_def split: option.splits)
qed

lemma mirrored_add: "mirrored d \<Longrightarrow> mirrored (AddToBlocklist number reason source d)"
proof -
  assume m: "mirrored d"
  then obtain rows where r: "rd_db d = Some rows" "distinct (map bl_number rows)"
    "\<forall>r \<in> set rows. normalizeNumber (bl_number r) = bl_number r"
    "blocklist d = map_of (map (\<lambda>r. (bl_number r, bl_reason r)) rows)"
    by (auto simp: mirrored_def split: option.splits)
  let ?n = "normalizeNumber number"
  show ?thesis
  proof (cases "?n \<in> bl_number ` set rows")
    case True
    let ?f = "\<lambda>r. r\<lparr>bl_reason := reason, bl_count := bl_count r + 1\<rparr>"
    have "map_of (map (\<lambda>r. (bl_number r, bl_reason r)) (upd_row ?n ?f rows)) = (blocklist d)(?n \<mapsto> reason)"
      using map_of_upd_row [of ?f rows ?n] r(2,4) True by (auto simp: fun_eq_iff)
    moreover have "distinct (map bl_number (upd_row ?n ?f rows))" using r(2) numbers_upd_row [of ?f ?n rows] by simp
    moreover have "\<forall>r \<in> set (upd_row ?n ?f rows). normalizeNumber (bl_number r) = bl_number r"
      using r(3) by (auto simp: upd_row_def)
    ultimately show ?thesis using r True by (simp add: mirrored_def AddToBlocklist_def upsert_block_def Let_def)
  next
    case False
    then have "map_of (map (\<lambda>r. (bl_number r, bl_reason r)) rows) ?n = None" by (auto simp: map_of_eq_None_iff)
    then show ?thesis using r False
      by (auto simp: mirrored_def AddToBlocklist_def upsert_block_def Let_def fun_eq_iff map_add_def split: option.splits)
  qed
qed

lemma map_of_filter_rows:
  "map_of (map (\<lambda>r. (bl_number r, bl_reason r)) (filter (\<lambda>r. bl_number r \<noteq> n) rows))
     = (map_of (map (\<lambda>r. (bl_number r, bl_reason r)) rows))(n := None)"
  by (induction rows) (auto simp: fun_eq_iff)

lemma mirrored_remove: "mirrored d \<Longrightarrow> mirrored (RemoveFromBlocklist number d)"
  by (auto simp: mirrored_def RemoveFromBlocklist_def Let_def distinct_map_filter map_of_filter_rows [symmetric]
      simp del: fun_upd_apply split: option.splits)

inductive rd_step :: "RobocallDetector \<Rightarrow> RobocallDetector \<Rightarrow> bool" where
  "rd_step d (fst (CheckBlocklist number d))"
| "rd_step d (AddToBlocklist number reason source d)"
| "rd_step d (RemoveFromBlocklist number d)"
| "rd_step d (AddKeyword phrase weight d)"
| "rd_step d (RemoveKeyword phrase d)"

lemma mirrored_keywords: "mirrored d \<Longrightarrow> mirrored (AddKeyword phrase weight d) \<and> mirrored (RemoveKeyword phrase d)"
  by (auto simp: mirrored_def AddKeyword_def RemoveKeyword_def split: option.splits)

lemma mirrored_step: "mirrored d \<Longrightarrow> rd_step d d' \<Longrightarrow> mirrored d'"
  by (erule rd_step.cases)
     (auto simp: mirrored_check mirrored_add mirrored_remove mirrored_keywords)

interpretation blocked: invariant_machine "\<lambda>d. d = NewRobocallDetector rnd (Some [])" rd_step mirrored
proof
  show "d = NewRobocallDetector rnd (Some []) \<Longrightarrow> mirrored d" for d
    by (simp add: mirrored_def NewRobocallDetector_def loadBlocklist_def)
qed (rule mirrored_step)

lemma fold_rnd_nonneg:
  assumes "float_rounding rnd" "\<forall>kw \<in> set kws. 0 \<le> snd kw" "0 \<le> s"
  shows "0 \<le> fold (\<lambda>kw score. rnd (score + snd kw)) kws s"
  using assms(2,3)
proof (induction kws arbitrary: s)
  case (Cons kw kws)
  then have "0 \<le> rnd (s + snd kw)" using float_roundingD(4) [OF assms(1)] by simp
  then show ?case using Cons by simp
qed simp

lemma image_matching: "fst ` set (matching t kws) = {p \<in> fst ` set kws. str_contains t p}"
  by (auto simp: matching_def)

lemma builtin_nonneg: "float_rounding rnd \<Longrightarrow> kw \<in> set (builtin_keywords rnd) \<Longrightarrow> 0 \<le> snd kw"
proof -
  have "\<forall>(p, w) \<in> set robocallKeywords. 0 \<le> w" by (simp add: robocallKeywords_def)
  then show "float_rounding rnd \<Longrightarrow> kw \<in> set (builtin_keywords rnd) \<Longrightarrow> 0 \<le> snd kw"
    using float_roundingD(4) by (fastforce simp: builtin_keywords_def)
qed

subsection \<open>Properties\<close>



text \<open>
  the keyword score lies between 0 and 1 whatever the rounding, when the custom weights are not
  negative; the keywords reported are exactly the phrases that occur in the lower-cased text; and a
  text without any of them is human with score 0.
\<close>

theorem ClassifyTranscript_spec:
  fixes said :: string
  assumes "float_rounding rnd" "\<forall>kw \<in> set (customKeywords d). 0 \<le> snd kw"
  defines "r \<equiv> ClassifyTranscript rnd said d"
  shows "0 \<le> rc_Score r \<and> rc_Score r \<le> 1 \<and>
         set (rc_Keywords r) = {p \<in> fst ` set robocallKeywords \<union> fst ` set (customKeywords d). str_contains (to_lower said) p} \<and>
         (rc_Keywords r = [] \<longrightarrow> rc_Score r = 0 \<and> rc_Category r = ''human'')"
proof -
  let ?hits = "matching (to_lower said) (builtin_keywords rnd @ customKeywords d)"
  have "\<forall>kw \<in> set ?hits. 0 \<le> snd kw"
    using builtin_nonneg [OF assms(1)] assms(2) by (auto simp: matching_def)
  then have "0 \<le> fold (\<lambda>kw score. rnd (score + snd kw)) ?hits 0" by (rule fold_rnd_nonneg [OF assms(1)]) simp
  moreover have "fst ` set (builtin_keywords rnd) = fst ` set robocallKeywords"
    by (force simp: builtin_keywords_def)
  then have "fst ` set ?hits
      = {p \<in> fst ` set robocallKeywords \<union> fst ` set (customKeywords d). str_contains (to_lower said) p}"
    using image_matching [of "to_lower said" "builtin_keywords rnd @ customKeywords d"] by (simp add: image_Un)
  moreover have "\<not> 0 > rnd (6 / 10)" "\<not> 0 > rnd (3 / 10)"
    using float_roundingD(4) [OF assms(1), of "6 / 10"] float_roundingD(4) [OF assms(1), of "3 / 10"] by auto
  ultimately show ?thesis by (auto simp: r_def ClassifyTranscript_def Let_def)
qed

theorem ClassifyTranscript_spec_witness:
  "set (rc_Keywords (ClassifyTranscript id ''Do NOT hang up'' (NewRobocallDetector id None)))
   = {p \<in> fst ` set robocallKeywords \<union> {}. str_contains (to_lower ''Do NOT hang up'') p}"
  using ClassifyTranscript_spec [of id "NewRobocallDetector id None" "''Do NOT hang up''"]
  by (simp add: float_rounding_def NewRobocallDetector_def loadBlocklist_def)

end
