(* ===== verification/Security.thy ===== *)
theory Security
  imports Robocall
begin

text \<open>
  Voice biometrics, masking of personal data and the configurable security rules
  (\<open>gateway/security.go\<close>, \<open>gateway/security_rules.go\<close>). A compiled regular expression is the pair of
  functions the code uses of it; compiling one is the parameter \<open>compile\<close>, and \<open>builtin\<close> gives the
  compiled expressions of the built-in patterns by name. Floating point is rounded as in the robocall
  detector. Tables are lists of rows.
\<close>

subsection \<open>Masking of personal data\<close>

record matcher =
  find_all :: "string \<Rightarrow> (nat \<times> nat) list"
  replace_all :: "string \<Rightarrow> string \<Rightarrow> string"

record piiPattern =
  pp_Name :: string
  pp_Regex :: matcher
  pp_Mask :: string
  pp_Level :: string

record PIIMasker =
  pm_patterns :: "piiPattern list"
  pm_enabled :: bool

record PIIDetection =
  pd_Type :: string
  pd_Original :: string
  pd_Masked :: string
  pd_Level :: string
  pd_Position :: nat

definition builtin_pii :: "(string \<times> string \<times> string) list" where
  "builtin_pii =
     [(''credit_card'', ''XXXX-XXXX-XXXX-####'', ''critical''), (''ssn'', ''XXX-XX-####'', ''critical''),
      (''ssn_spoken'', ''[SSN REDACTED]'', ''critical''), (''credit_card_spoken'', ''[CARD REDACTED]'', ''critical''),
      (''cvv'', ''CVV [REDACTED]'', ''critical''), (''dob'', ''DOB [REDACTED]'', ''high''),
      (''dob_compact'', ''DOB [REDACTED]'', ''high''), (''dob_spoken'', ''DOB [REDACTED]'', ''high''),
      (''account_number'', ''account [REDACTED]'', ''high'')]"

definition NewPIIMasker :: "(string \<Rightarrow> matcher) \<Rightarrow> PIIMasker" where
  "NewPIIMasker builtin =
     \<lparr>pm_patterns = map (\<lambda>(n, m, l). \<lparr>pp_Name = n, pp_Regex = builtin n, pp_Mask = m, pp_Level = l\<rparr>) builtin_pii,
      pm_enabled = True\<rparr>"

definition maskValue :: "string \<Rightarrow> string" where
  "maskValue val =
     (let digits = normalizeNumber val; n = length digits in
      if n > 4 then replicate (n - 4) (CHR ''X'') @ drop (n - 4) digits else replicate n (CHR ''X''))"

definition DetectPII :: "string \<Rightarrow> PIIMasker \<Rightarrow> PIIDetection list" where
  "DetectPII txt0 pm =
     (if \<not> pm_enabled pm then []
      else concat (map (\<lambda>p. map (\<lambda>(b, e).
             \<lparr>pd_Type = pp_Name p, pd_Original = maskValue (drop b (take e txt0)), pd_Masked = pp_Mask p,
              pd_Level = pp_Level p, pd_Position = b\<rparr>) (find_all (pp_Regex p) txt0)) (pm_patterns pm)))"

definition MaskTranscript :: "string \<Rightarrow> PIIMasker \<Rightarrow> string \<times> PIIDetection list" where
  "MaskTranscript txt0 pm =
     (if \<not> pm_enabled pm then (txt0, [])
      else (fold (\<lambda>p masked. replace_all (pp_Regex p) masked (pp_Mask p)) (pm_patterns pm) txt0, DetectPII txt0 pm))"

definition SilenceAudioFrames :: "byte list list \<Rightarrow> byte list list" where
  "SilenceAudioFrames frames = map (\<lambda>f. replicate (length f) 0) frames"

subsection \<open>Voice prints\<close>

record VoicePrint =
  vp_ID :: string
  vp_Label :: string
  vp_Type :: string
  vp_Features :: "real list"

record VoiceBiometrics =
  vb_prints :: "VoicePrint list"
  vb_threshold :: real
  vb_db :: "VoicePrint list option"

record VoiceMatchResult =
  vm_Matched :: bool
  vm_PrintID :: string
  vm_Label :: string
  vm_Type :: string
  vm_Similarity :: real
  vm_Threshold :: real

definition NewVoiceBiometrics :: "(real \<Rightarrow> real) \<Rightarrow> VoicePrint list option \<Rightarrow> VoiceBiometrics" where
  "NewVoiceBiometrics rnd database =
     \<lparr>vb_prints = (case database of None \<Rightarrow> [] | Some rows \<Rightarrow> rows), vb_threshold = rnd (85 / 100), vb_db = database\<rparr>"

definition band_energy :: "(real \<Rightarrow> real) \<Rightarrow> int16 list \<Rightarrow> nat \<Rightarrow> nat \<Rightarrow> real" where
  "band_energy rnd ss b e =
     rnd (sqrt (rnd (fold (\<lambda>i acc. rnd (acc + rnd (of_int (sint (ss ! i)) * of_int (sint (ss ! i))))) [b..<e] 0 / of_nat (e - b))))"

text \<open>The bands of frame \<open>f\<close>; the loop over them breaks at the first that lies beyond the audio.\<close>

definition add_frame :: "(real \<Rightarrow> real) \<Rightarrow> byte list \<Rightarrow> nat \<Rightarrow> real list \<Rightarrow> real list" where
  "add_frame rnd pcm f fs =
     fold (\<lambda>band fs. fs[band := rnd (fs ! band + band_energy rnd (samples pcm) (f * 320 + band * 320 div 32) (f * 320 + (band + 1) * 320 div 32))])
       (takeWhile (\<lambda>band. (f * 320 + (band + 1) * 320 div 32) * 2 \<le> length pcm) [0..<32]) fs"

definition ExtractVoicePrint :: "(real \<Rightarrow> real) \<Rightarrow> byte list \<Rightarrow> real list" where
  "ExtractVoicePrint rnd pcm =
     (let n = length pcm div 2; z = replicate 32 0 in
      if n < 160 then z
      else
        let numFrames = n div 320;
            f1 = fold (add_frame rnd pcm) [0..<numFrames] z;
            f2 = (if numFrames > 0 then map (\<lambda>v. rnd (v / of_nat numFrames)) f1 else f1);
            len = rnd (sqrt (fold (\<lambda>v acc. rnd (acc + rnd (v * v))) f2 0))
        in if len > 0 then map (\<lambda>v. rnd (v / len)) f2 else f2)"

definition cosineSimilarity :: "(real \<Rightarrow> real) \<Rightarrow> real list \<Rightarrow> real list \<Rightarrow> real" where
  "cosineSimilarity rnd a b =
     (if length a \<noteq> length b \<or> length a = 0 then 0
      else
        let dot = fold (\<lambda>(x, y) acc. rnd (acc + rnd (x * y))) (zip a b) 0;
            normA = fold (\<lambda>x acc. rnd (acc + rnd (x * x))) a 0;
            normB = fold (\<lambda>y acc. rnd (acc + rnd (y * y))) b 0;
            denom = rnd (rnd (sqrt normA) * rnd (sqrt normB))
        in if denom = 0 then 0 else rnd (dot / denom))"

definition match_print :: "(real \<Rightarrow> real) \<Rightarrow> real list \<Rightarrow> VoicePrint \<Rightarrow> VoiceMatchResult \<Rightarrow> VoiceMatchResult" where
  "match_print rnd features vp best =
     (let sim = cosineSimilarity rnd features (vp_Features vp) in
      if sim > vm_Similarity best
      then best\<lparr>vm_Similarity := sim, vm_PrintID := vp_ID vp, vm_Label := vp_Label vp, vm_Type := vp_Type vp\<rparr> else best)"

definition MatchVoice :: "(real \<Rightarrow> real) \<Rightarrow> real list \<Rightarrow> VoiceBiometrics \<Rightarrow> VoiceMatchResult" where
  "MatchVoice rnd features vb =
     (let best = fold (match_print rnd features) (vb_prints vb)
            \<lparr>vm_Matched = False, vm_PrintID = '''', vm_Label = '''', vm_Type = '''', vm_Similarity = 0, vm_Threshold = vb_threshold vb\<rparr>
      in best\<lparr>vm_Matched := (vm_Similarity best \<ge> vb_threshold vb)\<rparr>)"

text \<open>\<open>ident\<close> is the identifier, 16 characters of the hash of the label and the time.\<close>

definition EnrollVoice :: "(real \<Rightarrow> real) \<Rightarrow> string \<Rightarrow> string \<Rightarrow> string \<Rightarrow> byte list \<Rightarrow> VoiceBiometrics \<Rightarrow> VoiceBiometrics \<times> VoicePrint" where
  "EnrollVoice rnd ident label printType pcm vb =
     (let vp = \<lparr>vp_ID = ident, vp_Label = label, vp_Type = printType, vp_Features = ExtractVoicePrint rnd pcm\<rparr>
      in (vb\<lparr>vb_prints := vb_prints vb @ [vp], vb_db := map_option (\<lambda>rows. rows @ [vp]) (vb_db vb)\<rparr>, vp))"

subsection \<open>Handlers\<close>

datatype prints_request = PrintsGet | PrintsPost string string | PrintsOther

definition handleVoicePrints ::
  "(real \<Rightarrow> real) \<Rightarrow> string \<Rightarrow> prints_request \<Rightarrow> VoiceBiometrics \<Rightarrow> VoiceBiometrics \<times> (json_obj + VoicePrint list) response" where
  "handleVoicePrints rnd ident req vb =
     (case req of
        PrintsGet \<Rightarrow> (vb, WriteJSON 200 (Inr (vb_prints vb)))
      | PrintsPost label ty \<Rightarrow>
          if label = '''' \<or> ty = '''' then (vb, WriteJSON 400 (Inl [(''error'', ''label and type required'')]))
          else let (vb', vp) = EnrollVoice rnd ident label ty (replicate (16000 * 2 * 3) 0) vb in (vb', WriteJSON 201 (Inr [vp]))
      | PrintsOther \<Rightarrow> (vb, HttpError 405 ''{\"error\":\"method not allowed\"}''))"

definition handlePIITest :: "string \<Rightarrow> PIIMasker \<Rightarrow> (string \<times> string \<times> PIIDetection list \<times> bool) response" where
  "handlePIITest txt0 pm =
     (let (masked, detections) = MaskTranscript txt0 pm in WriteJSON 200 (txt0, masked, detections, length detections > 0))"

text \<open>The request of the configuration: \<open>Inl\<close> reads it, \<open>Inr\<close> sets the switch if it is given.\<close>

definition handlePIIConfig :: "(unit + bool option) option \<Rightarrow> PIIMasker \<Rightarrow> PIIMasker \<times> (json_obj + bool \<times> (string \<times> string \<times> string) list) response" where
  "handlePIIConfig req pm =
     (case req of
        None \<Rightarrow> (pm, HttpError 405 ''{\"error\":\"method not allowed\"}'')
      | Some (Inl _) \<Rightarrow> (pm, WriteJSON 200 (Inr (pm_enabled pm, map (\<lambda>p. (pp_Name p, pp_Level p, pp_Mask p)) (pm_patterns pm))))
      | Some (Inr None) \<Rightarrow> (pm, WriteJSON 200 (Inl [(''status'', ''updated'')]))
      | Some (Inr (Some b)) \<Rightarrow> (pm\<lparr>pm_enabled := b\<rparr>, WriteJSON 200 (Inl [(''status'', ''updated'')])))"

subsection \<open>Rules\<close>

record pii_rule =
  pr_Name :: string
  pr_Regex :: string
  pr_Mask :: string
  pr_Level :: string

record rules_db =
  custom_pii :: "pii_rule list"
  custom_keywords :: "(string \<times> real \<times> string) list"
  biometric_config :: "(string \<times> string) list"

record SecurityRulesManager =
  sr_masker :: PIIMasker
  sr_robocall :: RobocallDetector
  sr_bio :: VoiceBiometrics
  sr_db :: "rules_db option"

definition pattern_of :: "pii_rule \<Rightarrow> matcher \<Rightarrow> piiPattern" where
  "pattern_of p m = \<lparr>pp_Name = pr_Name p, pp_Regex = m, pp_Mask = pr_Mask p, pp_Level = pr_Level p\<rparr>"

text \<open>\<open>parse\<close> reads a number as \<open>json.Unmarshal\<close> does.\<close>

definition set_threshold :: "(string \<Rightarrow> real option) \<Rightarrow> string \<times> string \<Rightarrow> VoiceBiometrics \<Rightarrow> VoiceBiometrics" where
  "set_threshold parse kv vb =
     (if fst kv = ''match_threshold''
      then case parse (snd kv) of None \<Rightarrow> vb | Some t \<Rightarrow> if t > 0 then vb\<lparr>vb_threshold := t\<rparr> else vb
      else vb)"

definition loadCustomRules :: "(string \<Rightarrow> matcher option) \<Rightarrow> (string \<Rightarrow> real option) \<Rightarrow> SecurityRulesManager \<Rightarrow> SecurityRulesManager" where
  "loadCustomRules compile parse m =
     (case sr_db m of None \<Rightarrow> m
      | Some t \<Rightarrow>
          m\<lparr>sr_masker := (sr_masker m)\<lparr>pm_patterns := pm_patterns (sr_masker m)
                @ List.map_filter (\<lambda>p. map_option (pattern_of p) (compile (pr_Regex p))) (custom_pii t)\<rparr>,
            sr_robocall := fold (\<lambda>(p, w, _). AddKeyword p w) (custom_keywords t) (sr_robocall m),
            sr_bio := fold (set_threshold parse) (biometric_config t) (sr_bio m)\<rparr>)"

text \<open>A rule request is decoded, or carries the error of decoding.\<close>

datatype 'a rule_request = RuleGet | RulePost "string + 'a" | RuleDelete string | RuleOther

definition upsert_by :: "('a \<Rightarrow> 'k) \<Rightarrow> 'a \<Rightarrow> 'a list \<Rightarrow> 'a list" where
  "upsert_by key x xs = (if key x \<in> key ` set xs then map (\<lambda>y. if key y = key x then x else y) xs else xs @ [x])"

definition handlePIIRules ::
  "(string \<Rightarrow> string + matcher) \<Rightarrow> pii_rule rule_request \<Rightarrow> SecurityRulesManager
    \<Rightarrow> SecurityRulesManager \<times> (json_obj + (string \<times> string \<times> string \<times> bool) list) response" where
  "handlePIIRules compile req m =
     (case req of
        RuleGet \<Rightarrow> (m, WriteJSON 200 (Inr (map (\<lambda>p. (pp_Name p, pp_Mask p, pp_Level p, pp_Name p \<in> fst ` set builtin_pii)) (pm_patterns (sr_masker m)))))
      | RulePost (Inl err) \<Rightarrow> (m, HttpError 400 err)
      | RulePost (Inr p) \<Rightarrow>
          (case compile (pr_Regex p) of
             Inl err \<Rightarrow> (m, HttpError 400 (''invalid regex: '' @ err))
           | Inr rx \<Rightarrow>
               (m\<lparr>sr_db := map_option (\<lambda>t. t\<lparr>custom_pii := upsert_by pr_Name p (custom_pii t)\<rparr>) (sr_db m),
                  sr_masker := (sr_masker m)\<lparr>pm_patterns := pm_patterns (sr_masker m) @ [pattern_of p rx]\<rparr>\<rparr>,
                WriteJSON 200 (Inl [(''status'', ''added'')])))
      | RuleDelete name \<Rightarrow>
          (m\<lparr>sr_db := map_option (\<lambda>t. t\<lparr>custom_pii := filter (\<lambda>p. pr_Name p \<noteq> name) (custom_pii t)\<rparr>) (sr_db m),
             sr_masker := (sr_masker m)\<lparr>pm_patterns := filter (\<lambda>p. pp_Name p \<noteq> name) (pm_patterns (sr_masker m))\<rparr>\<rparr>,
           WriteJSON 200 (Inl [(''status'', ''removed'')]))
      | RuleOther \<Rightarrow> (m, HttpError 405 ''method not allowed''))"

definition handleRobocallRules ::
  "(real \<Rightarrow> real) \<Rightarrow> (string \<times> real \<times> string) rule_request \<Rightarrow> SecurityRulesManager
    \<Rightarrow> SecurityRulesManager \<times> (json_obj + (string \<times> real \<times> bool) list) response" where
  "handleRobocallRules rnd req m =
     (case req of
        RuleGet \<Rightarrow> (m, WriteJSON 200 (Inr (ListKeywords rnd (sr_robocall m))))
      | RulePost (Inl err) \<Rightarrow> (m, HttpError 400 err)
      | RulePost (Inr (phrase, w0, category)) \<Rightarrow>
          let w = (if w0 = 0 then 1 else w0) in
          (m\<lparr>sr_db := map_option (\<lambda>t. t\<lparr>custom_keywords := upsert_by fst (phrase, w, category) (custom_keywords t)\<rparr>) (sr_db m),
             sr_robocall := AddKeyword phrase w (sr_robocall m)\<rparr>, WriteJSON 200 (Inl [(''status'', ''added'')]))
      | RuleDelete phrase \<Rightarrow>
          (m\<lparr>sr_db := map_option (\<lambda>t. t\<lparr>custom_keywords := filter (\<lambda>k. fst k \<noteq> phrase) (custom_keywords t)\<rparr>) (sr_db m),
             sr_robocall := RemoveKeyword phrase (sr_robocall m)\<rparr>, WriteJSON 200 (Inl [(''status'', ''removed'')]))
      | RuleOther \<Rightarrow> (m, HttpError 405 ''method not allowed''))"

text \<open>\<open>shown\<close> is the threshold printed with two decimals.\<close>

definition handleBiometricConfig ::
  "(string \<Rightarrow> real option) \<Rightarrow> string \<Rightarrow> (string \<times> string) rule_request \<Rightarrow> SecurityRulesManager
    \<Rightarrow> SecurityRulesManager \<times> (json_obj + (string \<times> string) list) response" where
  "handleBiometricConfig parse shown req m =
     (case req of
        RuleGet \<Rightarrow> (m, WriteJSON 200 (Inr (case sr_db m of None \<Rightarrow> [(''match_threshold'', shown)] | Some t \<Rightarrow> biometric_config t)))
      | RulePost (Inl err) \<Rightarrow> (m, HttpError 400 err)
      | RulePost (Inr kv) \<Rightarrow>
          (m\<lparr>sr_db := map_option (\<lambda>t. t\<lparr>biometric_config := upsert_by fst kv (biometric_config t)\<rparr>) (sr_db m),
             sr_bio := set_threshold parse kv (sr_bio m)\<rparr>, WriteJSON 200 (Inl [(''status'', ''saved'')]))
      | _ \<Rightarrow> (m, HttpError 405 ''method not allowed''))"

subsection \<open>Lemmas\<close>

lemma match_print_mono: "vm_Similarity best \<le> vm_Similarity (match_print rnd fs vp best)"
  by (simp add: match_print_def Let_def)

lemma fold_match_print:
  fixes rnd :: "real \<Rightarrow> real"
  defines "sim \<equiv> \<lambda>fs vp. cosineSimilarity rnd fs (vp_Features vp)"
  shows "(\<forall>vp \<in> set ps. sim fs vp \<le> vm_Similarity (fold (match_print rnd fs) ps best))
     \<and> vm_Similarity best \<le> vm_Similarity (fold (match_print rnd fs) ps best)
     \<and> (fold (match_print rnd fs) ps best = best \<or>
        (\<exists>vp \<in> set ps. sim fs vp = vm_Similarity (fold (match_print rnd fs) ps best)
           \<and> vm_PrintID (fold (match_print rnd fs) ps best) = vp_ID vp
           \<and> vm_Label (fold (match_print rnd fs) ps best) = vp_Label vp
           \<and> vm_Type (fold (match_print rnd fs) ps best) = vp_Type vp))
     \<and> vm_Threshold (fold (match_print rnd fs) ps best) = vm_Threshold best"
proof (induction ps arbitrary: best)
  case (Cons p ps)
  let ?b = "match_print rnd fs p best"
  have "sim fs p \<le> vm_Similarity ?b" "vm_Threshold ?b = vm_Threshold best"
    by (simp_all add: match_print_def sim_def Let_def)
  moreover have "?b = best \<or> (sim fs p = vm_Similarity ?b \<and> vm_PrintID ?b = vp_ID p \<and> vm_Label ?b = vp_Label p \<and> vm_Type ?b = vp_Type p)"
    by (simp add: match_print_def sim_def Let_def)
  ultimately show ?case using Cons.IH [of ?b] match_print_mono [of best rnd fs p] by (auto intro: order_trans)
qed simp

lemma samples_zero: "samples (replicate (2 * k) 0) = replicate k 0"
  by (induction k) (simp_all add: u16_le_def)

lemma band_energy_zero:
  assumes "float_rounding rnd" "\<forall>i \<in> {b..<e}. ss ! i = 0"
  shows "band_energy rnd ss b e = 0"
proof -
  have "fold (\<lambda>i acc. rnd (acc + rnd (of_int (sint (ss ! i)) * of_int (sint (ss ! i))))) is 0 = 0" if "\<forall>i \<in> set is. ss ! i = 0" for "is"
    using that by (induction "is") (simp_all add: float_roundingD(3) [OF assms(1)])
  from this [of "[b..<e]"] show ?thesis using assms by (simp add: band_energy_def float_roundingD(3))
qed

lemma add_frame_zero:
  assumes "float_rounding rnd" "even (length pcm)" "samples pcm = replicate n 0" "(f + 1) * 320 \<le> n"
  shows "add_frame rnd pcm f (replicate 32 0) = replicate 32 0"
proof -
  have "band_energy rnd (samples pcm) (f * 320 + band * 320 div 32) (f * 320 + (band + 1) * 320 div 32) = 0" if "band < 32" for band
    by (rule band_energy_zero [OF assms(1)]) (use that assms(3,4) in auto)
  then have *: "fold (\<lambda>band fs. fs[band := rnd (fs ! band + band_energy rnd (samples pcm) (f * 320 + band * 320 div 32) (f * 320 + (band + 1) * 320 div 32))])
      bs (replicate 32 0) = replicate 32 0" if "set bs \<subseteq> {0..<32}" for bs
    using that
  proof (induction bs)
    case (Cons b bs)
    have "(replicate 32 (0 :: real))[b := 0] = replicate 32 0"
      using Cons.prems(2) list_update_id [of "replicate 32 0" b] by simp
    with Cons show ?case by (simp add: float_roundingD(3) [OF assms(1)])
  qed simp
  have "set (takeWhile P [0..<32]) \<subseteq> {0..<32}" for P by (auto dest: set_takeWhileD)
  then show ?thesis unfolding add_frame_def by (rule *)
qed

lemma ExtractVoicePrint_silence:
  assumes "float_rounding rnd"
  shows "ExtractVoicePrint rnd (replicate (2 * n) 0) = replicate 32 0"
proof -
  have "fold (add_frame rnd (replicate (2 * n) 0)) fs (replicate 32 0) = replicate 32 0" if "\<forall>f \<in> set fs. (f + 1) * 320 \<le> n" for fs
    using that by (induction fs) (simp_all add: add_frame_zero [OF assms _ samples_zero])
  moreover have "\<forall>f \<in> set [0..<n div 320]. (f + 1) * 320 \<le> n" by (auto simp: less_eq_div_iff_mult_less_eq)
  ultimately have "fold (add_frame rnd (replicate (2 * n) 0)) [0..<n div 320] (replicate 32 0) = replicate 32 0" by blast
  moreover have "fold (\<lambda>v acc. rnd (acc + rnd (v * v))) (replicate k 0) 0 = 0" for k
    by (induction k) (simp_all add: float_roundingD(3) [OF assms])
  ultimately show ?thesis by (simp add: ExtractVoicePrint_def Let_def float_roundingD(3) [OF assms])
qed

lemma cosine_zero:
  assumes "float_rounding rnd"
  shows "cosineSimilarity rnd a (replicate k 0) = 0"
proof -
  have "fold (\<lambda>v acc. rnd (acc + rnd (v * v))) (replicate k 0) 0 = 0" for k
    by (induction k) (simp_all add: float_roundingD(3) [OF assms])
  then show ?thesis by (simp add: cosineSimilarity_def Let_def float_roundingD(3) [OF assms])
qed

subsection \<open>Properties\<close>

text \<open>
  masking reveals at most the last four digits. What is logged of a detected value has one
  character per digit of it; all of them are \<open>X\<close> except, for values of more than four digits, the last
  four.
\<close>

theorem maskValue_spec:
  "length (maskValue v) = length (normalizeNumber v) \<and>
   (\<forall>i < length (normalizeNumber v).
      maskValue v ! i = (if 4 < length (normalizeNumber v) \<and> length (normalizeNumber v) - 4 \<le> i then normalizeNumber v ! i else CHR ''X''))"
  by (auto simp: maskValue_def Let_def nth_append)

theorem maskValue_spec_witness: "length (maskValue ''41-11 99'') = length (normalizeNumber ''41-11 99'')"
  using maskValue_spec [of "''41-11 99''"] by blast

text \<open>
  the voice match is the best one. The similarity reported is the greatest over all prints, or 0;
  unless it is 0 it belongs to the print that is named; and it counts as a match exactly from the
  threshold on.
\<close>

theorem MatchVoice_best:
  fixes fs :: "real list" and rnd :: "real \<Rightarrow> real" and vb :: VoiceBiometrics
  defines "sim \<equiv> \<lambda>vp. cosineSimilarity rnd fs (vp_Features vp)" and "r \<equiv> MatchVoice rnd fs vb"
  shows "(\<forall>vp \<in> set (vb_prints vb). sim vp \<le> vm_Similarity r) \<and> 0 \<le> vm_Similarity r \<and>
         (vm_Similarity r = 0 \<or>
          (\<exists>vp \<in> set (vb_prints vb). sim vp = vm_Similarity r \<and> vm_PrintID r = vp_ID vp \<and> vm_Label r = vp_Label vp \<and> vm_Type r = vp_Type vp)) \<and>
         (vm_Matched r \<longleftrightarrow> vb_threshold vb \<le> vm_Similarity r)"
  using fold_match_print [where rnd = rnd and fs = fs and ps = "vb_prints vb"
      and best = "\<lparr>vm_Matched = False, vm_PrintID = '''', vm_Label = '''', vm_Type = '''', vm_Similarity = 0, vm_Threshold = vb_threshold vb\<rparr>"]
  by (auto simp: r_def sim_def MatchVoice_def Let_def)

theorem MatchVoice_best_witness: "0 \<le> vm_Similarity (MatchVoice id [1] (NewVoiceBiometrics id None))"
  using MatchVoice_best [of "NewVoiceBiometrics id None" id "[1]"] by (simp add: NewVoiceBiometrics_def)

text \<open>
  a print enrolled over the API never matches. The handler enrols silence, whose print is the zero
  vector, and no voice has a positive similarity to it: the outcome of every match is what it was
  before the enrolment.
\<close>

theorem enrolled_silence_inert:
  assumes "float_rounding rnd" "label \<noteq> ''''" "ty \<noteq> ''''"
  shows "MatchVoice rnd fs (fst (handleVoicePrints rnd ident (PrintsPost label ty) vb)) = MatchVoice rnd fs vb"
proof -
  have "ExtractVoicePrint rnd (replicate (16000 * 2 * 3) 0) = replicate 32 0"
    using ExtractVoicePrint_silence [OF assms(1), of 48000] by simp
  moreover have "match_print rnd fs vp b = b" if "vp_Features vp = replicate 32 0" "0 \<le> vm_Similarity b" for vp b
    using that cosine_zero [OF assms(1), of fs 32] by (simp add: match_print_def Let_def)
  ultimately show ?thesis
    using assms(2,3) fold_match_print [where rnd = rnd and fs = fs and ps = "vb_prints vb"
      and best = "\<lparr>vm_Matched = False, vm_PrintID = '''', vm_Label = '''', vm_Type = '''', vm_Similarity = 0, vm_Threshold = vb_threshold vb\<rparr>"]
    by (simp add: handleVoicePrints_def EnrollVoice_def MatchVoice_def Let_def)
qed

theorem enrolled_silence_inert_witness:
  "MatchVoice id [1, 2] (fst (handleVoicePrints id ''id1'' (PrintsPost ''mallory'' ''fraud'') (NewVoiceBiometrics id None)))
   = MatchVoice id [1, 2] (NewVoiceBiometrics id None)"
  by (rule enrolled_silence_inert) (simp_all add: float_rounding_def)

end
