(* ===== verification/Speech_Text.thy ===== *)
theory Speech_Text
  imports Scale
begin

text \<open>
  The text side of the speech pipeline, from \<open>gateway/main.go\<close>: the sentence splitter that feeds the
  synthesiser, the reader of the language model's event stream, the extraction of spoken text from
  JSON, the filter for transcripts that the recogniser invents out of silence, and the list of
  worker URLs.

  JSON decoding is a parameter; the positions \<open>-1\<close> of \<open>sentenceEnd\<close> and \<open>strings.Index\<close> are \<open>None\<close>.
\<close>

subsection \<open>Sentences\<close>

fun sentenceEnd :: "string \<Rightarrow> nat option" where
  "sentenceEnd [] = None"
| "sentenceEnd (c # s) =
     (if c \<in> set ''.!?'' \<and> (s = [] \<or> hd s = CHR '' '') then Some 0 else map_option Suc (sentenceEnd s))"

lemma sentenceEnd_less: "sentenceEnd s = Some i \<Longrightarrow> i < length s"
  by (induction s arbitrary: i) (auto split: if_splits)

function split_loop :: "string list \<Rightarrow> string \<Rightarrow> string list \<times> string" where
  "split_loop sentences buf =
     (case sentenceEnd buf of
        None \<Rightarrow> (sentences, buf)
      | Some idx \<Rightarrow>
          let s = trim_space (take (idx + 1) buf)
          in split_loop (if s \<noteq> [] then sentences @ [s] else sentences) (drop (idx + 1) buf))"
  by auto
termination
  by (relation "measure (\<lambda>(_, buf). length buf)") (auto dest: sentenceEnd_less)

declare split_loop.simps [simp del]

definition splitSentences :: "string \<Rightarrow> string list" where
  "splitSentences txt0 =
     (let (sentences, buf) = split_loop [] txt0;
          rest = trim_space buf;
          sentences1 = (if rest \<noteq> [] then sentences @ [rest] else sentences)
      in if sentences1 = [] \<and> trim_space txt0 \<noteq> [] then [trim_space txt0] else sentences1)"

subsection \<open>The event stream of the language model\<close>

text \<open>
  \<open>bufio.Scanner\<close> with its default split function: lines without their terminator, up to the first
  one that does not fit into the 64 KiB buffer.
\<close>

definition scan_lines :: "string \<Rightarrow> string list" where
  "scan_lines body =
     (let ls = split_on (CHR 0x0A) body;
          ls1 = (if last ls = [] then butlast ls else ls)
      in map (\<lambda>l. trim_suffix l [CHR 0x0D]) (takeWhile (\<lambda>l. length l < 65536) ls1))"

record stream_event =
  ev_Type :: string
  ev_DeltaType :: string
  ev_DeltaText :: string

datatype line_kind = Skip | Stop | Delta string

definition classify_line :: "(string \<Rightarrow> stream_event option) \<Rightarrow> string \<Rightarrow> line_kind" where
  "classify_line decode line =
     (if \<not> has_prefix line ''data: '' then Skip
      else case decode (trim_prefix line ''data: '') of
             None \<Rightarrow> Skip
           | Some e \<Rightarrow>
               if ev_Type e = ''message_stop'' then Stop
               else if ev_Type e \<noteq> ''content_block_delta'' \<or> ev_DeltaType e \<noteq> ''text_delta'' then Skip
               else Delta (ev_DeltaText e))"

text \<open>
  The loop of \<open>streamClaude\<close>. \<open>done k\<close> is true when the \<open>k\<close>-th send to the sentence channel loses
  against the cancelled context. The result holds the sentences sent, the whole text, what is left in
  the sentence buffer, and whether the function returned the context's error.
\<close>

fun stream_loop ::
  "(string \<Rightarrow> stream_event option) \<Rightarrow> (nat \<Rightarrow> bool) \<Rightarrow> string list \<Rightarrow> string list \<Rightarrow> string \<Rightarrow> string
    \<Rightarrow> string list \<times> string \<times> string \<times> bool" where
  "stream_loop decode done [] sent full sentBuf = (sent, full, sentBuf, False)"
| "stream_loop decode done (line # ls) sent full sentBuf =
     (case classify_line decode line of
        Skip \<Rightarrow> stream_loop decode done ls sent full sentBuf
      | Stop \<Rightarrow> (sent, full, sentBuf, False)
      | Delta t \<Rightarrow>
          let full1 = full @ t; buf1 = sentBuf @ t in
          case sentenceEnd buf1 of
            None \<Rightarrow> stream_loop decode done ls sent full1 buf1
          | Some idx \<Rightarrow>
              if done (length sent) then (sent, full1, buf1, True)
              else stream_loop decode done ls (sent @ [trim_space (take (idx + 1) buf1)]) full1 (drop (idx + 1) buf1))"

text \<open>
  \<open>http\<close> is the outcome of the request for a list of messages: an error before a response, or the
  status and body.
\<close>

definition streamClaude ::
  "(string \<Rightarrow> stream_event option) \<Rightarrow> (nat \<Rightarrow> bool) \<Rightarrow> string + nat \<times> string \<Rightarrow> string list \<times> string \<times> string option" where
  "streamClaude decode done http =
     (case http of
        Inl err \<Rightarrow> ([], '''', Some err)
      | Inr (code, body) \<Rightarrow>
          if code \<noteq> 200 then ([], '''', Some (''claude '' @ dec code @ '': '' @ body))
          else
            let (sent, full, sentBuf, cancelled) = stream_loop decode done (scan_lines body) [] [] [];
                rest = trim_space sentBuf
            in if cancelled then (sent, full, Some ''context canceled'')
               else (if rest \<noteq> [] \<and> \<not> done (length sent) then sent @ [rest] else sent, full, None))"

fun read_deltas :: "(string \<Rightarrow> stream_event option) \<Rightarrow> string list \<Rightarrow> string" where
  "read_deltas decode [] = ''''"
| "read_deltas decode (line # ls) =
     (case classify_line decode line of
        Skip \<Rightarrow> read_deltas decode ls
      | Stop \<Rightarrow> ''''
      | Delta t \<Rightarrow> t @ read_deltas decode ls)"

definition streamClaudeNoSplit :: "(string \<Rightarrow> stream_event option) \<Rightarrow> string + nat \<times> string \<Rightarrow> string + string" where
  "streamClaudeNoSplit decode http =
     (case http of
        Inl err \<Rightarrow> Inl err
      | Inr (code, body) \<Rightarrow>
          if code \<noteq> 200 then Inl (''claude '' @ dec code @ '': '' @ body)
          else Inr (read_deltas decode (scan_lines body)))"

subsection \<open>Text out of JSON\<close>

definition text_key :: string where
  "text_key = CHR 0x22 # ''text'' @ [CHR 0x22]"

text \<open>\<open>text_field s\<close> is the string under \<open>text\<close> when \<open>s\<close> is a JSON object that has one.\<close>

definition stripJSONToText :: "(string \<Rightarrow> string option) \<Rightarrow> string \<Rightarrow> string" where
  "stripJSONToText text_field s0 =
     (let s = trim_space s0;
          quote = [CHR 0x22];
          embedded = (case str_index s text_key of None \<Rightarrow> None
            | Some idx \<Rightarrow>
                let rest = drop (idx + 6) s in
                (case str_index rest quote of None \<Rightarrow> None
                 | Some ci \<Rightarrow>
                     let rest1 = drop (ci + 1) rest in
                     map_option (\<lambda>ei. take ei rest1) (str_index rest1 quote)));
          fallback = (case embedded of Some t \<Rightarrow> t | None \<Rightarrow> if has_prefix s ''{'' then '''' else s)
      in if s = [] then s
         else case text_field s of
                Some t \<Rightarrow> if t \<noteq> '''' then t else fallback
              | None \<Rightarrow> fallback)"

subsection \<open>Invented transcripts\<close>

definition remove_chars :: "string \<Rightarrow> string \<Rightarrow> string" where
  "remove_chars cs s = filter (\<lambda>c. c \<notin> set cs) s"

definition str_count :: "string \<Rightarrow> string \<Rightarrow> nat" where
  "str_count s t = length (split_str t s) - 1"

definition exact_phrases :: "string list" where
  "exact_phrases =
     [''thanks for watching'', ''thanks for listening'', ''bye'', ''goodbye'', ''oh'', ''hmm'', ''uh'', ''um'',
      ''all right'', ''alright'']"

definition repeat_phrases :: "string list" where
  "repeat_phrases =
     [''thank you'', ''all right'', ''alright'', ''okay'', ''good'', ''yeah'', ''yes'', ''no'', ''day'',
      ''i'' @ [CHR 0x27] @ ''m sorry'', ''sorry'', ''we'' @ [CHR 0x27] @ ''ll be right back'', ''ladies and gentlemen'',
      ''i don'' @ [CHR 0x27] @ ''t know'', ''hello'', ''we'' @ [CHR 0x27] @ ''re'']"

definition bigrams :: "string list \<Rightarrow> string list" where
  "bigrams ws = map2 (\<lambda>a b. a @ '' '' @ b) ws (tl ws)"

definition isWhisperHallucination :: "(real \<Rightarrow> real) \<Rightarrow> string \<Rightarrow> bool" where
  "isWhisperHallucination rnd txt0 =
     (let lower = to_lower (trim_space txt0);
          cleaned = trim_space (remove_chars (''.,!?'' @ [CHR 0x27]) lower);
          words = Prelude.fields cleaned
      in cleaned = '''' \<or>
         remove_chars ''. '' lower = '''' \<or>
         cleaned \<in> set exact_phrases \<or>
         list_ex (\<lambda>h. str_count lower h \<ge> 3) repeat_phrases \<or>
         length words \<ge> 4 \<and>
           list_ex (\<lambda>w. count_list words w \<ge> 4 \<and> rnd (of_nat (count_list words w) / of_nat (length words)) > rnd (4 / 10)) words \<or>
         length words \<ge> 10 \<and> rnd (of_nat (length (remdups words)) / of_nat (length words)) < 1 / 4 \<or>
         length words \<ge> 8 \<and> list_ex (\<lambda>b. count_list (bigrams words) b \<ge> 4) (bigrams words))"

subsection \<open>Helpers of the configuration and of events\<close>

definition parseWorkerURLs :: "string \<Rightarrow> string list" where
  "parseWorkerURLs us = filter (\<lambda>p. p \<noteq> '''') (map trim_space (split_on (CHR '','') us))"

subsection \<open>Lemmas: characters that are not space\<close>

definition nonspace :: "string \<Rightarrow> string" where
  "nonspace s = filter (\<lambda>c. \<not> is_space c) s"

lemma nonspace_append [simp]: "nonspace (s @ t) = nonspace s @ nonspace t"
  by (simp add: nonspace_def)

lemma nonspace_Nil [simp]: "nonspace [] = []"
  by (simp add: nonspace_def)

lemma filter_dropWhile_other: "filter (\<lambda>x. \<not> P x) (dropWhile P xs) = filter (\<lambda>x. \<not> P x) xs"
  by (induction xs) auto

lemma nonspace_trim [simp]: "nonspace (trim_space s) = nonspace s"
  by (simp add: nonspace_def trim_space_def trim_by_def trim_right_def trim_left_def filter_dropWhile_other
    flip: rev_filter)

lemma trim_space_trim [simp]: "trim_space (trim_space s) = trim_space s"
  by (simp add: trim_space_def)

lemma trim_space_nonspace: "trim_space s = [] \<longleftrightarrow> nonspace s = []"
proof
  assume "trim_space s = []"
  then show "nonspace s = []" using nonspace_trim [of s] by simp
next
  assume "nonspace s = []"
  then show "trim_space s = []"
    using nonspace_trim [of s] hd_trim_by [of is_space s]
    by (cases "trim_space s") (auto simp: trim_space_def nonspace_def)
qed

lemma trim_space_prefix: "\<forall>c \<in> set u. is_space c \<Longrightarrow> trim_space (u @ s) = trim_space s"
  by (simp add: trim_space_def trim_by_def trim_left_def dropWhile_append)

lemma trim_space_split:
  obtains u v where "s = u @ trim_space s @ v" "\<forall>c \<in> set u. is_space c" "\<forall>c \<in> set v. is_space c"
proof -
  let ?l = "dropWhile is_space s"
  have 1: "s = takeWhile is_space s @ ?l" by simp
  have 2: "?l = trim_space s @ rev (takeWhile is_space (rev ?l))"
    unfolding trim_space_def trim_by_def trim_left_def trim_right_def
    by (metis rev_append rev_rev_ident takeWhile_dropWhile_id)
  show ?thesis
    by (rule that [of "takeWhile is_space s" "rev (takeWhile is_space (rev ?l))"])
      (use 1 2 in \<open>auto dest: set_takeWhileD\<close>)
qed

subsection \<open>Lemmas: sentence ends\<close>

lemma space_not_end: "is_space c \<Longrightarrow> c \<notin> set ''.!?''"
  by (auto simp: is_space_def)

lemma sentenceEnd_spaces: "\<forall>c \<in> set u. is_space c \<Longrightarrow> sentenceEnd (u @ s) = map_option ((+) (length u)) (sentenceEnd s)"
  by (induction u) (cases "sentenceEnd s"; auto dest: space_not_end)+

lemma sentenceEnd_take: "sentenceEnd s = Some i \<Longrightarrow> sentenceEnd (take (i + 1) s) = Some i"
proof (induction s arbitrary: i)
  case (Cons c s)
  then show ?case by (cases s) (auto split: if_splits)
qed simp

lemma sentenceEnd_prefix:
  "sentenceEnd (s @ t) = None \<Longrightarrow> sentenceEnd s = Some i \<Longrightarrow> i + 1 = length s"
proof (induction s arbitrary: i)
  case (Cons c s)
  then show ?case by (cases s) (auto split: if_splits)
qed simp

lemma sentenceEnd_before_space:
  "sentenceEnd w = Some (length w - 1) \<Longrightarrow> sentenceEnd (w @ CHR '' '' # t) = Some (length w - 1)"
proof (induction w)
  case (Cons c w)
  then show ?case by (cases w) (auto split: if_splits)
qed simp

lemma sentenceEnd_last: "sentenceEnd s = Some i \<Longrightarrow> s ! i \<in> set ''.!?''"
  by (induction s arbitrary: i) (auto split: if_splits)

text \<open>A complete sentence ends where its text ends, and nowhere before.\<close>

definition complete :: "string \<Rightarrow> bool" where
  "complete w \<longleftrightarrow> w \<noteq> [] \<and> trim_space w = w \<and> sentenceEnd w = Some (length w - 1)"

definition last_sentence :: "string \<Rightarrow> bool" where
  "last_sentence w \<longleftrightarrow> w \<noteq> [] \<and> trim_space w = w \<and> (sentenceEnd w = None \<or> sentenceEnd w = Some (length w - 1))"

lemma complete_last: "complete w \<Longrightarrow> last_sentence w"
  by (simp add: complete_def last_sentence_def)

lemma trim_sentence_complete:
  assumes "sentenceEnd buf = Some i"
  shows "complete (trim_space (take (i + 1) buf))"
proof -
  let ?t = "take (i + 1) buf"
  have i: "i < length buf" using assms by (rule sentenceEnd_less)
  have e: "sentenceEnd ?t = Some i" using assms by (rule sentenceEnd_take)
  have l: "last ?t = buf ! i" using i by (simp add: take_Suc_conv_app_nth)
  have ns: "\<not> is_space (buf ! i)" using sentenceEnd_last [OF assms] space_not_end by blast
  obtain u v where uv: "?t = u @ trim_space ?t @ v" "\<forall>c \<in> set u. is_space c" "\<forall>c \<in> set v. is_space c"
    by (rule trim_space_split)
  have "v = []"
  proof (rule ccontr)
    assume "v \<noteq> []"
    then have "last ?t = last v" using uv(1) by (metis last_appendR append_is_Nil_conv)
    with \<open>v \<noteq> []\<close> uv(3) l ns show False by (metis last_in_set)
  qed
  then have t: "?t = u @ trim_space ?t" using uv(1) by simp
  have "sentenceEnd ?t = map_option ((+) (length u)) (sentenceEnd (trim_space ?t))"
    using sentenceEnd_spaces [OF uv(2), of "trim_space ?t"] t by simp
  with e obtain j where j: "sentenceEnd (trim_space ?t) = Some j" "length u + j = i"
    by (cases "sentenceEnd (trim_space ?t)") auto
  have "length u + length (trim_space ?t) = i + 1" using t i by (metis length_append length_take min_absorb2 Suc_leI Suc_eq_plus1)
  with j show ?thesis by (auto simp: complete_def)
qed

lemma trim_rest_last:
  assumes "sentenceEnd buf = None" "trim_space buf \<noteq> []"
  shows "last_sentence (trim_space buf)"
proof -
  obtain u v where uv: "buf = u @ trim_space buf @ v" "\<forall>c \<in> set u. is_space c" by (rule trim_space_split)
  then have "sentenceEnd (trim_space buf @ v) = None"
    using assms(1) sentenceEnd_spaces [OF uv(2), of "trim_space buf @ v"] by (cases "sentenceEnd (trim_space buf @ v)") auto
  then show ?thesis
    using assms(2) sentenceEnd_prefix by (cases "sentenceEnd (trim_space buf)") (fastforce simp: last_sentence_def)+
qed

lemma split_loop_None: "sentenceEnd buf = None \<Longrightarrow> split_loop acc buf = (acc, buf)"
  by (simp add: split_loop.simps)

lemma split_loop_Some:
  "sentenceEnd buf = Some i \<Longrightarrow> split_loop acc buf = split_loop (acc @ [trim_space (take (i + 1) buf)]) (drop (i + 1) buf)"
  using trim_sentence_complete [of buf i] by (subst split_loop.simps) (simp add: complete_def Let_def)

lemma split_loop_cases [case_names None Some]:
  assumes "\<And>acc buf. sentenceEnd buf = None \<Longrightarrow> P acc buf"
    and "\<And>acc buf i. sentenceEnd buf = Some i \<Longrightarrow> P (acc @ [trim_space (take (i + 1) buf)]) (drop (i + 1) buf) \<Longrightarrow> P acc buf"
  shows "P acc buf"
proof (induction "length buf" arbitrary: acc buf rule: less_induct)
  case less
  then show ?case using assms sentenceEnd_less [of buf] by (cases "sentenceEnd buf") fastforce+
qed

lemma split_loop_complete:
  "list_all complete acc \<Longrightarrow> list_all complete (fst (split_loop acc buf)) \<and> sentenceEnd (snd (split_loop acc buf)) = None"
  by (induction acc buf rule: split_loop_cases) (simp_all add: split_loop_None split_loop_Some trim_sentence_complete del: One_nat_def add_Suc_right)

lemma split_loop_nonspace:
  "nonspace (concat (fst (split_loop acc buf)) @ snd (split_loop acc buf)) = nonspace (concat acc @ buf)"
proof (induction acc buf rule: split_loop_cases)
  case (Some acc buf i)
  have "nonspace (take (i + 1) buf) @ nonspace (drop (i + 1) buf) = nonspace buf"
    by (metis append_take_drop_id nonspace_append)
  with Some show ?case by (simp add: split_loop_Some)
qed (simp add: split_loop_None)

definition finish :: "string list \<times> string \<Rightarrow> string list" where
  "finish r = (if trim_space (snd r) \<noteq> [] then fst r @ [trim_space (snd r)] else fst r)"

lemma nonspace_finish: "nonspace (concat (finish r)) = nonspace (concat (fst r) @ snd r)"
  using trim_space_nonspace [of "snd r"] by (simp add: finish_def)

lemma splitSentences_finish: "splitSentences s = finish (split_loop [] s)"
proof -
  have "finish (split_loop [] s) = [] \<Longrightarrow> trim_space s = []"
    using nonspace_finish [of "split_loop [] s"] split_loop_nonspace [of "[]" s] by (simp add: trim_space_nonspace)
  then show ?thesis
    by (auto simp: splitSentences_def finish_def Let_def split: prod.splits)
qed

text \<open>Splitting the sentences of a list, joined by blanks, gives the list back.\<close>

lemma split_join:
  assumes "ws \<noteq> []" "list_all complete (butlast ws)" "last_sentence (last ws)" "\<forall>c \<in> set u. is_space c"
  shows "finish (split_loop acc (u @ join ws '' '')) = acc @ ws"
  using assms
proof (induction ws "'' ''" arbitrary: u acc rule: join.induct)
  case (2 w)
  then have w: "trim_space (u @ w) = w" "w \<noteq> []" by (simp_all add: trim_space_prefix last_sentence_def)
  show ?case
  proof (cases "sentenceEnd w")
    case None
    then have "sentenceEnd (u @ w) = None" using 2 by (simp add: sentenceEnd_spaces)
    with w show ?thesis by (simp add: split_loop_None finish_def)
  next
    case (Some i)
    then have i: "i + 1 = length w" using 2 w(2) by (auto simp: last_sentence_def)
    have "sentenceEnd (u @ w) = Some (length u + i)" using 2 Some by (simp add: sentenceEnd_spaces)
    from split_loop_Some [OF this, of acc] i w show ?thesis
      by (simp add: split_loop_None finish_def)
  qed
next
  case (3 w v ws)
  then have w: "trim_space (u @ w) = w" "w \<noteq> []" "complete w" by (simp_all add: trim_space_prefix complete_def)
  let ?t = "join (v # ws) '' ''"
  have "sentenceEnd (u @ w @ CHR '' '' # ?t) = Some (length u + (length w - 1))"
    using 3(5) w(3) by (simp add: sentenceEnd_spaces sentenceEnd_before_space complete_def)
  from split_loop_Some [OF this, of acc] w
  have "split_loop acc (u @ w @ CHR '' '' # ?t) = split_loop (acc @ [w]) ([CHR '' ''] @ ?t)" by simp
  moreover have "finish (split_loop (acc @ [w]) ([CHR '' ''] @ ?t)) = (acc @ [w]) @ v # ws"
    by (rule 3(1)) (use 3 in \<open>auto simp: is_space_def split: if_splits\<close>)
  ultimately show ?case by simp
qed auto

lemma finish_sentences:
  assumes "finish (split_loop [] s) \<noteq> []"
  shows "list_all complete (butlast (finish (split_loop [] s)))" "last_sentence (last (finish (split_loop [] s)))"
proof -
  have "list_all complete (fst (split_loop [] s))" "sentenceEnd (snd (split_loop [] s)) = None"
    using split_loop_complete [of "[]" s] by simp_all
  with assms show "list_all complete (butlast (finish (split_loop [] s)))" "last_sentence (last (finish (split_loop [] s)))"
    by (auto simp: finish_def trim_rest_last list_all_iff complete_last dest: in_set_butlastD split: if_splits)
qed

lemma stream_loop_spec:
  assumes "stream_loop decode done ls sent full buf = (sent', full', buf', cancelled)"
    and "list_all (\<lambda>w. w \<noteq> [] \<and> trim_space w = w) sent"
    and "nonspace (concat sent @ buf) = nonspace full"
  shows "list_all (\<lambda>w. w \<noteq> [] \<and> trim_space w = w) sent' \<and> nonspace (concat sent' @ buf') = nonspace full' \<and>
    (\<not> cancelled \<longrightarrow> full' = full @ read_deltas decode ls)"
  using assms
proof (induction decode "done" ls sent full buf rule: stream_loop.induct)
  case (2 decode "done" line ls sent full buf)
  show ?case
  proof (cases "classify_line decode line")
    case (Delta t)
    show ?thesis
    proof (cases "sentenceEnd (buf @ t)")
      case (Some i)
      let ?b = "buf @ t"
      have "nonspace (take (i + 1) ?b) @ nonspace (drop (i + 1) ?b) = nonspace ?b"
        by (metis append_take_drop_id nonspace_append)
      with 2 Delta Some trim_sentence_complete [OF Some] show ?thesis
        by (auto simp: complete_def Let_def split: if_splits)
    qed (use 2 Delta in auto)
  qed (use 2 in auto)
qed auto

subsection \<open>Properties\<close>

text \<open>
  the splitter loses nothing of what is to be spoken and cuts at the right places: the sentences
  carry, in order, every character of the text that is not white space; none is empty or padded;
  each ends at a sentence end and has none inside, except that the last may be unfinished; and
  splitting the sentences joined by blanks gives the same sentences again.
\<close>

theorem splitSentences_spec:
  "nonspace (concat (splitSentences s)) = nonspace s \<and>
   (splitSentences s = [] \<longleftrightarrow> nonspace s = []) \<and>
   list_all complete (butlast (splitSentences s)) \<and>
   (splitSentences s = [] \<or> last_sentence (last (splitSentences s))) \<and>
   splitSentences (join (splitSentences s) '' '') = splitSentences s"
proof -
  let ?ws = "finish (split_loop [] s)"
  have ns: "nonspace (concat ?ws) = nonspace s"
    using nonspace_finish [of "split_loop [] s"] split_loop_nonspace [of "[]" s] by simp
  have empty: "?ws = [] \<longleftrightarrow> nonspace s = []"
  proof
    assume ns0: "nonspace s = []"
    show "?ws = []"
    proof (rule ccontr)
      assume "?ws \<noteq> []"
      then have "last_sentence (last ?ws)" "last ?ws \<in> set ?ws" by (simp_all add: finish_sentences)
      then show False using ns ns0 trim_space_nonspace [of "last ?ws"]
        by (auto simp: last_sentence_def nonspace_def filter_concat)
    qed
  qed (use ns in auto)
  have "splitSentences (join ?ws '' '') = ?ws"
  proof (cases "?ws = []")
    case False
    from split_join [OF this finish_sentences [OF False], of "[]" "[]"] show ?thesis
      by (simp add: splitSentences_finish)
  qed (simp add: splitSentences_finish split_loop_None finish_def)
  then show ?thesis
    using ns empty finish_sentences [of s] by (cases "?ws = []") (simp_all add: splitSentences_finish)
qed

text \<open>
  reading the model's event stream sentence by sentence delivers the same text as reading it whole:
  unless the call is cancelled, the full text is the one of the other reader, and the sentences sent
  carry every character of it that is not white space, in order; none is empty or padded.
\<close>

theorem streamClaude_no_loss:
  fixes http :: "string + nat \<times> string"
  assumes "\<And>k. \<not> done k" "streamClaudeNoSplit decode http = Inr reply"
  shows "\<exists>sent. streamClaude decode done http = (sent, reply, None) \<and> nonspace (concat sent) = nonspace reply \<and>
    list_all (\<lambda>w. w \<noteq> [] \<and> trim_space w = w) sent"
proof -
  from assms(2) obtain body where h: "http = Inr (200, body)" "reply = read_deltas decode (scan_lines body)"
    by (auto simp: streamClaudeNoSplit_def split: sum.splits prod.splits if_splits)
  obtain sent full buf c where r: "stream_loop decode done (scan_lines body) [] [] [] = (sent, full, buf, c)"
    by (metis prod_cases4)
  have nc: "\<not> c"
  proof -
    have "\<not> snd (snd (snd (stream_loop decode done ls sent full buf)))" for ls sent full buf
      by (induction ls arbitrary: sent full buf)
        (use assms(1) in \<open>auto simp: Let_def split: line_kind.splits option.splits\<close>)
    from this [of "scan_lines body" "[]" "[]" "[]"] show ?thesis by (simp add: r)
  qed
  have "list_all (\<lambda>w. w \<noteq> [] \<and> trim_space w = w) sent" "nonspace (concat sent @ buf) = nonspace full" "full = reply"
    using stream_loop_spec [OF r] nc by (simp_all add: h)
  then show ?thesis
    using assms(1) nc trim_space_nonspace [of buf] by (auto simp: streamClaude_def h(1) r Let_def)
qed

definition example_decode :: "string \<Rightarrow> stream_event option" where
  "example_decode s = Some \<lparr>ev_Type = ''content_block_delta'', ev_DeltaType = ''text_delta'', ev_DeltaText = s\<rparr>"

theorem streamClaude_no_loss_witness:
  "fst (snd (streamClaude example_decode (\<lambda>_. False) (Inr (200, ''data: Hi. You'')))) = ''Hi. You''"
proof -
  have "streamClaudeNoSplit example_decode (Inr (200, ''data: Hi. You'')) = Inr ''Hi. You''"
    by (simp add: streamClaudeNoSplit_def scan_lines_def classify_line_def example_decode_def has_prefix_def trim_prefix_def
      trim_suffix_def has_suffix_def)
  from streamClaude_no_loss [OF _ this, of "\<lambda>_. False"] show ?thesis by auto
qed

text \<open>
  the filter for invented transcripts drops genuine sentences: phrases are counted as substrings, so
  any transcript with three words that contain \<open>no\<close> is discarded, whatever the rounding of the
  shares computed later.
\<close>

theorem substring_repetition_dropped:
  "str_count (to_lower (trim_space txt0)) ''no'' \<ge> 3 \<Longrightarrow> isWhisperHallucination rnd txt0"
proof -
  assume "str_count (to_lower (trim_space txt0)) ''no'' \<ge> 3"
  moreover have "''no'' \<in> set repeat_phrases" by (simp add: repeat_phrases_def)
  ultimately have "list_ex (\<lambda>h. str_count (to_lower (trim_space txt0)) h \<ge> 3) repeat_phrases"
    by (auto simp: list_ex_iff)
  then show ?thesis by (simp add: isWhisperHallucination_def Let_def)
qed

theorem substring_repetition_dropped_witness: "isWhisperHallucination (\<lambda>x. x) ''I know nothing now''"
proof -
  have "str_count (to_lower (trim_space ''I know nothing now'')) ''no'' \<ge> 3"
    by code_simp
  from substring_repetition_dropped [OF this] show ?thesis .
qed

end
