(* ===== verification/Esl.thy ===== *)
theory Esl
  imports Failover
begin

text \<open>
  The client of the FreeSWITCH event socket in \<open>gateway/main.go\<close> (\<open>readESLResponse\<close>,
  \<open>eslClient.execute\<close>) and its user \<open>handleCall\<close>, the endpoint that originates outbound calls.

  What the server sends over a connection is one string, read from the front; a read beyond its end
  is the error \<open>EOF\<close>. The result of a function that also reads is paired with what is left.
\<close>

subsection \<open>Responses\<close>

definition newline :: char where
  "newline = CHR 0x0A"

text \<open>\<open>ReadString\<close>: the line with its newline and the rest, or \<open>None\<close> when no newline is left.\<close>

definition read_line :: "string \<Rightarrow> (string \<times> string) option" where
  "read_line s =
     (if newline \<in> set s then Some (takeWhile (\<lambda>c. c \<noteq> newline) s, tl (dropWhile (\<lambda>c. c \<noteq> newline) s)) else None)"

definition digits_value :: "string \<Rightarrow> nat" where
  "digits_value s = fold (\<lambda>c n. 10 * n + (of_char c - 48)) s 0"

text \<open>
  \<open>fmt.Sscanf(line, "Content-Length: %d", &contentLen)\<close> on a line with that prefix: at least one
  blank, an optional sign and digits of an \<open>int\<close>; otherwise the variable keeps its value.
\<close>

definition scan_content_length :: "string \<Rightarrow> int \<Rightarrow> int" where
  "scan_content_length line old =
     (let r = drop (length ''Content-Length:'') line;
          r1 = dropWhile is_space r;
          neg = has_prefix r1 ''-'';
          r2 = (if neg \<or> has_prefix r1 ''+'' then tl r1 else r1);
          ds = takeWhile is_digit r2;
          v = (if neg then - int (digits_value ds) else int (digits_value ds))
      in if r = [] \<or> \<not> is_space (hd r) \<or> ds = [] \<or> v < - (2 ^ 63) \<or> v \<ge> 2 ^ 63 then old else v)"

lemma read_line_less: "read_line s = Some (l, r) \<Longrightarrow> length r < length s"
proof -
  assume "read_line s = Some (l, r)"
  then have "newline \<in> set s" "r = tl (dropWhile (\<lambda>c. c \<noteq> newline) s)" by (auto simp: read_line_def split: if_splits)
  moreover have "s \<noteq> []" using calculation by auto
  ultimately show ?thesis
    using length_dropWhile_le [of "\<lambda>c. c \<noteq> newline" s] by (cases s) auto
qed

text \<open>The header loop: the response so far, the content length, and whether the input ended.\<close>

function read_headers :: "string \<Rightarrow> int \<Rightarrow> string \<Rightarrow> string \<times> int \<times> bool \<times> string" where
  "read_headers resp contentLen input =
     (case read_line input of
        None \<Rightarrow> (resp, contentLen, True, [])
      | Some (raw, rest) \<Rightarrow>
          let line = trim_right (\<lambda>c. c = CHR 0x0D \<or> c = newline) raw in
          if line = [] then (resp, contentLen, False, rest)
          else read_headers (resp @ line @ [newline])
                 (if has_prefix line ''Content-Length:'' then scan_content_length line contentLen else contentLen) rest)"
  by auto
termination
  by (relation "measure (\<lambda>(_, _, input). length input)") (auto dest: read_line_less)

declare read_headers.simps [simp del]

definition readESLResponse :: "string \<Rightarrow> (string \<times> bool) \<times> string" where
  "readESLResponse input =
     (let (resp, contentLen, err, rest) = read_headers [] 0 input in
      if err then ((resp, True), rest)
      else if contentLen > 0 then
        (if length rest < nat contentLen then ((resp, True), [])
         else ((resp @ take (nat contentLen) rest, False), drop (nat contentLen) rest))
      else ((resp, False), rest))"

subsection \<open>Commands\<close>

text \<open>
  \<open>conn\<close> is what the server sends, or the error of the dial. The first component of the result is
  what the client writes.
\<close>

definition execute :: "string \<Rightarrow> string \<Rightarrow> string + string \<Rightarrow> string list \<times> (string + string)" where
  "execute password command conn =
     (case conn of
        Inl err \<Rightarrow> ([], Inl (''esl connect: '' @ err))
      | Inr input \<Rightarrow>
          let ((r0, e0), i1) = readESLResponse input in
          if e0 then ([], Inl ''esl auth request: EOF'')
          else
            let auth = ''auth '' @ password @ [newline, newline];
                ((authResp, e1), i2) = readESLResponse i1
            in if e1 then ([auth], Inl ''esl auth: EOF'')
               else if \<not> str_contains authResp ''+OK'' then ([auth], Inl (''esl auth rejected: '' @ authResp))
               else
                 let ((resp, e2), i3) = readESLResponse i2
                 in ([auth, ''api '' @ command @ [newline, newline]], if e2 then Inl ''EOF'' else Inr resp))"

subsection \<open>Outbound calls\<close>

record callRequest =
  cr_To :: string
  cr_From :: string
  cr_Mode :: string

datatype callResponse = CallError string | Originated string

definition originate_cmd :: "callRequest \<Rightarrow> string" where
  "originate_cmd req =
     (let src = (if cr_From req = '''' then ''0000000000'' else cr_From req) in
      if cr_Mode req = ''loopback''
      then ''originate {origination_caller_id_number='' @ src @ '',origination_caller_id_name=AI-Agent,sip_auto_answer=true}sofia/external/''
           @ cr_To req @ ''@172.18.0.3:5060 &park''
      else ''originate {origination_caller_id_number='' @ src @ '',origination_caller_id_name=AI-Agent}sofia/gateway/sbc/''
           @ cr_To req @ '' &transfer('' @ cr_To req @ '' XML public)'')"

definition originate_result :: "string \<Rightarrow> callResponse response" where
  "originate_result resp =
     (let result = trim_space (last (split_on newline (trim_space resp))) in
      if str_contains result ''-ERR'' then WriteJSON 502 (CallError (trim_prefix result ''-ERR ''))
      else WriteJSON 200 (Originated (trim_space (trim_prefix result ''+OK ''))))"

text \<open>\<open>esl\<close> is the event socket: the outcome of each command.\<close>

definition handleCall :: "event_socket \<Rightarrow> bool \<Rightarrow> callRequest option \<Rightarrow> string list \<times> callResponse response" where
  "handleCall socket isPost body =
     (if \<not> isPost then ([], HttpError 405 ''{\"error\":\"method not allowed\"}'')
      else case body of
             None \<Rightarrow> ([], WriteJSON 400 (CallError ''invalid JSON''))
           | Some req \<Rightarrow>
               if cr_To req = '''' then ([], WriteJSON 400 (CallError ''to is required''))
               else
                 let cmd = originate_cmd req in
                 ([cmd], case socket cmd of
                           Inl err \<Rightarrow> WriteJSON 502 (CallError err)
                         | Inr resp \<Rightarrow> originate_result resp))"

subsection \<open>Lemmas\<close>

lemma read_line_append: "newline \<notin> set l \<Longrightarrow> read_line (l @ newline # r) = Some (l, r)"
  by (induction l) (auto simp: read_line_def)

lemma trim_right_id: "(s \<noteq> [] \<Longrightarrow> \<not> p (last s)) \<Longrightarrow> trim_right p s = s"
  using dropWhile_hd [of "rev s" p] by (simp add: trim_right_def hd_rev)

text \<open>A header line as the server writes it: not empty, with neither newline nor carriage return.\<close>

definition header_line :: "string \<Rightarrow> bool" where
  "header_line l \<longleftrightarrow> l \<noteq> [] \<and> newline \<notin> set l \<and> CHR 0x0D \<notin> set l"

fun lengths :: "string list \<Rightarrow> int \<Rightarrow> int" where
  "lengths [] n = n"
| "lengths (l # ls) n = lengths ls (if has_prefix l ''Content-Length:'' then scan_content_length l n else n)"

lemma trim_header: "header_line l \<Longrightarrow> trim_right (\<lambda>c. c = CHR 0x0D \<or> c = newline) (l @ cr) = l"
  if "cr = [] \<or> cr = [CHR 0x0D]"
proof -
  assume h: "header_line l"
  then have "trim_right (\<lambda>c. c = CHR 0x0D \<or> c = newline) l = l"
    by (intro trim_right_id) (metis header_line_def last_in_set)
  moreover have "trim_right (\<lambda>c. c = CHR 0x0D \<or> c = newline) (l @ [CHR 0x0D]) = trim_right (\<lambda>c. c = CHR 0x0D \<or> c = newline) l"
    by (simp add: trim_right_def)
  ultimately show ?thesis using that by auto
qed

lemma read_headers_lines:
  assumes "list_all header_line ls" "cr = [] \<or> cr = [CHR 0x0D]"
  shows "read_headers resp n (concat (map (\<lambda>l. l @ cr @ [newline]) ls) @ cr @ newline # rest)
    = (resp @ concat (map (\<lambda>l. l @ [newline]) ls), lengths ls n, False, rest)"
  using assms
proof (induction ls arbitrary: resp n)
  case Nil
  have "read_line (cr @ newline # rest) = Some (cr, rest)"
    using Nil by (intro read_line_append) (auto simp: newline_def)
  moreover have "trim_right (\<lambda>c. c = CHR 0x0D \<or> c = newline) cr = []" using Nil by (auto simp: trim_right_def)
  ultimately show ?case by (simp add: read_headers.simps)
next
  case (Cons l ls)
  let ?rest = "concat (map (\<lambda>l. l @ cr @ [newline]) ls) @ cr @ newline # rest"
  have "read_line ((l @ cr) @ newline # ?rest) = Some (l @ cr, ?rest)"
    using Cons by (intro read_line_append) (auto simp: header_line_def newline_def)
  moreover have "trim_right (\<lambda>c. c = CHR 0x0D \<or> c = newline) (l @ cr) = l"
    using Cons by (intro trim_header) auto
  ultimately show ?case
    using Cons by (subst read_headers.simps) (simp add: header_line_def Let_def)
qed

lemma of_char_digit: "n < 10 \<Longrightarrow> of_char (char_of (48 + n)) = (48 + n :: nat)"
  by (simp add: of_char_of take_bit_eq_mod)

lemma digits_value_append: "digits_value (s @ [c]) = 10 * digits_value s + (of_char c - 48)"
  by (simp add: digits_value_def)

lemma dec_digits: "digits_value (dec n) = n \<and> list_all is_digit (dec n) \<and> dec n \<noteq> []"
proof (induction n rule: dec.induct)
  case (1 n)
  show ?case
  proof (cases "n < 10")
    case True
    then show ?thesis using of_char_digit [of n] by (simp add: dec.simps digits_value_def is_digit_def)
  next
    case False
    then show ?thesis using 1 of_char_digit [of "n mod 10"]
      by (subst (1 2 3) dec.simps) (simp add: digits_value_append is_digit_def [of "char_of _"])
  qed
qed

lemma hd_dec: "is_digit (hd (dec n))"
  using dec_digits [of n] by (cases "dec n") auto

lemma digit_char: "is_digit c \<Longrightarrow> \<not> is_space c \<and> c \<noteq> CHR ''-'' \<and> c \<noteq> CHR ''+'' \<and> c \<noteq> newline \<and> c \<noteq> CHR 0x0D"
  by (auto simp: is_digit_def is_space_def newline_def)

definition content_length :: "nat \<Rightarrow> string" where
  "content_length n = ''Content-Length: '' @ dec n"

lemma scan_content_length_dec:
  assumes "n < 2 ^ 63"
  shows "scan_content_length (content_length n) old = int n"
proof -
  note d = dec_digits [of n] and h = digit_char [OF hd_dec, of n]
  have t: "takeWhile is_digit (dec n) = dec n" using d by (metis list_all_iff takeWhile_eq_all_conv)
  have s: "dropWhile is_space (dec n) = dec n" using h by (intro dropWhile_hd) simp
  have "\<not> has_prefix (dec n) ''-''" "\<not> has_prefix (dec n) ''+''"
    using h d by (auto simp: has_prefix_iff)
  moreover have "n < 9223372036854775808" using assms by simp
  moreover have "is_space (CHR '' '')" by (simp add: is_space_def)
  ultimately show ?thesis using d by (simp add: scan_content_length_def content_length_def Let_def t s)
qed

lemma content_length_header: "header_line (content_length n)" "has_prefix (content_length n) ''Content-Length:''"
proof -
  have "c \<in> set (dec n) \<Longrightarrow> is_digit c" for c
    using dec_digits [of n] by (auto simp: list_all_iff)
  then show "header_line (content_length n)"
    using digit_char by (auto simp: header_line_def content_length_def newline_def)
  show "has_prefix (content_length n) ''Content-Length:''" by (simp add: has_prefix_def content_length_def)
qed

lemma lengths_other: "list_all (\<lambda>l. \<not> has_prefix l ''Content-Length:'') ls \<Longrightarrow> lengths ls n = n"
  by (induction ls) auto

lemma lengths_append: "lengths (ls @ ms) n = lengths ms (lengths ls n)"
  by (induction ls arbitrary: n) auto

subsection \<open>Properties\<close>

text \<open>A response of the server: header lines, a content length, a blank line and the body.\<close>

definition esl_message :: "string \<Rightarrow> string list \<Rightarrow> string \<Rightarrow> string" where
  "esl_message cr hs body =
     concat (map (\<lambda>l. l @ cr @ [newline]) (hs @ [content_length (length body)])) @ cr @ [newline] @ body"

text \<open>
  C34: a response is read back exactly: its header lines and its body, whatever bytes the body holds, with
  either line ending, and what follows it on the connection is left for the next read.
\<close>

theorem readESLResponse_roundtrip:
  assumes "list_all header_line hs" "list_all (\<lambda>l. \<not> has_prefix l ''Content-Length:'') hs"
    and "cr = [] \<or> cr = [CHR 0x0D]" "length body < 2 ^ 63"
  shows "readESLResponse (esl_message cr hs body @ rest)
    = ((concat (map (\<lambda>l. l @ [newline]) (hs @ [content_length (length body)])) @ body, False), rest)"
proof -
  let ?c = "content_length (length body)"
  have 1: "list_all header_line (hs @ [?c])" using assms(1) by (simp add: content_length_header)
  have 2: "lengths (hs @ [?c]) 0 = int (length body)"
    using assms(2,4) by (simp add: lengths_append lengths_other scan_content_length_dec content_length_header)
  have "read_headers [] 0 (esl_message cr hs body @ rest)
      = (concat (map (\<lambda>l. l @ [newline]) (hs @ [?c])), int (length body), False, body @ rest)"
    using read_headers_lines [OF 1 assms(3), of "[]" 0 "body @ rest"] by (simp add: esl_message_def 2)
  then show ?thesis by (simp add: readESLResponse_def)
qed

theorem readESLResponse_roundtrip_witness:
  "snd (readESLResponse (esl_message [CHR 0x0D] [''Content-Type: api/response''] ''+OK 1'' @ ''next'')) = ''next''"
  using readESLResponse_roundtrip [of "[''Content-Type: api/response'']" "[CHR 0x0D]" "''+OK 1''" "''next''"]
  by (simp add: header_line_def newline_def has_prefix_def)

text \<open>
  no command reaches the server before it has accepted the password: a command is written only after
  the authentication, and only when the server's answer to it contains \<open>+OK\<close>; a result is returned
  only for a command that was written.
\<close>

theorem execute_authenticates:
  assumes "execute password command conn = (written, result)"
  shows "written \<in> {[], [''auth '' @ password @ [newline, newline]],
           [''auth '' @ password @ [newline, newline], ''api '' @ command @ [newline, newline]]} \<and>
    (length written = 2 \<longrightarrow>
       (\<exists>input i1 i2 greeting answer. conn = Inr input \<and> readESLResponse input = ((greeting, False), i1) \<and>
          readESLResponse i1 = ((answer, False), i2) \<and> str_contains answer ''+OK'')) \<and>
    (\<forall>resp. result = Inr resp \<longrightarrow> length written = 2)"
  using assms by (auto simp: execute_def Let_def split: sum.splits prod.splits if_splits)

theorem execute_authenticates_witness:
  "execute ''pw'' ''status'' (Inr (esl_message [] [''a''] ''x'' @ esl_message [] [''b''] ''-ERR'')) \<noteq> ([], Inr ''done'')"
proof
  assume "execute ''pw'' ''status'' (Inr (esl_message [] [''a''] ''x'' @ esl_message [] [''b''] ''-ERR'')) = ([], Inr ''done'')"
  from execute_authenticates [OF this] show False by simp
qed

end
