(* ===== verification/Actions.thy ===== *)
theory Actions
  imports Esl Speech_Text
begin

text \<open>
  The actions of the assistant, \<open>gateway/actions.go\<close>: reading an action out of the language model's
  reply, executing it as a call of a configured web hook or as a transfer over the event socket, and
  the two HTTP handlers.

  The JSON decoder is a parameter that decodes into a given value and may leave parts of it changed
  when it fails. Payloads are their JSON text, the confidence of an action is left out, the outcome
  of an HTTP request and the answers of the event socket are parameters, and \<open>order\<close> is the order in
  which the map of headers is ranged over.
\<close>

record APICAction =
  Endpoint :: string
  Method :: string
  Payload :: string

record TransferAction =
  tr_Reason :: string
  tr_Department :: string
  tr_Extension :: string
  tr_Priority :: string
  tr_Summary :: string

record CallAction =
  ca_Type :: string
  ca_Text :: string
  ca_Intent :: string
  ca_APICall :: "APICAction option"
  ca_Transfer :: "TransferAction option"

record claudeMessage =
  cm_Role :: string
  cm_Content :: string

subsection \<open>Parsing\<close>

definition zero_action :: CallAction where
  "zero_action = \<lparr>ca_Type = '''', ca_Text = '''', ca_Intent = '''', ca_APICall = None, ca_Transfer = None\<rparr>"

definition speak_action :: "string \<Rightarrow> CallAction" where
  "speak_action response = \<lparr>ca_Type = ''speak'', ca_Text = response, ca_Intent = ''conversation'', ca_APICall = None, ca_Transfer = None\<rparr>"

definition last_index :: "string \<Rightarrow> char \<Rightarrow> nat option" where
  "last_index s c = (if c \<in> set s then Some (length s - 1 - length (takeWhile (\<lambda>x. x \<noteq> c) (rev s))) else None)"

type_synonym decoder = "string \<Rightarrow> CallAction \<Rightarrow> CallAction \<times> bool"

definition ParseAction :: "decoder \<Rightarrow> string \<Rightarrow> CallAction" where
  "ParseAction unmarshal response0 =
     (let response = trim_space response0; (action1, ok1) = unmarshal response zero_action in
      if ok1 \<and> ca_Type action1 \<noteq> '''' then action1
      else case str_index response ''{'' of
             None \<Rightarrow> speak_action response
           | Some idx \<Rightarrow>
               (case last_index response (CHR ''}'') of
                  None \<Rightarrow> speak_action response
                | Some e \<Rightarrow>
                    if e > idx then
                      let (action2, ok2) = unmarshal (drop idx (take (e + 1) response)) action1 in
                      if ok2 \<and> ca_Type action2 \<noteq> '''' then action2 else speak_action response
                    else speak_action response))"

subsection \<open>Execution\<close>

datatype action_effect =
    Event string string
  | Request string string string string string
  | Command string

datatype http_outcome = BuildError | NoResponse | Status nat

definition apostrophe :: string where
  "apostrophe = [CHR 0x27]"

text \<open>A request effect holds method, URL, body, call identifier and intent.\<close>

definition executeAPICall ::
  "(string \<Rightarrow> string \<Rightarrow> string \<Rightarrow> http_outcome) \<Rightarrow> (string \<Rightarrow> string option) \<Rightarrow> string \<Rightarrow> CallAction \<Rightarrow> string \<times> action_effect list" where
  "executeAPICall http webhookURLs sid action =
     (case ca_APICall action of
        None \<Rightarrow> (ca_Text action, [])
      | Some call \<Rightarrow>
          let intent = ca_Intent action;
              webhookURL = (case webhookURLs intent of None \<Rightarrow> '''' | Some u \<Rightarrow> u);
              url = webhookURL @ Endpoint call;
              req = Request (Method call) url (Payload call) sid intent
          in if webhookURL = '''' then
               (ca_Text action, [Event ''action'' (''{\"intent\":\"'' @ intent @ ''\",\"status\":\"simulated\",\"payload\":'' @ Payload call @ ''}'')])
             else case http (Method call) url (Payload call) of
               BuildError \<Rightarrow>
                 (''I'' @ apostrophe @ ''m sorry, I wasn'' @ apostrophe @ ''t able to process that request. Let me try again.'', [])
             | NoResponse \<Rightarrow>
                 (''I'' @ apostrophe @ ''m having trouble connecting to our system right now. Can I try again in a moment?'', [req])
             | Status code \<Rightarrow>
                 if 200 \<le> code \<and> code < 300 then
                   (ca_Text action, [req, Event ''action'' (''{\"intent\":\"'' @ intent @ ''\",\"status\":\"success\"}'')])
                 else
                   (''I wasn'' @ apostrophe @ ''t able to complete that action. Would you like me to connect you with an agent who can help?'',
                    [req, Event ''action'' (''{\"intent\":\"'' @ intent @ ''\",\"status\":\"failed\",\"code\":'' @ dec code @ ''}'')]))"

definition truncate :: "string \<Rightarrow> nat \<Rightarrow> string" where
  "truncate s maxLen = (if length s \<le> maxLen then s else take maxLen s)"

definition departmentExtension :: "string \<Rightarrow> string" where
  "departmentExtension dept =
     (case map_of [(''billing'', ''3001''), (''technical'', ''3002''), (''sales'', ''3003''), (''retention'', ''3004''),
                   (''supervisor'', ''3005''), (''legal'', ''3006''), (''claims'', ''3007'')] dept of
        Some ext \<Rightarrow> ext | None \<Rightarrow> ''3000'')"

definition recent_transcript :: "claudeMessage list \<Rightarrow> string" where
  "recent_transcript history =
     concat (map (\<lambda>h. ''['' @ cm_Role h @ ''] '' @ cm_Content h @ '' | '') (drop (length history - 3) history))"

definition transfer_headers :: "string \<Rightarrow> TransferAction \<Rightarrow> claudeMessage list \<Rightarrow> (string \<times> string) list" where
  "transfer_headers sid t history =
     [(''X-Transfer-Summary'', truncate (tr_Summary t) 200),
      (''X-Transfer-Reason'', tr_Reason t),
      (''X-Transfer-Department'', tr_Department t),
      (''X-Transfer-Priority'', tr_Priority t),
      (''X-Transfer-Transcript'', truncate (recent_transcript history) 500),
      (''X-Transfer-CallID'', sid)]"

definition target_extension :: "TransferAction \<Rightarrow> string" where
  "target_extension t = (if tr_Extension t = '''' then departmentExtension (tr_Department t) else tr_Extension t)"

definition extension_cmd :: "string \<Rightarrow> string \<Rightarrow> string" where
  "extension_cmd sid ext = ''uuid_transfer '' @ sid @ '' '' @ ext @ '' XML outbound''"

definition executeTransfer ::
  "event_socket \<Rightarrow> ((string \<times> string) list \<Rightarrow> (string \<times> string) list) \<Rightarrow> claudeMessage list \<Rightarrow> string \<Rightarrow> CallAction
    \<Rightarrow> string \<times> action_effect list" where
  "executeTransfer socket order history sid action =
     (case ca_Transfer action of
        None \<Rightarrow> (ca_Text action, [])
      | Some t \<Rightarrow>
          let ev = Event ''transfer'' (''{\"reason\":\"'' @ tr_Reason t @ ''\",\"department\":\"'' @ tr_Department t
                     @ ''\",\"priority\":\"'' @ tr_Priority t @ ''\",\"summary\":\"'' @ tr_Summary t @ ''\"}'');
              sets = map (\<lambda>(k, v). Command (setvar_cmd sid (k, sanitizeHeader v))) (order (transfer_headers sid t history));
              cmd = extension_cmd sid (target_extension t)
          in (case socket cmd of
                Inl err \<Rightarrow> ''I'' @ apostrophe @ ''m having trouble connecting you right now. Please hold while I try again.''
              | Inr resp \<Rightarrow> ca_Text action,
              ev # sets @ [Command cmd]))"

definition ExecuteAction ::
  "(string \<Rightarrow> string \<Rightarrow> string \<Rightarrow> http_outcome) \<Rightarrow> event_socket \<Rightarrow> ((string \<times> string) list \<Rightarrow> (string \<times> string) list)
    \<Rightarrow> (string \<Rightarrow> string option) \<Rightarrow> claudeMessage list \<Rightarrow> string \<Rightarrow> CallAction \<Rightarrow> string \<times> action_effect list" where
  "ExecuteAction http socket order webhookURLs history sid action =
     (if ca_Type action = ''api_call'' then executeAPICall http webhookURLs sid action
      else if ca_Type action = ''transfer'' then executeTransfer socket order history sid action
      else (ca_Text action, []))"

subsection \<open>Handlers\<close>

text \<open>\<open>env\<close> reads the environment, an unset variable being empty.\<close>

definition NewActionExecutor :: "(string \<Rightarrow> string) \<Rightarrow> string \<Rightarrow> string option" where
  "NewActionExecutor env =
     [''reschedule'' \<mapsto> env ''ACTION_RESCHEDULE_URL'', ''cancel'' \<mapsto> env ''ACTION_CANCEL_URL'',
      ''check_status'' \<mapsto> env ''ACTION_STATUS_URL'', ''update_info'' \<mapsto> env ''ACTION_UPDATE_URL'']"

definition handleTestAction :: "decoder \<Rightarrow> string \<Rightarrow> CallAction response" where
  "handleTestAction unmarshal said = WriteJSON 200 (ParseAction unmarshal said)"

text \<open>The body of a \<open>POST\<close> is the map it decodes to, empty when it does not.\<close>

definition handleWebhooks ::
  "string \<Rightarrow> (string \<times> string) list \<Rightarrow> (string \<Rightarrow> string option) \<Rightarrow> (string \<Rightarrow> string option) \<times> (string \<Rightarrow> string option) response" where
  "handleWebhooks meth body webhookURLs =
     (if meth = ''GET'' then (webhookURLs, WriteJSON 200 webhookURLs)
      else if meth = ''POST'' then (webhookURLs ++ map_of body, WriteJSON 200 [''status'' \<mapsto> ''updated''])
      else (webhookURLs, HttpError 405 ''{\"error\":\"method not allowed\"}''))"

subsection \<open>Lemmas\<close>

lemma length_truncate: "length (truncate s n) \<le> n"
  by (simp add: truncate_def)

lemma newline_sanitizeHeader [simp]: "newline \<notin> set (sanitizeHeader s)"
  by (auto simp: sanitizeHeader_def newline_def)

lemma newline_department [simp]: "newline \<notin> set (departmentExtension d)"
  by (simp add: departmentExtension_def newline_def)

lemma newline_setvar_cmd: "newline \<in> set (setvar_cmd sid (k, v)) \<longleftrightarrow> newline \<in> set sid \<or> newline \<in> set k \<or> newline \<in> set v"
  by (auto simp: setvar_cmd_def newline_def)

lemma newline_extension_cmd: "newline \<in> set (extension_cmd sid ext) \<longleftrightarrow> newline \<in> set sid \<or> newline \<in> set ext"
  by (auto simp: extension_cmd_def newline_def)

lemma transfer_header_keys: "(k, v) \<in> set (transfer_headers sid t h) \<Longrightarrow> newline \<notin> set k"
  by (auto simp: transfer_headers_def newline_def)

subsection \<open>Properties\<close>

text \<open>
  every reply of the model is turned into an action with a type, whatever the JSON decoder makes of
  it; a reply the decoder finds no typed object in is spoken as it stands, trimmed.
\<close>

theorem ParseAction_total:
  "ca_Type (ParseAction unmarshal response) \<noteq> '''' \<and>
   ((\<forall>s a. snd (unmarshal s a) \<longrightarrow> ca_Type (fst (unmarshal s a)) = '''')
      \<longrightarrow> ParseAction unmarshal response = speak_action (trim_space response))"
proof
  show "ca_Type (ParseAction unmarshal response) \<noteq> ''''"
    by (auto simp: ParseAction_def speak_action_def Let_def split: prod.splits option.splits)
  show "(\<forall>s a. snd (unmarshal s a) \<longrightarrow> ca_Type (fst (unmarshal s a)) = '''')
      \<longrightarrow> ParseAction unmarshal response = speak_action (trim_space response)"
  proof
    assume *: "\<forall>s a. snd (unmarshal s a) \<longrightarrow> ca_Type (fst (unmarshal s a)) = ''''"
    have "\<not> (ok \<and> ca_Type a' \<noteq> '''')" if "unmarshal s a = (a', ok)" for s a a' ok
      using * [rule_format, of s a] that by auto
    then show "ParseAction unmarshal response = speak_action (trim_space response)"
      by (auto simp: ParseAction_def Let_def split: prod.splits option.splits)
  qed
qed

theorem ParseAction_total_witness:
  "ParseAction (\<lambda>s a. (a\<lparr>ca_Text := s\<rparr>, False)) '' Hello. '' = speak_action (trim_space '' Hello. '')"
  using ParseAction_total [of "\<lambda>s a. (a\<lparr>ca_Text := s\<rparr>, False)" "'' Hello. ''"] by simp

text \<open>
  a transfer cannot smuggle commands into the event socket through its headers: for a session
  identifier and a target extension of one line, every command that a transfer sends is one line,
  whatever the model put into the summary, reason, department and priority and whatever the caller
  said; the last command transfers the call to the extension asked for or to the department's.
\<close>

theorem transfer_commands_single_line:
  assumes "newline \<notin> set sid" "ca_Transfer action = Some t" "newline \<notin> set (tr_Extension t)"
    and "\<And>xs. set (order xs) = set xs"
  shows "(\<forall>cmd. Command cmd \<in> set (snd (executeTransfer socket order history sid action)) \<longrightarrow> newline \<notin> set cmd) \<and>
    last (snd (executeTransfer socket order history sid action)) = Command (extension_cmd sid (target_extension t))"
proof -
  have "newline \<notin> set (target_extension t)" using assms(3) by (simp add: target_extension_def)
  then show ?thesis
    using assms(1)
    by (auto simp: executeTransfer_def assms(2,4) Let_def newline_setvar_cmd newline_extension_cmd dest: transfer_header_keys)
qed

definition example_transfer :: CallAction where
  "example_transfer = zero_action\<lparr>ca_Type := ''transfer'',
     ca_Transfer := Some \<lparr>tr_Reason = ''angry'', tr_Department = ''billing'', tr_Extension = '''', tr_Priority = ''urgent'',
       tr_Summary = ''refund'' @ [newline, newline] @ ''api shutdown''\<rparr>\<rparr>"

theorem transfer_commands_single_line_witness:
  "last (snd (executeTransfer (\<lambda>_. Inr '''') (\<lambda>hs. hs) [] ''c1'' example_transfer)) = Command (extension_cmd ''c1'' ''3001'')"
  using transfer_commands_single_line [of "''c1''" example_transfer _ "\<lambda>hs. hs" "\<lambda>_. Inr ''''" "[]"]
  by (simp add: example_transfer_def newline_def target_extension_def departmentExtension_def)

text \<open>
  The extension itself is not sanitised: a reply of the model that names an extension with an empty
  line in it makes the client write a second command.
\<close>

lemma transfer_extension_injects:
  assumes "ca_Transfer action = Some t" "tr_Extension t = ''1'' @ [newline, newline] @ evil"
  shows "\<exists>before after. last (snd (executeTransfer socket order history sid action)) = Command (before @ [newline, newline] @ evil @ after)"
proof -
  have "last (snd (executeTransfer socket order history sid action))
      = Command ((''uuid_transfer '' @ sid @ '' 1'') @ [newline, newline] @ evil @ '' XML outbound'')"
    by (simp add: executeTransfer_def assms Let_def target_extension_def extension_cmd_def)
  then show ?thesis by blast
qed

end
