(* ===== verification/Rag.thy ===== *)
theory Rag
  imports Speech_Text
begin

text \<open>
  Document retrieval, \<open>gateway/rag.go\<close>: cutting a document into overlapping chunks, the n-gram
  embedding, and the client of the vector store.

  The chunking loop is a partial function, since it need not end for every chunk size. The vector
  store is a parameter: the outcome of each request, its JSON decoded. A \<open>float32\<close> operation is the
  exact one followed by a rounding \<open>rnd\<close>.
\<close>

subsection \<open>Chunks\<close>

text \<open>The search for a sentence boundary, from \<open>end\<close> down to the middle of the chunk.\<close>

definition break_at :: "string \<Rightarrow> nat \<Rightarrow> nat \<Rightarrow> nat" where
  "break_at body chunkSize start =
     (case find (\<lambda>i. body ! i = CHR ''.'' \<or> body ! i = CHR 0x0A) (rev [start + chunkSize div 2 + 1..<start + chunkSize + 1]) of
        Some i \<Rightarrow> i + 1
      | None \<Rightarrow> start + chunkSize)"

definition slice :: "string \<Rightarrow> nat \<Rightarrow> nat \<Rightarrow> string" where
  "slice body b e = drop b (take e body)"

partial_function (option) chunk_loop :: "nat \<Rightarrow> nat \<Rightarrow> string \<Rightarrow> nat \<Rightarrow> string list \<Rightarrow> string list option" where
  "chunk_loop chunkSize overlap body start chunks =
     (if \<not> start < length body then Some chunks
      else if start + chunkSize \<ge> length body then Some (chunks @ [trim_space (drop start body)])
      else chunk_loop chunkSize overlap body (break_at body chunkSize start - overlap)
             (chunks @ [trim_space (slice body start (break_at body chunkSize start))]))"

definition chunkText :: "string \<Rightarrow> int \<Rightarrow> string list option" where
  "chunkText txt0 chunkSize0 =
     (let chunkSize = (if chunkSize0 \<le> 0 then 500 else nat chunkSize0);
          overlap = (if 50 \<ge> chunkSize then 0 else 50);
          body = trim_space txt0
      in if body = [] then Some [] else chunk_loop chunkSize overlap body 0 [])"

subsection \<open>Embedding\<close>

text \<open>The code points that \<open>range\<close> visits in a string: UTF-8, with U+FFFD for each byte that decodes to nothing.\<close>

definition cont :: "nat \<Rightarrow> nat \<Rightarrow> nat \<Rightarrow> bool" where
  "cont lo hi b \<longleftrightarrow> lo \<le> b \<and> b \<le> hi"

fun decode_rune :: "nat list \<Rightarrow> nat \<times> nat" where
  "decode_rune [] = (0xFFFD, 0)"
| "decode_rune (b0 # bs) =
     (let lo = (if b0 = 0xE0 then 0xA0 else if b0 = 0xF0 then 0x90 else 0x80);
          hi = (if b0 = 0xED then 0x9F else if b0 = 0xF4 then 0x8F else 0xBF)
      in if b0 < 0x80 then (b0, 1)
         else case bs of
           [] \<Rightarrow> (0xFFFD, 1)
         | b1 # bs1 \<Rightarrow>
             if 0xC2 \<le> b0 \<and> b0 \<le> 0xDF then
               (if cont 0x80 0xBF b1 then ((b0 - 0xC0) * 64 + (b1 - 0x80), 2) else (0xFFFD, 1))
             else case bs1 of
               [] \<Rightarrow> (0xFFFD, 1)
             | b2 # bs2 \<Rightarrow>
                 if 0xE0 \<le> b0 \<and> b0 \<le> 0xEF then
                   (if cont lo hi b1 \<and> cont 0x80 0xBF b2
                    then ((b0 - 0xE0) * 4096 + (b1 - 0x80) * 64 + (b2 - 0x80), 3) else (0xFFFD, 1))
                 else case bs2 of
                   [] \<Rightarrow> (0xFFFD, 1)
                 | b3 # _ \<Rightarrow>
                     if 0xF0 \<le> b0 \<and> b0 \<le> 0xF4 \<and> cont lo hi b1 \<and> cont 0x80 0xBF b2 \<and> cont 0x80 0xBF b3
                     then ((b0 - 0xF0) * 262144 + (b1 - 0x80) * 4096 + (b2 - 0x80) * 64 + (b3 - 0x80), 4)
                     else (0xFFFD, 1))"

lemma decode_rune_width: "bs \<noteq> [] \<Longrightarrow> 0 < snd (decode_rune bs)"
  by (cases bs rule: decode_rune.cases) (auto simp: Let_def split: list.splits)

function runes :: "nat list \<Rightarrow> nat list" where
  "runes bs = (if bs = [] then [] else fst (decode_rune bs) # runes (drop (snd (decode_rune bs)) bs))"
  by auto
termination by (relation "measure length") (auto simp: decode_rune_width)

declare runes.simps [simp del]

definition ngram_hash :: "string \<Rightarrow> 32 word" where
  "ngram_hash ngram = fold (\<lambda>c h. h * 31 + word_of_nat c) (runes (map of_char ngram)) 0"

definition ngrams :: "string \<Rightarrow> string list" where
  "ngrams word =
     concat (map (\<lambda>i. map (\<lambda>j. slice word i j) (filter (\<lambda>j. j \<le> length word) [i + 1..<i + 5])) [0..<length word])"

definition count_ngram :: "(real \<Rightarrow> real) \<Rightarrow> string \<Rightarrow> real list \<Rightarrow> real list" where
  "count_ngram rnd ngram emb = (let idx = unat (ngram_hash ngram mod 384) in emb[idx := rnd (emb ! idx + 1)])"

text \<open>\<open>rnd\<close> rounds to \<open>float32\<close> and \<open>rnd64\<close> to \<open>float64\<close>.\<close>

definition simpleEmbed :: "(real \<Rightarrow> real) \<Rightarrow> (real \<Rightarrow> real) \<Rightarrow> string \<Rightarrow> real list" where
  "simpleEmbed rnd rnd64 txt0 =
     (let words = Prelude.fields (to_lower txt0);
          emb = fold (count_ngram rnd) (concat (map ngrams words)) (replicate 384 0);
          norm2 = fold (\<lambda>v acc. rnd (acc + rnd (v * v))) emb 0;
          scale = rnd (rnd64 (1 / norm2))
      in if norm2 > 0 then map (\<lambda>v. rnd (v * scale)) emb else emb)"

subsection \<open>The vector store\<close>

text \<open>
  A request to the store ends without a response, or with a status and a body. \<open>ids\<close> are the
  identifiers decoded from the body of the collection request, empty when there is none.
\<close>

definition EnsureCollection :: "string + nat \<times> string \<Rightarrow> string option" where
  "EnsureCollection http =
     (case http of
        Inl err \<Rightarrow> Some (''create collection: '' @ err)
      | Inr (code, body) \<Rightarrow>
          if code = 409 \<or> code = 200 \<or> code = 201 then None
          else Some (''create collection '' @ dec code @ '': '' @ body))"

definition getCollectionID :: "string \<Rightarrow> string + string \<Rightarrow> string + string" where
  "getCollectionID collection http =
     (case http of Inl err \<Rightarrow> Inl err | Inr id0 \<Rightarrow> Inr (if id0 = '''' then collection else id0))"

record chunk_doc =
  cd_id :: string
  cd_document :: string
  cd_doc_id :: string
  cd_doc_name :: string
  cd_index :: nat
  cd_embedding :: "real list"

definition index_payload :: "(string \<Rightarrow> real list) \<Rightarrow> string \<Rightarrow> string \<Rightarrow> string list \<Rightarrow> chunk_doc list" where
  "index_payload emb_of docID docName chunks =
     map (\<lambda>(i, chunk). \<lparr>cd_id = docID @ ''_chunk_'' @ dec i, cd_document = chunk, cd_doc_id = docID, cd_doc_name = docName,
        cd_index = i, cd_embedding = emb_of chunk\<rparr>) (enumerate 0 chunks)"

text \<open>
  \<open>add collectionID docs\<close> is the outcome of storing. The first component of the result is what was
  sent; the whole is \<open>None\<close> when the chunking does not return.
\<close>

definition IndexDocument ::
  "(string \<Rightarrow> real list) \<Rightarrow> string + string \<Rightarrow> (string \<Rightarrow> chunk_doc list \<Rightarrow> string + nat \<times> string) \<Rightarrow> string \<Rightarrow> string \<Rightarrow> string \<Rightarrow> int
    \<Rightarrow> (chunk_doc list \<times> (string + nat)) option" where
  "IndexDocument emb_of collection add docID docName body chunkSize =
     map_option (\<lambda>chunks.
       if chunks = [] then ([], Inr 0)
       else case getCollectionID ''voiceagent_docs'' collection of
         Inl err \<Rightarrow> ([], Inl err)
       | Inr cid \<Rightarrow>
           let docs = index_payload emb_of docID docName chunks in
           (docs, case add cid docs of
                    Inl err \<Rightarrow> Inl err
                  | Inr (code, body) \<Rightarrow>
                      if code \<noteq> 200 \<and> code \<noteq> 201 then Inl (''add documents '' @ dec code @ '': '' @ body)
                      else Inr (length chunks))) (chunkText body chunkSize)"

record RAGChunk =
  rg_Text :: string
  rg_DocName :: string
  rg_Score :: real
  rg_ChunkIdx :: int

record query_result =
  qr_documents :: "string list list"
  qr_metadatas :: "(string option \<times> int option) list list"
  qr_distances :: "real list list"

text \<open>
  Assembling the chunks of an answer; \<open>None\<close> is the panic of indexing an empty list of distances or
  of metadata. A metadata entry holds its name and index where they have the expected types.
\<close>

definition query_chunk :: "(real \<Rightarrow> real) \<Rightarrow> real list \<Rightarrow> (string option \<times> int option) list \<Rightarrow> nat \<times> string \<Rightarrow> RAGChunk" where
  "query_chunk rnd ds ms = (\<lambda>(i, doc).
     \<lparr>rg_Text = doc,
      rg_DocName = (if i < length ms then (case fst (ms ! i) of Some n \<Rightarrow> n | None \<Rightarrow> '''') else ''''),
      rg_Score = (if i < length ds then rnd (1 - ds ! i) else 0),
      rg_ChunkIdx = (if i < length ms then (case snd (ms ! i) of Some k \<Rightarrow> k | None \<Rightarrow> 0) else 0)\<rparr>)"

definition query_chunks :: "(real \<Rightarrow> real) \<Rightarrow> query_result \<Rightarrow> RAGChunk list option" where
  "query_chunks rnd r =
     (case qr_documents r of
        [] \<Rightarrow> Some []
      | docs # _ \<Rightarrow>
          if docs = [] then Some []
          else if qr_distances r = [] \<or> qr_metadatas r = [] then None
          else Some (map (query_chunk rnd (hd (qr_distances r)) (hd (qr_metadatas r))) (enumerate 0 docs)))"

definition Query ::
  "(real \<Rightarrow> real) \<Rightarrow> string + string \<Rightarrow> (string \<Rightarrow> string + nat \<times> string) \<Rightarrow> (string \<Rightarrow> query_result) \<Rightarrow> (string + RAGChunk list) option" where
  "Query rnd collection search decoded =
     (case getCollectionID ''voiceagent_docs'' collection of
        Inl err \<Rightarrow> Some (Inl err)
      | Inr cid \<Rightarrow>
          (case search cid of
             Inl err \<Rightarrow> Some (Inl err)
           | Inr (code, body) \<Rightarrow>
               if code \<noteq> 200 then Some (Inl (''query '' @ dec code @ '': '' @ body))
               else map_option Inr (query_chunks rnd (decoded body))))"

text \<open>\<open>percent\<close> prints a score with the verb \<open>%.0f%%\<close>.\<close>

definition BuildRAGContext :: "(real \<Rightarrow> string) \<Rightarrow> (string + RAGChunk list) option \<Rightarrow> string option" where
  "BuildRAGContext percent answer =
     map_option (\<lambda>a. case a of
         Inl _ \<Rightarrow> ''''
       | Inr chunks \<Rightarrow>
           if chunks = [] then ''''
           else ''Relevant knowledge base context:'' @ [CHR 0x0A]
                @ concat (map (\<lambda>(i, c). ''['' @ dec (i + 1) @ ''] ('' @ rg_DocName c @ '', '' @ percent (rg_Score c) @ '' match): ''
                                  @ rg_Text c @ [CHR 0x0A]) (enumerate 0 chunks))) answer"

subsection \<open>Lemmas: chunking\<close>

lemma break_at_bounds:
  assumes "0 < chunkSize"
  shows "break_at body chunkSize start = start + chunkSize \<or> start + chunkSize div 2 + 2 \<le> break_at body chunkSize start"
    and "break_at body chunkSize start \<le> start + chunkSize + 1" "start < break_at body chunkSize start"
proof -
  define f where "f = find (\<lambda>i. body ! i = CHR ''.'' \<or> body ! i = CHR 0x0A) (rev [start + chunkSize div 2 + 1..<start + chunkSize + 1])"
  have br: "break_at body chunkSize start = (case f of Some i \<Rightarrow> i + 1 | None \<Rightarrow> start + chunkSize)"
    by (simp only: break_at_def f_def)
  have "start + chunkSize div 2 + 1 \<le> i \<and> i \<le> start + chunkSize" if "f = Some i" for i
  proof -
    from that have "i \<in> set (rev [start + chunkSize div 2 + 1..<start + chunkSize + 1])"
      unfolding f_def find_Some_iff by (metis nth_mem)
    then show ?thesis by auto
  qed
  then have "break_at body chunkSize start = start + chunkSize \<or>
      start + chunkSize div 2 + 2 \<le> break_at body chunkSize start \<and> break_at body chunkSize start \<le> start + chunkSize + 1"
    by (cases f) (simp_all add: br)
  then show "break_at body chunkSize start = start + chunkSize \<or> start + chunkSize div 2 + 2 \<le> break_at body chunkSize start"
    "break_at body chunkSize start \<le> start + chunkSize + 1" "start < break_at body chunkSize start"
    using assms by linarith+
qed

text \<open>Cuts of a text: consecutive pieces of bounded length, each starting \<open>overlap\<close> characters before the end of the one before.\<close>

fun cuts_from :: "nat \<Rightarrow> nat \<Rightarrow> nat \<Rightarrow> nat \<Rightarrow> (nat \<times> nat) list \<Rightarrow> bool" where
  "cuts_from csize overlap n b [] \<longleftrightarrow> False"
| "cuts_from csize overlap n b [(s, e)] \<longleftrightarrow> s = b \<and> s < e \<and> e = n \<and> e - s \<le> csize + 1"
| "cuts_from csize overlap n b ((s, e) # cs) \<longleftrightarrow>
     s = b \<and> s < e \<and> e \<le> n \<and> e - s \<le> csize + 1 \<and> s < e - overlap \<and> cuts_from csize overlap n (e - overlap) cs"

lemma chunk_loop_cuts:
  assumes "0 < csize" "overlap = 0 \<or> 98 \<le> csize \<and> overlap = 50" "start < length body"
  shows "\<exists>cs. cuts_from csize overlap (length body) start cs \<and>
    chunk_loop csize overlap body start chunks = Some (chunks @ map (\<lambda>(s, e). trim_space (slice body s e)) cs)"
  using assms(3)
proof (induction "length body - start" arbitrary: start chunks rule: less_induct)
  case less
  let ?b = "break_at body csize start"
  show ?case
  proof (cases "start + csize \<ge> length body")
    case True
    then have "cuts_from csize overlap (length body) start [(start, length body)]" using less.prems by simp
    moreover have "chunk_loop csize overlap body start chunks = Some (chunks @ [trim_space (slice body start (length body))])"
      using True less.prems by (subst chunk_loop.simps) (simp add: slice_def)
    ultimately show ?thesis by (intro exI [of _ "[(start, length body)]"]) simp
  next
    case False
    note b = break_at_bounds [OF assms(1), where body = "body" and start = start]
    have adv: "start < ?b - overlap" using assms(2) b by auto
    have lt: "?b - overlap < length body" if "overlap = 50"
      using b(2) False that by simp
    have eqn: "chunk_loop csize overlap body start chunks
        = chunk_loop csize overlap body (?b - overlap) (chunks @ [trim_space (slice body start ?b)])"
      using False less.prems by (subst chunk_loop.simps) simp
    show ?thesis
    proof (cases "?b - overlap < length body")
      case True
      then obtain cs where cs: "cuts_from csize overlap (length body) (?b - overlap) cs"
        "chunk_loop csize overlap body (?b - overlap) (chunks @ [trim_space (slice body start ?b)])
          = Some ((chunks @ [trim_space (slice body start ?b)]) @ map (\<lambda>(s, e). trim_space (slice body s e)) cs)"
        using less.hyps [of "?b - overlap"] adv less.prems by fastforce
      have "cuts_from csize overlap (length body) start ((start, ?b) # cs)"
        using cs(1) b False adv by (cases cs) auto
      with cs(2) eqn show ?thesis by (intro exI [of _ "(start, ?b) # cs"]) simp
    next
      case stop: False
      then have "overlap = 0" "?b = length body" using lt b(2) False assms(2) by auto
      then have "cuts_from csize overlap (length body) start [(start, length body)]"
        "chunk_loop csize overlap body start chunks = Some (chunks @ [trim_space (slice body start (length body))])"
        using b(2) False eqn less.prems by (simp_all add: chunk_loop.simps [of _ _ _ "length body"])
      then show ?thesis by (intro exI [of _ "[(start, length body)]"]) simp
    qed
  qed
qed

text \<open>A boundary exactly one overlap behind the start sends the loop back to where it was.\<close>

lemma chunk_loop_stuck:
  assumes "start + csize < length body" "break_at body csize start - overlap = start"
  shows "chunk_loop csize overlap body start chunks = None"
proof (rule ccontr)
  assume "chunk_loop csize overlap body start chunks \<noteq> None"
  then obtain r where ret: "chunk_loop csize overlap body start chunks = Some r" by blast
  have "s' = csize \<and> ov' = overlap \<and> t' = body \<longrightarrow> st' \<noteq> start"
    if "chunk_loop s' ov' t' st' acc' = Some r'" for s' ov' t' st' acc' r'
  proof (rule chunk_loop.raw_induct [where P = "\<lambda>s' ov' t' st' acc' r'. s' = csize \<and> ov' = overlap \<and> t' = body \<longrightarrow> st' \<noteq> start", OF _ that])
    fix f s' ov' t' st' acc' r'
    assume ih: "\<And>s' ov' t' st' acc' r'. f s' ov' t' st' acc' = Some r' \<Longrightarrow> s' = csize \<and> ov' = overlap \<and> t' = body \<longrightarrow> st' \<noteq> start"
      and body: "(if \<not> st' < length t' then Some acc'
        else if length t' \<le> st' + s' then Some (acc' @ [trim_space (drop st' t')])
        else f s' ov' t' (break_at t' s' st' - ov') (acc' @ [trim_space (slice t' st' (break_at t' s' st'))])) = Some r'"
    show "s' = csize \<and> ov' = overlap \<and> t' = body \<longrightarrow> st' \<noteq> start"
      using ih body assms by fastforce
  qed
  with ret show False by blast
qed

lemma find_unique:
  assumes "x \<in> set xs" "P x" "\<forall>y \<in> set xs. P y \<longrightarrow> y = x"
  shows "find P xs = Some x"
  using assms
proof (induction xs)
  case (Cons a xs)
  show ?case
  proof (cases "P a")
    case True
    then have "a = x" using Cons.prems(3) by (meson list.set_intros(1))
    with True show ?thesis by simp
  next
    case False
    then have "x \<in> set xs" using Cons.prems(1,2) by (metis set_ConsD)
    then have "find P xs = Some x" using Cons.IH Cons.prems(2,3) by (meson list.set_intros(2))
    with False show ?thesis by simp
  qed
qed simp

lemma length_count_ngrams: "length (fold (count_ngram rnd) gs e) = length e"
proof (induction gs arbitrary: e)
  case (Cons g gs)
  have "length (count_ngram rnd g e) = length e" unfolding count_ngram_def Let_def by (rule length_list_update)
  with Cons show ?case by simp
qed simp

lemma length_simpleEmbed: "length (simpleEmbed rnd rnd64 s) = 384"
  unfolding simpleEmbed_def Let_def by (simp only: length_map length_count_ngrams length_replicate if_distrib [of length] if_cancel)

subsection \<open>Properties\<close>

text \<open>
  C33: for every chunk size up to 50 and from 98 on (a size below one counts as 500, the size the gateway
  uses) the chunking returns, and its chunks are the trimmed pieces of a sequence of cuts that covers
  the whole trimmed document: the first piece starts at its beginning, each next one starts 50
  characters before the end of the previous one (at its end for sizes up to 50), the last ends at its
  end, and none is longer than the chunk size by more than one character.
\<close>

theorem chunkText_covers:
  assumes "chunkSize \<le> 50 \<or> 98 \<le> chunkSize" "trim_space doc \<noteq> []"
  shows "\<exists>cs. chunkText doc chunkSize = Some (map (\<lambda>(s, e). trim_space (slice (trim_space doc) s e)) cs) \<and>
    cuts_from (if chunkSize \<le> 0 then 500 else nat chunkSize) (if 0 < chunkSize \<and> chunkSize \<le> 50 then 0 else 50)
      (length (trim_space doc)) 0 cs"
proof -
  let ?c = "if chunkSize \<le> 0 then 500 else nat chunkSize" and ?o = "if 0 < chunkSize \<and> chunkSize \<le> 50 then 0 else 50 :: nat"
  have "0 < ?c" "?o = 0 \<or> 98 \<le> ?c \<and> ?o = 50" "0 < length (trim_space doc)" using assms by auto
  from chunk_loop_cuts [OF this, of "[]"]
  obtain cs where cs: "cuts_from ?c ?o (length (trim_space doc)) 0 cs"
    "chunk_loop ?c ?o (trim_space doc) 0 [] = Some (map (\<lambda>(s, e). trim_space (slice (trim_space doc) s e)) cs)" by auto
  have "(if 50 \<ge> ?c then 0 else 50) = ?o" by auto
  then have "chunkText doc chunkSize = chunk_loop ?c ?o (trim_space doc) 0 []"
    using assms(2) by (simp only: chunkText_def Let_def if_False)
  with cs show ?thesis by (intro exI [of _ cs]) simp
qed

theorem chunkText_covers_witness:
  "\<exists>cs. chunkText ''Hello there. This is it.'' 0 = Some (map (\<lambda>(s, e). trim_space (slice (trim_space ''Hello there. This is it.'') s e)) cs)"
proof -
  have "trim_space ''Hello there. This is it.'' \<noteq> []" by code_simp
  from chunkText_covers [OF _ this, of 0] show ?thesis by auto
qed

text \<open>
  for the sizes in between the loop can run forever: for each there is a document on which the
  chunking does not return, since a full stop less than 50 characters into a chunk sends the
  overlapping start of the next chunk back to where it was.
\<close>

theorem chunkText_diverges:
  fixes c :: int
  assumes "51 \<le> c" "c \<le> 97"
  shows "chunkText (replicate 49 (CHR ''a'') @ ''.'' @ replicate (nat c) (CHR ''a'')) c = None"
proof -
  define n where "n = nat c"
  define d where "d = replicate 49 (CHR ''a'') @ ''.'' @ replicate n (CHR ''a'')"
  have n: "51 \<le> n" "n \<le> 97" using assms by (auto simp: n_def)
  have trim: "trim_space d = d"
    unfolding trim_space_def d_def using n by (intro trim_by_id) (auto simp: is_space_def hd_append last_append)
  have nth: "(d ! i = CHR ''.'' \<or> d ! i = CHR 0x0A) \<longleftrightarrow> i = 49" if "i \<le> n" for i
    using that n by (auto simp: d_def nth_append nth_Cons split: nat.splits)
  have "find (\<lambda>i. d ! i = CHR ''.'' \<or> d ! i = CHR 0x0A) (rev [0 + n div 2 + 1..<0 + n + 1]) = Some 49"
  proof (rule find_unique)
    show "49 \<in> set (rev [0 + n div 2 + 1..<0 + n + 1])"
      unfolding set_rev set_upt atLeastLessThan_iff using n by presburger
    show "d ! 49 = CHR ''.'' \<or> d ! 49 = CHR 0x0A" using nth [of 49] n by simp
    show "\<forall>y \<in> set (rev [0 + n div 2 + 1..<0 + n + 1]). d ! y = CHR ''.'' \<or> d ! y = CHR 0x0A \<longrightarrow> y = 49"
      unfolding set_rev set_upt using nth by (auto simp: less_Suc_eq_le)
  qed
  then have "break_at d n 0 = 50" unfolding break_at_def by (simp only: option.case)
  moreover have "0 + n < length d" by (simp add: d_def)
  ultimately have "chunk_loop n 50 d 0 [] = None" by (intro chunk_loop_stuck) simp_all
  moreover have "d \<noteq> []" by (simp add: d_def)
  ultimately have "chunkText d c = None" using n assms unfolding chunkText_def trim by (simp add: Let_def n_def)
  then show ?thesis by (simp only: d_def n_def)
qed

theorem chunkText_diverges_witness: "chunkText (replicate 49 (CHR ''a'') @ ''.'' @ replicate (nat 60) (CHR ''a'')) 60 = None"
  using chunkText_diverges [of 60] by simp

end
