(* ===== verification/Sentiment.thy ===== *)
theory Sentiment
  imports Robocall
begin

text \<open>
  Voice sentiment, \<open>gateway/sentiment.go\<close>: the counters of an analyser fed with audio frames and
  word counts, the pitch estimate by autocorrelation, the energy trend and the derived scores.
  Floating point is real arithmetic with a rounding \<open>rnd\<close> after every operation.
\<close>

subsection \<open>State\<close>

record VoiceSentiment =
  rmsHistory :: "real list"
  pitchHistory :: "real list"
  speechFrames :: nat
  silenceFrames :: nat
  totalFrames :: nat
  utteranceCount :: nat
  rmsVariance :: real
  wordCount :: int

record SentimentResult =
  AvgEnergy :: real
  EnergyTrend :: string
  AvgPitch :: real
  PitchVariance :: real
  SpeakingRate :: real
  SilenceRatio :: real
  Agitation :: real
  Engagement :: real
  Frustration :: real
  sr_Sentiment :: string
  sr_Confidence :: real

definition NewVoiceSentiment :: VoiceSentiment where
  "NewVoiceSentiment = \<lparr>rmsHistory = [], pitchHistory = [], speechFrames = 0, silenceFrames = 0, totalFrames = 0,
     utteranceCount = 0, rmsVariance = 0, wordCount = 0\<rparr>"

subsection \<open>Pitch\<close>

text \<open>The normalised correlation of the samples with themselves shifted by \<open>lag\<close>.\<close>

definition autocorrelation :: "(real \<Rightarrow> real) \<Rightarrow> real list \<Rightarrow> nat \<Rightarrow> real" where
  "autocorrelation rnd xs lag =
     (let is = [0..<length xs - lag];
          corr = fold (\<lambda>i acc. rnd (acc + rnd (xs ! i * xs ! (i + lag)))) is 0;
          norm1 = fold (\<lambda>i acc. rnd (acc + rnd (xs ! i * xs ! i))) is 0;
          norm2 = fold (\<lambda>i acc. rnd (acc + rnd (xs ! (i + lag) * xs ! (i + lag)))) is 0;
          n = rnd (sqrt (rnd (norm1 * norm2)))
      in if n > 0 then rnd (corr / n) else corr)"

definition better_lag :: "(real \<Rightarrow> real) \<Rightarrow> real list \<Rightarrow> nat \<Rightarrow> nat \<times> real \<Rightarrow> nat \<times> real" where
  "better_lag rnd xs lag best = (let corr = autocorrelation rnd xs lag in if corr > snd best then (lag, corr) else best)"

definition estimatePitch :: "(real \<Rightarrow> real) \<Rightarrow> byte list \<Rightarrow> nat \<Rightarrow> real" where
  "estimatePitch rnd pcm sr =
     (let xs = map (\<lambda>s. of_int (sint s)) (samples pcm); n = length xs in
      if n < 160 then 0
      else
        let minLag = sr div 500; maxLag = min (sr div 80) (n div 2);
            (bestLag, bestCorr) = fold (better_lag rnd xs) [minLag..<maxLag + 1] (0, 0)
        in if bestLag = 0 \<or> bestCorr < rnd (3 / 10) then 0 else rnd (of_nat sr / of_nat bestLag))"

subsection \<open>Operations\<close>

definition ProcessFrame :: "(real \<Rightarrow> real) \<Rightarrow> byte list \<Rightarrow> VoiceSentiment \<Rightarrow> VoiceSentiment" where
  "ProcessFrame rnd pcm vs =
     (let rms = rmsEnergy rnd pcm;
          vs1 = vs\<lparr>totalFrames := totalFrames vs + 1, rmsHistory := rmsHistory vs @ [rms]\<rparr>
      in if rms > 85 then
           let vs2 = vs1\<lparr>speechFrames := speechFrames vs1 + 1\<rparr>; pitch = estimatePitch rnd pcm 16000
           in if pitch > 50 \<and> pitch < 500 then vs2\<lparr>pitchHistory := pitchHistory vs2 @ [pitch]\<rparr> else vs2
         else vs1\<lparr>silenceFrames := silenceFrames vs1 + 1\<rparr>)"

definition AddUtterance :: "int \<Rightarrow> VoiceSentiment \<Rightarrow> VoiceSentiment" where
  "AddUtterance words vs = vs\<lparr>wordCount := wordCount vs + words, utteranceCount := utteranceCount vs + 1\<rparr>"

definition clamp :: "real \<Rightarrow> real \<Rightarrow> real \<Rightarrow> real" where
  "clamp v lo hi = (if v < lo then lo else if v > hi then hi else v)"

definition sum_floats :: "(real \<Rightarrow> real) \<Rightarrow> real list \<Rightarrow> real" where
  "sum_floats rnd xs = fold (\<lambda>x acc. rnd (acc + x)) xs 0"

definition mean :: "(real \<Rightarrow> real) \<Rightarrow> real list \<Rightarrow> real" where
  "mean rnd xs = rnd (sum_floats rnd xs / of_nat (length xs))"

definition variance :: "(real \<Rightarrow> real) \<Rightarrow> real list \<Rightarrow> real" where
  "variance rnd xs =
     rnd (fold (\<lambda>x acc. let d = rnd (x - mean rnd xs) in rnd (acc + rnd (d * d))) xs 0 / of_nat (length xs))"

definition computeTrend :: "(real \<Rightarrow> real) \<Rightarrow> real list \<Rightarrow> string" where
  "computeTrend rnd xs =
     (if length xs < 10 then ''stable''
      else
        let half = length xs div 2; firstHalf = mean rnd (take half xs); secondHalf = mean rnd (drop half xs);
            ratio = rnd (secondHalf / rnd (firstHalf + 1))
        in if ratio > rnd (12 / 10) then ''rising'' else if ratio < rnd (8 / 10) then ''falling'' else ''stable'')"

text \<open>The derived scores: agitation, engagement, frustration.\<close>

definition agitation :: "(real \<Rightarrow> real) \<Rightarrow> real \<Rightarrow> real \<Rightarrow> real \<Rightarrow> real" where
  "agitation rnd energyScore pitchJitter speedScore =
     clamp (rnd (rnd (rnd (energyScore * rnd (3 / 10)) + rnd (pitchJitter * rnd (4 / 10))) + rnd (speedScore * rnd (3 / 10)))) 0 1"

definition frustration :: "(real \<Rightarrow> real) \<Rightarrow> real \<Rightarrow> real \<Rightarrow> real \<Rightarrow> real" where
  "frustration rnd ag risingEnergy pitchJitter =
     clamp (rnd (rnd (rnd (ag * rnd (4 / 10)) + rnd (risingEnergy * rnd (3 / 10))) + rnd (pitchJitter * rnd (3 / 10)))) 0 1"

definition overall :: "(real \<Rightarrow> real) \<Rightarrow> real \<Rightarrow> real \<Rightarrow> real \<Rightarrow> string \<times> real" where
  "overall rnd ag eng fr =
     (if fr > rnd (6 / 10) \<or> ag > rnd (7 / 10) then (''negative'', clamp fr (1 / 2) 1)
      else if eng > rnd (7 / 10) \<and> fr < rnd (3 / 10) then (''positive'', clamp eng (1 / 2) 1)
      else (''neutral'', rnd (6 / 10)))"

definition no_result :: SentimentResult where
  "no_result = \<lparr>AvgEnergy = 0, EnergyTrend = '''', AvgPitch = 0, PitchVariance = 0, SpeakingRate = 0, SilenceRatio = 0,
     Agitation = 0, Engagement = 0, Frustration = 0, sr_Sentiment = ''neutral'', sr_Confidence = 1 / 2\<rparr>"

definition Analyze :: "(real \<Rightarrow> real) \<Rightarrow> VoiceSentiment \<Rightarrow> VoiceSentiment \<times> SentimentResult" where
  "Analyze rnd vs =
     (if totalFrames vs = 0 then (vs, no_result)
      else
        let silenceRatio = rnd (of_nat (silenceFrames vs) / of_nat (totalFrames vs));
            heard = rmsHistory vs \<noteq> [];
            avgEnergy = (if heard then mean rnd (rmsHistory vs) else 0);
            vs1 = (if heard then vs\<lparr>rmsVariance := variance rnd (rmsHistory vs)\<rparr> else vs);
            trend = (if heard then computeTrend rnd (rmsHistory vs) else '''');
            voiced = pitchHistory vs \<noteq> [];
            avgPitch = (if voiced then mean rnd (pitchHistory vs) else 0);
            pitchVariance = (if voiced then rnd (sqrt (variance rnd (pitchHistory vs))) else 0);
            durationSecs = rnd (rnd (of_nat (totalFrames vs) * 20) / 1000);
            speakingRate = (if durationSecs > 0 \<and> wordCount vs > 0
                            then rnd (of_int (wordCount vs) / rnd (durationSecs / 60)) else 0);
            energyScore = clamp (rnd (avgEnergy / 500)) 0 1;
            pitchJitter = clamp (rnd (pitchVariance / 50)) 0 1;
            speedScore = clamp (rnd (rnd (speakingRate - 120) / 80)) 0 1;
            ag = agitation rnd energyScore pitchJitter speedScore;
            eng = clamp (rnd (1 - silenceRatio)) 0 1;
            fr = frustration rnd ag (if trend = ''rising'' then 1 / 2 else 0) pitchJitter;
            (verdict, conf) = overall rnd ag eng fr
        in (vs1, \<lparr>AvgEnergy = avgEnergy, EnergyTrend = trend, AvgPitch = avgPitch, PitchVariance = pitchVariance,
                  SpeakingRate = speakingRate, SilenceRatio = silenceRatio, Agitation = ag, Engagement = eng,
                  Frustration = fr, sr_Sentiment = verdict, sr_Confidence = conf\<rparr>))"

subsection \<open>Reachable analysers\<close>

inductive sentiment_step :: "(real \<Rightarrow> real) \<Rightarrow> VoiceSentiment \<Rightarrow> VoiceSentiment \<Rightarrow> bool" for rnd where
  frame: "sentiment_step rnd vs (ProcessFrame rnd pcm vs)"
| words: "sentiment_step rnd vs (AddUtterance n vs)"
| analyse: "sentiment_step rnd vs (fst (Analyze rnd vs))"

definition sentiment_inv :: "VoiceSentiment \<Rightarrow> bool" where
  "sentiment_inv vs \<longleftrightarrow> totalFrames vs = speechFrames vs + silenceFrames vs \<and> length (rmsHistory vs) = totalFrames vs \<and>
     length (pitchHistory vs) \<le> speechFrames vs \<and> (\<forall>p \<in> set (pitchHistory vs). 50 < p \<and> p < 500)"

subsection \<open>Lemmas\<close>

lemma clamp_bounds: "lo \<le> hi \<Longrightarrow> lo \<le> clamp v lo hi \<and> clamp v lo hi \<le> hi"
  by (simp add: clamp_def)

lemma Analyze_keeps:
  "sentiment_inv (fst (Analyze rnd vs)) \<longleftrightarrow> sentiment_inv vs"
  by (simp add: Analyze_def sentiment_inv_def Let_def split_def)

lemma sentiment_step_inv:
  assumes "sentiment_step rnd s t" "sentiment_inv s"
  shows "sentiment_inv t"
  using assms
  by cases (auto simp: ProcessFrame_def AddUtterance_def Analyze_keeps, auto simp: sentiment_inv_def Let_def)

interpretation voice: invariant_machine "\<lambda>vs. vs = NewVoiceSentiment" "sentiment_step rnd" sentiment_inv for rnd
  by unfold_locales (simp add: sentiment_inv_def NewVoiceSentiment_def, rule sentiment_step_inv)

lemma best_lag_range:
  "fst (fold (better_lag rnd xs) lags best) \<in> insert (fst best) (set lags)"
proof (induction lags arbitrary: best)
  case (Cons l ls)
  have "fst (better_lag rnd xs l best) \<in> {l, fst best}" by (simp add: better_lag_def Let_def)
  with Cons [of "better_lag rnd xs l best"] show ?case by auto
qed simp

lemma estimatePitch_range:
  assumes "float_rounding rnd"
  shows "estimatePitch rnd pcm 16000 = 0 \<or> 80 \<le> estimatePitch rnd pcm 16000 \<and> estimatePitch rnd pcm 16000 \<le> 500"
proof -
  define xs :: "real list" where "xs = map (\<lambda>s. of_int (sint s)) (samples pcm)"
  obtain bl bc where b: "fold (better_lag rnd xs) [32..<min 200 (length xs div 2) + 1] (0, 0) = (bl, bc)" by fastforce
  have r: "bl = 0 \<or> 32 \<le> bl \<and> bl \<le> 200"
    using best_lag_range [of rnd xs "[32..<min 200 (length xs div 2) + 1]" "(0, 0)"] b by auto
  have e: "estimatePitch rnd pcm 16000 = 0 \<or> bl \<noteq> 0 \<and> estimatePitch rnd pcm 16000 = rnd (16000 / of_nat bl)"
    using b by (auto simp: estimatePitch_def Let_def xs_def)
  show ?thesis
  proof (cases "bl = 0")
    case False
    then have l: "32 \<le> bl" "bl \<le> 200" using r by auto
    have "rnd 80 \<le> rnd (16000 / of_nat bl)" "rnd (16000 / of_nat bl) \<le> rnd 500"
      using l by (auto intro!: float_roundingD(1) [OF assms] simp: field_simps)
    moreover have "rnd 80 = 80" "rnd 500 = 500"
      using float_roundingD(2) [OF assms, of 80] float_roundingD(2) [OF assms, of 500] by simp_all
    ultimately show ?thesis using e by auto
  qed (use e in auto)
qed

lemma overall_confidence:
  assumes "float_rounding rnd" "1 / 2 \<le> rnd (6 / 10)" "overall rnd ag eng fr = (v, c)"
  shows "v \<in> {''negative'', ''positive'', ''neutral''}" "1 / 2 \<le> c" "c \<le> 1"
proof -
  have "rnd (6 / 10) \<le> 1"
    using float_roundingD(1) [OF assms(1), of "6 / 10" 1] float_roundingD(2) [OF assms(1), of 1] by simp
  then show "v \<in> {''negative'', ''positive'', ''neutral''}" "1 / 2 \<le> c" "c \<le> 1"
    using assms(2,3) clamp_bounds [of "1 / 2" 1] by (auto simp: overall_def split: if_splits)
qed

subsection \<open>Properties\<close>

text \<open>
  the scores of the voice analysis are what their documentation promises: in every state reached by
  feeding frames, words and analyses, silence ratio, agitation, engagement and frustration lie
  between 0 and 1, the confidence between one half and 1, the verdict is one of the three, and it is
  negative exactly when frustration exceeds 0.6 or agitation 0.7.
\<close>

theorem voice_scores_bounded:
  assumes "float_rounding rnd" "1 / 2 \<le> rnd (6 / 10)" "reachable (sentiment_step rnd) NewVoiceSentiment vs"
    and "snd (Analyze rnd vs) = r"
  shows "SilenceRatio r \<in> {0..1} \<and> Agitation r \<in> {0..1} \<and> Engagement r \<in> {0..1} \<and> Frustration r \<in> {0..1} \<and>
    sr_Confidence r \<in> {1 / 2..1} \<and> sr_Sentiment r \<in> {''negative'', ''positive'', ''neutral''} \<and>
    (totalFrames vs > 0 \<longrightarrow> (sr_Sentiment r = ''negative'' \<longleftrightarrow> Frustration r > rnd (6 / 10) \<or> Agitation r > rnd (7 / 10)))"
proof (cases "totalFrames vs = 0")
  case True
  then show ?thesis using assms(4) by (auto simp: Analyze_def no_result_def)
next
  case False
  note inv = voice.reachable_inv [OF assms(3) refl]
  have s: "SilenceRatio r = rnd (of_nat (silenceFrames vs) / of_nat (totalFrames vs))"
    using False assms(4) by (auto simp: Analyze_def Let_def split_def)
  have q: "0 \<le> real (silenceFrames vs) / real (totalFrames vs)" "real (silenceFrames vs) / real (totalFrames vs) \<le> 1"
    using inv False by (auto simp: sentiment_inv_def divide_le_eq_1 simp flip: of_nat_add)
  have "0 \<le> SilenceRatio r" unfolding s by (rule float_roundingD(4) [OF assms(1) q(1)])
  moreover have "SilenceRatio r \<le> 1"
    unfolding s using float_roundingD(1) [OF assms(1) q(2)] float_roundingD(2) [OF assms(1), of 1] by simp
  moreover have "Agitation r \<in> {0..1}" "Engagement r \<in> {0..1}" "Frustration r \<in> {0..1}"
    using False assms(4) clamp_bounds [of 0 1]
    by (auto simp: Analyze_def Let_def split_def agitation_def frustration_def)
  moreover have o: "overall rnd (Agitation r) (Engagement r) (Frustration r) = (sr_Sentiment r, sr_Confidence r)"
    using False assms(4) by (auto simp: Analyze_def Let_def split_def)
  moreover have "sr_Sentiment r = ''negative'' \<longleftrightarrow> Frustration r > rnd (6 / 10) \<or> Agitation r > rnd (7 / 10)"
    using o by (auto simp: overall_def split: if_splits)
  ultimately show ?thesis using overall_confidence [OF assms(1,2) o] by auto
qed

theorem voice_scores_bounded_witness:
  "Engagement (snd (Analyze (\<lambda>x. x) (ProcessFrame (\<lambda>x. x) [0, 0] NewVoiceSentiment))) \<in> {0..1}"
proof -
  have "float_rounding (\<lambda>x. x)" by (simp add: float_rounding_def)
  moreover have "reachable (sentiment_step (\<lambda>x. x)) NewVoiceSentiment (ProcessFrame (\<lambda>x. x) [0, 0] NewVoiceSentiment)"
    by (rule reachable_step) (rule sentiment_step.frame)
  ultimately show ?thesis using voice_scores_bounded [of "\<lambda>x. x" _ "snd (Analyze (\<lambda>x. x) (ProcessFrame (\<lambda>x. x) [0, 0] NewVoiceSentiment))"] by auto
qed

end
