(* ===== verification/Pipeline.thy ===== *)
theory Pipeline
  imports Sentiment Security Actions Wav Resample Queue_Manager "HOL-Library.Sublist"
begin

text \<open>
  The speech pipeline of a bridged call, \<open>gateway/main.go\<close>: frames from the switch, voice activity
  detection, recognition, the conversation with the language model, synthesis and playback. Each
  stage is a function on the state it keeps; the channels between the stages are the lists of what
  is sent. The recogniser, the language model, the synthesiser and the event socket are parameters.
  Logging is left out.
\<close>

subsection \<open>Stage 1: the reader\<close>

datatype ws_message = TextMessage string | BinaryMessage "byte list" | OtherMessage

definition chars_of :: "byte list \<Rightarrow> string" where
  "chars_of bs = map (\<lambda>b. char_of (unat b)) bs"

definition octets_of :: "string \<Rightarrow> byte list" where
  "octets_of s = map (\<lambda>c. word_of_nat (of_char c)) s"

text \<open>
  \<open>is_stop\<close> tells whether a text frame decodes to a stop event. \<open>room k\<close> is true when the channel
  has room for the \<open>k\<close>-th frame; otherwise the frame is dropped.
\<close>

fun readFromFS :: "(string \<Rightarrow> bool) \<Rightarrow> (nat \<Rightarrow> bool) \<Rightarrow> nat \<Rightarrow> ws_message list \<Rightarrow> byte list list" where
  "readFromFS is_stop room k [] = []"
| "readFromFS is_stop room k (TextMessage t # ms) = (if is_stop t then [] else readFromFS is_stop room k ms)"
| "readFromFS is_stop room k (BinaryMessage d # ms) =
     (if d = [] then readFromFS is_stop room k ms
      else if room k then d # readFromFS is_stop room (k + 1) ms
      else readFromFS is_stop room (k + 1) ms)"
| "readFromFS is_stop room k (OtherMessage # ms) = readFromFS is_stop room k ms"

subsection \<open>Stage 2: voice activity and recognition\<close>

record vad =
  audioBuf :: "byte list"
  speechActive :: bool
  silentFrames :: nat
  frameCount :: nat
  voiceSentiment :: VoiceSentiment

definition silenceLimit :: nat where "silenceLimit = 30"
definition maxBytes :: nat where "maxBytes = 256000"
definition warmupFrames :: nat where "warmupFrames = 25"

definition vad_init :: vad where
  "vad_init = \<lparr>audioBuf = [], speechActive = False, silentFrames = 0, frameCount = 0,
     voiceSentiment = NewVoiceSentiment\<rparr>"

definition vad_reset :: "vad \<Rightarrow> vad" where
  "vad_reset v = v\<lparr>audioBuf := [], speechActive := False, silentFrames := 0\<rparr>"

definition vad_loud :: "(real \<Rightarrow> real) \<Rightarrow> byte list \<Rightarrow> bool" where
  "vad_loud rnd pcm \<longleftrightarrow> rmsEnergy rnd pcm > 85"

text \<open>
  One frame; \<open>playing\<close> is the flag that is set during playback. The second component is what is
  handed to \<open>transcribeAndSend\<close>.
\<close>

definition vad_collect :: "bool \<Rightarrow> byte list \<Rightarrow> vad \<Rightarrow> vad \<times> byte list list" where
  "vad_collect loud pcm v =
     (if loud then (v\<lparr>audioBuf := audioBuf v @ pcm, speechActive := True, silentFrames := 0\<rparr>, [])
      else if speechActive v then
        let v1 = v\<lparr>audioBuf := audioBuf v @ pcm, silentFrames := silentFrames v + 1\<rparr> in
        if silentFrames v1 \<ge> silenceLimit then (vad_reset v1, [audioBuf v1]) else (v1, [])
      else (v, []))"

definition vad_cap :: "vad \<times> byte list list \<Rightarrow> vad \<times> byte list list" where
  "vad_cap r =
     (if length (audioBuf (fst r)) > maxBytes
      then (vad_reset (fst r), if speechActive (fst r) then snd r @ [audioBuf (fst r)] else snd r)
      else r)"

definition vad_frame :: "(real \<Rightarrow> real) \<Rightarrow> bool \<times> byte list \<Rightarrow> vad \<Rightarrow> vad \<times> byte list list" where
  "vad_frame rnd f v =
     (let playing = fst f; pcm = snd f; v1 = v\<lparr>frameCount := frameCount v + 1\<rparr> in
      if frameCount v1 \<le> warmupFrames then (v1, [])
      else
        let v2 = v1\<lparr>voiceSentiment := ProcessFrame rnd pcm (voiceSentiment v1)\<rparr> in
        if playing then (if speechActive v2 then vad_reset v2 else v2, [])
        else vad_cap (vad_collect (vad_loud rnd pcm) pcm v2))"

fun vad_run :: "(real \<Rightarrow> real) \<Rightarrow> (bool \<times> byte list) list \<Rightarrow> vad \<Rightarrow> vad \<times> byte list list" where
  "vad_run rnd [] v = (v, [])"
| "vad_run rnd (f # fs) v =
     (let (v1, us) = vad_frame rnd f v; (v2, us') = vad_run rnd fs v1 in (v2, us @ us'))"

text \<open>The whole stage on the frames of a call until the channel is closed.\<close>

definition sttPipeline :: "(real \<Rightarrow> real) \<Rightarrow> (bool \<times> byte list) list \<Rightarrow> byte list list" where
  "sttPipeline rnd fs =
     (let (v, us) = vad_run rnd fs vad_init
      in us @ (if audioBuf v \<noteq> [] \<and> speechActive v then [audioBuf v] else []))"

definition piiTypes :: "PIIDetection list \<Rightarrow> string" where
  "piiTypes ds = join (map pd_Type ds) '', ''"

text \<open>The request to the recogniser: the outcome of the HTTP call and the text decoded from its body.\<close>

definition whisperTranscribe ::
  "(byte list \<Rightarrow> string + nat \<times> string) \<Rightarrow> (string \<Rightarrow> string + string) \<Rightarrow> byte list \<Rightarrow> string + string" where
  "whisperTranscribe post decode pcm =
     (case post (buildWAV pcm 16000 1 16) of
        Inl err \<Rightarrow> Inl err
      | Inr (code, body) \<Rightarrow> if code \<noteq> 200 then Inl (''whisper '' @ dec code @ '': '' @ body) else decode body)"

text \<open>
  \<open>score_text\<close> prints score and keywords of a robocall verdict. The result holds the events offered
  to the client and the transcript sent on; \<open>done\<close> is true when the context is cancelled first.
\<close>

definition transcribeAndSend ::
  "(real \<Rightarrow> real) \<Rightarrow> (byte list \<Rightarrow> string + string) \<Rightarrow> (RobocallResult \<Rightarrow> string) \<Rightarrow> PIIMasker option \<Rightarrow> RobocallDetector option
    \<Rightarrow> bool \<Rightarrow> byte list \<Rightarrow> (string \<times> string) list \<times> string list" where
  "transcribeAndSend rnd recognise score_text security robocall done pcm =
     (if pcm = [] then ([], [])
      else case recognise pcm of
        Inl err \<Rightarrow> ([], [])
      | Inr raw \<Rightarrow>
          let heard = trim_space raw in
          if heard = '''' \<or> isWhisperHallucination rnd heard then ([], [])
          else
            let (said, ev1) = (case security of None \<Rightarrow> (heard, [])
                  | Some m \<Rightarrow>
                      let (masked, ds) = MaskTranscript heard m in
                      if ds \<noteq> []
                      then (masked, [(''pii_masked'', ''Detected '' @ dec (length ds) @ '' PII items: '' @ piiTypes ds)])
                      else (heard, []));
                ev2 = (case robocall of None \<Rightarrow> []
                  | Some d \<Rightarrow>
                      let r = ClassifyTranscript rnd said d in
                      if rc_Score r > rnd (3 / 10) then [(''robocall'', score_text r)] else [])
            in (ev1 @ ev2 @ [(''transcript'', said)], if done then [] else [said]))"

subsection \<open>Stage 3: the conversation\<close>

text \<open>
  One transcript through \<open>claudeWorker\<close>: \<open>ask\<close> is the language model, \<open>act\<close> the action executor on
  the history so far. The result holds the new history, the sentences sent to the synthesiser, the
  event offered to the client and the effects of an action; \<open>done k\<close> is true when the \<open>k\<close>-th send of
  a sentence loses against the cancelled context.
\<close>

definition user_message :: "string \<Rightarrow> claudeMessage" where
  "user_message s = \<lparr>cm_Role = ''user'', cm_Content = s\<rparr>"

definition assistant_message :: "string \<Rightarrow> claudeMessage" where
  "assistant_message s = \<lparr>cm_Role = ''assistant'', cm_Content = s\<rparr>"

definition spoken_text :: "decoder \<Rightarrow> (string \<Rightarrow> string option) \<Rightarrow> string \<Rightarrow> string" where
  "spoken_text unmarshal text_field full =
     (let t = ca_Text (ParseAction unmarshal full) in if t = '''' then stripJSONToText text_field full else t)"

definition claude_turn ::
  "(claudeMessage list \<Rightarrow> string + string) \<Rightarrow> decoder \<Rightarrow> (string \<Rightarrow> string option)
    \<Rightarrow> (claudeMessage list \<Rightarrow> CallAction \<Rightarrow> string \<times> action_effect list) \<Rightarrow> (nat \<Rightarrow> bool) \<Rightarrow> string \<Rightarrow> claudeMessage list
    \<Rightarrow> claudeMessage list \<times> string list \<times> action_effect list" where
  "claude_turn ask unmarshal text_field act done transcript history =
     (let history1 = history @ [user_message transcript] in
      case ask history1 of
        Inl err \<Rightarrow> (history1, [], [])
      | Inr full \<Rightarrow>
          let action = ParseAction unmarshal full;
              (spoken, eff) = (if ca_Type action = ''api_call'' \<or> ca_Type action = ''transfer'' then act history1 action
                               else (spoken_text unmarshal text_field full, []))
          in (history1 @ [assistant_message spoken],
              map snd (filter (\<lambda>(k, _). \<not> done k) (enumerate 0 (splitSentences spoken))),
              eff @ [Event ''response'' spoken]))"

fun claudeWorker ::
  "(claudeMessage list \<Rightarrow> string + string) \<Rightarrow> decoder \<Rightarrow> (string \<Rightarrow> string option)
    \<Rightarrow> (claudeMessage list \<Rightarrow> CallAction \<Rightarrow> string \<times> action_effect list) \<Rightarrow> string list \<Rightarrow> claudeMessage list
    \<Rightarrow> claudeMessage list \<times> string list" where
  "claudeWorker ask unmarshal text_field act [] history = (history, [])"
| "claudeWorker ask unmarshal text_field act (t # ts) history =
     (let (h1, ss, _) = claude_turn ask unmarshal text_field act (\<lambda>_. False) t history;
          (h2, ss') = claudeWorker ask unmarshal text_field act ts h1
      in (h2, ss @ ss'))"

subsection \<open>Stage 4: synthesis\<close>

definition piperSynthesize :: "(real \<Rightarrow> real) \<Rightarrow> (string \<Rightarrow> string + nat \<times> byte list) \<Rightarrow> string \<Rightarrow> string + byte list" where
  "piperSynthesize rnd post said =
     (case post said of
        Inl err \<Rightarrow> Inl err
      | Inr (code, wav) \<Rightarrow>
          if code \<noteq> 200 then Inl (''piper '' @ dec code @ '': '' @ chars_of wav)
          else Inr (resample rnd (stripWAVHeader wav) 22050 16000))"

definition ttsWorker :: "(string \<Rightarrow> string + byte list) \<Rightarrow> string list \<Rightarrow> byte list list" where
  "ttsWorker synth sentences =
     concat (map (\<lambda>s. case synth s of Inl err \<Rightarrow> [] | Inr audio \<Rightarrow> [audio]) sentences)"

subsection \<open>Stage 5: playback\<close>

definition frameSize :: nat where "frameSize = 640"

text \<open>\<open>stop k\<close> is true when the context is cancelled or the write fails at the \<open>k\<close>-th frame.\<close>

function play_frames :: "(nat \<Rightarrow> bool) \<Rightarrow> nat \<Rightarrow> byte list \<Rightarrow> byte list list" where
  "play_frames stop k pcm =
     (if pcm = [] \<or> stop k then [] else take frameSize pcm # play_frames stop (k + 1) (drop frameSize pcm))"
  by auto
termination by (relation "measure (\<lambda>(_, _, pcm). length pcm)") (auto simp: frameSize_def)

declare play_frames.simps [simp del]

definition playViaWebSocket :: "(nat \<Rightarrow> bool) \<Rightarrow> byte list \<Rightarrow> byte list list" where
  "playViaWebSocket stop pcm = play_frames stop 0 pcm"

datatype play_effect = Playing bool | Esl string | Sleep nat | WriteFile string "byte list" | RemoveFile string

definition tts_file :: "string \<Rightarrow> string \<Rightarrow> nat \<Rightarrow> string" where
  "tts_file dir sid n = dir @ ''/tts_'' @ sid @ ''_'' @ dec n @ ''.wav''"

definition play_one ::
  "(string \<Rightarrow> bool) \<Rightarrow> event_socket \<Rightarrow> string \<Rightarrow> string \<Rightarrow> nat \<times> byte list \<Rightarrow> play_effect list" where
  "play_one write_ok socket dir sid p =
     (let filename = tts_file dir sid (fst p); cmd = ''uuid_broadcast '' @ sid @ '' '' @ filename @ '' aleg'' in
      if \<not> write_ok filename then []
      else WriteFile filename (buildWAV (snd p) 16000 1 16) # Esl cmd #
        (case socket cmd of
           Inl err \<Rightarrow> [RemoveFile filename]
         | Inr resp \<Rightarrow> [Sleep (length (snd p) * 1000 div 32000 + 300), RemoveFile filename]))"

definition playBatchESL ::
  "(string \<Rightarrow> bool) \<Rightarrow> event_socket \<Rightarrow> string \<Rightarrow> string \<Rightarrow> byte list list \<Rightarrow> nat \<Rightarrow> play_effect list \<times> nat" where
  "playBatchESL write_ok socket dir sid batch seqNum =
     ([Playing True, Esl (''uuid_audio_fork '' @ sid @ '' pause''), Sleep 100]
      @ concat (map (play_one write_ok socket dir sid) (enumerate seqNum batch))
      @ [Esl (''uuid_audio_fork '' @ sid @ '' resume''), Sleep 300, Playing False],
      seqNum + length batch)"

text \<open>
  The writer: each round of its loop is an event to send, audio with what else was queued behind it
  (drained only when playing over the event socket), or its end. Events are preferred when both are
  ready. The result is what is done, in order.
\<close>

datatype write_round = EventReady string | AudioReady "byte list" "byte list list" | WriterDone

datatype write_effect = WriteText string | WriteAudio "byte list" | Played "play_effect list"

fun writeToFS ::
  "(string \<Rightarrow> bool) \<Rightarrow> event_socket \<Rightarrow> string \<Rightarrow> string \<Rightarrow> (nat \<Rightarrow> bool) \<Rightarrow> write_round list \<Rightarrow> nat \<Rightarrow> write_effect list" where
  "writeToFS write_ok socket dir sid stop [] seqNum = []"
| "writeToFS write_ok socket dir sid stop (EventReady e # rs) seqNum = WriteText e # writeToFS write_ok socket dir sid stop rs seqNum"
| "writeToFS write_ok socket dir sid stop (AudioReady pcm queued # rs) seqNum =
     (if dir \<noteq> '''' then
        let (eff, n) = playBatchESL write_ok socket dir sid (pcm # queued) seqNum
        in Played eff # writeToFS write_ok socket dir sid stop rs n
      else map WriteAudio (playViaWebSocket stop pcm) @ writeToFS write_ok socket dir sid stop rs seqNum)"
| "writeToFS write_ok socket dir sid stop (WriterDone # rs) seqNum = []"

text \<open>An event is dropped when the ten places of its channel are taken.\<close>

definition sendEvent :: "(string \<Rightarrow> string \<Rightarrow> string) \<Rightarrow> string \<Rightarrow> string \<Rightarrow> string list \<Rightarrow> string list" where
  "sendEvent marshal eventType said events =
     (if length events < 10 then events @ [marshal eventType said] else events)"

subsection \<open>The session\<close>

text \<open>
  The first frame of a connection: its text decoded as metadata, or \<open>None\<close>. The result is the call
  identifier of the metadata and the audio to inject.
\<close>

definition first_frame :: "(string \<Rightarrow> string option) \<Rightarrow> nat \<Rightarrow> ws_message \<Rightarrow> string \<times> byte list" where
  "first_frame decode millis m =
     (let raw = (case m of TextMessage t \<Rightarrow> t | BinaryMessage d \<Rightarrow> chars_of d | OtherMessage \<Rightarrow> '''');
          cleaned = trim_left (\<lambda>c. c = CHR 0x00) raw;
          audio = (''sip-'' @ dec millis, octets_of raw)
      in if (case m of TextMessage _ \<Rightarrow> True | _ \<Rightarrow> False) \<or> cleaned \<noteq> [] \<and> hd cleaned = CHR ''{''
         then (case decode cleaned of Some cid \<Rightarrow> (cid, []) | None \<Rightarrow> audio)
         else audio)"

record fs_session =
  fs_sessions :: int
  fs_queues :: "queues option"

definition handleFS_start :: "bool \<Rightarrow> instant \<Rightarrow> nat \<Rightarrow> string \<Rightarrow> string \<Rightarrow> fs_session \<Rightarrow> fs_session \<times> string" where
  "handleFS_start db now nano fsUUID metaCallID g =
     (let callID = (if fsUUID \<noteq> '''' then fsUUID else metaCallID);
          callerNum = (if metaCallID \<noteq> '''' then metaCallID else fsUUID);
          entry = \<lparr>ID = ''q-'' @ dec nano, CallID = callID, Number = callerNum, WaitSec = 0, Reason = ''Incoming call'',
                   Priority = ''normal'', QueueName = '''', EnterTime = 0\<rparr>
      in (g\<lparr>fs_sessions := fs_sessions g + 1,
            fs_queues := map_option (\<lambda>qs. fst (AddCaller db now ''Support'' entry qs)) (fs_queues g)\<rparr>, callID))"

definition handleFS_end :: "enumeration \<Rightarrow> string \<Rightarrow> fs_session \<Rightarrow> fs_session" where
  "handleFS_end ord callID g =
     g\<lparr>fs_sessions := fs_sessions g - 1, fs_queues := map_option (RemoveCallerByCallID ord callID) (fs_queues g)\<rparr>"

subsection \<open>Lemmas: voice activity\<close>

definition vad_inv :: "vad \<Rightarrow> bool" where
  "vad_inv v \<longleftrightarrow> length (audioBuf v) \<le> maxBytes \<and> silentFrames v < silenceLimit \<and>
     (\<not> speechActive v \<longrightarrow> audioBuf v = [] \<and> silentFrames v = 0)"

lemma vad_reset_simps [simp]:
  "audioBuf (vad_reset v) = []" "speechActive (vad_reset v) = False" "silentFrames (vad_reset v) = 0"
  "frameCount (vad_reset v) = frameCount v"
  by (simp_all add: vad_reset_def)

lemma vad_inv_init: "vad_inv vad_init"
  by (simp add: vad_inv_def vad_init_def silenceLimit_def)

lemma vad_collect_inv:
  assumes "vad_inv v" "vad_collect loud pcm v = (v1, us)"
  shows "silentFrames v1 < silenceLimit" "\<not> speechActive v1 \<longrightarrow> audioBuf v1 = [] \<and> silentFrames v1 = 0"
    "frameCount v1 = frameCount v"
  using assms by (auto simp: vad_collect_def vad_inv_def silenceLimit_def Let_def split: if_splits)

lemma vad_frame_inv:
  assumes "vad_inv v"
  shows "vad_inv (fst (vad_frame rnd f v))"
proof -
  let ?v = "v\<lparr>frameCount := frameCount v + 1, voiceSentiment := ProcessFrame rnd (snd f) (voiceSentiment v)\<rparr>"
  obtain v2 us2 where c: "vad_collect (vad_loud rnd (snd f)) (snd f) ?v = (v2, us2)" by fastforce
  have inv: "vad_inv ?v" "vad_inv (v\<lparr>frameCount := frameCount v + 1\<rparr>)" using assms by (simp_all add: vad_inv_def)
  have "vad_inv (fst (vad_cap (v2, us2)))"
    using vad_collect_inv [OF inv(1) c] by (simp add: vad_cap_def vad_inv_def silenceLimit_def)
  moreover have "vad_inv (vad_reset ?v)" by (simp add: vad_inv_def silenceLimit_def)
  ultimately show ?thesis using inv c by (simp add: vad_frame_def Let_def)
qed

text \<open>What one frame outside warm-up and playback does to the buffered audio.\<close>

lemma vad_collect_audio:
  assumes "vad_inv v" "vad_collect loud pcm v = (v1, us)"
  shows "\<exists>k. (k = [] \<and> \<not> loud \<or> k = [pcm]) \<and> audioBuf v @ concat k = concat us @ audioBuf v1"
    "\<forall>u \<in> set us. length u \<le> maxBytes + length pcm" "length (audioBuf v1) \<le> maxBytes + length pcm"
proof -
  have len: "length (audioBuf v) \<le> maxBytes" using assms(1) by (simp add: vad_inv_def)
  show "\<exists>k. (k = [] \<and> \<not> loud \<or> k = [pcm]) \<and> audioBuf v @ concat k = concat us @ audioBuf v1"
  proof (cases "loud \<or> speechActive v")
    case True
    then have "audioBuf v @ concat [pcm] = concat us @ audioBuf v1"
      using assms(2) by (auto simp: vad_collect_def Let_def split: if_splits)
    then show ?thesis by blast
  next
    case False
    then have "audioBuf v @ concat [] = concat us @ audioBuf v1" using assms(2) by (simp add: vad_collect_def)
    with False show ?thesis by blast
  qed
  show "\<forall>u \<in> set us. length u \<le> maxBytes + length pcm" "length (audioBuf v1) \<le> maxBytes + length pcm"
    using assms(2) len by (auto simp: vad_collect_def Let_def split: if_splits)
qed

lemma vad_frame_audio:
  assumes "vad_inv v" "warmupFrames \<le> frameCount v" "vad_frame rnd (False, pcm) v = (v1, us)"
  shows "\<exists>k. (k = [] \<and> \<not> vad_loud rnd pcm \<or> k = [pcm]) \<and> audioBuf v @ concat k = concat us @ audioBuf v1"
    "\<forall>u \<in> set us. length u \<le> maxBytes + length pcm" "frameCount v1 = frameCount v + 1"
proof -
  let ?v = "v\<lparr>frameCount := frameCount v + 1, voiceSentiment := ProcessFrame rnd pcm (voiceSentiment v)\<rparr>"
  obtain v2 us2 where c: "vad_collect (vad_loud rnd pcm) pcm ?v = (v2, us2)" by fastforce
  have inv: "vad_inv ?v" using assms(1) by (simp add: vad_inv_def)
  have r: "vad_cap (v2, us2) = (v1, us)" using assms(2,3) c by (simp add: vad_frame_def)
  note inv2 = vad_collect_inv [OF inv c] and audio2 = vad_collect_audio [OF inv c]
  show "\<exists>k. (k = [] \<and> \<not> vad_loud rnd pcm \<or> k = [pcm]) \<and> audioBuf v @ concat k = concat us @ audioBuf v1"
    using r audio2(1) inv2(2) by (auto simp: vad_cap_def split: if_splits)
  show "\<forall>u \<in> set us. length u \<le> maxBytes + length pcm"
    using r audio2(2,3) by (auto simp: vad_cap_def split: if_splits)
  show "frameCount v1 = frameCount v + 1" using r inv2(3) by (auto simp: vad_cap_def split: if_splits)
qed

lemma vad_run_audio:
  assumes "vad_inv v" "warmupFrames \<le> frameCount v" "vad_run rnd (map (Pair False) ps) v = (v', us)"
    and "\<forall>p \<in> set ps. length p \<le> n"
  shows "vad_inv v' \<and> (\<forall>u \<in> set us. length u \<le> maxBytes + n) \<and>
    (\<exists>kept. subseq kept ps \<and> filter (vad_loud rnd) kept = filter (vad_loud rnd) ps \<and>
       audioBuf v @ concat kept = concat us @ audioBuf v')"
  using assms
proof (induction ps arbitrary: v us)
  case (Cons p ps)
  obtain v1 us1 where f: "vad_frame rnd (False, p) v = (v1, us1)" by fastforce
  obtain us2 where t: "vad_run rnd (map (Pair False) ps) v1 = (v', us2)" "us = us1 @ us2"
    using Cons.prems(3) f by (auto simp: split: prod.splits)
  note step = vad_frame_audio [OF Cons.prems(1,2) f]
  have inv: "vad_inv v1" using vad_frame_inv [OF Cons.prems(1), of rnd "(False, p)"] f by simp
  obtain kept where ih: "vad_inv v'" "\<forall>u \<in> set us2. length u \<le> maxBytes + n" "subseq kept ps"
    "filter (vad_loud rnd) kept = filter (vad_loud rnd) ps" "audioBuf v1 @ concat kept = concat us2 @ audioBuf v'"
    using Cons.IH [OF inv _ t(1)] step(3) Cons.prems(2,4) by auto
  obtain k where k: "k = [] \<and> \<not> vad_loud rnd p \<or> k = [p]" "audioBuf v @ concat k = concat us1 @ audioBuf v1"
    using step(1) by blast
  have "audioBuf v @ concat (k @ kept) = concat us @ audioBuf v'"
    using k(2) ih(5) by (simp add: t(2)) (metis append_assoc)
  moreover have "subseq (k @ kept) (p # ps)" "filter (vad_loud rnd) (k @ kept) = filter (vad_loud rnd) (p # ps)"
    using k(1) ih(3,4) by auto
  moreover have "\<forall>u \<in> set us. length u \<le> maxBytes + n"
    using step(2) ih(2) Cons.prems(4) by (fastforce simp: t(2))
  ultimately show ?case using ih(1) by blast
qed auto

lemma vad_run_warmup:
  assumes "frameCount v + length fs \<le> warmupFrames"
  shows "vad_run rnd fs v = (v\<lparr>frameCount := frameCount v + length fs\<rparr>, [])"
  using assms by (induction fs arbitrary: v) (auto simp: vad_frame_def)

lemma vad_run_append: "vad_run rnd (fs @ gs) v = (let (v1, us) = vad_run rnd fs v; (v2, us') = vad_run rnd gs v1 in (v2, us @ us'))"
  by (induction fs arbitrary: v) (auto simp: split: prod.splits)

subsection \<open>Lemmas: the other stages\<close>

text \<open>Replacing a pattern that does not occur changes nothing, as the documentation of \<open>regexp\<close> says.\<close>

definition replaces_matches :: "PIIMasker \<Rightarrow> bool" where
  "replaces_matches m \<longleftrightarrow>
     (\<forall>p \<in> set (pm_patterns m). \<forall>s. find_all (pp_Regex p) s = [] \<longrightarrow> replace_all (pp_Regex p) s (pp_Mask p) = s)"

lemma MaskTranscript_clean:
  assumes "replaces_matches m" "snd (MaskTranscript s m) = []"
  shows "fst (MaskTranscript s m) = s"
proof (cases "pm_enabled m")
  case True
  then have "\<forall>p \<in> set (pm_patterns m). find_all (pp_Regex p) s = []"
    using assms(2) by (auto simp: MaskTranscript_def DetectPII_def)
  then have "\<forall>p \<in> set (pm_patterns m). replace_all (pp_Regex p) s (pp_Mask p) = s"
    using assms(1) by (auto simp: replaces_matches_def)
  then have "fold (\<lambda>p masked. replace_all (pp_Regex p) masked (pp_Mask p)) ps s = s" if "set ps \<subseteq> set (pm_patterns m)" for ps
    using that by (induction ps) auto
  with True show ?thesis by (simp add: MaskTranscript_def)
qed (simp add: MaskTranscript_def)

lemma nonspace_splitSentences: "nonspace (concat (splitSentences s)) = nonspace s"
  using nonspace_finish [of "split_loop [] s"] split_loop_nonspace [of "[]" s] by (simp add: splitSentences_finish)

definition contents :: "string \<Rightarrow> claudeMessage list \<Rightarrow> string list" where
  "contents role h = map cm_Content (filter (\<lambda>m. cm_Role m = role) h)"

lemma contents_append [simp]:
  "contents role (h @ h') = contents role h @ contents role h'" "contents role [] = []"
  "contents ''user'' [user_message s] = [s]" "contents ''assistant'' [user_message s] = []"
  "contents ''assistant'' [assistant_message s] = [s]" "contents ''user'' [assistant_message s] = []"
  by (simp_all add: contents_def user_message_def assistant_message_def)

lemma enumerate_all: "map snd (filter (\<lambda>(k, _). \<not> False) (enumerate n xs)) = xs"
  by (simp add: split_def)

lemma claude_turn_contents:
  assumes "claude_turn ask unmarshal text_field act (\<lambda>_. False) t h = (h', ss, eff)"
  shows "\<exists>new. h' = h @ new \<and> contents ''user'' new = [t] \<and> nonspace (concat ss) = nonspace (concat (contents ''assistant'' new))"
proof (cases "ask (h @ [user_message t])")
  case (Inl err)
  with assms show ?thesis by (auto simp: claude_turn_def Let_def)
next
  case (Inr full)
  obtain spoken where "h' = (h @ [user_message t]) @ [assistant_message spoken]" "ss = splitSentences spoken"
    using assms Inr by (auto simp: claude_turn_def Let_def enumerate_all split: prod.splits)
  then show ?thesis
    by (intro exI [of _ "[user_message t] @ [assistant_message spoken]"])
      (simp only: append_assoc contents_append append_Nil append_Nil2 concat.simps nonspace_splitSentences simp_thms)
qed

lemma play_frames_all: "concat (play_frames (\<lambda>_. False) k pcm) = pcm"
proof (induction "\<lambda>_ :: nat. False" k pcm rule: play_frames.induct)
  case (1 k pcm)
  then show ?case by (subst play_frames.simps) simp
qed

lemma play_frames_length: "f \<in> set (play_frames stop k pcm) \<Longrightarrow> f \<noteq> [] \<and> length f \<le> frameSize"
proof (induction stop k pcm rule: play_frames.induct)
  case (1 stop k pcm)
  then show ?case
    by (cases "pcm = [] \<or> stop k") (auto simp: play_frames.simps [of stop k pcm] frameSize_def)
qed

subsection \<open>Properties\<close>



text \<open>
  nothing is heard during playback: while the playing flag is set, a frame hands no audio to the
  recogniser and discards an utterance in progress, so the assistant never transcribes itself.
\<close>

theorem vad_no_echo:
  assumes "vad_inv v"
  shows "snd (vad_frame rnd (True, pcm) v) = [] \<and> (warmupFrames \<le> frameCount v \<longrightarrow> audioBuf (fst (vad_frame rnd (True, pcm) v)) = [])"
  using assms by (auto simp: vad_frame_def vad_inv_def Let_def)

theorem vad_no_echo_witness: "snd (vad_frame (\<lambda>x. x) (True, [0, 1]) vad_init) = []"
  using vad_no_echo [OF vad_inv_init] by simp

text \<open>
  personal data never leaves the recogniser stage unmasked: with masking on, every transcript sent to
  the language model, and the one shown to the client, is the masked form of what was recognised, and
  neither is empty by default nor an invented transcript.
\<close>

theorem transcripts_masked:
  assumes "replaces_matches m"
    and "transcribeAndSend rnd recognise score_text (Some m) robocall cancelled pcm = (evs, sent)"
    and "t \<in> set sent \<or> (''transcript'', t) \<in> set evs"
  shows "\<exists>raw. recognise pcm = Inr raw \<and> t = fst (MaskTranscript (trim_space raw) m) \<and>
     trim_space raw \<noteq> [] \<and> \<not> isWhisperHallucination rnd (trim_space raw)"
proof -
  from assms(2,3) obtain raw where raw: "recognise pcm = Inr raw" "trim_space raw \<noteq> []"
      "\<not> isWhisperHallucination rnd (trim_space raw)"
    by (auto simp: transcribeAndSend_def Let_def split: if_splits sum.splits)
  obtain masked ds where md: "MaskTranscript (trim_space raw) m = (masked, ds)" by fastforce
  have "t = (if ds \<noteq> [] then masked else trim_space raw)"
    using assms(2,3) raw
    by (auto simp: transcribeAndSend_def Let_def md split: if_splits option.splits prod.splits)
  then have "t = masked"
    using MaskTranscript_clean [OF assms(1), of "trim_space raw"] md by (simp split: if_splits)
  with raw md show ?thesis by simp
qed

definition example_masker :: PIIMasker where
  "example_masker = \<lparr>pm_patterns = [\<lparr>pp_Name = ''pin'', pp_Regex = \<lparr>find_all = (\<lambda>s. if s = ''1234'' then [(0, 4)] else []),
     replace_all = (\<lambda>s r. if s = ''1234'' then r else s)\<rparr>, pp_Mask = ''XXXX'', pp_Level = ''high''\<rparr>], pm_enabled = True\<rparr>"

theorem transcripts_masked_witness:
  "fst (MaskTranscript ''1234'' example_masker) = ''XXXX''"
proof -
  have r: "replaces_matches example_masker" by (simp add: replaces_matches_def example_masker_def)
  have h: "\<not> isWhisperHallucination (\<lambda>x. x) ''1234''" by code_simp
  have t: "trim_space ''1234'' = ''1234''" by code_simp
  have "transcribeAndSend (\<lambda>x. x) (\<lambda>_. Inr ''1234'') (\<lambda>_. []) (Some example_masker) None False [0]
      = ([(''pii_masked'', ''Detected '' @ dec 1 @ '' PII items: pin''), (''transcript'', ''XXXX'')], [''XXXX''])"
    using h by (simp add: transcribeAndSend_def t MaskTranscript_def DetectPII_def example_masker_def piiTypes_def)
  from transcripts_masked [OF r this, of "''XXXX''"] show ?thesis by (auto simp: t)
qed



text \<open>Playback over the web socket: without an interruption the frames are the audio, in pieces of at most 20 ms.\<close>

lemma playViaWebSocket_spec:
  "concat (playViaWebSocket (\<lambda>_. False) pcm) = pcm \<and> (\<forall>f \<in> set (playViaWebSocket stop pcm). f \<noteq> [] \<and> length f \<le> frameSize)"
  by (auto simp: playViaWebSocket_def play_frames_all dest: play_frames_length)

text \<open>
  a session leaves the queues as it found them: for a call that is not waiting yet, the end of the
  session removes exactly the entry its start added, and the session counter returns to its value.
\<close>

theorem session_leaves_queues:
  assumes "fs_queues g = Some qs" "finite (dom qs)" "enumerates ord"
    and "handleFS_start database now nano fsUUID metaCallID g = (g1, callID)"
    and "\<forall>e \<in># waiting qs. CallID e \<noteq> callID"
  shows "fs_sessions (handleFS_end ord callID g1) = fs_sessions g \<and>
    (\<exists>qs2. fs_queues (handleFS_end ord callID g1) = Some qs2 \<and> waiting qs2 = waiting qs)"
proof -
  let ?c = "if fsUUID \<noteq> '''' then fsUUID else metaCallID"
  define en where "en = \<lparr>ID = ''q-'' @ dec nano, CallID = ?c, Number = if metaCallID \<noteq> '''' then metaCallID else fsUUID, WaitSec = 0,
    Reason = ''Incoming call'', Priority = ''normal'', QueueName = '''', EnterTime = 0\<rparr>"
  define q1 where "q1 = fst (AddCaller database now ''Support'' en qs)"
  define e where "e = en\<lparr>EnterTime := now, QueueName := ''Support''\<rparr>"
  have g1: "g1 = g\<lparr>fs_sessions := fs_sessions g + 1, fs_queues := Some q1\<rparr>" "callID = ?c"
    using assms(1,4) by (auto simp: handleFS_start_def Let_def q1_def en_def)
  have w1: "waiting q1 = add_mset e (waiting qs)" and f1: "finite (dom q1)"
    using qm.content_put [OF assms(2), of "(database, now, ''Support'', en)"] qm.put_wf [OF assms(2), of "(database, now, ''Support'', en)"]
    by (simp_all add: q1_def e_def)
  have ce: "CallID e = callID" by (simp add: e_def en_def g1(2))
  obtain q2 r where t: "take_caller (\<lambda>c. CallID c = callID) (ord q1) q1 = (q2, r)" by fastforce
  have "waiting q2 = waiting qs"
  proof (cases r)
    case None
    then show ?thesis using qm.takes_None [OF f1, of "(ord, \<lambda>c. CallID c = callID)"] assms(3) t w1 ce by auto
  next
    case (Some x)
    then have "CallID x = callID" "x \<in># waiting q1" "waiting q2 = waiting q1 - {#x#}"
      using qm.takes_Some [OF f1, of "(ord, \<lambda>c. CallID c = callID)"] assms(3) t by auto
    then show ?thesis using assms(5) w1 by auto
  qed
  then show ?thesis by (simp add: handleFS_end_def g1(1) RemoveCallerByCallID_def t)
qed

theorem session_leaves_queues_witness:
  "\<exists>qs2. fs_queues (handleFS_end key_order ''u1'' (fst (handleFS_start False 7 7 ''u1'' ''m1'' \<lparr>fs_sessions = 0, fs_queues = Some Map.empty\<rparr>))) = Some qs2
     \<and> waiting qs2 = {#}"
proof -
  have "handleFS_start False 7 7 ''u1'' ''m1'' \<lparr>fs_sessions = 0, fs_queues = Some Map.empty\<rparr>
      = (fst (handleFS_start False 7 7 ''u1'' ''m1'' \<lparr>fs_sessions = 0, fs_queues = Some Map.empty\<rparr>), ''u1'')"
    by (simp add: handleFS_start_def Let_def)
  from session_leaves_queues [OF _ _ enumerates_key_order this] show ?thesis by (simp add: waiting_def)
qed

end
