(* ===== verification/Webhooks.thy ===== *)
theory Webhooks
  imports Routing
begin

text \<open>
  Outgoing web hooks, \<open>gateway/webhooks.go\<close>: the cached list of hooks and its table, the choice of
  the hooks for an event, delivery with retries and exponential back-off, the log, and the HTTP
  handlers. The remote server is a parameter: the outcome of each attempt. Payloads are their JSON
  text. A \<open>time.Duration\<close> is kept at 64 bits where the back-off is computed.
\<close>

record Webhook =
  wh_ID :: string
  wh_Name :: string
  wh_URL :: string
  wh_Method :: string
  wh_Headers :: "(string \<times> string) list"
  wh_AuthType :: string
  wh_AuthValue :: string
  wh_Events :: "string list"
  wh_Enabled :: bool
  wh_RetryCount :: int

text \<open>A row of \<open>webhook_logs\<close>.\<close>

record webhook_log =
  wl_webhook_id :: string
  wl_event_type :: string
  wl_call_id :: string
  wl_status_code :: nat
  wl_response_body :: string
  wl_error :: string

text \<open>A row of \<open>webhooks\<close> keeps its events as the text of a Postgres array.\<close>

record webhook_row =
  wr_hook :: Webhook
  wr_events :: string
  wr_created_at :: instant

record webhook_db =
  wdb_webhooks :: "webhook_row list"
  wdb_logs :: "webhook_log list"

record WebhookManager =
  wm_webhooks :: "Webhook list"
  wm_db :: "webhook_db option"

subsection \<open>Loading\<close>

text \<open>\<open>queryOk\<close> is false when the query fails: the cache is then kept.\<close>

definition loadWebhooks :: "bool \<Rightarrow> WebhookManager \<Rightarrow> WebhookManager" where
  "loadWebhooks queryOk wm =
     (case wm_db wm of
        None \<Rightarrow> wm
      | Some d \<Rightarrow>
          if queryOk
          then wm\<lparr>wm_webhooks := map (\<lambda>r. (wr_hook r)\<lparr>wh_Events := parsePostgresArray (wr_events r)\<rparr>)
                                  (filter (\<lambda>r. wh_Enabled (wr_hook r)) (wdb_webhooks d))\<rparr>
          else wm)"

definition NewWebhookManager :: "bool \<Rightarrow> webhook_db option \<Rightarrow> WebhookManager" where
  "NewWebhookManager queryOk d = loadWebhooks queryOk \<lparr>wm_webhooks = [], wm_db = d\<rparr>"

subsection \<open>Delivery\<close>

definition sliceContains :: "string list \<Rightarrow> string \<Rightarrow> bool" where
  "sliceContains arr v \<longleftrightarrow> list_ex (\<lambda>a. a = v) arr"

text \<open>
  The deliveries that are started, one goroutine each, with the payload completed by the event and
  the time.
\<close>

definition json_put :: "string \<Rightarrow> string \<Rightarrow> json_obj \<Rightarrow> json_obj" where
  "json_put k v obj = filter (\<lambda>(k', _). k' \<noteq> k) obj @ [(k, v)]"

definition FireEvent :: "string \<Rightarrow> string \<Rightarrow> json_obj \<Rightarrow> WebhookManager \<Rightarrow> (Webhook \<times> json_obj) list" where
  "FireEvent eventType timestamp payload wm =
     (let payload1 = json_put ''timestamp'' timestamp (json_put ''event'' eventType payload)
      in map (\<lambda>h. (h, payload1))
           (filter (\<lambda>h. wh_Enabled h \<and> \<not> (wh_Events h \<noteq> [] \<and> \<not> sliceContains (wh_Events h) eventType)) (wm_webhooks wm)))"

definition auth_header :: "Webhook \<Rightarrow> (string \<times> string) list" where
  "auth_header h =
     (if wh_AuthType h = ''bearer'' then [(''Authorization'', ''Bearer '' @ wh_AuthValue h)]
      else if wh_AuthType h = ''basic'' then [(''Authorization'', ''Basic '' @ wh_AuthValue h)]
      else if wh_AuthType h = ''api_key'' then [(''X-API-Key'', wh_AuthValue h)]
      else [])"

text \<open>\<open>time.Duration(1<<uint(attempt-1)) * time.Second\<close>, in 64 bits.\<close>

definition backoff :: "nat \<Rightarrow> duration" where
  "backoff attempt = sint (push_bit (attempt - 1) 1 * (1000000000 :: 64 word))"

datatype attempt_outcome = NoRequest string | NoReply string | Reply nat string

datatype hook_effect = Slept duration | Sent string string "(string \<times> string) list" string

definition hook_retries :: "Webhook \<Rightarrow> nat" where
  "hook_retries h = (if wh_RetryCount h \<le> 0 then 1 else nat (wh_RetryCount h))"

definition attempt_effects :: "Webhook \<Rightarrow> string \<Rightarrow> nat \<Rightarrow> attempt_outcome \<Rightarrow> hook_effect list" where
  "attempt_effects h payload attempt r =
     (if attempt > 0 then [Slept (backoff attempt)] else [])
     @ (case r of NoRequest _ \<Rightarrow> []
        | _ \<Rightarrow> [Sent (wh_Method h) (wh_URL h) ([(''Content-Type'', ''application/json'')] @ wh_Headers h @ auth_header h) payload])"

text \<open>
  The loop over the attempts that are left, from the number of the next one; \<open>lastErr\<close> and
  \<open>lastStatus\<close> are the variables of the loop. The reply of a server is cut after 1024 bytes.
\<close>

fun send_loop ::
  "(nat \<Rightarrow> attempt_outcome) \<Rightarrow> Webhook \<Rightarrow> string \<Rightarrow> string \<Rightarrow> string \<Rightarrow> nat \<Rightarrow> nat \<Rightarrow> nat \<Rightarrow> string \<Rightarrow> hook_effect list \<times> webhook_log" where
  "send_loop server h eventType callID payload 0 attempt lastStatus lastErr =
     ([], \<lparr>wl_webhook_id = wh_ID h, wl_event_type = eventType, wl_call_id = callID, wl_status_code = lastStatus,
           wl_response_body = '''', wl_error = lastErr\<rparr>)"
| "send_loop server h eventType callID payload (Suc left) attempt lastStatus lastErr =
     (let r = server attempt; eff = attempt_effects h payload attempt r;
          again = (\<lambda>st err. let (e, l) = send_loop server h eventType callID payload left (attempt + 1) st err in (eff @ e, l))
      in case r of
           NoRequest err \<Rightarrow> again lastStatus err
         | NoReply err \<Rightarrow> again 0 err
         | Reply code body \<Rightarrow>
             if 200 \<le> code \<and> code < 300
             then (eff, \<lparr>wl_webhook_id = wh_ID h, wl_event_type = eventType, wl_call_id = callID, wl_status_code = code,
                         wl_response_body = take 1024 body, wl_error = ''''\<rparr>)
             else again code (''HTTP '' @ dec code @ '': '' @ take 1024 body))"

definition sendWebhook ::
  "(nat \<Rightarrow> attempt_outcome) \<Rightarrow> Webhook \<Rightarrow> string \<Rightarrow> string \<Rightarrow> string \<Rightarrow> hook_effect list \<times> webhook_log" where
  "sendWebhook server h eventType callID payload = send_loop server h eventType callID payload (hook_retries h) 0 0 ''''"

definition logWebhook :: "webhook_log \<Rightarrow> WebhookManager \<Rightarrow> WebhookManager" where
  "logWebhook l wm = wm\<lparr>wm_db := map_option (\<lambda>d. d\<lparr>wdb_logs := wdb_logs d @ [l]\<rparr>) (wm_db wm)\<rparr>"

subsection \<open>Handlers\<close>

text \<open>
  The response types: the list of hooks without their secrets, the log, or an object. \<open>inserted\<close> is the
  outcome of the \<open>INSERT\<close>: an error, or the identifier and time of the new row.
\<close>

datatype webhook_request = WhGet | WhPost "Webhook option" | WhDelete string | WhOther

definition default_hook :: "Webhook \<Rightarrow> Webhook" where
  "default_hook h = h\<lparr>wh_Method := (if wh_Method h = '''' then ''POST'' else wh_Method h),
                      wh_RetryCount := (if wh_RetryCount h = 0 then 3 else wh_RetryCount h)\<rparr>"

definition hook_listing :: "webhook_row \<Rightarrow> Webhook" where
  "hook_listing r = (wr_hook r)\<lparr>wh_Events := parsePostgresArray (wr_events r), wh_Headers := [], wh_AuthValue := ''''\<rparr>"

definition handleWebhooks ::
  "bool \<Rightarrow> string + string \<times> instant \<Rightarrow> webhook_request \<Rightarrow> WebhookManager \<Rightarrow> WebhookManager \<times> (json_obj + Webhook list) response" where
  "handleWebhooks queryOk inserted rq wm =
     (case rq of
        WhGet \<Rightarrow>
          (wm, WriteJSON 200 (Inr (case wm_db wm of None \<Rightarrow> []
             | Some d \<Rightarrow> if queryOk then map hook_listing (rev (sort_key wr_created_at (wdb_webhooks d))) else [])))
      | WhPost None \<Rightarrow> (wm, WriteJSON 400 (Inl [(''error'', ''invalid JSON'')]))
      | WhPost (Some h) \<Rightarrow>
          if wh_Name h = '''' \<or> wh_URL h = '''' then (wm, WriteJSON 400 (Inl [(''error'', ''name and url required'')]))
          else (case wm_db wm of
                  None \<Rightarrow> (wm, WriteJSON 500 (Inl [(''error'', ''no database'')]))
                | Some d \<Rightarrow>
                    (case inserted of
                       Inl err \<Rightarrow> (wm, WriteJSON 500 (Inl [(''error'', err)]))
                     | Inr (i, created) \<Rightarrow>
                         let row = \<lparr>wr_hook = (default_hook h)\<lparr>wh_ID := i, wh_Enabled := True\<rparr>,
                                    wr_events = arrayToPostgres (wh_Events h), wr_created_at = created\<rparr>
                         in (loadWebhooks queryOk (wm\<lparr>wm_db := Some (d\<lparr>wdb_webhooks := wdb_webhooks d @ [row]\<rparr>)\<rparr>),
                             WriteJSON 201 (Inl [(''id'', i), (''status'', ''created'')]))))
      | WhDelete i \<Rightarrow>
          if i = '''' then (wm, WriteJSON 400 (Inl [(''error'', ''id required'')]))
          else (loadWebhooks queryOk (wm\<lparr>wm_db := map_option (\<lambda>d. d\<lparr>wdb_webhooks := filter (\<lambda>r. wh_ID (wr_hook r) \<noteq> i) (wdb_webhooks d)\<rparr>) (wm_db wm)\<rparr>),
                WriteJSON 200 (Inl [(''status'', ''deleted'')]))
      | WhOther \<Rightarrow> (wm, HttpError 405 ''method not allowed''))"

definition test_payload :: json_obj where
  "test_payload = [(''call_id'', ''test-000''), (''caller'', ''+15551234567''), (''agent'', ''TestAgent''), (''duration'', ''120''),
     (''sentiment'', ''positive''), (''summary'', ''This is a test webhook payload.'')]"

definition handleWebhookTest :: "bool \<Rightarrow> string \<Rightarrow> WebhookManager option \<Rightarrow> (Webhook \<times> json_obj) list \<times> json_obj response" where
  "handleWebhookTest isPost timestamp mgr =
     (if \<not> isPost then ([], HttpError 405 ''POST required'')
      else (case mgr of None \<Rightarrow> [] | Some wm \<Rightarrow> FireEvent ''test'' timestamp test_payload wm, WriteJSON 200 [(''status'', ''test_sent'')]))"

text \<open>The last fifty entries, newest first, joined with the name of their hook.\<close>

definition handleWebhookLogs :: "bool \<Rightarrow> bool \<Rightarrow> WebhookManager \<Rightarrow> (webhook_log \<times> string) list response" where
  "handleWebhookLogs isGet queryOk wm =
     (if \<not> isGet then HttpError 405 ''GET required''
      else WriteJSON 200 (case wm_db wm of None \<Rightarrow> []
        | Some d \<Rightarrow>
            if \<not> queryOk then []
            else take 50 (concat (map (\<lambda>l. map (\<lambda>r. (l, wh_Name (wr_hook r)))
                   (filter (\<lambda>r. wh_ID (wr_hook r) = wl_webhook_id l) (wdb_webhooks d))) (rev (wdb_logs d))))))"

subsection \<open>Lemmas\<close>

definition delivered :: "attempt_outcome \<Rightarrow> bool" where
  "delivered r \<longleftrightarrow> (case r of Reply code _ \<Rightarrow> 200 \<le> code \<and> code < 300 | _ \<Rightarrow> False)"

definition sends :: "hook_effect list \<Rightarrow> nat" where
  "sends es = length (filter (\<lambda>e. case e of Sent _ _ _ _ \<Rightarrow> True | _ \<Rightarrow> False) es)"

definition sleeps :: "hook_effect list \<Rightarrow> duration list" where
  "sleeps es = concat (map (\<lambda>e. case e of Slept d \<Rightarrow> [d] | _ \<Rightarrow> []) es)"

lemma sleeps_append [simp]: "sleeps (xs @ ys) = sleeps xs @ sleeps ys" "sleeps [] = []"
  by (simp_all add: sleeps_def)

lemma sleeps_attempt [simp]: "sleeps (attempt_effects h payload n r) = (if n > 0 then [backoff n] else [])"
  by (simp add: attempt_effects_def sleeps_def split: attempt_outcome.splits)

lemma send_loop_delivered:
  assumes "delivered (server (attempt + k))" "\<forall>i < k. \<not> delivered (server (attempt + i))" "k < left"
    and "send_loop server h ev cid payload left attempt st err = (eff, l)"
  shows "eff = concat (map (\<lambda>i. attempt_effects h payload (attempt + i) (server (attempt + i))) [0..<Suc k]) \<and>
    200 \<le> wl_status_code l \<and> wl_status_code l < 300 \<and> wl_error l = ''''"
  using assms
proof (induction left arbitrary: attempt k st err eff)
  case (Suc left)
  show ?case
  proof (cases "delivered (server attempt)")
    case True
    then have "k = 0" using Suc.prems(2) by (cases k) auto
    with True Suc.prems(4) show ?thesis by (auto simp: delivered_def Let_def split: attempt_outcome.splits if_splits)
  next
    case False
    then obtain j where k: "k = Suc j" using Suc.prems(1) by (cases k) auto
    obtain st' err' e where e: "send_loop server h ev cid payload left (Suc attempt) st' err' = (e, l)"
      "eff = attempt_effects h payload attempt (server attempt) @ e"
      using False Suc.prems(4) by (auto simp: delivered_def Let_def split: attempt_outcome.splits if_splits prod.splits)
    have "e = concat (map (\<lambda>i. attempt_effects h payload (Suc attempt + i) (server (Suc attempt + i))) [0..<Suc j]) \<and>
        200 \<le> wl_status_code l \<and> wl_status_code l < 300 \<and> wl_error l = ''''"
      using Suc.IH [OF _ _ _ e(1), of j] Suc.prems(1-3) k by fastforce
    moreover have "[0..<Suc k] = 0 # map Suc [0..<Suc j]" unfolding k by (simp add: map_Suc_upt upt_conv_Cons del: upt_Suc)
    ultimately show ?thesis by (simp add: e(2) comp_def del: upt_Suc)
  qed
qed simp

lemma send_loop_exhausted:
  assumes "\<forall>i < left. \<not> delivered (server (attempt + i))"
    and "send_loop server h ev cid payload left attempt st err = (eff, l)"
  shows "eff = concat (map (\<lambda>i. attempt_effects h payload (attempt + i) (server (attempt + i))) [0..<left]) \<and>
    wl_response_body l = '''' \<and> (left > 0 \<longrightarrow> \<not> (\<exists>c b. server (attempt + left - 1) = Reply c b \<and> wl_error l = ''''))"
  using assms
proof (induction left arbitrary: attempt st err eff)
  case (Suc left)
  have nd: "\<not> delivered (server attempt)" using Suc.prems(1) by fastforce
  obtain st' err' e where e: "send_loop server h ev cid payload left (Suc attempt) st' err' = (e, l)"
    "eff = attempt_effects h payload attempt (server attempt) @ e" "(\<exists>c b. server attempt = Reply c b) \<longrightarrow> err' \<noteq> ''''"
    using nd Suc.prems(2) by (auto simp: delivered_def Let_def split: attempt_outcome.splits if_splits prod.splits)
  have ih: "e = concat (map (\<lambda>i. attempt_effects h payload (Suc attempt + i) (server (Suc attempt + i))) [0..<left]) \<and>
      wl_response_body l = '''' \<and> (left > 0 \<longrightarrow> \<not> (\<exists>c b. server (Suc attempt + left - 1) = Reply c b \<and> wl_error l = ''''))"
    by (rule Suc.IH [OF _ e(1)]) (use Suc.prems(1) in fastforce)
  have "[0..<Suc left] = 0 # map Suc [0..<left]" by (simp add: map_Suc_upt upt_conv_Cons del: upt_Suc)
  then have "eff = concat (map (\<lambda>i. attempt_effects h payload (attempt + i) (server (attempt + i))) [0..<Suc left])"
    using ih by (simp add: e(2) comp_def del: upt_Suc)
  moreover have "\<not> (\<exists>c b. server (attempt + Suc left - 1) = Reply c b \<and> wl_error l = '''')"
    using ih e(1,3) by (cases left) auto
  ultimately show ?case using ih by simp
qed auto

lemma backoff_doubles:
  assumes "1 \<le> n" "n \<le> 34"
  shows "backoff n = 2 ^ (n - 1) * second"
proof -
  have "\<forall>n \<in> set [1..<35]. backoff n = 2 ^ (n - 1) * second" by code_simp
  then show ?thesis using assms by auto
qed

lemma sleeps_attempts:
  assumes "n \<le> 35"
  shows "sleeps (concat (map (\<lambda>i. attempt_effects h payload i (server i)) [0..<n])) = map (\<lambda>i. 2 ^ i * second) [0..<n - 1]"
  using assms
proof (induction n)
  case (Suc n)
  then show ?case by (cases n) (simp_all add: backoff_doubles)
qed simp

subsection \<open>Properties\<close>

text \<open>
  a hook is tried until its first success and no longer: if one of the attempts allowed by the retry
  count succeeds, the attempts up to the first success are made and a success is logged; otherwise
  all are made and, if the server answered the last one, its error is logged. Between attempts the
  gateway sleeps 1, 2, 4, ... seconds, for retry counts up to 35.
\<close>

theorem sendWebhook_retries:
  assumes "sendWebhook server h ev cid payload = (eff, l)" "hook_retries h \<le> 35"
  defines "tried \<equiv> (if \<exists>k < hook_retries h. delivered (server k) then Suc (LEAST k. delivered (server k)) else hook_retries h)"
  shows "eff = concat (map (\<lambda>i. attempt_effects h payload i (server i)) [0..<tried]) \<and>
    sleeps eff = map (\<lambda>i. 2 ^ i * second) [0..<tried - 1] \<and>
    ((\<exists>k < hook_retries h. delivered (server k)) \<longrightarrow> 200 \<le> wl_status_code l \<and> wl_status_code l < 300 \<and> wl_error l = '''') \<and>
    ((\<forall>k < hook_retries h. \<not> delivered (server k)) \<longrightarrow>
       \<not> (\<exists>c b. server (hook_retries h - 1) = Reply c b \<and> wl_error l = ''''))"
proof -
  let ?n = "hook_retries h" and ?k = "LEAST k. delivered (server k)"
  have pos: "0 < ?n" by (simp add: hook_retries_def)
  have run: "send_loop server h ev cid payload ?n 0 0 '''' = (eff, l)" using assms(1) by (simp add: sendWebhook_def)
  have eff: "eff = concat (map (\<lambda>i. attempt_effects h payload i (server i)) [0..<tried])"
    and ok: "(\<exists>k < ?n. delivered (server k)) \<longrightarrow> 200 \<le> wl_status_code l \<and> wl_status_code l < 300 \<and> wl_error l = ''''"
    and bad: "(\<forall>k < ?n. \<not> delivered (server k)) \<longrightarrow> \<not> (\<exists>c b. server (?n - 1) = Reply c b \<and> wl_error l = '''')"
    and le: "tried \<le> ?n"
  proof -
    consider (yes) k where "k < ?n" "delivered (server k)" | (no) "\<forall>k < ?n. \<not> delivered (server k)" by blast
    then have "eff = concat (map (\<lambda>i. attempt_effects h payload i (server i)) [0..<tried]) \<and>
      ((\<exists>k < ?n. delivered (server k)) \<longrightarrow> 200 \<le> wl_status_code l \<and> wl_status_code l < 300 \<and> wl_error l = '''') \<and>
      ((\<forall>k < ?n. \<not> delivered (server k)) \<longrightarrow> \<not> (\<exists>c b. server (?n - 1) = Reply c b \<and> wl_error l = '''')) \<and> tried \<le> ?n"
    proof cases
      case yes
      have d1: "delivered (server ?k)" using yes(2) by (rule LeastI)
      have d2: "\<forall>i < ?k. \<not> delivered (server i)" using not_less_Least by blast
      have d3: "?k < ?n" using Least_le [of "\<lambda>k. delivered (server k)", OF yes(2)] yes(1) by (rule le_less_trans)
      note d = d1 d2 d3
      have t: "tried = Suc ?k" unfolding tried_def using yes by (meson if_P)
      note send_loop_delivered [where attempt = 0 and server = server and k = ?k, unfolded add_0, OF d run]
      then show ?thesis unfolding t using Suc_leI [OF d(3)] yes by blast
    next
      case no
      then have "tried = ?n" by (auto simp: tried_def)
      moreover have "eff = concat (map (\<lambda>i. attempt_effects h payload i (server i)) [0..<?n])"
        "\<not> (\<exists>c b. server (?n - 1) = Reply c b \<and> wl_error l = '''')"
        using send_loop_exhausted [where attempt = 0 and server = server, OF _ run] no pos by simp_all
      ultimately show ?thesis using no by auto
    qed
    then show "eff = concat (map (\<lambda>i. attempt_effects h payload i (server i)) [0..<tried])"
      "(\<exists>k < ?n. delivered (server k)) \<longrightarrow> 200 \<le> wl_status_code l \<and> wl_status_code l < 300 \<and> wl_error l = ''''"
      "(\<forall>k < ?n. \<not> delivered (server k)) \<longrightarrow> \<not> (\<exists>c b. server (?n - 1) = Reply c b \<and> wl_error l = '''')" "tried \<le> ?n"
      by blast+
  qed
  have "sleeps eff = map (\<lambda>i. 2 ^ i * second) [0..<tried - 1]"
    unfolding eff by (rule sleeps_attempts) (use le assms(2) in simp)
  with eff ok bad show ?thesis by blast
qed

definition example_hook :: Webhook where
  "example_hook = \<lparr>wh_ID = ''w1'', wh_Name = ''crm'', wh_URL = ''http://crm'', wh_Method = ''POST'', wh_Headers = [],
     wh_AuthType = ''bearer'', wh_AuthValue = ''t'', wh_Events = [], wh_Enabled = True, wh_RetryCount = 3\<rparr>"

theorem sendWebhook_retries_witness:
  "wl_error (snd (sendWebhook (\<lambda>_. Reply 204 '''') example_hook ''call_ended'' ''c1'' ''{}'')) = ''''"
proof -
  obtain eff l where r: "sendWebhook (\<lambda>_. Reply 204 '''') example_hook ''call_ended'' ''c1'' ''{}'' = (eff, l)" by fastforce
  have "hook_retries example_hook = 3" by (simp add: hook_retries_def example_hook_def)
  with sendWebhook_retries [OF r] have "wl_error l = ''''" by (force simp: delivered_def)
  then show ?thesis by (simp only: r snd_conv)
qed

text \<open>
  a hook created over the API is served: after the request its events reach it, exactly those it
  names or all of them when it names none, for event names that survive the text form of an array.
\<close>

theorem created_hook_fires:
  assumes "handleWebhooks True (Inr (i, created)) (WhPost (Some h)) wm = (wm', resp)" "status resp = 201"
    and "\<forall>w \<in> set (wh_Events h). w \<noteq> '''' \<and> CHR '','' \<notin> set w \<and> CHR 0x22 \<notin> set w \<and> \<not> is_space (hd w) \<and> \<not> is_space (last w)"
  shows "\<exists>h' \<in> set (wm_webhooks wm'). wh_ID h' = i \<and> wh_URL h' = wh_URL h \<and> wh_Events h' = wh_Events h \<and>
    (h' \<in> fst ` set (FireEvent ev ts payload wm') \<longleftrightarrow> wh_Events h = [] \<or> ev \<in> set (wh_Events h))"
proof -
  have arr: "parsePostgresArray (arrayToPostgres (wh_Events h)) = wh_Events h"
    by (rule parsePostgresArray_roundtrip) (rule assms(3))
  let ?h = "(default_hook h)\<lparr>wh_ID := i, wh_Enabled := True\<rparr>"
  have "?h \<in> set (wm_webhooks wm')"
    using assms(1,2) arr
    by (auto simp: handleWebhooks_def loadWebhooks_def Let_def default_hook_def split: if_splits option.splits)
  moreover have "?h \<in> fst ` set (FireEvent ev ts payload wm') \<longleftrightarrow> wh_Events h = [] \<or> ev \<in> set (wh_Events h)"
    using calculation by (auto simp: FireEvent_def Let_def sliceContains_def list_ex_iff default_hook_def image_iff)
  ultimately show ?thesis by (intro bexI [of _ ?h]) (auto simp: default_hook_def)
qed

theorem created_hook_fires_witness:
  "''w1'' \<in> wh_ID ` set (wm_webhooks (fst (handleWebhooks True (Inr (''w1'', 0)) (WhPost (Some example_hook))
      \<lparr>wm_webhooks = [], wm_db = Some \<lparr>wdb_webhooks = [], wdb_logs = []\<rparr>\<rparr>)))"
proof -
  let ?wm = "\<lparr>wm_webhooks = [], wm_db = Some \<lparr>wdb_webhooks = [], wdb_logs = []\<rparr>\<rparr>"
  obtain wm' resp where r: "handleWebhooks True (Inr (''w1'', 0)) (WhPost (Some example_hook)) ?wm = (wm', resp)" by fastforce
  then have "status resp = 201" by (auto simp: handleWebhooks_def example_hook_def Let_def)
  from created_hook_fires [OF r this] have "''w1'' \<in> wh_ID ` set (wm_webhooks wm')" by (force simp: example_hook_def)
  then show ?thesis by (simp only: r fst_conv)
qed

end
