(* ===== verification/Rtp.thy ===== *)
theory Rtp
  imports Resample
begin

text \<open>
  The RTP leg of a call, \<open>gateway/rtplistener.go\<close>: what is sent, with sequence numbers and timestamps
  at their width, and what a received datagram does. The packet codec is a third-party library: a
  received datagram is the packet it decodes to, a sent one the packet that is marshalled. Addresses
  are their text.
\<close>

record rtp_packet =
  PayloadType :: nat
  SequenceNumber :: "16 word"
  Timestamp :: "32 word"
  SSRC :: "32 word"
  Payload :: "byte list"

record RTPListener =
  rl_conn :: bool
  rl_codec :: string
  remoteAddr :: "string option"
  sendSeq :: "16 word"
  sendTS :: "32 word"
  sendSSRC :: "32 word"

text \<open>\<open>listening\<close> is the outcome of resolving and binding the port; \<open>ssrc\<close> is the random identifier.\<close>

definition NewRTPListener :: "string + unit \<Rightarrow> string \<Rightarrow> 32 word \<Rightarrow> string + RTPListener" where
  "NewRTPListener listening codec ssrc =
     map_sum id (\<lambda>_. \<lparr>rl_conn = True, rl_codec = codec, remoteAddr = None, sendSeq = 0, sendTS = 0, sendSSRC = ssrc\<rparr>) listening"

definition RemoteAddrStr :: "RTPListener \<Rightarrow> string" where
  "RemoteAddrStr r = (case remoteAddr r of None \<Rightarrow> ''<nil>'' | Some a \<Rightarrow> a)"

definition SetRemoteAddr :: "string + string \<Rightarrow> RTPListener \<Rightarrow> RTPListener \<times> string option" where
  "SetRemoteAddr resolved r = (case resolved of Inl err \<Rightarrow> (r, Some err) | Inr addr \<Rightarrow> (r\<lparr>remoteAddr := Some addr\<rparr>, None))"

definition PayloadTypeForCodec :: "string \<Rightarrow> nat" where
  "PayloadTypeForCodec codec =
     (if codec \<in> set [''PCMU'', ''pcmu'', ''ulaw''] then 0
      else if codec \<in> set [''PCMA'', ''pcma'', ''alaw''] then 8
      else 0)"

definition FrameSize :: "int \<Rightarrow> int" where
  "FrameSize durationMs = 1 * 8 * durationMs"

subsection \<open>Sending\<close>

definition next_packet :: "32 word \<Rightarrow> byte list \<Rightarrow> RTPListener \<Rightarrow> RTPListener \<times> rtp_packet" where
  "next_packet step payload r =
     (let r1 = r\<lparr>sendSeq := sendSeq r + 1, sendTS := sendTS r + step\<rparr>
      in (r1, \<lparr>PayloadType = 0, SequenceNumber = sendSeq r1, Timestamp = sendTS r1, SSRC = sendSSRC r1, Payload = payload\<rparr>))"

definition SendPCM :: "(real \<Rightarrow> real) \<Rightarrow> byte list \<Rightarrow> RTPListener \<Rightarrow> RTPListener \<times> (string + rtp_packet \<times> string)" where
  "SendPCM rnd pcm16k r =
     (case remoteAddr r of
        None \<Rightarrow> (r, Inl ''no remote address'')
      | Some addr \<Rightarrow>
          if \<not> rl_conn r then (r, Inl ''connection closed'')
          else
            let (r1, pkt) = next_packet 160 (EncodeG711Ulaw (resample rnd pcm16k 16000 8000)) r
            in (r1, Inr (pkt, addr)))"

definition SendG711 :: "byte list \<Rightarrow> RTPListener \<Rightarrow> RTPListener \<times> (string + rtp_packet \<times> string)" where
  "SendG711 payload r =
     (case remoteAddr r of
        None \<Rightarrow> (r, Inl ''not ready'')
      | Some addr \<Rightarrow>
          if \<not> rl_conn r then (r, Inl ''not ready'')
          else let (r1, pkt) = next_packet (word_of_nat (length payload)) payload r in (r1, Inr (pkt, addr)))"

subsection \<open>Receiving\<close>

text \<open>
  A datagram is its sender and the packet it decodes to, if it does. The audio goes to the copilot,
  and for the caller's leg to the conference mixer, when there is one, or to the taps. A full channel
  drops the audio there.
\<close>

datatype rtp_effect = ToCopilot "byte list" | ToMixer "byte list" | ToTaps "byte list"

type_synonym datagram = "string option \<times> rtp_packet option"

definition learn_remote :: "string option \<Rightarrow> nat \<Rightarrow> RTPListener \<Rightarrow> RTPListener" where
  "learn_remote sender frameCount r =
     (case sender of None \<Rightarrow> r
      | Some a \<Rightarrow> if remoteAddr r = None \<or> frameCount = 0 then r\<lparr>remoteAddr := Some a\<rparr> else r)"

definition audio_packet :: "string \<Rightarrow> rtp_packet option \<Rightarrow> bool" where
  "audio_packet codec p = (case p of None \<Rightarrow> False | Some pkt \<Rightarrow> PayloadType pkt = PayloadTypeForCodec codec \<and> Payload pkt \<noteq> [])"

definition receive_datagram :: "string \<Rightarrow> bool \<Rightarrow> bool \<Rightarrow> datagram \<Rightarrow> RTPListener \<times> nat \<Rightarrow> (RTPListener \<times> nat) \<times> rtp_effect list" where
  "receive_datagram role has_copilot in_conference d s =
     (let (r, frameCount) = s; r1 = learn_remote (fst d) frameCount r in
      if audio_packet (rl_codec r) (snd d) then
        let pcm = ResampleG711toL16 (Payload (the (snd d))) (rl_codec r)
        in ((r1, frameCount + 1),
            ToCopilot pcm # (if role = ''caller'' \<and> has_copilot then [if in_conference then ToMixer pcm else ToTaps pcm] else []))
      else ((r1, frameCount), []))"

fun ReceiveAndDecode :: "string \<Rightarrow> bool \<Rightarrow> bool \<Rightarrow> datagram list \<Rightarrow> RTPListener \<times> nat \<Rightarrow> (RTPListener \<times> nat) \<times> rtp_effect list" where
  "ReceiveAndDecode role cop conf [] s = (s, [])"
| "ReceiveAndDecode role cop conf (d # ds) s =
     (let (s1, e1) = receive_datagram role cop conf d s; (s2, e2) = ReceiveAndDecode role cop conf ds s1 in (s2, e1 @ e2))"

subsection \<open>Lemmas\<close>

lemma learn_remote_codec [simp]: "rl_codec (learn_remote a n r) = rl_codec r"
  by (simp add: learn_remote_def split: option.splits)

lemma receive_codec: "receive_datagram role cop conf d (r, n) = ((r1, n1), e) \<Longrightarrow> rl_codec r1 = rl_codec r"
  by (auto simp: receive_datagram_def Let_def split: if_splits)

lemma receive_locked:
  assumes "receive_datagram role cop conf d (r, n) = ((r1, n1), e)" "0 < n" "remoteAddr r = Some a"
  shows "remoteAddr r1 = Some a" "0 < n1"
  using assms by (auto simp: receive_datagram_def learn_remote_def Let_def split: if_splits option.splits)

lemma receive_run_locked:
  assumes "ReceiveAndDecode role cop conf ds (r, n) = ((r1, n1), e)" "0 < n" "remoteAddr r = Some a"
  shows "remoteAddr r1 = Some a"
  using assms
proof (induction ds arbitrary: r n e)
  case (Cons d ds)
  obtain r2 n2 e2 where s: "receive_datagram role cop conf d (r, n) = ((r2, n2), e2)" by (metis surj_pair)
  then show ?case using Cons receive_locked [OF s Cons.prems(2,3)] by (auto split: prod.splits)
qed simp

lemma receive_run_append:
  "ReceiveAndDecode role cop conf (ds @ ds') s =
     (let (s1, e1) = ReceiveAndDecode role cop conf ds s; (s2, e2) = ReceiveAndDecode role cop conf ds' s1 in (s2, e1 @ e2))"
  by (induction ds arbitrary: s) (auto split: prod.splits)

lemma receive_no_audio:
  assumes "\<forall>d \<in> set ds. \<not> audio_packet (rl_codec r) (snd d)"
  shows "\<exists>r1. ReceiveAndDecode role cop conf ds (r, n) = ((r1, n), []) \<and> rl_codec r1 = rl_codec r"
  using assms
proof (induction ds arbitrary: r)
  case (Cons d ds)
  let ?r = "learn_remote (fst d) n r"
  have "receive_datagram role cop conf d (r, n) = ((?r, n), [])" using Cons.prems by (simp add: receive_datagram_def)
  with Cons.IH [of ?r] Cons.prems show ?case by auto
qed simp

lemma length_halved_frame:
  assumes "exact_halves rnd" "length pcm = 640"
  shows "length (EncodeG711Ulaw (resample rnd pcm 16000 8000)) = 160"
proof -
  note e = exact_nat [OF assms(1)]
  have "rnd 320 = 320" "rnd 8000 = 8000" "rnd 16000 = 16000" "rnd 2560000 = 2560000" "rnd 160 = 160"
    using e [of 320] e [of 8000] e [of 16000] e [of 2560000] e [of 160] by simp_all
  moreover have "trunc 160 = 160" using trunc_of_int [of 160] by simp
  ultimately show ?thesis using assms(2) by (simp add: EncodeG711Ulaw_def resample_def Let_def)
qed

subsection \<open>Properties\<close>

text \<open>
  the address audio is sent to cannot be taken over once the caller is heard: after the first audio
  frame of a leg, no later datagram, whatever its sender and content, changes it. It is then the
  sender of that first audio frame.
\<close>

theorem remote_locked:
  assumes "\<forall>d \<in> set early. \<not> audio_packet (rl_codec r) (snd d)" "audio_packet (rl_codec r) (Some pkt)"
    and "ReceiveAndDecode role cop conf (early @ (Some a, Some pkt) # later) (r, 0) = ((r1, n), effs)"
  shows "remoteAddr r1 = Some a"
proof -
  obtain r2 where r2: "ReceiveAndDecode role cop conf early (r, 0) = ((r2, 0), [])" "rl_codec r2 = rl_codec r"
    using receive_no_audio [OF assms(1)] by blast
  let ?r3 = "r2\<lparr>remoteAddr := Some a\<rparr>"
  obtain e3 where r3: "receive_datagram role cop conf (Some a, Some pkt) (r2, 0) = ((?r3, 1), e3)"
    using assms(2) r2(2) by (simp add: receive_datagram_def learn_remote_def Let_def)
  obtain e4 where "ReceiveAndDecode role cop conf later (?r3, 1) = ((r1, n), e4)"
    using assms(3) by (auto simp: receive_run_append r2 r3 split: prod.splits)
  from receive_run_locked [OF this] show ?thesis by simp
qed

definition example_listener :: RTPListener where
  "example_listener = \<lparr>rl_conn = True, rl_codec = ''PCMU'', remoteAddr = Some ''10.0.0.1:4000'', sendSeq = 65535, sendTS = 0, sendSSRC = 7\<rparr>"

definition example_packet :: rtp_packet where
  "example_packet = \<lparr>PayloadType = 0, SequenceNumber = 1, Timestamp = 160, SSRC = 9, Payload = [255]\<rparr>"

theorem remote_locked_witness:
  "remoteAddr (fst (fst (ReceiveAndDecode ''caller'' True False
     [(Some ''nat:1'', Some example_packet), (Some ''evil:2'', Some example_packet)] (example_listener, 0)))) = Some ''nat:1''"
proof -
  let ?ds = "[] @ (Some ''nat:1'', Some example_packet) # [(Some ''evil:2'', Some example_packet)]"
  obtain r1 n e where run: "ReceiveAndDecode ''caller'' True False ?ds (example_listener, 0) = ((r1, n), e)" by (metis surj_pair)
  have "audio_packet (rl_codec example_listener) (Some example_packet)"
    by (simp add: audio_packet_def example_listener_def example_packet_def PayloadTypeForCodec_def)
  from remote_locked [OF _ this run] have "remoteAddr r1 = Some ''nat:1''" by simp
  then show ?thesis using run by simp
qed

fun send_all :: "(real \<Rightarrow> real) \<Rightarrow> byte list list \<Rightarrow> RTPListener \<Rightarrow> RTPListener \<times> (string + rtp_packet \<times> string) list" where
  "send_all rnd [] r = (r, [])"
| "send_all rnd (f # fs) r = (let (r1, x) = SendPCM rnd f r; (r2, xs) = send_all rnd fs r1 in (r2, x # xs))"

lemma send_all_nth:
  assumes "remoteAddr r = Some a" "rl_conn r" "i < length fs"
  shows "\<exists>payload. snd (send_all rnd fs r) ! i = Inr (\<lparr>PayloadType = 0, SequenceNumber = sendSeq r + word_of_nat (i + 1),
      Timestamp = sendTS r + 160 * word_of_nat (i + 1), SSRC = sendSSRC r, Payload = payload\<rparr>, a) \<and>
    payload = EncodeG711Ulaw (resample rnd (fs ! i) 16000 8000)"
  using assms
proof (induction fs arbitrary: r i)
  case (Cons f fs)
  let ?r = "fst (next_packet 160 (EncodeG711Ulaw (resample rnd f 16000 8000)) r)"
  have s: "SendPCM rnd f r = (?r, Inr (snd (next_packet 160 (EncodeG711Ulaw (resample rnd f 16000 8000)) r), a))"
    using Cons.prems by (simp add: SendPCM_def split_beta)
  have r: "remoteAddr ?r = Some a" "rl_conn ?r" "sendSeq ?r = sendSeq r + 1" "sendTS ?r = sendTS r + 160" "sendSSRC ?r = sendSSRC r"
    using Cons.prems by (simp_all add: next_packet_def Let_def)
  show ?case
  proof (cases i)
    case 0
    then show ?thesis by (simp add: s split_beta next_packet_def Let_def)
  next
    case (Suc j)
    then show ?thesis using Cons.IH [OF r(1,2), of j] Cons.prems(3)
      by (simp add: s split_beta r(3-5) algebra_simps)
  qed
qed simp

text \<open>
  the stream sent to the caller is a well-formed RTP stream: while an address is known and the socket
  open, the frames get consecutive sequence numbers modulo 2^16 and timestamps 160 apart modulo 2^32,
  one identifier and the known address; for 20 ms frames the timestamp advances by the number of
  samples sent.
\<close>

theorem rtp_stream_wellformed:
  assumes "remoteAddr r = Some a" "rl_conn r" "i < length fs" "exact_halves rnd" "\<forall>f \<in> set fs. length f = 640"
  shows "\<exists>pkt. snd (send_all rnd fs r) ! i = Inr (pkt, a) \<and> SequenceNumber pkt = sendSeq r + word_of_nat (i + 1) \<and>
    Timestamp pkt = sendTS r + word_of_nat (i + 1) * word_of_nat (length (Payload pkt)) \<and> SSRC pkt = sendSSRC r"
proof -
  from send_all_nth [OF assms(1-3), of rnd] obtain payload where
    p: "snd (send_all rnd fs r) ! i = Inr (\<lparr>PayloadType = 0, SequenceNumber = sendSeq r + word_of_nat (i + 1),
      Timestamp = sendTS r + 160 * word_of_nat (i + 1), SSRC = sendSSRC r, Payload = payload\<rparr>, a)"
    "payload = EncodeG711Ulaw (resample rnd (fs ! i) 16000 8000)" by blast
  have "length payload = 160" unfolding p(2) by (rule length_halved_frame [OF assms(4)]) (use assms(3,5) in simp)
  with p(1) show ?thesis by (simp add: mult.commute)
qed

theorem rtp_stream_wellformed_witness:
  "\<exists>pkt. snd (send_all (\<lambda>x. x) [replicate 640 0] example_listener) ! 0 = Inr (pkt, ''10.0.0.1:4000'') \<and> SequenceNumber pkt = 0"
proof -
  have "exact_halves (\<lambda>x. x)" by (simp add: exact_halves_def)
  from rtp_stream_wellformed [of example_listener "''10.0.0.1:4000''" 0 "[replicate 640 0]", OF _ _ _ this]
  show ?thesis by (auto simp: example_listener_def simp del: send_all.simps)
qed

end
