(* ===== verification/Recording.thy ===== *)
theory Recording
  imports Wav Fanout
begin

text \<open>
  Call recording, \<open>gateway/recording.go\<close>: the recorder with its two taps and buffers, the stereo
  file it writes, the name of the file, and the handlers that list and serve recordings and reports.
  Writing a file and the queries of the reports are parameters; a path is its text, joined by \<open>/\<close>.
\<close>

record CallRecorder =
  rec_callID :: string
  callerBuf :: "byte list"
  agentBuf :: "byte list"
  rec_callerTap :: nat
  rec_agentTap :: nat
  recording :: bool
  paused :: bool
  startTime :: instant

definition newCallRecorder :: "string \<Rightarrow> instant \<Rightarrow> siprec_taps \<Rightarrow> siprec_taps \<times> CallRecorder" where
  "newCallRecorder callID now copilot =
     (let (c1, callerTap) = AddAudioTap copilot; (c2, agentTap) = AddAgentTap c1
      in (c2, \<lparr>rec_callID = callID, callerBuf = [], agentBuf = [], rec_callerTap = callerTap, rec_agentTap = agentTap,
               recording = False, paused = False, startTime = now\<rparr>))"

definition rec_start :: "CallRecorder \<Rightarrow> CallRecorder" where
  "rec_start r = r\<lparr>recording := True\<rparr>"

text \<open>One frame read from a tap by the collecting goroutine of its side.\<close>

definition collectAudio :: "bool \<Rightarrow> byte list \<Rightarrow> CallRecorder \<Rightarrow> CallRecorder" where
  "collectAudio isCaller frame r =
     (if paused r then r
      else if isCaller then r\<lparr>callerBuf := callerBuf r @ frame\<rparr>
      else r\<lparr>agentBuf := agentBuf r @ frame\<rparr>)"

definition rec_stop :: "CallRecorder \<Rightarrow> siprec_taps \<Rightarrow> CallRecorder \<times> siprec_taps" where
  "rec_stop r copilot =
     (if \<not> recording r then (r, copilot)
      else (r\<lparr>recording := False\<rparr>, RemoveAgentTap (rec_agentTap r) (RemoveAudioTap (rec_callerTap r) copilot)))"

subsection \<open>The stereo file\<close>

definition pad_to :: "nat \<Rightarrow> byte list \<Rightarrow> byte list" where
  "pad_to n bs = (if length bs < n then bs @ replicate (n - length bs) 0 else bs)"

definition interleaveStereo :: "byte list \<Rightarrow> byte list \<Rightarrow> byte list" where
  "interleaveStereo left right =
     (let maxLen = max (length left) (length right); l = pad_to maxLen left; r = pad_to maxLen right
      in concat (map (\<lambda>i. put_u16 (u16_le (l ! (i * 2)) (l ! (i * 2 + 1))) @ put_u16 (u16_le (r ! (i * 2)) (r ! (i * 2 + 1))))
           [0..<maxLen div 2]))"

definition safe_char :: "char \<Rightarrow> bool" where
  "safe_char c \<longleftrightarrow>
     (let n = of_char c :: nat in 97 \<le> n \<and> n \<le> 122 \<or> 65 \<le> n \<and> n \<le> 90 \<or> 48 \<le> n \<and> n \<le> 57 \<or> c = CHR ''-'' \<or> c = CHR ''_'')"

definition sanitizeCallID :: "string \<Rightarrow> string" where
  "sanitizeCallID callID = map (\<lambda>c. if safe_char c then c else CHR ''_'') callID"

record recording_row =
  rr_call_id :: string
  rr_file_path :: string
  rr_duration_sec :: int
  rr_file_size :: nat

text \<open>\<open>date\<close> is today's directory, \<open>2006/01/02\<close>.\<close>

definition recording_path :: "string \<Rightarrow> string \<Rightarrow> string \<Rightarrow> string" where
  "recording_path dir date callID =
     (if dir = '''' then ''/tmp/recordings'' else dir) @ ''/'' @ date @ ''/'' @ sanitizeCallID callID @ ''.wav''"

text \<open>
  \<open>write\<close> is the outcome of writing the file. The result holds what was written, the row inserted when
  there is a database, and the path or the error.
\<close>

definition save ::
  "(string \<Rightarrow> string option) \<Rightarrow> string \<Rightarrow> string \<Rightarrow> bool \<Rightarrow> instant \<Rightarrow> CallRecorder
    \<Rightarrow> (string \<times> byte list) option \<times> recording_row list \<times> (string + string)" where
  "save write dir date database now r =
     (if callerBuf r = [] \<and> agentBuf r = [] then (None, [], Inr '''')
      else
        let wav = buildWAV (interleaveStereo (callerBuf r) (agentBuf r)) 16000 2 16;
            path = recording_path dir date (rec_callID r)
        in case write path of
             Some err \<Rightarrow> (None, [], Inl (''write recording: '' @ err))
           | None \<Rightarrow>
               (Some (path, wav),
                if database then [\<lparr>rr_call_id = rec_callID r, rr_file_path = path,
                                   rr_duration_sec = go_div (since now (startTime r)) second, rr_file_size = length wav\<rparr>] else [],
                Inr path))"

subsection \<open>Handlers\<close>

text \<open>Rows of \<open>call_recordings\<close> with their identifier and time of creation.\<close>

type_synonym recordings = "(string \<times> instant \<times> recording_row) list"

definition handleRecordingsList :: "bool \<Rightarrow> bool \<Rightarrow> recordings option \<Rightarrow> (string \<times> recording_row \<times> string) list response" where
  "handleRecordingsList isGet queryOk db0 =
     (if \<not> isGet then HttpError 405 ''GET required''
      else WriteJSON 200 (case db0 of None \<Rightarrow> []
        | Some t \<Rightarrow>
            if \<not> queryOk then []
            else map (\<lambda>(i, _, r). (i, r, ''/api/recordings/'' @ i)) (take 100 (rev (sort_key (\<lambda>(_, c, _). c) t)))))"

definition handleRecordingFile :: "bool \<Rightarrow> string \<Rightarrow> recordings option \<Rightarrow> string response" where
  "handleRecordingFile isGet path db0 =
     (let i = drop (length ''/api/recordings/'') path in
      if \<not> isGet then HttpError 405 ''GET required''
      else if i = '''' then HttpError 400 ''recording ID required''
      else case db0 of
             None \<Rightarrow> HttpError 500 ''no database''
           | Some t \<Rightarrow>
               (case find (\<lambda>(j, _, _). j = i) t of
                  None \<Rightarrow> HttpError 404 ''recording not found''
                | Some (_, _, r) \<Rightarrow> WriteJSON 200 (rr_file_path r)))"

text \<open>
  The three report handlers differ only in the query. \<open>days\<close> is what \<open>Sscanf\<close> reads from the
  parameter, \<open>None\<close> when it is absent or no number.
\<close>

definition handleReport :: "(int \<Rightarrow> string + 'a list) \<Rightarrow> bool \<Rightarrow> int option \<Rightarrow> bool \<Rightarrow> 'a list response" where
  "handleReport query isGet days database =
     (if \<not> isGet then HttpError 405 ''GET required''
      else WriteJSON 200
        (if \<not> database then []
         else case query (case days of None \<Rightarrow> 7 | Some d \<Rightarrow> d) of Inl err \<Rightarrow> [] | Inr rows \<Rightarrow> rows))"

subsection \<open>Lemmas\<close>

lemma length_pad_to [simp]: "length bs \<le> n \<Longrightarrow> length (pad_to n bs) = n"
  by (simp add: pad_to_def)

lemma samples_concat4:
  "samples (concat (map (\<lambda>i. put_u16 (f i) @ put_u16 (g i)) is)) = concat (map (\<lambda>i. [f i, g i]) is)"
  by (induction "is") simp_all

lemma nth_pairs: "k < length xs \<Longrightarrow> concat (map (\<lambda>i. [f i, g i]) xs) ! (2 * k) = f (xs ! k) \<and> concat (map (\<lambda>i. [f i, g i]) xs) ! (2 * k + 1) = g (xs ! k)"
proof (induction xs arbitrary: k)
  case (Cons x xs)
  then show ?case by (cases k) auto
qed simp

lemma length_pairs: "length (concat (map (\<lambda>i. [f i, g i]) xs)) = 2 * length xs"
  by (induction xs) auto

lemma samples_interleave:
  assumes "n = max (length left) (length right) div 2" "k < n"
  shows "samples (interleaveStereo left right) ! (2 * k) = samples (pad_to (max (length left) (length right)) left) ! k"
    "samples (interleaveStereo left right) ! (2 * k + 1) = samples (pad_to (max (length left) (length right)) right) ! k"
proof -
  let ?m = "max (length left) (length right)"
  let ?f = "\<lambda>bs i. u16_le (pad_to ?m bs ! (i * 2)) (pad_to ?m bs ! (i * 2 + 1))"
  have k: "k < length [0..<n]" "k < ?m div 2" using assms by simp_all
  have "samples (interleaveStereo left right) = concat (map (\<lambda>i. [?f left i, ?f right i]) [0..<n])"
    unfolding interleaveStereo_def Let_def samples_concat4 assms(1) ..
  moreover have "samples (pad_to ?m bs) ! k = ?f bs k" if "length bs \<le> ?m" for bs
    using nth_samples [of k "pad_to ?m bs"] that k(2) by (simp add: mult.commute)
  ultimately show "samples (interleaveStereo left right) ! (2 * k) = samples (pad_to ?m left) ! k"
    "samples (interleaveStereo left right) ! (2 * k + 1) = samples (pad_to ?m right) ! k"
    using nth_pairs [OF k(1), of "?f left" "?f right"] assms(2) by (simp_all del: put_u16_le)
qed


lemma length_samples_interleave: "length (samples (interleaveStereo left right)) = 2 * (max (length left) (length right) div 2)"
  unfolding interleaveStereo_def Let_def samples_concat4 by (simp only: length_pairs length_upt diff_zero)

lemma safe_sanitize: "list_all safe_char (sanitizeCallID s)"
  by (induction s) (auto simp: sanitizeCallID_def safe_char_def)

subsection \<open>Properties\<close>

text \<open>
  the recording holds the two sides of the call sample by sample: the left channel of the stereo
  audio is the caller's audio and the right one the agent's, each followed by silence up to the
  length of the longer one.
\<close>

theorem stereo_channels:
  assumes "even (length left)" "even (length right)" "k < max (length left) (length right) div 2"
  shows "length (samples (interleaveStereo left right)) = 2 * (max (length left) (length right) div 2) \<and>
    samples (interleaveStereo left right) ! (2 * k) = (if k < length left div 2 then samples left ! k else 0) \<and>
    samples (interleaveStereo left right) ! (2 * k + 1) = (if k < length right div 2 then samples right ! k else 0)"
proof -
  let ?m = "max (length left) (length right)"
  have pad: "samples (pad_to ?m bs) ! k = (if k < length bs div 2 then samples bs ! k else 0)"
    if "length bs \<le> ?m" "even (length bs)" for bs
  proof -
    have k: "2 * k + 1 < ?m" using assms(3) by linarith
    show ?thesis
    proof (cases "k < length bs div 2")
      case True
      then have "2 * k + 1 < length bs" by linarith
      with True assms(3) that show ?thesis by (simp add: nth_samples pad_to_def nth_append)
    next
      case False
      then have "length bs \<le> 2 * k" using that(2) by (metis dvd_mult_div_cancel mult_le_mono2 not_le)
      with False assms(3) that k show ?thesis
        by (simp add: nth_samples pad_to_def nth_append u16_le_def)
    qed
  qed
  show ?thesis
    using samples_interleave [OF refl assms(3)] pad [OF _ assms(1)] pad [OF _ assms(2)]
    by (simp only: length_samples_interleave max.cobounded1 max.cobounded2 simp_thms)
qed

theorem stereo_channels_witness:
  "samples (interleaveStereo [1, 0, 2, 0] [3, 0]) ! 3 = 0"
  using stereo_channels [of "[1, 0, 2, 0]" "[3, 0]" 1] by simp

text \<open>
  a call identifier chosen by a peer cannot name a file outside the recording directory: the path is
  the directory of the day followed by a name of letters, digits, dashes and underscores only.
\<close>

theorem recording_path_safe:
  assumes "save write dir date database now r = (Some (path, wav), rows, res)"
  shows "\<exists>name. path = (if dir = '''' then ''/tmp/recordings'' else dir) @ ''/'' @ date @ ''/'' @ name @ ''.wav'' \<and>
    list_all safe_char name \<and> CHR ''/'' \<notin> set name \<and> CHR ''.'' \<notin> set name \<and> length name = length (rec_callID r) \<and> res = Inr path"
proof -
  have "path = recording_path dir date (rec_callID r)" "res = Inr path"
    using assms by (auto simp: save_def Let_def split: if_splits option.splits)
  moreover have "\<not> safe_char (CHR ''/'')" "\<not> safe_char (CHR ''.'')" by (simp_all add: safe_char_def)
  moreover have "length (sanitizeCallID (rec_callID r)) = length (rec_callID r)" by (simp add: sanitizeCallID_def)
  ultimately show ?thesis
    using safe_sanitize [of "rec_callID r"] unfolding recording_path_def list_all_iff by blast
qed

theorem recording_path_safe_witness:
  "\<exists>name. recording_path ''/rec'' ''2026/01/01'' ''../../etc/passwd'' = ''/rec'' @ ''/'' @ ''2026/01/01'' @ ''/'' @ name @ ''.wav'' \<and> CHR ''/'' \<notin> set name"
proof -
  let ?r = "(snd (newCallRecorder ''../../etc/passwd'' 0 \<lparr>audioTaps = [], agentTaps = [], next_chan = 0\<rparr>))\<lparr>callerBuf := [0, 0]\<rparr>"
  obtain wav rows res where
    "save (\<lambda>_. None) ''/rec'' ''2026/01/01'' False 0 ?r = (Some (recording_path ''/rec'' ''2026/01/01'' ''../../etc/passwd'', wav), rows, res)"
    by (simp add: save_def newCallRecorder_def AddAudioTap_def AddAgentTap_def Let_def)
  from recording_path_safe [OF this] show ?thesis by auto
qed

text \<open>
  Different identifiers can share a file: characters outside the safe set all become an underscore,
  and the later call of a day overwrites the earlier one.
\<close>

lemma recording_path_collides: "recording_path dir date ''a@b'' = recording_path dir date ''a:b''"
  by (simp add: recording_path_def sanitizeCallID_def safe_char_def)

end
