(* ===== verification/Db.thy ===== *)
theory Db
  imports Complex_Main Queue_Manager
begin

text \<open>
  The database layer, \<open>gateway/db.go\<close>: the tables of calls, transcripts, documents and queue entries,
  the statements that write them and the queries that list and aggregate them. A statement that fails
  is given by its error; without a database every operation does nothing. \<open>trunc\<close> stands for
  \<open>date_trunc\<close>, which depends on the time zone of the server, and \<open>avg\<close> for the value the driver
  scans from \<open>AVG\<close> into an integer, \<open>None\<close> when the scan fails.
\<close>

subsection \<open>Tables keyed by an identifier\<close>

text \<open>
  \<open>INSERT ... ON CONFLICT (id) DO UPDATE\<close>: a new key appends its row, a known one merges the new row
  into the old one. What any sequence of such statements leaves behind.
\<close>

definition lookup_row :: "('r \<Rightarrow> 'k) \<Rightarrow> 'k \<Rightarrow> 'r list \<Rightarrow> 'r option" where
  "lookup_row key k t = find (\<lambda>r. key r = k) t"

locale keyed_table =
  fixes key :: "'r \<Rightarrow> 'k" and merge :: "'r \<Rightarrow> 'r \<Rightarrow> 'r" and upsert :: "'r \<Rightarrow> 'r list \<Rightarrow> 'r list"
  assumes upsert_new: "key r \<notin> key ` set t \<Longrightarrow> upsert r t = t @ [r]"
    and upsert_known: "key r \<in> key ` set t \<Longrightarrow> upsert r t = map (\<lambda>x. if key x = key r then merge r x else x) t"
    and key_merge: "key (merge r x) = key x"
begin

lemma distinct_upsert:
  assumes "distinct (map key t)"
  shows "distinct (map key (upsert r t))"
proof (cases "key r \<in> key ` set t")
  case True
  have "map key (upsert r t) = map key t" by (simp add: upsert_known [OF True] key_merge)
  with assms show ?thesis by simp
qed (use assms in \<open>simp add: upsert_new\<close>)

lemma lookup_upsert:
  "lookup_row key k (upsert r t) =
     (if key r = k then Some (case lookup_row key k t of None \<Rightarrow> r | Some x \<Rightarrow> merge r x) else lookup_row key k t)"
proof (cases "key r \<in> key ` set t")
  case True
  have "lookup_row key k (map (\<lambda>x. if key x = key r then merge r x else x) t) =
      (if key r = k then map_option (merge r) (lookup_row key k t) else lookup_row key k t)"
    by (induction t) (auto simp: lookup_row_def key_merge)
  moreover have "key r = k \<Longrightarrow> \<exists>x. lookup_row key k t = Some x"
    using True unfolding lookup_row_def by (metis (mono_tags, lifting) find_None_iff image_iff option.exhaust)
  ultimately show ?thesis by (auto simp: upsert_known [OF True])
next
  case False
  then have "key r = k \<Longrightarrow> lookup_row key k t = None" by (auto simp: lookup_row_def find_None_iff image_iff)
  moreover have "lookup_row key k (t @ [r]) = (case lookup_row key k t of None \<Rightarrow> if key r = k then Some r else None | Some x \<Rightarrow> Some x)"
    by (induction t) (auto simp: lookup_row_def)
  ultimately show ?thesis by (auto simp: upsert_new [OF False] split: option.splits)
qed

text \<open>The row of a key is its first row with every later one merged in, in order.\<close>

lemma upserts_distinct: "distinct (map key t) \<Longrightarrow> distinct (map key (fold upsert rs t))"
  by (induction rs arbitrary: t) (simp_all add: distinct_upsert)

lemma lookup_upserts:
  "lookup_row key k (fold upsert rs t) =
     fold (\<lambda>r row. Some (case row of None \<Rightarrow> r | Some x \<Rightarrow> merge r x)) (filter (\<lambda>r. key r = k) rs) (lookup_row key k t)"
  by (induction rs arbitrary: t) (simp_all add: lookup_upsert)

end

subsection \<open>Rows\<close>

record CallRecord =
  cr_ID :: string
  cr_CallerNumber :: string
  cr_CalledNumber :: string
  cr_AgentID :: "string option"
  cr_Mode :: string
  cr_Status :: string
  cr_StartTime :: instant
  cr_EndTime :: "instant option"
  cr_Duration :: int
  cr_Summary :: string
  cr_Sentiment :: string
  cr_ActionItems :: "string list"
  cr_Commitments :: "string list"
  cr_Transcript :: string
  cr_Suggestions :: string
  cr_VoiceSentiment :: string
  cr_RobocallScore :: real
  cr_RobocallCategory :: string
  cr_PIIDetected :: bool
  cr_LLMModel :: string

definition zero_call :: CallRecord where
  "zero_call = \<lparr>cr_ID = '''', cr_CallerNumber = '''', cr_CalledNumber = '''', cr_AgentID = None, cr_Mode = '''', cr_Status = '''',
     cr_StartTime = 0, cr_EndTime = None, cr_Duration = 0, cr_Summary = '''', cr_Sentiment = '''', cr_ActionItems = [],
     cr_Commitments = [], cr_Transcript = '''', cr_Suggestions = '''', cr_VoiceSentiment = '''', cr_RobocallScore = 0,
     cr_RobocallCategory = '''', cr_PIIDetected = False, cr_LLMModel = ''''\<rparr>"

record document_row =
  doc_id :: string
  doc_name :: string
  doc_category :: string
  doc_content :: string
  doc_chroma_id :: string
  doc_chunks :: int
  doc_status :: string
  doc_uploaded_at :: instant

record queue_row =
  qr_id :: string
  qr_call_id :: string
  qr_caller_number :: string
  qr_queue_name :: string
  qr_reason :: string
  qr_priority :: string
  qr_wait_start :: instant
  qr_status :: string
  qr_assigned :: string

record Database =
  db_calls :: "CallRecord list"
  db_transcripts :: "(string \<times> string \<times> string) list"
  db_documents :: "document_row list"
  db_queue_entries :: "queue_row list"

text \<open>Running a statement against a database that may be missing, with its error if it fails.\<close>

definition exec_db :: "string option \<Rightarrow> (Database \<Rightarrow> Database) \<Rightarrow> Database option \<Rightarrow> Database option \<times> string option" where
  "exec_db fails f d =
     (case d of None \<Rightarrow> (None, None)
      | Some t \<Rightarrow> (case fails of Some err \<Rightarrow> (Some t, Some err) | None \<Rightarrow> (Some (f t), None)))"

definition query_db :: "string option \<Rightarrow> (Database \<Rightarrow> 'a list) \<Rightarrow> Database option \<Rightarrow> string + 'a list" where
  "query_db fails f d =
     (case d of None \<Rightarrow> Inr [] | Some t \<Rightarrow> (case fails of Some err \<Rightarrow> Inl err | None \<Rightarrow> Inr (f t)))"

subsection \<open>Calls\<close>

definition merge_call :: "CallRecord \<Rightarrow> CallRecord \<Rightarrow> CallRecord" where
  "merge_call c r = r\<lparr>cr_EndTime := cr_EndTime c, cr_Duration := cr_Duration c, cr_Summary := cr_Summary c,
     cr_Sentiment := cr_Sentiment c, cr_ActionItems := cr_ActionItems c, cr_Commitments := cr_Commitments c,
     cr_Transcript := cr_Transcript c, cr_Suggestions := cr_Suggestions c, cr_VoiceSentiment := cr_VoiceSentiment c,
     cr_Status := cr_Status c\<rparr>"

definition upsert_call :: "CallRecord \<Rightarrow> CallRecord list \<Rightarrow> CallRecord list" where
  "upsert_call c t =
     (if list_ex (\<lambda>r. cr_ID r = cr_ID c) t then map (\<lambda>r. if cr_ID r = cr_ID c then merge_call c r else r) t else t @ [c])"

definition SaveCall :: "string option \<Rightarrow> CallRecord \<Rightarrow> Database option \<Rightarrow> Database option \<times> string option" where
  "SaveCall fails c d = exec_db fails (\<lambda>t. t\<lparr>db_calls := upsert_call c (db_calls t)\<rparr>) d"

definition sort_desc_by :: "('a \<Rightarrow> 'b :: linorder) \<Rightarrow> 'a list \<Rightarrow> 'a list" where
  "sort_desc_by f xs = rev (sort_key f (rev xs))"

definition listed_call :: "CallRecord \<Rightarrow> CallRecord" where
  "listed_call r = zero_call\<lparr>cr_ID := cr_ID r, cr_CallerNumber := cr_CallerNumber r, cr_CalledNumber := cr_CalledNumber r,
     cr_Mode := cr_Mode r, cr_Status := cr_Status r, cr_StartTime := cr_StartTime r, cr_EndTime := cr_EndTime r,
     cr_Duration := cr_Duration r, cr_Summary := cr_Summary r, cr_Sentiment := cr_Sentiment r, cr_LLMModel := cr_LLMModel r\<rparr>"

definition ListCalls :: "string option \<Rightarrow> nat \<Rightarrow> Database option \<Rightarrow> string + CallRecord list" where
  "ListCalls fails limit d = query_db fails (\<lambda>t. map listed_call (take limit (sort_desc_by cr_StartTime (db_calls t)))) d"

definition SaveTranscript :: "string option \<Rightarrow> string \<Rightarrow> string \<Rightarrow> string \<Rightarrow> Database option \<Rightarrow> Database option \<times> string option" where
  "SaveTranscript fails callID speaker said d =
     exec_db fails (\<lambda>t. t\<lparr>db_transcripts := db_transcripts t @ [(callID, speaker, said)]\<rparr>) d"

subsection \<open>Queue entries\<close>

text \<open>\<open>new_id\<close> and \<open>now\<close> are the defaults of the columns \<open>id\<close> and \<open>wait_start\<close>.\<close>

definition EnqueueCaller ::
  "string option \<Rightarrow> string \<Rightarrow> instant \<Rightarrow> string \<Rightarrow> string \<Rightarrow> string \<Rightarrow> string \<Rightarrow> string \<Rightarrow> Database option \<Rightarrow> Database option \<times> string option" where
  "EnqueueCaller fails new_id now callID callerNumber queueName reason priority d =
     exec_db fails (\<lambda>t. t\<lparr>db_queue_entries := db_queue_entries t @
       [\<lparr>qr_id = new_id, qr_call_id = callID, qr_caller_number = callerNumber, qr_queue_name = queueName, qr_reason = reason,
         qr_priority = priority, qr_wait_start = now, qr_status = ''waiting'', qr_assigned = ''''\<rparr>]\<rparr>) d"

definition DequeueCaller :: "string option \<Rightarrow> string \<Rightarrow> string \<Rightarrow> Database option \<Rightarrow> Database option \<times> string option" where
  "DequeueCaller fails entryID agentID d =
     exec_db fails (\<lambda>t. t\<lparr>db_queue_entries := map (\<lambda>r. if qr_id r = entryID then r\<lparr>qr_status := ''assigned'', qr_assigned := agentID\<rparr> else r)
       (db_queue_entries t)\<rparr>) d"

definition ListQueueEntries :: "string option \<Rightarrow> instant \<Rightarrow> string \<Rightarrow> Database option \<Rightarrow> string + (queue_row \<times> int) list" where
  "ListQueueEntries fails now queueName d =
     query_db fails (\<lambda>t. map (\<lambda>r. (r, since now (qr_wait_start r) div second))
       (sort_desc_by qr_priority (sort_key qr_wait_start
         (filter (\<lambda>r. qr_status r = ''waiting'' \<and> (queueName = '''' \<or> qr_queue_name r = queueName)) (db_queue_entries t))))) d"

subsection \<open>Documents\<close>

definition merge_document :: "document_row \<Rightarrow> document_row \<Rightarrow> document_row" where
  "merge_document new r =
     r\<lparr>doc_name := doc_name new, doc_category := doc_category new, doc_content := doc_content new, doc_chunks := doc_chunks new\<rparr>"

definition upsert_document :: "document_row \<Rightarrow> document_row list \<Rightarrow> document_row list" where
  "upsert_document x t =
     (if list_ex (\<lambda>r. doc_id r = doc_id x) t then map (\<lambda>r. if doc_id r = doc_id x then merge_document x r else r) t else t @ [x])"

definition SaveDocument ::
  "string option \<Rightarrow> instant \<Rightarrow> string \<Rightarrow> string \<Rightarrow> string \<Rightarrow> string \<Rightarrow> string \<Rightarrow> int \<Rightarrow> Database option \<Rightarrow> Database option \<times> string option" where
  "SaveDocument fails now i name category content chromaID chunks d =
     exec_db fails (\<lambda>t. t\<lparr>db_documents := upsert_document
       \<lparr>doc_id = i, doc_name = name, doc_category = category, doc_content = content, doc_chroma_id = chromaID,
        doc_chunks = chunks, doc_status = ''indexed'', doc_uploaded_at = now\<rparr> (db_documents t)\<rparr>) d"

definition ListDocuments :: "string option \<Rightarrow> Database option \<Rightarrow> string + document_row list" where
  "ListDocuments fails d =
     query_db fails (\<lambda>t. map (\<lambda>r. r\<lparr>doc_content := '''', doc_chroma_id := ''''\<rparr>) (sort_desc_by doc_uploaded_at (db_documents t))) d"

subsection \<open>Statistics\<close>

definition count_sentiment :: "string \<Rightarrow> CallRecord list \<Rightarrow> nat" where
  "count_sentiment s cs = length (filter (\<lambda>c. cr_Sentiment c = s) cs)"

definition group_counts :: "(CallRecord \<Rightarrow> 'g) \<Rightarrow> (CallRecord list \<Rightarrow> 'a) \<Rightarrow> 'g list \<Rightarrow> CallRecord list \<Rightarrow> ('g \<times> 'a) list" where
  "group_counts g agg gs cs = map (\<lambda>k. (k, agg (filter (\<lambda>c. g c = k) cs))) gs"

text \<open>Calls that started within the given number of days.\<close>

definition recent_calls :: "instant \<Rightarrow> int \<Rightarrow> Database \<Rightarrow> CallRecord list" where
  "recent_calls now days t = filter (\<lambda>c. cr_StartTime c > now - days * 86400 * second) (db_calls t)"

record dashboard =
  totalToday :: nat
  avgDuration :: int
  d_positive :: nat
  d_neutral :: nat
  d_negative :: nat

definition DashboardStats :: "(int list \<Rightarrow> int option) \<Rightarrow> instant \<Rightarrow> Database option \<Rightarrow> dashboard" where
  "DashboardStats avg today d =
     (case d of
        None \<Rightarrow> \<lparr>totalToday = 0, avgDuration = 0, d_positive = 0, d_neutral = 0, d_negative = 0\<rparr>
      | Some t \<Rightarrow>
          let cs = filter (\<lambda>c. cr_StartTime c > today) (db_calls t) in
          \<lparr>totalToday = length cs, avgDuration = (case avg (map cr_Duration cs) of Some a \<Rightarrow> a | None \<Rightarrow> 0),
           d_positive = count_sentiment ''positive'' cs, d_neutral = count_sentiment ''neutral'' cs,
           d_negative = count_sentiment ''negative'' cs\<rparr>)"

definition CallVolumeByHour ::
  "string option \<Rightarrow> (instant \<Rightarrow> instant) \<Rightarrow> instant \<Rightarrow> int \<Rightarrow> Database option \<Rightarrow> string + (instant \<times> nat) list" where
  "CallVolumeByHour fails trunc now days d =
     query_db fails (\<lambda>t. let cs = recent_calls now days t; g = (\<lambda>c. trunc (cr_StartTime c))
       in group_counts g length (sort (remdups (map g cs))) cs) d"

text \<open>A failed scan of the average leaves it and the counts after it at zero.\<close>

definition AgentPerformance ::
  "string option \<Rightarrow> (int list \<Rightarrow> int option) \<Rightarrow> instant \<Rightarrow> int \<Rightarrow> Database option \<Rightarrow> string + (string \<times> nat \<times> int \<times> nat \<times> nat) list" where
  "AgentPerformance fails avg now days d =
     query_db fails (\<lambda>t. let cs = recent_calls now days t in
       sort_desc_by (\<lambda>(_, n, _). n)
         (group_counts cr_CalledNumber
           (\<lambda>mine. (length mine, case avg (map cr_Duration mine) of
               None \<Rightarrow> (0, 0, 0)
             | Some a \<Rightarrow> (a, count_sentiment ''positive'' mine, count_sentiment ''negative'' mine)))
           (remdups (map cr_CalledNumber cs)) cs)) d"

definition SentimentTrend ::
  "string option \<Rightarrow> (instant \<Rightarrow> instant) \<Rightarrow> instant \<Rightarrow> int \<Rightarrow> Database option \<Rightarrow> string + (instant \<times> nat \<times> nat \<times> nat) list" where
  "SentimentTrend fails trunc now days d =
     query_db fails (\<lambda>t. let cs = recent_calls now days t; g = (\<lambda>c. trunc (cr_StartTime c))
       in group_counts g (\<lambda>mine. (count_sentiment ''positive'' mine, count_sentiment ''neutral'' mine, count_sentiment ''negative'' mine))
            (sort (remdups (map g cs))) cs) d"

subsection \<open>The tables keep their keys\<close>

interpretation calls: keyed_table cr_ID merge_call upsert_call
  by unfold_locales (auto simp: upsert_call_def merge_call_def list_ex_iff image_iff)

interpretation documents: keyed_table doc_id merge_document upsert_document
  by unfold_locales (auto simp: upsert_document_def merge_document_def list_ex_iff image_iff)

lemma merge_calls:
  "fold (\<lambda>r row. Some (case row of None \<Rightarrow> r | Some x \<Rightarrow> merge_call r x)) cs (Some c) = Some (case cs of [] \<Rightarrow> c | _ \<Rightarrow> merge_call (last cs) c)"
proof (induction cs arbitrary: c)
  case (Cons a cs)
  show ?case
    by (cases cs) (use Cons [of "merge_call a c"] in \<open>simp_all add: merge_call_def\<close>)
qed simp

subsection \<open>Lemmas: grouping\<close>

lemma sum_groups:
  assumes "distinct gs" "\<forall>c \<in> set cs. g c \<in> set gs"
  shows "(\<Sum>k\<leftarrow>gs. length (filter (\<lambda>c. g c = k) cs)) = length cs"
  using assms
proof (induction cs)
  case (Cons c cs)
  have "(\<Sum>k\<leftarrow>gs. length (filter (\<lambda>c'. g c' = k) (c # cs)))
      = (\<Sum>k\<leftarrow>gs. of_bool (k = g c)) + (\<Sum>k\<leftarrow>gs. length (filter (\<lambda>c. g c = k) cs))"
    by (simp add: sum_list_addf [symmetric] if_distrib cong: if_cong) (rule arg_cong [of _ _ sum_list], auto)
  moreover have "(\<Sum>k\<leftarrow>gs. of_bool (k = g c)) = (1 :: nat)"
  proof -
    have "(\<Sum>k\<leftarrow>gs. of_bool (k = g c)) = (\<Sum>k\<in>set gs. of_bool (k = g c) :: nat)"
      by (rule sum_list_distinct_conv_sum_set) (rule Cons.prems(1))
    also have "\<dots> = 1" using Cons.prems(2) by (simp add: of_bool_def)
    finally show ?thesis .
  qed
  ultimately show ?case using Cons by simp
qed simp

lemma sum_list_group_counts:
  assumes "distinct gs" "\<forall>c \<in> set cs. g c \<in> set gs"
  shows "sum_list (map snd (group_counts g length gs cs)) = length cs"
  using sum_groups [OF assms] by (simp add: group_counts_def comp_def)

subsection \<open>Properties\<close>

text \<open>
  a call is stored once: whatever records are saved in whatever order, the table holds one row per
  identifier; its identity (numbers, start, mode) is that of the first record saved for the call and
  its outcome (end, duration, summary, sentiment, status) that of the last.
\<close>

theorem calls_first_and_last:
  assumes "filter (\<lambda>c. cr_ID c = i) cs = c # later" "last (c # later) = z"
  shows "distinct (map cr_ID (fold upsert_call cs [])) \<and>
    (\<exists>row. lookup_row cr_ID i (fold upsert_call cs []) = Some row \<and>
       cr_CallerNumber row = cr_CallerNumber c \<and> cr_CalledNumber row = cr_CalledNumber c \<and> cr_StartTime row = cr_StartTime c \<and>
       cr_Mode row = cr_Mode c \<and> cr_EndTime row = cr_EndTime z \<and> cr_Duration row = cr_Duration z \<and>
       cr_Summary row = cr_Summary z \<and> cr_Sentiment row = cr_Sentiment z \<and> cr_Status row = cr_Status z)"
proof -
  have "lookup_row cr_ID i (fold upsert_call cs []) = Some (case later of [] \<Rightarrow> c | _ \<Rightarrow> merge_call (last later) c)"
    unfolding calls.lookup_upserts assms(1) by (simp add: merge_calls lookup_row_def)
  then show ?thesis
    using assms(2) calls.upserts_distinct [of "[]" cs]
    by (cases later) (auto simp: merge_call_def split: if_splits)
qed

theorem calls_first_and_last_witness:
  "\<exists>row. lookup_row cr_ID ''a'' (fold upsert_call
      [zero_call\<lparr>cr_ID := ''a'', cr_CallerNumber := ''1''\<rparr>, zero_call\<lparr>cr_ID := ''a'', cr_Summary := ''x''\<rparr>] []) = Some row
    \<and> cr_CallerNumber row = ''1'' \<and> cr_Summary row = ''x''"
proof -
  let ?c = "zero_call\<lparr>cr_ID := ''a'', cr_CallerNumber := ''1''\<rparr>" and ?z = "zero_call\<lparr>cr_ID := ''a'', cr_Summary := ''x''\<rparr>"
  have "filter (\<lambda>c. cr_ID c = ''a'') [?c, ?z] = ?c # [?z]" by simp
  from calls_first_and_last [OF this refl] show ?thesis by (auto simp: zero_call_def)
qed

text \<open>
  the hourly report accounts for every call: the hours of the report are distinct and in ascending
  order, and the counts add up to the number of calls of the period.
\<close>

theorem call_volume_complete:
  assumes "CallVolumeByHour None trunc now days (Some t) = Inr rows"
  shows "sorted (map fst rows) \<and> distinct (map fst rows) \<and> sum_list (map snd rows) = length (recent_calls now days t)"
proof -
  let ?cs = "recent_calls now days t" and ?g = "\<lambda>c. trunc (cr_StartTime c)"
  have rows: "rows = group_counts ?g length (sort (remdups (map ?g ?cs))) ?cs"
    using assms by (simp add: CallVolumeByHour_def query_db_def Let_def)
  have "map fst rows = sort (remdups (map ?g ?cs))" by (simp add: rows group_counts_def comp_def)
  moreover have "sum_list (map snd rows) = length ?cs"
    unfolding rows by (rule sum_list_group_counts) auto
  ultimately show ?thesis by simp
qed

theorem call_volume_complete_witness:
  "sum_list (map snd (projr (CallVolumeByHour None id 10 1 (Some \<lparr>db_calls = [zero_call, zero_call], db_transcripts = [],
     db_documents = [], db_queue_entries = []\<rparr>)))) = 2"
proof -
  let ?t = "\<lparr>db_calls = [zero_call, zero_call], db_transcripts = [], db_documents = [], db_queue_entries = []\<rparr>"
  obtain rows where r: "CallVolumeByHour None id 10 1 (Some ?t) = Inr rows" by (simp add: CallVolumeByHour_def query_db_def)
  have "length (recent_calls 10 1 ?t) = 2" by (simp add: recent_calls_def zero_call_def second_def)
  with call_volume_complete [OF r] show ?thesis unfolding r by simp
qed

end
