(* ===== verification/Copilot.thy ===== *)
theory Copilot
  imports Pipeline Recording Webhooks Db Rtp Conference
begin

text \<open>
  The co-pilot, \<open>gateway/siprec.go\<close>: sessions that listen to both legs of a call, the reader of a
  leg, recognition in fixed windows, the coach, the summary at the end of a call, the event stream of
  the dashboard and the HTTP handlers. The recogniser, the language model, JSON decoding and the
  document context are parameters. A channel is the sequence of what was accepted into it, and a flag
  for closed; \<open>room k\<close> tells whether it has room for the \<open>k\<close>-th frame of a leg. The connections of
  the legs are flags, and the conference of a call is its mixer.
\<close>

subsection \<open>Types\<close>

record Utterance =
  utt_Speaker :: string
  utt_Text :: string
  utt_Timestamp :: instant

record Suggestion =
  sg_Text :: string
  sg_Context :: string
  sg_Category :: string
  sg_Confidence :: real

record CallSummary =
  cs_ConversationID :: string
  cs_Duration :: int
  cs_Transcript :: "Utterance list"
  cs_Summary :: string
  cs_ActionItems :: "string list"
  cs_Commitments :: "string list"
  cs_Sentiment :: string
  cs_Suggestions :: "Suggestion list"

datatype sse_event =
  SseSentiment SentimentResult
| SseTranscript string string
| SseSuggestion Suggestion
| SseState string string
| SseAnswered string string
| SseSummary string "string list" "string list" string int SentimentResult

record pcm_chan =
  pc_sent :: "byte list list"
  pc_closed :: bool

record siprecSession =
  ss_callID :: string
  ss_startTime :: instant
  ss_callerNumber :: string
  ss_agentNumber :: string
  callerConn :: bool
  agentConn :: bool
  pcmCaller :: pcm_chan
  pcmAgent :: pcm_chan
  ss_transcripts :: "Utterance list"
  conversation :: "Utterance list"
  allSuggs :: "Suggestion list"
  sseClients :: "sse_event chan list"
  ss_sentiment :: VoiceSentiment
  ss_taps :: siprec_taps
  whisperCh :: "byte list list option"
  rtpSession :: "RTPListener option"
  ss_conference :: "mixParticipant list option"
  recorder :: "CallRecorder option"
  ss_cancelled :: bool

definition empty_chan :: pcm_chan where
  "empty_chan = \<lparr>pc_sent = [], pc_closed = False\<rparr>"

subsection \<open>The event stream\<close>

definition sse_cap :: nat where "sse_cap = 20"

definition broadcastSSE :: "sse_event \<Rightarrow> siprecSession \<Rightarrow> siprecSession" where
  "broadcastSSE ev s = s\<lparr>sseClients := map (send_nb sse_cap ev) (sseClients s)\<rparr>"

definition sse_fresh :: "siprecSession \<Rightarrow> nat" where
  "sse_fresh s = Suc (fold max (map fst (sseClients s)) 0)"

definition addSSEClient :: "nat \<Rightarrow> siprecSession \<Rightarrow> siprecSession" where
  "addSSEClient ch s = s\<lparr>sseClients := sseClients s @ [(ch, [])]\<rparr>"

definition removeSSEClient :: "nat \<Rightarrow> siprecSession \<Rightarrow> siprecSession" where
  "removeSSEClient ch s = s\<lparr>sseClients := remove_first (\<lambda>c. fst c = ch) (sseClients s)\<rparr>"

text \<open>A new channel is one that no client has.\<close>

definition connect_client :: "siprecSession \<Rightarrow> siprecSession \<times> nat" where
  "connect_client s = (addSSEClient (sse_fresh s) s, sse_fresh s)"

subsection \<open>Sessions\<close>

record copilot_state =
  siprecSessions :: "string \<rightharpoonup> siprecSession"
  cs_queues :: "queues option"
  cs_webhooks :: "WebhookManager option"
  cs_db :: "Database option"

definition fire :: "string \<Rightarrow> string \<Rightarrow> json_obj \<Rightarrow> copilot_state \<Rightarrow> (Webhook \<times> json_obj) list" where
  "fire event timestamp payload g = (case cs_webhooks g of None \<Rightarrow> [] | Some wm \<Rightarrow> FireEvent event timestamp payload wm)"

definition new_session :: "string \<Rightarrow> instant \<Rightarrow> siprecSession" where
  "new_session callID now =
     (let (taps, rc) = newCallRecorder callID now \<lparr>audioTaps = [], agentTaps = [], next_chan = 0\<rparr>
      in \<lparr>ss_callID = callID, ss_startTime = now, ss_callerNumber = '''', ss_agentNumber = '''',
          callerConn = False, agentConn = False, pcmCaller = empty_chan, pcmAgent = empty_chan, ss_transcripts = [], conversation = [], allSuggs = [], sseClients = [],
          ss_sentiment = NewVoiceSentiment, ss_taps = taps, whisperCh = None, rtpSession = None,
          ss_conference = None, recorder = Some (rec_start rc), ss_cancelled = False\<rparr>)"

definition getOrCreateSIPRECSession ::
  "instant \<Rightarrow> string \<Rightarrow> string \<Rightarrow> copilot_state \<Rightarrow> copilot_state \<times> siprecSession \<times> (Webhook \<times> json_obj) list" where
  "getOrCreateSIPRECSession now timestamp callID g =
     (case siprecSessions g callID of
        Some s \<Rightarrow> (g, s, [])
      | None \<Rightarrow>
          let s = new_session callID now
          in (g\<lparr>siprecSessions := (siprecSessions g)(callID \<mapsto> s)\<rparr>, s,
              fire ''call_started'' timestamp [(''call_id'', callID), (''caller'', ss_callerNumber s)] g))"

subsection \<open>Legs\<close>

definition leg_chan :: "string \<Rightarrow> siprecSession \<Rightarrow> pcm_chan" where
  "leg_chan role s = (if role = ''caller'' then pcmCaller s else pcmAgent s)"

definition set_leg_chan :: "string \<Rightarrow> pcm_chan \<Rightarrow> siprecSession \<Rightarrow> siprecSession" where
  "set_leg_chan role c s = (if role = ''caller'' then s\<lparr>pcmCaller := c\<rparr> else s\<lparr>pcmAgent := c\<rparr>)"

text \<open>Sending on a closed channel and closing it again panic, which is \<open>None\<close>.\<close>

definition leg_frame :: "string \<Rightarrow> bool \<Rightarrow> byte list \<Rightarrow> siprecSession \<Rightarrow> siprecSession option" where
  "leg_frame role room frame s =
     (let c = leg_chan role s in
      if pc_closed c then None
      else
        let s1 = set_leg_chan role (if room then c\<lparr>pc_sent := pc_sent c @ [frame]\<rparr> else c) s
        in Some (if role = ''caller'' then s1\<lparr>ss_taps := broadcastToTaps frame (ss_taps s1)\<rparr> else s1))"

definition leg_close :: "string \<Rightarrow> siprecSession \<Rightarrow> siprecSession option" where
  "leg_close role s =
     (let c = leg_chan role s in
      if pc_closed c then None else Some ((set_leg_chan role (c\<lparr>pc_closed := True\<rparr>) s)\<lparr>ss_cancelled := True\<rparr>))"

text \<open>A panic is recovered by the deferred function: the reader returns with the state as it is.\<close>

definition recovered :: "siprecSession \<Rightarrow> siprecSession option \<Rightarrow> siprecSession" where
  "recovered s r = (case r of None \<Rightarrow> s | Some s' \<Rightarrow> s')"

fun leg_loop :: "(string \<Rightarrow> bool) \<Rightarrow> string \<Rightarrow> (nat \<Rightarrow> bool) \<Rightarrow> nat \<Rightarrow> ws_message list \<Rightarrow> siprecSession \<Rightarrow> siprecSession" where
  "leg_loop is_stop role room k [] s = recovered s (leg_close role s)"
| "leg_loop is_stop role room k (TextMessage t # ms) s =
     (if is_stop t then recovered s (leg_close role s) else leg_loop is_stop role room k ms s)"
| "leg_loop is_stop role room k (BinaryMessage d # ms) s =
     (if d = [] then leg_loop is_stop role room k ms s
      else case leg_frame role (room k) d s of None \<Rightarrow> s | Some s1 \<Rightarrow> leg_loop is_stop role room (k + 1) ms s1)"
| "leg_loop is_stop role room k (OtherMessage # ms) s = leg_loop is_stop role room k ms s"

text \<open>When the first read fails, the reader returns at once.\<close>

definition readLeg :: "(string \<Rightarrow> bool) \<Rightarrow> string \<Rightarrow> (nat \<Rightarrow> bool) \<Rightarrow> ws_message list \<Rightarrow> siprecSession \<Rightarrow> siprecSession" where
  "readLeg is_stop role room msgs s =
     (case msgs of
        [] \<Rightarrow> s
      | BinaryMessage d # ms \<Rightarrow> leg_loop is_stop role room 0 (BinaryMessage d # ms) s
      | _ # ms \<Rightarrow> leg_loop is_stop role room 0 ms s)"

subsection \<open>Recognition\<close>

definition chunkFrames :: nat where "chunkFrames = 250"

record stt =
  stt_audioBuf :: "byte list"
  stt_frameCount :: nat

definition observe_frame :: "(real \<Rightarrow> real) \<Rightarrow> string \<Rightarrow> nat \<Rightarrow> byte list \<Rightarrow> siprecSession \<Rightarrow> siprecSession" where
  "observe_frame rnd speaker n pcm s =
     (if speaker = ''customer'' then
        let s1 = s\<lparr>ss_sentiment := ProcessFrame rnd pcm (ss_sentiment s)\<rparr> in
        if n mod 250 = 0 then
          let (vs, r) = Analyze rnd (ss_sentiment s1) in broadcastSSE (SseSentiment r) (s1\<lparr>ss_sentiment := vs\<rparr>)
        else s1
      else s)"

text \<open>
  One frame. \<open>busy\<close> is true when the recogniser still works on the previous chunk; a chunk that is
  ready then is skipped. The result tells for a chunk whether it is transcribed.
\<close>

definition stt_frame ::
  "(real \<Rightarrow> real) \<Rightarrow> string \<Rightarrow> bool \<times> byte list \<Rightarrow> stt \<times> siprecSession \<Rightarrow> (stt \<times> siprecSession) \<times> (bool \<times> byte list) list" where
  "stt_frame rnd speaker f ss =
     (let (busy, pcm) = f; (st, s) = ss; n = stt_frameCount st + 1; st1 = st\<lparr>stt_frameCount := n\<rparr> in
      if n \<le> warmupFrames then ((st1, s), [])
      else
        let s1 = observe_frame rnd speaker n pcm s; buf = stt_audioBuf st1 @ pcm in
        if (n - warmupFrames) mod chunkFrames = 0 \<and> buf \<noteq> []
        then ((st1\<lparr>stt_audioBuf := []\<rparr>, s1), [(\<not> busy, buf)])
        else ((st1\<lparr>stt_audioBuf := buf\<rparr>, s1), []))"

fun stt_run ::
  "(real \<Rightarrow> real) \<Rightarrow> string \<Rightarrow> (bool \<times> byte list) list \<Rightarrow> stt \<times> siprecSession \<Rightarrow> (stt \<times> siprecSession) \<times> (bool \<times> byte list) list" where
  "stt_run rnd speaker [] ss = (ss, [])"
| "stt_run rnd speaker (f # fs) ss =
     (let (ss1, cs) = stt_frame rnd speaker f ss; (ss2, cs') = stt_run rnd speaker fs ss1 in (ss2, cs @ cs'))"

text \<open>The loop up to its end, by cancellation or the closing of the channel: what is buffered is flushed.\<close>

definition runSTT ::
  "(real \<Rightarrow> real) \<Rightarrow> string \<Rightarrow> (bool \<times> byte list) list \<Rightarrow> siprecSession \<Rightarrow> siprecSession \<times> (bool \<times> byte list) list" where
  "runSTT rnd speaker fs s =
     (let ((st, s1), cs) = stt_run rnd speaker fs (\<lparr>stt_audioBuf = [], stt_frameCount = 0\<rparr>, s)
      in (s1, cs @ (if stt_audioBuf st \<noteq> [] then [(True, stt_audioBuf st)] else [])))"

text \<open>Sixfold gain, saturated at 16 bits; an odd last byte is kept.\<close>

definition amplify :: "byte list \<Rightarrow> byte list" where
  "amplify pcm =
     concat (map (\<lambda>v. put_u16 (word_of_int (clip16 (sint v * 6)))) (samples pcm)) @ (if odd (length pcm) then [last pcm] else [])"

definition minBytes :: nat where "minBytes = 9600"

definition copilot_transcribe :: "(byte list \<Rightarrow> string + nat \<times> string) \<Rightarrow> (string \<Rightarrow> string) \<Rightarrow> byte list \<Rightarrow> string + string" where
  "copilot_transcribe post decode wav =
     (case post wav of
        Inl err \<Rightarrow> Inl err
      | Inr (code, body) \<Rightarrow> if code \<noteq> 200 then Inl (''whisper '' @ dec code @ '': '' @ body) else Inr (decode body))"

text \<open>\<open>dropped\<close> is true when the context ends before the coach takes the utterance.\<close>

definition emit :: "string \<Rightarrow> instant \<Rightarrow> bool \<Rightarrow> string \<Rightarrow> siprecSession \<Rightarrow> siprecSession" where
  "emit speaker now dropped said s =
     (let s1 = (if speaker = ''customer''
                then s\<lparr>ss_sentiment := AddUtterance (int (length (Prelude.fields said))) (ss_sentiment s)\<rparr> else s);
          utt = \<lparr>utt_Speaker = speaker, utt_Text = said, utt_Timestamp = now\<rparr>;
          s2 = broadcastSSE (SseTranscript speaker said) (s1\<lparr>conversation := conversation s1 @ [utt]\<rparr>)
      in if dropped then s2 else s2\<lparr>ss_transcripts := ss_transcripts s2 @ [utt]\<rparr>)"

definition transcribeAndEmit ::
  "(real \<Rightarrow> real) \<Rightarrow> (byte list \<Rightarrow> string + string) \<Rightarrow> string \<Rightarrow> instant \<Rightarrow> bool \<Rightarrow> byte list \<Rightarrow> siprecSession \<Rightarrow> siprecSession" where
  "transcribeAndEmit rnd recognise speaker now dropped pcm s =
     (let rms = rmsEnergy rnd pcm in
      if length pcm < minBytes \<or> rms < 150 then s
      else
        case recognise (buildWAV (if rms < 1000 then amplify pcm else pcm) 16000 1 16) of
          Inl err \<Rightarrow> s
        | Inr raw \<Rightarrow>
            let said = trim_space raw in
            if said = '''' \<or> isWhisperHallucination rnd said then s else emit speaker now dropped said s)"

subsection \<open>The coach\<close>

text \<open>
  \<open>answer\<close> is the outcome of the request: an error, or the texts of the reply; \<open>unmarshal\<close> decodes a
  suggestion.
\<close>

definition streamCoachWithRAG ::
  "bool \<Rightarrow> string option \<Rightarrow> (string \<Rightarrow> claudeMessage list \<Rightarrow> string + string list) \<Rightarrow> (string \<Rightarrow> Suggestion option)
    \<Rightarrow> (real \<Rightarrow> real) \<Rightarrow> string \<Rightarrow> claudeMessage list \<Rightarrow> string \<Rightarrow> string + Suggestion" where
  "streamCoachWithRAG creds token_error answer unmarshal rnd prompt history ragContext =
     (let no_suggestion = \<lparr>sg_Text = '''', sg_Context = '''', sg_Category = ''none'', sg_Confidence = 0\<rparr>;
          system = (if ragContext \<noteq> ''''
                    then ragContext @ [CHR 0x0A, CHR 0x0A] @ ''Using the knowledge base context above, '' @ prompt else prompt)
      in if \<not> creds then Inr no_suggestion
         else case token_error of
           Some err \<Rightarrow> Inl (''gcp token: '' @ err)
         | None \<Rightarrow>
             (case answer system history of
                Inl err \<Rightarrow> Inl err
              | Inr [] \<Rightarrow> Inr no_suggestion
              | Inr (t # _) \<Rightarrow>
                  (case unmarshal t of
                     Some sg \<Rightarrow> Inr sg
                   | None \<Rightarrow> Inr \<lparr>sg_Text = t, sg_Context = '''', sg_Category = ''answer'', sg_Confidence = rnd (7 / 10)\<rparr>)))"

definition utterance_line :: "Utterance \<Rightarrow> claudeMessage" where
  "utterance_line u = user_message (''['' @ utt_Speaker u @ '']: '' @ utt_Text u)"

definition record_suggestion :: "Utterance \<Rightarrow> string + Suggestion \<Rightarrow> siprecSession \<Rightarrow> siprecSession" where
  "record_suggestion u r s =
     (case r of
        Inl err \<Rightarrow> s
      | Inr sg \<Rightarrow>
          if sg_Text sg = '''' \<or> sg_Category sg = ''none'' then s
          else let sg1 = sg\<lparr>sg_Context := utt_Text u\<rparr>
               in broadcastSSE (SseSuggestion sg1) (s\<lparr>allSuggs := allSuggs s @ [sg1]\<rparr>))"

definition coach_turn ::
  "(string \<Rightarrow> string) \<Rightarrow> (claudeMessage list \<Rightarrow> string \<Rightarrow> string + Suggestion) \<Rightarrow> Utterance \<Rightarrow> claudeMessage list \<times> siprecSession
    \<Rightarrow> claudeMessage list \<times> siprecSession" where
  "coach_turn rag ask u hs =
     (let (history, s) = hs; history1 = history @ [utterance_line u] in
      if utt_Speaker u \<noteq> ''customer'' then (history1, s)
      else
        let history2 = (if length history1 > 10 then drop (length history1 - 10) history1 else history1)
        in (history2, record_suggestion u (ask history2 (rag (utt_Text u))) s))"

definition coachWorker ::
  "(string \<Rightarrow> string) \<Rightarrow> (claudeMessage list \<Rightarrow> string \<Rightarrow> string + Suggestion) \<Rightarrow> Utterance list \<Rightarrow> siprecSession \<Rightarrow> siprecSession" where
  "coachWorker rag ask us s = snd (fold (coach_turn rag ask) us ([], s))"

subsection \<open>The end of a call\<close>

record parsed_summary =
  ps_Summary :: string
  ps_ActionItems :: "string list"
  ps_Commitments :: "string list"
  ps_Sentiment :: string

definition transcript_text :: "Utterance list \<Rightarrow> string" where
  "transcript_text conv = concat (map (\<lambda>u. ''['' @ utt_Speaker u @ '']: '' @ utt_Text u @ [CHR 0x0A]) conv)"

text \<open>
  The reply of the model: \<open>decode\<close> fills in the fields it finds and tells whether the whole text was
  decoded; text around a JSON object is skipped up to its first brace.
\<close>

definition parse_summary :: "(string \<Rightarrow> parsed_summary \<Rightarrow> parsed_summary \<times> bool) \<Rightarrow> string \<Rightarrow> parsed_summary" where
  "parse_summary decode reply =
     (let (p, ok) = decode reply \<lparr>ps_Summary = '''', ps_ActionItems = [], ps_Commitments = [], ps_Sentiment = ''''\<rparr> in
      if ok then p
      else
        let p1 = (case str_index reply ''{'' of None \<Rightarrow> p | Some i \<Rightarrow> fst (decode (drop i reply) p))
        in if ps_Summary p1 = '''' then p1\<lparr>ps_Summary := reply, ps_Sentiment := ''neutral''\<rparr> else p1)"

definition final_sentiment :: "(real \<Rightarrow> real) \<Rightarrow> parsed_summary \<Rightarrow> SentimentResult \<Rightarrow> string" where
  "final_sentiment rnd p v =
     (if Frustration v > rnd (6 / 10) \<and> ps_Sentiment p \<noteq> ''negative'' then ''negative'' else ps_Sentiment p)"

text \<open>\<open>answer\<close> is the outcome of the request: an error, or the texts of the reply.\<close>

definition generateSummary :: "bool \<Rightarrow> string option \<Rightarrow> (string \<Rightarrow> string + string list) \<Rightarrow> string \<Rightarrow> string \<Rightarrow> string + string" where
  "generateSummary creds token_error answer unconfigured transcript =
     (if \<not> creds then Inr unconfigured
      else case token_error of
        Some err \<Rightarrow> Inl err
      | None \<Rightarrow>
          (case answer transcript of
             Inl err \<Rightarrow> Inl err
           | Inr [] \<Rightarrow> Inl ''empty response''
           | Inr (t # _) \<Rightarrow> Inr t))"

text \<open>What the end of a call needs from outside the session.\<close>

record end_env =
  ee_rnd :: "real \<Rightarrow> real"
  ee_now :: instant
  ee_timestamp :: string
  ee_summarise :: "string \<Rightarrow> string + string"
  ee_failed :: string
  ee_decode :: "string \<Rightarrow> parsed_summary \<Rightarrow> parsed_summary \<times> bool"
  ee_uuid :: "string \<Rightarrow> string"
  ee_json :: "Utterance list \<Rightarrow> string"
  ee_json_suggs :: "Suggestion list \<Rightarrow> string"
  ee_json_voice :: "SentimentResult \<Rightarrow> string"
  ee_crm_url :: string
  ee_crm_token :: string
  ee_model :: string
  ee_save_error :: "string option"

datatype end_effect = CrmPost string "(string \<times> string) list" CallSummary | Deliver "(Webhook \<times> json_obj) list"

definition postWebhook :: "end_env \<Rightarrow> CallSummary \<Rightarrow> end_effect" where
  "postWebhook env summary =
     CrmPost (ee_crm_url env)
       ((''Content-Type'', ''application/json'')
         # (if ee_crm_token env \<noteq> '''' then [(''Authorization'', ''Bearer '' @ ee_crm_token env)] else []))
       summary"

definition call_record :: "end_env \<Rightarrow> siprecSession \<Rightarrow> CallRecord" where
  "call_record env s = zero_call\<lparr>cr_ID := ee_uuid env (ss_callID s), cr_CallerNumber := ss_callerNumber s,
     cr_CalledNumber := ss_agentNumber s, cr_Mode := ''copilot'', cr_Status := ''completed'', cr_StartTime := ss_startTime s,
     cr_EndTime := Some (ee_now env), cr_Duration := go_div (since (ee_now env) (ss_startTime s)) second,
     cr_Sentiment := ''neutral'', cr_LLMModel := ee_model env\<rparr>"

definition onCallEnd :: "end_env \<Rightarrow> siprecSession \<Rightarrow> copilot_state \<Rightarrow> siprecSession \<times> copilot_state \<times> end_effect list" where
  "onCallEnd env s g =
     (let conv = conversation s; suggs = allSuggs s; duration = go_div (since (ee_now env) (ss_startTime s)) second in
      if conv = [] then (s, g\<lparr>cs_db := fst (SaveCall (ee_save_error env) (call_record env s) (cs_db g))\<rparr>, [])
      else
        let reply = (case ee_summarise env (transcript_text conv) of Inl err \<Rightarrow> ee_failed env | Inr t \<Rightarrow> t);
            p = parse_summary (ee_decode env) reply;
            (vs, voice) = Analyze (ee_rnd env) (ss_sentiment s);
            final = final_sentiment (ee_rnd env) p voice;
            s1 = broadcastSSE (SseSummary (ps_Summary p) (ps_ActionItems p) (ps_Commitments p) final duration voice)
                   (s\<lparr>ss_sentiment := vs\<rparr>);
            summary = \<lparr>cs_ConversationID = ss_callID s, cs_Duration = duration, cs_Transcript = conv, cs_Summary = ps_Summary p,
                       cs_ActionItems = ps_ActionItems p, cs_Commitments = ps_Commitments p, cs_Sentiment = final,
                       cs_Suggestions = suggs\<rparr>;
            row = (call_record env s)\<lparr>cr_Summary := ps_Summary p, cr_Sentiment := final, cr_ActionItems := ps_ActionItems p,
                    cr_Commitments := ps_Commitments p, cr_Transcript := ee_json env conv, cr_Suggestions := ee_json_suggs env suggs,
                    cr_VoiceSentiment := ee_json_voice env voice\<rparr>;
            g1 = g\<lparr>cs_db := fst (SaveCall (ee_save_error env) row (cs_db g))\<rparr>
        in (s1, g1,
            (if ee_crm_url env \<noteq> '''' then [postWebhook env summary] else [])
            @ [Deliver (fire ''call_ended'' (ee_timestamp env)
                 [(''call_id'', ss_callID s), (''caller'', ss_callerNumber s), (''agent'', ss_agentNumber s),
                  (''duration'', dec (nat duration)), (''sentiment'', final), (''summary'', ps_Summary p)] g)]))"

text \<open>
  The goroutine that waits for the end of the recognition: the recording is stopped and saved, the
  call is closed, and after half a minute the session leaves the map.
\<close>

definition end_session ::
  "end_env \<Rightarrow> (string \<Rightarrow> string option) \<Rightarrow> string \<Rightarrow> string \<Rightarrow> string \<Rightarrow> copilot_state
    \<Rightarrow> copilot_state \<times> (string \<times> byte list) option \<times> recording_row list \<times> end_effect list" where
  "end_session env write dir date callID g =
     (case siprecSessions g callID of
        None \<Rightarrow> (g, None, [], [])
      | Some s \<Rightarrow>
          let (s1, file, rows) =
                (case recorder s of
                   None \<Rightarrow> (s, None, [])
                 | Some rc \<Rightarrow>
                     let (rc1, taps) = rec_stop rc (ss_taps s);
                         (file, rows, _) = save write dir date (cs_db g \<noteq> None) (ee_now env) rc1
                     in (s\<lparr>recorder := Some rc1, ss_taps := taps\<rparr>, file, rows));
              (s2, g1, effs) = onCallEnd env s1 g
          in (g1\<lparr>siprecSessions := (siprecSessions g1)(callID := None)\<rparr>, file, rows, effs))"

subsection \<open>Handlers\<close>

definition set_identity :: "string \<Rightarrow> string \<Rightarrow> siprecSession \<Rightarrow> siprecSession" where
  "set_identity caller agent s =
     s\<lparr>ss_callerNumber := (if caller \<noteq> '''' then caller else ss_callerNumber s),
       ss_agentNumber := (if agent \<noteq> '''' then agent else ss_agentNumber s)\<rparr>"

definition set_conn :: "string \<Rightarrow> siprecSession \<Rightarrow> siprecSession" where
  "set_conn role s = (if role = ''caller'' then s\<lparr>callerConn := True\<rparr> else s\<lparr>agentConn := True\<rparr>)"

text \<open>\<open>callID[:12]\<close> panics for a shorter identifier: the result is then \<open>None\<close>.\<close>

definition siprec_enqueue :: "bool \<Rightarrow> instant \<Rightarrow> nat \<Rightarrow> string \<Rightarrow> siprecSession \<Rightarrow> queues option \<Rightarrow> queues option option" where
  "siprec_enqueue database now nano callID s qm =
     (case qm of
        None \<Rightarrow> Some None
      | Some qs \<Rightarrow>
          if ss_callerNumber s = '''' \<and> length callID < 12 then None
          else Some (Some (fst (AddCaller database now ''Support''
            \<lparr>ID = ''q-'' @ dec nano, CallID = callID,
             Number = (if ss_callerNumber s = '''' then take 12 callID else ss_callerNumber s),
             WaitSec = 0, Reason = ''Co-pilot session'', Priority = ''normal'', QueueName = '''', EnterTime = 0\<rparr> qs))))"

definition handleSIPREC_open ::
  "instant \<Rightarrow> nat \<Rightarrow> string \<Rightarrow> string \<Rightarrow> string \<Rightarrow> string \<Rightarrow> string \<Rightarrow> bool \<Rightarrow> copilot_state
    \<Rightarrow> (copilot_state \<times> (Webhook \<times> json_obj) list) option + string" where
  "handleSIPREC_open now nano timestamp callID role caller agent upgraded g =
     (if callID = '''' \<or> role \<noteq> ''caller'' \<and> role \<noteq> ''agent'' then Inr ''call_id and role (caller|agent) required''
      else if \<not> upgraded then Inl (Some (g, []))
      else
        let (g1, s, hooks) = getOrCreateSIPRECSession now timestamp callID g;
            s1 = set_conn role (set_identity caller agent s);
            g2 = g1\<lparr>siprecSessions := (siprecSessions g1)(callID \<mapsto> s1)\<rparr>
        in if role = ''caller'' then
             (case siprec_enqueue (cs_db g \<noteq> None) now nano callID s1 (cs_queues g2) of
                None \<Rightarrow> Inl None
              | Some qm \<Rightarrow> Inl (Some (g2\<lparr>cs_queues := qm\<rparr>, hooks)))
           else Inl (Some (g2, hooks)))"

text \<open>The whole request: after the session is there, the handler reads the leg until it ends.\<close>

definition handleSIPREC ::
  "(string \<Rightarrow> bool) \<Rightarrow> (nat \<Rightarrow> bool) \<Rightarrow> ws_message list \<Rightarrow> instant \<Rightarrow> nat \<Rightarrow> string \<Rightarrow> string \<Rightarrow> string \<Rightarrow> string \<Rightarrow> string \<Rightarrow> bool
    \<Rightarrow> copilot_state \<Rightarrow> (copilot_state \<times> (Webhook \<times> json_obj) list) option + string" where
  "handleSIPREC is_stop room msgs now nano timestamp callID role caller agent upgraded g =
     (case handleSIPREC_open now nano timestamp callID role caller agent upgraded g of
        Inr err \<Rightarrow> Inr err
      | Inl None \<Rightarrow> Inl None
      | Inl (Some (g1, hooks)) \<Rightarrow>
          if \<not> upgraded then Inl (Some (g1, hooks))
          else Inl (Some (g1\<lparr>siprecSessions := (siprecSessions g1)(callID := map_option (readLeg is_stop role room msgs) (siprecSessions g1 callID))\<rparr>, hooks)))"

text \<open>The event stream: \<open>flusher\<close> is false when the connection cannot stream. The result names the new client.\<close>

definition handleEvents :: "bool \<Rightarrow> string \<Rightarrow> copilot_state \<Rightarrow> copilot_state \<times> (nat + nat \<times> string)" where
  "handleEvents flusher callID g =
     (if callID = '''' then (g, Inr (400, ''call_id required''))
      else case siprecSessions g callID of
        None \<Rightarrow> (g, Inr (404, ''session not found''))
      | Some s \<Rightarrow>
          if \<not> flusher then (g, Inr (500, ''streaming not supported''))
          else let (s1, ch) = connect_client s in (g\<lparr>siprecSessions := (siprecSessions g)(callID \<mapsto> s1)\<rparr>, Inl ch))"

record active_entry =
  ae_call_id :: string
  ae_started_at :: instant
  ae_duration :: int
  ae_caller :: string
  ae_agent :: string
  ae_voice :: SentimentResult

definition active_of :: "(real \<Rightarrow> real) \<Rightarrow> instant \<Rightarrow> string \<Rightarrow> siprecSession \<Rightarrow> active_entry" where
  "active_of rnd now i s = \<lparr>ae_call_id = i, ae_started_at = ss_startTime s, ae_duration = go_div (since now (ss_startTime s)) second,
     ae_caller = ss_callerNumber s, ae_agent = ss_agentNumber s, ae_voice = snd (Analyze rnd (ss_sentiment s))\<rparr>"

text \<open>\<open>order\<close> is the order in which the range over the map visits the sessions.\<close>

definition handleActiveCopilot :: "(real \<Rightarrow> real) \<Rightarrow> instant \<Rightarrow> string list \<Rightarrow> copilot_state \<Rightarrow> copilot_state \<times> active_entry list" where
  "handleActiveCopilot rnd now order g =
     (g\<lparr>siprecSessions := (\<lambda>i. map_option (\<lambda>s. s\<lparr>ss_sentiment := fst (Analyze rnd (ss_sentiment s))\<rparr>) (siprecSessions g i))\<rparr>,
      map (\<lambda>i. active_of rnd now i (the (siprecSessions g i))) order)"

definition handleSummaryQuery :: "json_obj response" where
  "handleSummaryQuery = WriteJSON 200 [(''status'', ''ok''), (''note'', ''Connect a database to store and query past summaries'')]"

subsection \<open>Lemmas: the event stream\<close>

lemma fold_max_ge: "n \<in> set ns \<Longrightarrow> n \<le> fold max ns (m :: nat)"
proof -
  have "fold max ns m = Max (insert m (set ns))" by (metis List.finite_set Max.set_eq_fold list.simps(15))
  then show "n \<in> set ns \<Longrightarrow> n \<le> fold max ns m" by simp
qed

lemma sse_fresh_new: "sse_fresh s \<notin> fst ` set (sseClients s)"
proof
  assume "sse_fresh s \<in> fst ` set (sseClients s)"
  then have "sse_fresh s \<le> fold max (map fst (sseClients s)) 0" by (intro fold_max_ge) simp
  then show False by (simp add: sse_fresh_def)
qed

interpretation sse: fanout "\<lambda>s. distinct (map fst (sseClients s))" sseClients sse_cap connect_client removeSSEClient broadcastSSE
proof
  show "distinct (map fst (sseClients (removeSSEClient i s))) \<and>
      sseClients (removeSSEClient i s) = remove_first (\<lambda>c. fst c = i) (sseClients s)"
    if "distinct (map fst (sseClients s))" for i s
    using that by (simp add: removeSSEClient_def)
qed (auto simp: connect_client_def addSSEClient_def broadcastSSE_def comp_def sse_fresh_new)

subsection \<open>Lemmas: recognition\<close>

fun chunks_of :: "nat \<Rightarrow> 'a list \<Rightarrow> 'a list list" where
  "chunks_of 0 xs = []"
| "chunks_of (Suc n) [] = []"
| "chunks_of (Suc n) (x # xs) = (x # take n xs) # chunks_of (Suc n) (drop n xs)"

lemma chunks_of_full: "n > 0 \<Longrightarrow> length xs = n \<Longrightarrow> chunks_of n (xs @ ys) = xs # chunks_of n ys"
  by (cases n; cases xs) auto

lemma chunks_of_short: "n > 0 \<Longrightarrow> xs \<noteq> [] \<Longrightarrow> length xs \<le> n \<Longrightarrow> chunks_of n xs = [xs]"
  by (cases n; cases xs) (auto simp: neq_Nil_conv)

lemma stt_run_append:
  "stt_run rnd sp (fs @ gs) ss = (let (ss1, cs) = stt_run rnd sp fs ss; (ss2, cs') = stt_run rnd sp gs ss1 in (ss2, cs @ cs'))"
  by (induction fs arbitrary: ss) (auto simp: split: prod.splits)

lemma stt_run_warmup:
  "stt_frameCount st + length fs \<le> warmupFrames \<Longrightarrow>
     stt_run rnd sp fs (st, s) = ((st\<lparr>stt_frameCount := stt_frameCount st + length fs\<rparr>, s), [])"
  by (induction fs arbitrary: st) (auto simp: stt_frame_def Let_def split: prod.splits)

lemma stt_frame_live:
  assumes "stt_frameCount st = warmupFrames + m" "pcm \<noteq> []"
  shows "\<exists>s1. stt_frame rnd sp (b, pcm) (st, s) =
    (if Suc m mod chunkFrames = 0
     then ((\<lparr>stt_audioBuf = [], stt_frameCount = warmupFrames + Suc m\<rparr>, s1), [(\<not> b, stt_audioBuf st @ pcm)])
     else ((\<lparr>stt_audioBuf = stt_audioBuf st @ pcm, stt_frameCount = warmupFrames + Suc m\<rparr>, s1), []))"
  using assms by (cases st) (auto simp: stt_frame_def Let_def)

text \<open>
  After the warm-up, with \<open>pre\<close> the frames of the chunk that is being filled, the chunks are those of
  the reference.
\<close>

lemma stt_run_chunks:
  assumes "stt_run rnd sp fs (\<lparr>stt_audioBuf = concat pre, stt_frameCount = warmupFrames + m\<rparr>, s) = ((st', s'), cs)"
    and "length pre = m mod chunkFrames" "\<forall>f \<in> set fs. snd f \<noteq> []" "\<forall>p \<in> set pre. p \<noteq> []"
  shows "map snd cs @ (if stt_audioBuf st' \<noteq> [] then [stt_audioBuf st'] else []) = map concat (chunks_of chunkFrames (pre @ map snd fs))"
  using assms
proof (induction fs arbitrary: pre m s cs)
  case Nil
  have "m mod chunkFrames < chunkFrames" by (simp add: chunkFrames_def)
  then have short: "length pre \<le> chunkFrames" using Nil.prems(2) by simp
  have e: "st' = \<lparr>stt_audioBuf = concat pre, stt_frameCount = warmupFrames + m\<rparr>" "cs = []" using Nil.prems(1) by auto
  show ?case
  proof (cases pre)
    case (Cons p ps)
    then have "concat pre \<noteq> []" using Nil.prems(4) by simp
    with Cons short show ?thesis
      using chunks_of_short [of chunkFrames pre] by (simp add: e chunkFrames_def)
  qed (simp add: e chunkFrames_def numeral_eq_Suc)
next
  case (Cons f fs)
  obtain b pcm where f: "f = (b, pcm)" "pcm \<noteq> []" using Cons.prems(3) by (cases f) auto
  obtain s1 where fr: "stt_frame rnd sp (b, pcm) (\<lparr>stt_audioBuf = concat pre, stt_frameCount = warmupFrames + m\<rparr>, s) =
    (if Suc m mod chunkFrames = 0
     then ((\<lparr>stt_audioBuf = [], stt_frameCount = warmupFrames + Suc m\<rparr>, s1), [(\<not> b, concat pre @ pcm)])
     else ((\<lparr>stt_audioBuf = concat pre @ pcm, stt_frameCount = warmupFrames + Suc m\<rparr>, s1), []))"
    using stt_frame_live [of "\<lparr>stt_audioBuf = concat pre, stt_frameCount = warmupFrames + m\<rparr>" m pcm] f(2) by fastforce
  show ?case
  proof (cases "Suc m mod chunkFrames = 0")
    case True
    then obtain cs2 where r: "stt_run rnd sp fs (\<lparr>stt_audioBuf = concat [], stt_frameCount = warmupFrames + Suc m\<rparr>, s1) = ((st', s'), cs2)"
      "cs = (\<not> b, concat pre @ pcm) # cs2"
      using Cons.prems(1) fr by (auto simp: f split: prod.splits)
    have "length (pre @ [pcm]) = chunkFrames"
      using True Cons.prems(2) by (simp add: chunkFrames_def mod_Suc split: if_splits)
    then have "chunks_of chunkFrames ((pre @ [pcm]) @ map snd fs) = (pre @ [pcm]) # chunks_of chunkFrames (map snd fs)"
      by (intro chunks_of_full) (simp_all add: chunkFrames_def)
    then show ?thesis using Cons.IH [OF r(1)] True Cons.prems(3) by (simp add: r(2) f)
  next
    case False
    then obtain cs2 where r: "stt_run rnd sp fs (\<lparr>stt_audioBuf = concat (pre @ [pcm]), stt_frameCount = warmupFrames + Suc m\<rparr>, s1) = ((st', s'), cs2)"
      "cs = cs2"
      using Cons.prems(1) fr by (auto simp: f split: prod.splits)
    have "length (pre @ [pcm]) = Suc m mod chunkFrames"
      using False Cons.prems(2) by (simp add: mod_Suc split: if_splits)
    then show ?thesis using Cons.IH [OF r(1)] Cons.prems(3,4) by (simp add: r(2) f)
  qed
qed

subsection \<open>Lemmas: the coach\<close>

definition last10 :: "'a list \<Rightarrow> 'a list" where
  "last10 xs = drop (length xs - 10) xs"

lemma length_last10: "length (last10 xs) = min 10 (length xs)"
  by (simp add: last10_def)

lemma last10_short: "length xs \<le> 10 \<Longrightarrow> last10 xs = xs"
  by (simp add: last10_def)

lemma last10_suffix: "length h \<ge> 10 \<or> h = xs \<Longrightarrow> \<exists>p. xs = p @ h \<Longrightarrow> last10 (h @ [y]) = last10 (xs @ [y])"
  by (auto simp: last10_def)

lemma coach_turn_last10:
  "coach_turn rag ask u (h, s) =
     (if utt_Speaker u = ''customer''
      then (last10 (h @ [utterance_line u]), record_suggestion u (ask (last10 (h @ [utterance_line u])) (rag (utt_Text u))) s)
      else (h @ [utterance_line u], s))"
  by (simp add: coach_turn_def last10_def Let_def)

definition coach_reference ::
  "(string \<Rightarrow> string) \<Rightarrow> (claudeMessage list \<Rightarrow> string \<Rightarrow> string + Suggestion) \<Rightarrow> Utterance list \<Rightarrow> nat \<Rightarrow> siprecSession \<Rightarrow> siprecSession" where
  "coach_reference rag ask us i s =
     (if utt_Speaker (us ! i) = ''customer''
      then record_suggestion (us ! i) (ask (last10 (map utterance_line (take (Suc i) us))) (rag (utt_Text (us ! i)))) s
      else s)"

lemma coach_turns:
  assumes "n \<le> length us"
  shows "\<exists>h. fold (coach_turn rag ask) (take n us) ([], s) = (h, fold (coach_reference rag ask us) [0..<n] s) \<and>
    (\<exists>p. map utterance_line (take n us) = p @ h) \<and> (length h \<ge> 10 \<or> h = map utterance_line (take n us))"
  using assms
proof (induction n)
  case (Suc n)
  then obtain h where h: "fold (coach_turn rag ask) (take n us) ([], s) = (h, fold (coach_reference rag ask us) [0..<n] s)"
    "\<exists>p. map utterance_line (take n us) = p @ h" "length h \<ge> 10 \<or> h = map utterance_line (take n us)" by auto
  let ?y = "utterance_line (us ! n)" and ?h = "h @ [utterance_line (us ! n)]"
  have t: "take (Suc n) us = take n us @ [us ! n]" using Suc.prems by (simp add: take_Suc_conv_app_nth)
  have l: "last10 ?h = last10 (map utterance_line (take (Suc n) us))"
    using last10_suffix [OF h(3,2)] by (simp add: t)
  obtain p where p: "map utterance_line (take (Suc n) us) = p @ ?h" using h(2) by (auto simp: t)
  have step: "fold (coach_turn rag ask) (take (Suc n) us) ([], s) =
      (if utt_Speaker (us ! n) = ''customer'' then last10 ?h else ?h, fold (coach_reference rag ask us) [0..<Suc n] s)"
    using l by (simp add: t h(1) coach_turn_last10 coach_reference_def)
  have "\<exists>q. ?h = q @ last10 ?h" by (metis append_take_drop_id last10_def)
  then have "\<exists>q. map utterance_line (take (Suc n) us) = q @ last10 ?h" using p by (metis append_assoc)
  moreover have "length (last10 ?h) \<ge> 10 \<or> last10 ?h = map utterance_line (take (Suc n) us)"
    using h(3) by (cases "length h \<ge> 10") (auto simp: length_last10 last10_short t)
  moreover have "length ?h \<ge> 10 \<or> ?h = map utterance_line (take (Suc n) us)" using h(3) by (auto simp: t)
  ultimately show ?case using step p by auto
qed simp

subsection \<open>Lemmas: legs\<close>

lemma samples_amplify: "samples (amplify pcm) = map (\<lambda>v. word_of_int (clip16 (sint v * 6))) (samples pcm)"
proof -
  have "samples (concat (map (\<lambda>v. put_u16 (f v)) vs) @ rest) = map f vs @ samples rest" for f :: "int16 \<Rightarrow> int16" and vs rest
    by (induction vs) simp_all
  moreover have "samples (if odd (length pcm) then [last pcm] else []) = []" by simp
  ultimately show ?thesis unfolding amplify_def by (metis append_Nil2)
qed

lemma leg_chan_set [simp]:
  "leg_chan role (set_leg_chan role c s) = c" "leg_chan role (s\<lparr>ss_taps := t\<rparr>) = leg_chan role s"
  "leg_chan role (s\<lparr>ss_cancelled := b\<rparr>) = leg_chan role s"
  "ss_taps (set_leg_chan role c s) = ss_taps s"
  by (simp_all add: leg_chan_def set_leg_chan_def)

lemma leg_close_open:
  "\<not> pc_closed (leg_chan role s) \<Longrightarrow>
     recovered s (leg_close role s) = (set_leg_chan role ((leg_chan role s)\<lparr>pc_closed := True\<rparr>) s)\<lparr>ss_cancelled := True\<rparr>"
  by (simp add: recovered_def leg_close_def Let_def)

lemma leg_loop_forwards:
  assumes "\<not> pc_closed (leg_chan role s)"
  shows "leg_chan role (leg_loop is_stop role room k msgs s)
        = \<lparr>pc_sent = pc_sent (leg_chan role s) @ readFromFS is_stop room k msgs, pc_closed = True\<rparr> \<and>
     ss_cancelled (leg_loop is_stop role room k msgs s) \<and>
     ss_taps (leg_loop is_stop role room k msgs s)
        = (if role = ''caller'' then fold broadcastToTaps (readFromFS is_stop (\<lambda>_. True) k msgs) (ss_taps s) else ss_taps s)"
  using assms
proof (induction is_stop role room k msgs s rule: leg_loop.induct)
  case (3 is_stop role room k d ms s)
  show ?case
  proof (cases "d = []")
    case False
    then obtain s1 where s1: "leg_frame role (room k) d s = Some s1" "\<not> pc_closed (leg_chan role s1)"
      "pc_sent (leg_chan role s1) = pc_sent (leg_chan role s) @ (if room k then [d] else [])"
      "ss_taps s1 = (if role = ''caller'' then broadcastToTaps d (ss_taps s) else ss_taps s)"
      using 3(3) by (auto simp: leg_frame_def Let_def)
    show ?thesis using 3(2) [OF False s1(1,2)] False s1 by simp
  qed (use 3 in simp)
qed (auto simp: leg_close_open intro: pcm_chan.equality)

lemma leg_loop_closed:
  "pc_closed (leg_chan role s) \<Longrightarrow> leg_loop is_stop role room k msgs s = s"
  by (induction is_stop role room k msgs s rule: leg_loop.induct)
    (auto simp: recovered_def leg_close_def leg_frame_def Let_def)

subsection \<open>Properties\<close>

text \<open>
  C23: recognition in windows covers the call: the chunks handed to the recogniser, or skipped while it is
  busy, are the frames after the warm-up in consecutive groups of 250, the last one shorter; put
  together they are all the audio of the leg after the warm-up, and a recogniser that is never busy
  gets all of them.
\<close>

theorem runSTT_chunks:
  assumes "runSTT rnd speaker fs s = (s', cs)" "\<forall>f \<in> set fs. snd f \<noteq> []"
  shows "map snd cs = map concat (chunks_of chunkFrames (map snd (drop warmupFrames fs)))"
proof -
  let ?st = "\<lparr>stt_audioBuf = [], stt_frameCount = 0\<rparr>"
  show ?thesis
  proof (cases "length fs \<le> warmupFrames")
    case True
    then have "runSTT rnd speaker fs s = (s, [])"
      using stt_run_warmup [of ?st fs rnd speaker s] by (simp add: runSTT_def)
    with assms(1) True show ?thesis by (simp add: chunkFrames_def numeral_eq_Suc)
  next
    case False
    let ?early = "take warmupFrames fs" and ?rest = "drop warmupFrames fs"
    have w: "stt_run rnd speaker ?early (?st, s) = ((\<lparr>stt_audioBuf = concat [], stt_frameCount = warmupFrames + 0\<rparr>, s), [])"
      using stt_run_warmup [of ?st ?early rnd speaker s] False by simp
    obtain st1 s1 cs1 where r: "stt_run rnd speaker ?rest (\<lparr>stt_audioBuf = concat [], stt_frameCount = warmupFrames + 0\<rparr>, s) = ((st1, s1), cs1)"
      by (metis prod.exhaust)
    have "stt_run rnd speaker fs (?st, s) = ((st1, s1), cs1)"
      using stt_run_append [of rnd speaker ?early ?rest] w r by simp
    then have "map snd cs = map snd cs1 @ (if stt_audioBuf st1 \<noteq> [] then [stt_audioBuf st1] else [])"
      using assms(1) by (auto simp: runSTT_def)
    moreover have "\<forall>f \<in> set ?rest. snd f \<noteq> []" using assms(2) by (auto dest: in_set_dropD)
    ultimately show ?thesis using stt_run_chunks [OF r] by simp
  qed
qed

theorem runSTT_chunks_witness:
  "map snd (snd (runSTT (\<lambda>x. x) ''agent'' (replicate 26 (False, [0, 1])) (new_session ''c1'' 0))) = [[0, 1]]"
proof -
  obtain s' cs where r: "runSTT (\<lambda>x. x) ''agent'' (replicate 26 (False, [0, 1])) (new_session ''c1'' 0) = (s', cs)" by fastforce
  from runSTT_chunks [OF this] have "map snd cs = map concat (chunks_of chunkFrames [[0, 1]])" by (simp add: warmupFrames_def)
  also have "\<dots> = [[0, 1]]" by (simp add: chunkFrames_def numeral_eq_Suc)
  finally show ?thesis by (simp only: r snd_conv)
qed

text \<open>
  the coach sees the last ten lines of the conversation and nothing else: working through the
  utterances, it asks the model once for each utterance of the customer, with exactly the last ten
  lines spoken up to it by either side, and records the answer.
\<close>

theorem coach_window:
  "coachWorker rag ask us s = fold (coach_reference rag ask us) [0..<length us] s"
  using coach_turns [of "length us" us rag ask s] by (auto simp: coachWorker_def)

text \<open>
  the reader of a leg forwards the audio: until the leg ends or a stop event arrives, every frame goes
  to the recogniser, in order, unless its channel is full, and for the caller to every tap; then the
  channel is closed and the session cancelled.
\<close>

theorem readLeg_forwards:
  assumes "\<not> pc_closed (leg_chan role s)" "msgs = BinaryMessage d # ms"
  shows "pc_sent (leg_chan role (readLeg is_stop role room msgs s)) = pc_sent (leg_chan role s) @ readFromFS is_stop room 0 msgs \<and>
    pc_closed (leg_chan role (readLeg is_stop role room msgs s)) \<and> ss_cancelled (readLeg is_stop role room msgs s) \<and>
    ss_taps (readLeg is_stop role room msgs s)
      = (if role = ''caller'' then fold broadcastToTaps (readFromFS is_stop (\<lambda>_. True) 0 msgs) (ss_taps s) else ss_taps s)"
proof -
  have "readLeg is_stop role room msgs s = leg_loop is_stop role room 0 msgs s" by (simp add: readLeg_def assms(2))
  then show ?thesis using leg_loop_forwards [OF assms(1), of is_stop room 0 msgs] by simp
qed

theorem readLeg_forwards_witness:
  "pc_sent (pcmCaller (readLeg (\<lambda>_. False) ''caller'' (\<lambda>_. True) [BinaryMessage [1, 2]] (new_session ''c1'' 0))) = [[1, 2]]"
  using readLeg_forwards [of "''caller''" "new_session ''c1'' 0" "[BinaryMessage [1, 2]]" "[1, 2]" "[]" "\<lambda>_. False" "\<lambda>_. True"]
  by (simp add: leg_chan_def new_session_def empty_chan_def newCallRecorder_def AddAudioTap_def AddAgentTap_def)

text \<open>
  a leg that comes back is lost: once a leg has ended, another connection of the same role to the
  same call joins the old session, and all its audio is dropped without an error.
\<close>

theorem late_leg_lost:
  assumes "pc_closed (leg_chan role s)"
  shows "readLeg is_stop role room msgs s = s"
  using leg_loop_closed [OF assms] by (auto simp: readLeg_def simp del: leg_loop.simps split: list.splits ws_message.splits)

theorem late_leg_lost_witness:
  "readLeg (\<lambda>_. False) ''agent'' (\<lambda>_. True) [BinaryMessage [1, 2]] ((new_session ''c1'' 0)\<lparr>pcmAgent := \<lparr>pc_sent = [], pc_closed = True\<rparr>\<rparr>)
     = (new_session ''c1'' 0)\<lparr>pcmAgent := \<lparr>pc_sent = [], pc_closed = True\<rparr>\<rparr>"
  by (rule late_leg_lost) (simp add: leg_chan_def)


definition example_env :: end_env where
  "example_env = \<lparr>ee_rnd = (\<lambda>x. x), ee_now = 5, ee_timestamp = ''t'', ee_summarise = (\<lambda>_. Inl ''down''), ee_failed = ''none'',
     ee_decode = (\<lambda>_ p. (p, False)), ee_uuid = (\<lambda>i. i), ee_json = (\<lambda>_. ''''), ee_json_suggs = (\<lambda>_. ''''), ee_json_voice = (\<lambda>_. ''''),
     ee_crm_url = '''', ee_crm_token = '''', ee_model = ''m'', ee_save_error = None\<rparr>"

definition empty_copilot :: copilot_state where
  "empty_copilot = \<lparr>siprecSessions = Map.empty, cs_queues = Some Map.empty, cs_webhooks = None,
     cs_db = Some \<lparr>db_calls = [], db_transcripts = [], db_documents = [], db_queue_entries = []\<rparr>\<rparr>"


text \<open>
  a call that reached the co-pilot over a web socket stays in the queue after its end: closing its
  session changes no queue, so the entry its caller leg added goes on waiting for an agent.
\<close>

theorem copilot_entry_stays:
  assumes "end_session env write dir date callID g = (g', fl, rows, effs)" "siprecSessions g callID = Some s"
  shows "siprecSessions g' callID = None \<and> cs_queues g' = cs_queues g"
proof -
  have q: "cs_queues (fst (snd (onCallEnd env s1 g))) = cs_queues g" for s1
    by (simp add: onCallEnd_def Let_def split: prod.splits)
  obtain s1 s2 g1 where "onCallEnd env s1 g = (s2, g1, effs)" "g' = g1\<lparr>siprecSessions := (siprecSessions g1)(callID := None)\<rparr>"
    using assms by (auto simp: end_session_def Let_def split: prod.splits option.splits)
  with q [of s1] show ?thesis by simp
qed

theorem copilot_entry_stays_witness:
  "cs_queues (fst (end_session example_env (\<lambda>_. None) '''' ''d'' ''c1''
     (empty_copilot\<lparr>siprecSessions := [''c1'' \<mapsto> new_session ''c1'' 0]\<rparr>))) = Some Map.empty"
proof -
  let ?g = "empty_copilot\<lparr>siprecSessions := [''c1'' \<mapsto> new_session ''c1'' 0]\<rparr>"
  obtain g' fl rows effs where r: "end_session example_env (\<lambda>_. None) '''' ''d'' ''c1'' ?g = (g', fl, rows, effs)"
    by (metis prod_cases4)
  have "siprecSessions ?g ''c1'' = Some (new_session ''c1'' 0)" "cs_queues ?g = Some Map.empty" by (simp_all add: empty_copilot_def)
  with copilot_entry_stays [OF r] show ?thesis by (simp only: r fst_conv simp_thms)
qed

end
