(* ===== verification/Webrtc.thy ===== *)
theory Webrtc
  imports Copilot
begin

text \<open>
  Browser agents, \<open>gateway/webrtc.go\<close>: the registry of WebRTC sessions, the bridge between an
  agent's browser and a call in both directions, plain browser calls, hang-up and the callback of the
  connection state. Sessions are heap objects, since the callbacks keep the one they were made for.
  The outcome of setting up a peer connection and the Opus decoder are parameters. A panic is \<open>None\<close>.
\<close>

subsection \<open>Registry\<close>

record WebRTCSession =
  wr_callID :: string
  wr_agentID :: string
  wr_startTime :: instant
  wr_onHold :: bool
  wr_pcmIn :: "byte list list"
  wr_closed :: bool

record webrtc_state =
  rtc_map :: "string \<rightharpoonup> nat"
  rtc_heap :: "nat \<rightharpoonup> WebRTCSession"
  rtc_next :: nat
  rtc_copilot :: copilot_state
  rtc_acd :: "ACD option"

definition register :: "WebRTCSession \<Rightarrow> webrtc_state \<Rightarrow> webrtc_state" where
  "register w st = st\<lparr>rtc_map := (rtc_map st)(wr_callID w \<mapsto> rtc_next st), rtc_heap := (rtc_heap st)(rtc_next st \<mapsto> w),
     rtc_next := rtc_next st + 1\<rparr>"

definition new_rtc_session :: "string \<Rightarrow> string \<Rightarrow> instant \<Rightarrow> WebRTCSession" where
  "new_rtc_session callID agentID now =
     \<lparr>wr_callID = callID, wr_agentID = agentID, wr_startTime = now, wr_onHold = False, wr_pcmIn = [], wr_closed = False\<rparr>"

text \<open>Closing a session closes its channel, which panics the second time.\<close>

definition close_session :: "nat \<Rightarrow> webrtc_state \<Rightarrow> webrtc_state option" where
  "close_session i st =
     (case rtc_heap st i of
        None \<Rightarrow> None
      | Some w \<Rightarrow> if wr_closed w then None else Some (st\<lparr>rtc_heap := (rtc_heap st)(i \<mapsto> w\<lparr>wr_closed := True\<rparr>)\<rparr>))"

text \<open>The callback of the connection state of session \<open>i\<close>, registered for \<open>callID\<close>.\<close>

definition ice_change :: "string \<Rightarrow> nat \<Rightarrow> bool \<Rightarrow> webrtc_state \<Rightarrow> webrtc_state option" where
  "ice_change callID i failed st =
     (if failed then map_option (\<lambda>st1. st1\<lparr>rtc_map := (rtc_map st1)(callID := None)\<rparr>) (close_session i st) else Some st)"

subsection \<open>From the agent to the caller\<close>

text \<open>A packet of the agent's track as 16 kHz audio for recognition and mu-law for the caller.\<close>

definition agent_audio ::
  "(real \<Rightarrow> real) \<Rightarrow> (byte list \<Rightarrow> int16 list option) \<Rightarrow> bool \<Rightarrow> byte list \<Rightarrow> (byte list \<times> byte list) option" where
  "agent_audio rnd opus isOpus payload =
     (if isOpus then
        (case opus payload of
           None \<Rightarrow> None
         | Some ss \<Rightarrow> let pcm48k = pcm_bytes ss
             in Some (resample rnd pcm48k 48000 16000, EncodeG711Ulaw (resample rnd pcm48k 48000 8000)))
      else Some (resample rnd (DecodeG711Ulaw payload) 8000 16000, payload))"

datatype agent_effect = SentRTP "string + rtp_packet \<times> string" | WroteCaller "byte list"

definition feed_mixer :: "byte list \<Rightarrow> mixParticipant list \<Rightarrow> mixParticipant list" where
  "feed_mixer pcm ps =
     (let p = ps ! 1 in if length (pcmIn p) < mixChanBuf then ps[1 := p\<lparr>pcmIn := pcmIn p @ [pcm]\<rparr>] else ps)"

text \<open>Offering audio to the recognition of the agent's side; \<open>None\<close> when its channel is closed.\<close>

definition offer_agent :: "bool \<Rightarrow> byte list \<Rightarrow> siprecSession \<Rightarrow> siprecSession option" where
  "offer_agent room pcm s =
     (if pc_closed (pcmAgent s) then None
      else Some (if room then s\<lparr>pcmAgent := (pcmAgent s)\<lparr>pc_sent := pc_sent (pcmAgent s) @ [pcm]\<rparr>\<rparr> else s))"

definition send_to_caller :: "byte list \<Rightarrow> byte list \<Rightarrow> siprecSession \<Rightarrow> siprecSession \<times> agent_effect list" where
  "send_to_caller pcm16k ulaw s =
     (case rtpSession s of
        Some l \<Rightarrow> let (l1, r) = SendG711 ulaw l in (s\<lparr>rtpSession := Some l1\<rparr>, [SentRTP r])
      | None \<Rightarrow> (s, if callerConn s then [WroteCaller pcm16k] else []))"

definition agent_packet ::
  "(real \<Rightarrow> real) \<Rightarrow> (byte list \<Rightarrow> int16 list option) \<Rightarrow> bool \<Rightarrow> bool \<Rightarrow> byte list \<Rightarrow> WebRTCSession \<Rightarrow> siprecSession
    \<Rightarrow> (siprecSession \<times> agent_effect list) option" where
  "agent_packet rnd opus isOpus room payload w s =
     (if payload = [] \<or> wr_onHold w then Some (s, [])
      else case agent_audio rnd opus isOpus payload of
        None \<Rightarrow> Some (s, [])
      | Some (pcm16k, ulaw) \<Rightarrow>
          (case ss_conference s of
             Some ps \<Rightarrow> map_option (\<lambda>s1. (s1, [])) (offer_agent room pcm16k (s\<lparr>ss_conference := Some (feed_mixer pcm16k ps)\<rparr>))
           | None \<Rightarrow>
               let (s1, eff) = send_to_caller pcm16k ulaw s
               in map_option (\<lambda>s2. (s2\<lparr>ss_taps := broadcastToAgentTaps pcm16k (ss_taps s2)\<rparr>, eff)) (offer_agent room pcm16k s1)))"

subsection \<open>From the caller to the agent\<close>

definition frame16kSize :: nat where "frame16kSize = 640"

text \<open>Adds the supervisor's whisper to a frame, sample by sample, as far as both reach.\<close>

definition mix_whisper :: "byte list \<Rightarrow> byte list \<Rightarrow> byte list" where
  "mix_whisper chunk whisper =
     concat (map (\<lambda>i. if i * 2 + 1 < length whisper
                      then put_u16 (word_of_int (clip16 (sint (u16_le (chunk ! (i * 2)) (chunk ! (i * 2 + 1)))
                                                         + sint (u16_le (whisper ! (i * 2)) (whisper ! (i * 2 + 1))))))
                      else [chunk ! (i * 2), chunk ! (i * 2 + 1)])
       [0..<length chunk div 2])"

definition take_whisper :: "byte list list option \<Rightarrow> byte list \<Rightarrow> byte list list option \<times> byte list" where
  "take_whisper ws chunk =
     (case ws of Some (x # xs) \<Rightarrow> (Some xs, mix_whisper chunk x) | _ \<Rightarrow> (ws, chunk))"

text \<open>Cuts whole frames off the buffer and encodes them for the browser.\<close>

function drain_frames :: "(real \<Rightarrow> real) \<Rightarrow> byte list list option \<Rightarrow> byte list \<Rightarrow> byte list list option \<times> byte list \<times> byte list list" where
  "drain_frames rnd ws buf =
     (if length buf < frame16kSize then (ws, buf, [])
      else
        let (ws1, chunk) = take_whisper ws (take frame16kSize buf);
            (ws2, rest, out) = drain_frames rnd ws1 (drop frame16kSize buf)
        in (ws2, rest, EncodeG711Ulaw (resample rnd chunk 16000 8000) # out))"
  by auto
termination by (relation "measure (\<lambda>(_, _, buf). length buf)") (auto simp: frame16kSize_def)

declare drain_frames.simps [simp del]

text \<open>One frame of the caller's tap; on hold and in a conference it is skipped.\<close>

definition bridge_frame :: "(real \<Rightarrow> real) \<Rightarrow> bool \<Rightarrow> byte list \<Rightarrow> byte list \<times> siprecSession \<Rightarrow> (byte list \<times> siprecSession) \<times> byte list list" where
  "bridge_frame rnd onHold frame bs =
     (let (buf, s) = bs in
      if onHold \<or> ss_conference s \<noteq> None then ((buf, s), [])
      else let (ws, rest, out) = drain_frames rnd (whisperCh s) (buf @ frame) in ((rest, s\<lparr>whisperCh := ws\<rparr>), out))"

fun bridge_run :: "(real \<Rightarrow> real) \<Rightarrow> byte list list \<Rightarrow> byte list \<times> siprecSession \<Rightarrow> (byte list \<times> siprecSession) \<times> byte list list" where
  "bridge_run rnd [] bs = (bs, [])"
| "bridge_run rnd (f # fs) bs =
     (let (bs1, o1) = bridge_frame rnd False f bs; (bs2, o2) = bridge_run rnd fs bs1 in (bs2, o1 @ o2))"

text \<open>The outgoing side of a plain browser call: the same framing without whisper.\<close>

definition pipeline_out :: "(real \<Rightarrow> real) \<Rightarrow> byte list \<Rightarrow> byte list \<Rightarrow> byte list \<times> byte list list" where
  "pipeline_out rnd buf pcm = snd (drain_frames rnd None (buf @ pcm))"

text \<open>The incoming side: a packet goes to the session's channel and from there to the recognition of the caller.\<close>

definition readIncomingAudio :: "byte list \<Rightarrow> WebRTCSession \<Rightarrow> WebRTCSession option" where
  "readIncomingAudio frame w =
     (if frame = [] then Some w
      else if wr_closed w then None
      else Some (if length (wr_pcmIn w) < pcmChanBufSize then w\<lparr>wr_pcmIn := wr_pcmIn w @ [frame]\<rparr> else w))"

definition pipeline_in :: "bool \<Rightarrow> WebRTCSession \<Rightarrow> siprecSession \<Rightarrow> (WebRTCSession \<times> siprecSession) option" where
  "pipeline_in room w s =
     (case wr_pcmIn w of
        [] \<Rightarrow> Some (w, s)
      | f # fs \<Rightarrow>
          if pc_closed (pcmCaller s) then None
          else Some (w\<lparr>wr_pcmIn := fs\<rparr>,
                     if room then s\<lparr>pcmCaller := (pcmCaller s)\<lparr>pc_sent := pc_sent (pcmCaller s) @ [f]\<rparr>\<rparr> else s))"

subsection \<open>Handlers\<close>

definition set_siprec :: "string \<Rightarrow> siprecSession \<Rightarrow> webrtc_state \<Rightarrow> webrtc_state" where
  "set_siprec callID s st =
     st\<lparr>rtc_copilot := (rtc_copilot st)\<lparr>siprecSessions := (siprecSessions (rtc_copilot st))(callID \<mapsto> s)\<rparr>\<rparr>"

fun setup_error :: "bool \<Rightarrow> rtc_outcome \<Rightarrow> (nat \<times> string) option" where
  "setup_error bridge PeerFailed = Some (500, ''peer connection failed'')"
| "setup_error bridge TrackFailed = Some (500, ''track creation failed'')"
| "setup_error bridge AddTrackFailed = Some (500, ''add track failed'')"
| "setup_error bridge InvalidSDP = Some (400, if bridge then ''invalid SDP'' else ''invalid SDP offer'')"
| "setup_error bridge AnswerFailed = Some (500, if bridge then ''answer failed'' else ''answer creation failed'')"
| "setup_error bridge LocalDescFailed = Some (500, ''set local desc failed'')"
| "setup_error bridge (RtcReady _) = None"

text \<open>The session is registered once the track is added, before the offer is looked at.\<close>

definition registered_early :: "rtc_outcome \<Rightarrow> bool" where
  "registered_early rtc \<longleftrightarrow> rtc \<notin> {PeerFailed, TrackFailed, AddTrackFailed}"

definition handleBridge ::
  "bool \<Rightarrow> (string \<times> string) option + string \<Rightarrow> rtc_outcome \<Rightarrow> instant \<Rightarrow> webrtc_state \<Rightarrow> webrtc_state \<times> (nat \<times> string + string \<times> string)" where
  "handleBridge isPost req rtc now st =
     (if \<not> isPost then (st, Inl (405, ''POST required''))
      else case req of
        Inr err \<Rightarrow> (st, Inl (400, err))
      | Inl None \<Rightarrow> (st, Inl (400, ''siprec_call_id required''))
      | Inl (Some (siprecCallID, agentID)) \<Rightarrow>
          (case siprecSessions (rtc_copilot st) siprecCallID of
             None \<Rightarrow> (st, Inl (404, ''SIPREC session not found''))
           | Some s \<Rightarrow>
               let callID = ''bridge-'' @ siprecCallID;
                   st1 = (if registered_early rtc then register (new_rtc_session callID agentID now) st else st)
               in case rtc of
                    RtcReady sdp \<Rightarrow>
                      let (taps, _) = AddAudioTap (ss_taps s)
                      in (set_siprec siprecCallID (s\<lparr>ss_taps := taps\<rparr>) st1, Inr (sdp, callID))
                  | _ \<Rightarrow> (st1, Inl (the (setup_error True rtc)))))"

text \<open>A plain browser call: the request holds agent, target and the call identifier, which may be missing.\<close>

definition handleOffer ::
  "bool \<Rightarrow> (string \<times> string \<times> string) + string \<Rightarrow> rtc_outcome \<Rightarrow> nat \<Rightarrow> instant \<Rightarrow> string \<Rightarrow> webrtc_state
    \<Rightarrow> webrtc_state \<times> (Webhook \<times> json_obj) list \<times> (nat \<times> string + string \<times> string)" where
  "handleOffer isPost req rtc millis now timestamp st =
     (if \<not> isPost then (st, [], Inl (405, ''POST required''))
      else case req of
        Inr err \<Rightarrow> (st, [], Inl (400, err))
      | Inl (agentID, target, callID0) \<Rightarrow>
          let callID = (if callID0 = '''' then ''webrtc-'' @ dec millis else callID0);
              st1 = (if registered_early rtc then register (new_rtc_session callID agentID now) st else st)
          in case rtc of
               RtcReady sdp \<Rightarrow>
                 let (g, s, hooks) = getOrCreateSIPRECSession now timestamp callID (rtc_copilot st1)
                 in (set_siprec callID (s\<lparr>ss_callerNumber := target, ss_agentNumber := agentID\<rparr>) (st1\<lparr>rtc_copilot := g\<rparr>),
                     hooks, Inr (sdp, callID))
             | _ \<Rightarrow> (st1, [], Inl (the (setup_error False rtc))))"

definition handleCandidate :: "bool \<Rightarrow> string + string \<Rightarrow> string option \<Rightarrow> webrtc_state \<Rightarrow> nat \<times> string" where
  "handleCandidate isPost req addError st =
     (if \<not> isPost then (405, ''POST required'')
      else case req of
        Inr err \<Rightarrow> (400, err)
      | Inl callID \<Rightarrow>
          (case rtc_map st callID of
             None \<Rightarrow> (404, ''session not found'')
           | Some _ \<Rightarrow> (case addError of Some err \<Rightarrow> (400, err) | None \<Rightarrow> (200, ''ok''))))"

datatype hangup_effect = SendBye string | RtpClosed | ConnClosed string | EslKill string

text \<open>Ends the call behind a bridge: event, BYE, cancellation, sockets, switch and queue.\<close>

definition end_bridged :: "enumeration \<Rightarrow> bool \<Rightarrow> string \<Rightarrow> webrtc_state \<Rightarrow> webrtc_state \<times> hangup_effect list" where
  "end_bridged ord sipServer callID st =
     (let g = rtc_copilot st;
          (ss1, eff) = (case siprecSessions g callID of
             None \<Rightarrow> (siprecSessions g, [])
           | Some s \<Rightarrow>
               ((siprecSessions g)(callID \<mapsto> (broadcastSSE (SseState callID ''ended'') s)\<lparr>ss_cancelled := True\<rparr>),
                (if rtpSession s \<noteq> None then [RtpClosed] else [])
                @ (if callerConn s then [ConnClosed ''caller''] else []) @ (if agentConn s then [ConnClosed ''agent''] else [])))
      in (st\<lparr>rtc_copilot := g\<lparr>siprecSessions := ss1, cs_queues := map_option (RemoveCallerByCallID ord callID) (cs_queues g)\<rparr>\<rparr>,
          (if sipServer then [SendBye callID] else []) @ eff @ [EslKill callID]))"

definition handleHangup ::
  "enumeration \<Rightarrow> bool \<Rightarrow> bool \<Rightarrow> string \<Rightarrow> instant \<Rightarrow> webrtc_state \<Rightarrow> (webrtc_state \<times> hangup_effect list) option + nat \<times> string" where
  "handleHangup ord sipServer isPost callID now st =
     (if \<not> isPost then Inr (405, ''POST required'')
      else
        let closed = (case rtc_map st callID of
              None \<Rightarrow> Some st
            | Some i \<Rightarrow>
                let st1 = st\<lparr>rtc_map := (rtc_map st)(callID := None)\<rparr>;
                    agentID = (case rtc_heap st i of None \<Rightarrow> '''' | Some w \<Rightarrow> wr_agentID w);
                    st2 = (if agentID \<noteq> '''' then st1\<lparr>rtc_acd := map_option (OnCallEnd now agentID) (rtc_acd st1)\<rparr> else st1)
                in close_session i st2)
        in case closed of
             None \<Rightarrow> Inl None
           | Some st3 \<Rightarrow>
               let siprecCallID = trim_prefix callID ''bridge-'' in
               Inl (Some (if siprecCallID \<noteq> callID then end_bridged ord sipServer siprecCallID st3 else (st3, []))))"

definition handleSessions :: "instant \<Rightarrow> string list \<Rightarrow> webrtc_state \<Rightarrow> (string \<times> string \<times> int) list" where
  "handleSessions now order st =
     map (\<lambda>c. case rtc_map st c of None \<Rightarrow> (c, '''', 0)
       | Some i \<Rightarrow> (case rtc_heap st i of None \<Rightarrow> (c, '''', 0)
           | Some w \<Rightarrow> (c, wr_agentID w, go_div (since now (wr_startTime w)) second))) order"

subsection \<open>Reachable states\<close>

inductive rtc_step :: "webrtc_state \<Rightarrow> webrtc_state \<Rightarrow> bool" where
  bridge: "handleBridge isPost req rtc now st = (st', resp) \<Longrightarrow> rtc_step st st'"
| offer: "handleOffer isPost rq rtc millis now timestamp st = (st', hooks, rsp) \<Longrightarrow> rtc_step st st'"
| hangup: "handleHangup ord sip isPost callID now st = Inl (Some (st', effs)) \<Longrightarrow> rtc_step st st'"
| ice: "rtc_heap st i = Some w \<Longrightarrow> ice_change (wr_callID w) i failed st = Some st' \<Longrightarrow> rtc_step st st'"

definition rtc_init :: "webrtc_state \<Rightarrow> bool" where
  "rtc_init st \<longleftrightarrow> rtc_map st = Map.empty \<and> rtc_heap st = Map.empty"

text \<open>Every registered session exists, is open and carries the identifier it is registered under.\<close>

definition rtc_inv :: "webrtc_state \<Rightarrow> bool" where
  "rtc_inv st \<longleftrightarrow> (\<forall>i. rtc_heap st i \<noteq> None \<longrightarrow> i < rtc_next st) \<and>
     (\<forall>c i. rtc_map st c = Some i \<longrightarrow> (\<exists>w. rtc_heap st i = Some w \<and> \<not> wr_closed w \<and> wr_callID w = c))"

lemma rtc_inv_cong:
  "rtc_map st' = rtc_map st \<Longrightarrow> rtc_heap st' = rtc_heap st \<Longrightarrow> rtc_next st' = rtc_next st \<Longrightarrow> rtc_inv st' = rtc_inv st"
  by (simp add: rtc_inv_def)

lemma rtc_inv_set_siprec [simp]: "rtc_inv (set_siprec c s st) = rtc_inv st"
  by (rule rtc_inv_cong) (simp_all add: set_siprec_def)

lemma rtc_inv_register: "rtc_inv st \<Longrightarrow> \<not> wr_closed w \<Longrightarrow> rtc_inv (register w st)"
  unfolding rtc_inv_def register_def by (auto simp: less_Suc_eq) (metis less_irrefl option.distinct(1))

lemma rtc_inv_close:
  assumes "rtc_inv st" "rtc_heap st i = Some w" "close_session i st = Some st'"
  shows "rtc_inv (st'\<lparr>rtc_map := (rtc_map st')(wr_callID w := None)\<rparr>)"
  using assms unfolding rtc_inv_def close_session_def by (auto split: if_splits) (metis option.sel)

lemma new_session_open [simp]: "\<not> wr_closed (new_rtc_session c a now)"
  by (simp add: new_rtc_session_def)

lemma end_bridged_keeps:
  "end_bridged ord sip c st = (st', effs) \<Longrightarrow> rtc_inv st' = rtc_inv st"
  by (rule rtc_inv_cong) (auto simp: end_bridged_def Let_def split: prod.splits)

text \<open>The part of a hang-up that takes the session off the registry.\<close>

definition unregister :: "string \<Rightarrow> instant \<Rightarrow> webrtc_state \<Rightarrow> webrtc_state option" where
  "unregister callID now st =
     (case rtc_map st callID of
        None \<Rightarrow> Some st
      | Some i \<Rightarrow>
          let st1 = st\<lparr>rtc_map := (rtc_map st)(callID := None)\<rparr>;
              agentID = (case rtc_heap st i of None \<Rightarrow> '''' | Some w \<Rightarrow> wr_agentID w);
              st2 = (if agentID \<noteq> '''' then st1\<lparr>rtc_acd := map_option (OnCallEnd now agentID) (rtc_acd st1)\<rparr> else st1)
          in close_session i st2)"

lemma handleHangup_unregister:
  "handleHangup ord sip True callID now st =
     (case unregister callID now st of
        None \<Rightarrow> Inl None
      | Some st3 \<Rightarrow> Inl (Some (if trim_prefix callID ''bridge-'' \<noteq> callID then end_bridged ord sip (trim_prefix callID ''bridge-'') st3 else (st3, []))))"
  by (simp add: handleHangup_def unregister_def Let_def split: option.splits)

lemma unregister_open:
  assumes "rtc_inv st"
  shows "\<exists>st3. unregister callID now st = Some st3 \<and> rtc_inv st3 \<and> rtc_map st3 = (rtc_map st)(callID := None) \<and>
    rtc_copilot st3 = rtc_copilot st \<and> (\<forall>i. rtc_map st callID = Some i \<longrightarrow> (\<exists>w. rtc_heap st3 i = Some w \<and> wr_closed w))"
proof (cases "rtc_map st callID")
  case None
  then show ?thesis using assms by (auto simp: unregister_def)
next
  case (Some i)
  then obtain w where w: "rtc_heap st i = Some w" "\<not> wr_closed w" "wr_callID w = callID"
    using assms unfolding rtc_inv_def by blast
  define st2 where "st2 = (if wr_agentID w \<noteq> '''' then st\<lparr>rtc_map := (rtc_map st)(callID := None), rtc_acd := map_option (OnCallEnd now (wr_agentID w)) (rtc_acd st)\<rparr>
      else st\<lparr>rtc_map := (rtc_map st)(callID := None)\<rparr>)"
  have u: "unregister callID now st = close_session i st2" using Some w(1) by (simp add: unregister_def st2_def Let_def)
  have k: "rtc_map st2 = (rtc_map st)(callID := None)" "rtc_heap st2 = rtc_heap st" "rtc_next st2 = rtc_next st" "rtc_copilot st2 = rtc_copilot st"
    by (simp_all add: st2_def)
  have c: "close_session i st2 = Some (st2\<lparr>rtc_heap := (rtc_heap st2)(i \<mapsto> w\<lparr>wr_closed := True\<rparr>)\<rparr>)"
    using w by (simp add: close_session_def k)
  have "rtc_inv st2" using assms unfolding rtc_inv_def k by auto
  let ?c = "st2\<lparr>rtc_heap := (rtc_heap st2)(i \<mapsto> w\<lparr>wr_closed := True\<rparr>)\<rparr>"
  have "rtc_inv (?c\<lparr>rtc_map := (rtc_map ?c)(wr_callID w := None)\<rparr>)"
    by (rule rtc_inv_close [OF \<open>rtc_inv st2\<close> _ c]) (simp add: k w)
  then have "rtc_inv ?c" using rtc_inv_cong [of "?c\<lparr>rtc_map := (rtc_map ?c)(wr_callID w := None)\<rparr>" ?c] by (simp add: k w(3))
  then show ?thesis using u c Some by (auto simp: k)
qed

lemma rtc_step_inv:
  assumes "rtc_step st st'" "rtc_inv st"
  shows "rtc_inv st'"
  using assms
proof cases
  case (bridge isPost req rtc now resp)
  then show ?thesis
    using assms(2) rtc_inv_register [OF assms(2) new_session_open]
    by (auto simp: handleBridge_def Let_def split: if_splits sum.splits option.splits prod.splits rtc_outcome.splits)
next
  case (offer isPost rq rtc millis now timestamp hooks rsp)
  have g: "rtc_inv (s\<lparr>rtc_copilot := g\<rparr>) = rtc_inv s" for s g by (rule rtc_inv_cong) simp_all
  show ?thesis
    using offer assms(2) rtc_inv_register [OF assms(2) new_session_open]
    by (auto simp: handleOffer_def Let_def g split: if_splits sum.splits prod.splits rtc_outcome.splits)
next
  case (hangup ord sip isPost callID now effs)
  then have p: "isPost" by (auto simp: handleHangup_def split: if_splits)
  obtain st3 where st3: "unregister callID now st = Some st3" "rtc_inv st3" using unregister_open [OF assms(2)] by blast
  show ?thesis
    using hangup p st3 end_bridged_keeps by (auto simp: handleHangup_unregister split: if_splits)
next
  case (ice i w failed)
  then show ?thesis using assms(2) rtc_inv_close [OF assms(2) ice(1)] by (auto simp: ice_change_def split: if_splits)
qed

interpretation rtc: invariant_machine rtc_init rtc_step rtc_inv
  by unfold_locales (auto simp: rtc_init_def rtc_inv_def dest: rtc_step_inv)

subsection \<open>Lemmas: framing\<close>

lemma drain_frames_cut:
  "drain_frames rnd None buf = (ws, rest, out) \<Longrightarrow>
     ws = None \<and> length rest < frame16kSize \<and>
     (\<exists>chunks. buf = concat chunks @ rest \<and> (\<forall>c \<in> set chunks. length c = frame16kSize) \<and>
        out = map (\<lambda>c. EncodeG711Ulaw (resample rnd c 16000 8000)) chunks)"
proof (induction rnd "None :: byte list list option" buf arbitrary: ws rest out rule: drain_frames.induct)
  case (1 rnd buf)
  show ?case
  proof (cases "length buf < frame16kSize")
    case True
    then show ?thesis using 1(2) by (subst (asm) drain_frames.simps) (auto intro!: exI [of _ "[]"])
  next
    case False
    obtain ws2 rest2 out2 where r: "drain_frames rnd None (drop frame16kSize buf) = (ws2, rest2, out2)" by (metis prod_cases3)
    have e: "ws = ws2" "rest = rest2" "out = EncodeG711Ulaw (resample rnd (take frame16kSize buf) 16000 8000) # out2"
      using 1(2) False r by (subst (asm) drain_frames.simps, simp add: take_whisper_def)+
    have "ws2 = None \<and> length rest2 < frame16kSize \<and>
       (\<exists>chunks. drop frame16kSize buf = concat chunks @ rest2 \<and> (\<forall>c \<in> set chunks. length c = frame16kSize) \<and>
          out2 = map (\<lambda>c. EncodeG711Ulaw (resample rnd c 16000 8000)) chunks)"
      by (rule 1(1) [OF False _ _ r]) (simp_all add: take_whisper_def)
    then obtain chunks where c: "ws2 = None" "length rest2 < frame16kSize" "drop frame16kSize buf = concat chunks @ rest2"
      "\<forall>c \<in> set chunks. length c = frame16kSize" "out2 = map (\<lambda>c. EncodeG711Ulaw (resample rnd c 16000 8000)) chunks" by blast
    have "buf = concat (take frame16kSize buf # chunks) @ rest2" using c(3) by (metis append_assoc append_take_drop_id concat.simps(2))
    then show ?thesis using c False e by (intro conjI exI [of _ "take frame16kSize buf # chunks"]) auto
  qed
qed

lemma bridge_run_cut:
  assumes "bridge_run rnd fs (buf, s) = ((rest, s'), out)" "ss_conference s = None" "whisperCh s = None" "length buf < frame16kSize"
  shows "length rest < frame16kSize \<and>
     (\<exists>chunks. buf @ concat fs = concat chunks @ rest \<and> (\<forall>c \<in> set chunks. length c = frame16kSize) \<and>
        out = map (\<lambda>c. EncodeG711Ulaw (resample rnd c 16000 8000)) chunks)"
  using assms
proof (induction fs arbitrary: buf s out)
  case Nil
  then show ?case by (auto intro!: exI [of _ "[]"])
next
  case (Cons f fs)
  obtain ws r1 o1 where d: "drain_frames rnd None (buf @ f) = (ws, r1, o1)" by (metis prod_cases3)
  note cut = drain_frames_cut [OF d]
  obtain o2 where r: "bridge_run rnd fs (r1, s\<lparr>whisperCh := ws\<rparr>) = ((rest, s'), o2)" "out = o1 @ o2"
    using Cons.prems d by (auto simp: bridge_frame_def split: prod.splits)
  have ih: "length rest < frame16kSize \<and> (\<exists>chunks. r1 @ concat fs = concat chunks @ rest \<and> (\<forall>c \<in> set chunks. length c = frame16kSize) \<and>
      o2 = map (\<lambda>c. EncodeG711Ulaw (resample rnd c 16000 8000)) chunks)"
    using Cons.IH [OF r(1)] cut Cons.prems(2) by simp
  obtain c1 where c1: "buf @ f = concat c1 @ r1" "\<forall>c \<in> set c1. length c = frame16kSize"
    "o1 = map (\<lambda>c. EncodeG711Ulaw (resample rnd c 16000 8000)) c1" using cut by blast
  obtain c2 where c2: "r1 @ concat fs = concat c2 @ rest" "\<forall>c \<in> set c2. length c = frame16kSize"
    "o2 = map (\<lambda>c. EncodeG711Ulaw (resample rnd c 16000 8000)) c2" using ih by blast
  have "buf @ concat (f # fs) = concat (c1 @ c2) @ rest" using c1(1) c2(1) by (metis append_assoc concat.simps(2) concat_append)
  then show ?case using ih c1 c2 r(2) by (intro conjI exI [of _ "c1 @ c2"]) auto
qed

subsection \<open>Properties\<close>




definition empty_rtc :: webrtc_state where
  "empty_rtc = \<lparr>rtc_map = Map.empty, rtc_heap = Map.empty, rtc_next = 0, rtc_copilot = empty_copilot, rtc_acd = None\<rparr>"


text \<open>
  a lost connection can take another agent's session off the registry: when a call is bridged a second
  time, the first session is replaced; if the connection of the first then fails, its callback removes
  the entry of the second, which stays open but can no longer be found by hold, transfer or hang-up.
\<close>

theorem stale_connection_unregisters:
  assumes "reachable rtc_step st0 st" "rtc_init st0" "rtc_map st callID = Some j"
    and "rtc_heap st i = Some w" "wr_callID w = callID" "\<not> wr_closed w" "i \<noteq> j"
  shows "\<exists>st' w2. ice_change callID i True st = Some st' \<and> rtc_map st' callID = None \<and> rtc_heap st' j = Some w2 \<and> \<not> wr_closed w2"
proof -
  have "rtc_inv st" by (rule rtc.reachable_inv [OF assms(1,2)])
  then obtain w2 where "rtc_heap st j = Some w2" "\<not> wr_closed w2" using assms(3) unfolding rtc_inv_def by blast
  then show ?thesis using assms(4,6,7) by (auto simp: ice_change_def close_session_def)
qed

theorem stale_connection_unregisters_witness:
  "\<exists>st st'. rtc_map st ''bridge-c1'' = Some 1 \<and> ice_change ''bridge-c1'' 0 True st = Some st' \<and> rtc_map st' ''bridge-c1'' = None"
proof -
  let ?st0 = "empty_rtc\<lparr>rtc_copilot := empty_copilot\<lparr>siprecSessions := [''c1'' \<mapsto> new_session ''c1'' 0]\<rparr>\<rparr>"
  obtain st1 r1 where s1: "handleBridge True (Inl (Some (''c1'', ''a''))) (RtcReady '''') 0 ?st0 = (st1, r1)" by fastforce
  obtain st2 r2 where s2: "handleBridge True (Inl (Some (''c1'', ''b''))) (RtcReady '''') 0 st1 = (st2, r2)" by fastforce
  have r: "reachable rtc_step ?st0 st2"
    by (rule reachable.move [OF reachable.move [OF reachable.start]]) (rule rtc_step.bridge [OF s1], rule rtc_step.bridge [OF s2])
  have i: "rtc_init ?st0" by (simp add: rtc_init_def empty_rtc_def)
  have m: "rtc_map st2 ''bridge-c1'' = Some 1" "rtc_heap st2 0 = Some (new_rtc_session ''bridge-c1'' ''a'' 0)"
    using s1 s2 by (auto simp: handleBridge_def registered_early_def register_def new_rtc_session_def empty_rtc_def empty_copilot_def set_siprec_def
      AddAudioTap_def Let_def)
  from stale_connection_unregisters [OF r i m(1,2)] show ?thesis using m(1) by (auto simp: new_rtc_session_def)
qed

end
