(* ===== verification/Trunks.thy ===== *)
theory Trunks
  imports Sip_Security Esl "HOL-Library.Multiset"
begin

text \<open>
  Administration of SIP trunks, \<open>gateway/trunks.go\<close>: the tables of trunks, access lists and security
  events, the handlers that list, create, delete, apply and test trunks, and the detection of a
  provider from a host name. In the table the password of a trunk is its hash. The identifier and time
  of a new row are arguments, \<open>hash\<close> stands for \<open>bcrypt\<close>, and the event socket is a parameter.
\<close>

record SIPTrunk =
  tk_ID :: string
  tk_Name :: string
  tk_Provider :: string
  tk_Address :: string
  tk_Port :: int
  tk_Transport :: string
  tk_Register :: bool
  tk_Username :: string
  tk_Password :: string
  tk_CallerID :: string
  tk_Codecs :: string
  tk_Status :: string
  tk_CreatedAt :: instant
  tk_TrunkType :: string
  tk_SecurityPolicy :: string
  tk_AuthRealm :: string
  tk_AuthUser :: string
  tk_AuthPassword :: string
  tk_TLSEnabled :: bool
  tk_SRTPEnabled :: bool

record acl_row =
  ar_ID :: string
  ar_TrunkID :: string
  ar_IPAddress :: string
  ar_CIDRBits :: int
  ar_Description :: string
  ar_CreatedAt :: instant

record log_row =
  lr_trunk_id :: "string option"
  lr_event :: string
  lr_trunk_name :: string
  lr_source_ip :: string
  lr_call_id :: string
  lr_details :: string
  lr_created_at :: instant

record trunk_db =
  td_trunks :: "SIPTrunk list"
  td_acls :: "acl_row list"
  td_log :: "log_row list"

subsection \<open>Provider detection\<close>

definition match_at :: "string \<Rightarrow> string \<Rightarrow> nat \<Rightarrow> bool" where
  "match_at s substr i = list_all (\<lambda>j. to_lower_char (s ! (i + j)) = to_lower_char (substr ! j)) [0..<length substr]"

definition containsLower :: "string \<Rightarrow> string \<Rightarrow> bool" where
  "containsLower s substr = (length substr \<le> length s \<and> list_ex (match_at s substr) [0..<length s - length substr + 1])"

definition contains :: "string \<Rightarrow> string \<Rightarrow> bool" where
  "contains s substr = (length s \<ge> length substr \<and> (s = substr \<or> length s > 0 \<and> containsLower s substr))"

definition providers :: "(string \<times> string) list" where
  "providers = [(''twilio'', ''twilio''), (''nexmo'', ''vonage''), (''vonage'', ''vonage''), (''telnyx'', ''telnyx''),
     (''bandwidth'', ''bandwidth''), (''plivo'', ''plivo''), (''signalwire'', ''signalwire'')]"

text \<open>\<open>order\<close> is the order in which the range over the map visits the providers.\<close>

definition detectProvider :: "(string \<times> string) list \<Rightarrow> string \<Rightarrow> string" where
  "detectProvider order address = (case find (\<lambda>(k, _). contains address k) order of Some (_, p) \<Rightarrow> p | None \<Rightarrow> ''custom'')"

subsection \<open>Trunks\<close>

definition public_trunk :: "SIPTrunk \<Rightarrow> SIPTrunk" where
  "public_trunk t = t\<lparr>tk_Password := '''', tk_AuthPassword := ''''\<rparr>"

definition listTrunks :: "string option \<Rightarrow> trunk_db option \<Rightarrow> (string + SIPTrunk list) response" where
  "listTrunks fails d =
     (case d of
        None \<Rightarrow> WriteJSON 200 (Inr [])
      | Some t \<Rightarrow>
          (case fails of
             Some err \<Rightarrow> WriteJSON 500 (Inl err)
           | None \<Rightarrow> WriteJSON 200 (Inr (map public_trunk (sort_key tk_CreatedAt (td_trunks t))))))"

definition or_default :: "string \<Rightarrow> string \<Rightarrow> string" where
  "or_default s v = (if s = '''' then v else s)"

definition complete_trunk :: "(string \<times> string) list \<Rightarrow> SIPTrunk \<Rightarrow> SIPTrunk" where
  "complete_trunk order req =
     (let r1 = req\<lparr>tk_Port := (if tk_Port req = 0 then 5060 else tk_Port req), tk_Transport := or_default (tk_Transport req) ''udp'',
            tk_Codecs := or_default (tk_Codecs req) ''PCMU,PCMA,G722'', tk_Provider := or_default (tk_Provider req) ''custom'',
            tk_Status := or_default (tk_Status req) ''active''\<rparr>;
          r2 = (if tk_Provider r1 = ''custom'' \<or> tk_Provider r1 = '''' then r1\<lparr>tk_Provider := detectProvider order (tk_Address r1)\<rparr> else r1);
          r3 = (if tk_TrunkType r2 = ''siprec'' then r2\<lparr>tk_Provider := ''siprec''\<rparr> else r2)
      in r3\<lparr>tk_TrunkType := or_default (tk_TrunkType r3) ''direct'', tk_SecurityPolicy := or_default (tk_SecurityPolicy r3) ''strict''\<rparr>)"

definition createTrunk ::
  "(string \<times> string) list \<Rightarrow> (string \<Rightarrow> string option) \<Rightarrow> string + string \<times> instant \<Rightarrow> SIPTrunk option \<Rightarrow> trunk_db option
    \<Rightarrow> trunk_db option \<times> json_obj response" where
  "createTrunk order hash inserted decoded d =
     (case decoded of
        None \<Rightarrow> (d, WriteJSON 400 [(''error'', ''invalid JSON'')])
      | Some req0 \<Rightarrow>
          if tk_Name req0 = '''' \<or> tk_Address req0 = '''' then (d, WriteJSON 400 [(''error'', ''name and address required'')])
          else
            let req = complete_trunk order req0 in
            (case d of
               None \<Rightarrow> (d, WriteJSON 200 [(''id'', ''no-db''), (''name'', tk_Name req), (''status'', ''created'')])
             | Some t \<Rightarrow>
                 (case inserted of
                    Inl err \<Rightarrow> (d, WriteJSON 500 [(''error'', err)])
                  | Inr (i, created) \<Rightarrow>
                      let stored = (if tk_AuthPassword req \<noteq> '''' then (case hash (tk_AuthPassword req) of Some h \<Rightarrow> h | None \<Rightarrow> '''') else '''');
                          row = req\<lparr>tk_ID := i, tk_CreatedAt := created, tk_AuthPassword := stored\<rparr>
                      in (Some (t\<lparr>td_trunks := td_trunks t @ [row]\<rparr>),
                          WriteJSON 201 [(''id'', i), (''name'', tk_Name req), (''type'', tk_TrunkType req), (''status'', ''created'')]))))"

text \<open>The foreign keys cascade: the access list of the trunk goes, its log entries lose the reference.\<close>

definition deleteTrunk :: "string \<Rightarrow> trunk_db option \<Rightarrow> trunk_db option \<times> json_obj response" where
  "deleteTrunk i d =
     (if i = '''' then d
      else map_option (\<lambda>t. t\<lparr>td_trunks := filter (\<lambda>r. tk_ID r \<noteq> i) (td_trunks t), td_acls := filter (\<lambda>r. ar_TrunkID r \<noteq> i) (td_acls t),
             td_log := map (\<lambda>r. if lr_trunk_id r = Some i then r\<lparr>lr_trunk_id := None\<rparr> else r) (td_log t)\<rparr>) d,
      WriteJSON 200 [(''status'', ''deleted'')])"

datatype trunk_request = TkGet | TkPost "SIPTrunk option" | TkDelete string | TkOther

definition handleTrunks ::
  "string option \<Rightarrow> (string \<times> string) list \<Rightarrow> (string \<Rightarrow> string option) \<Rightarrow> string + string \<times> instant \<Rightarrow> trunk_request \<Rightarrow> trunk_db option
    \<Rightarrow> trunk_db option \<times> (json_obj response + (string + SIPTrunk list) response)" where
  "handleTrunks fails order hash inserted rq d =
     (case rq of
        TkGet \<Rightarrow> (d, Inr (listTrunks fails d))
      | TkPost decoded \<Rightarrow> (let (d1, r) = createTrunk order hash inserted decoded d in (d1, Inl r))
      | TkDelete i \<Rightarrow> (let (d1, r) = deleteTrunk i d in (d1, Inl r))
      | TkOther \<Rightarrow> (d, Inl (HttpError 405 ''{\"error\":\"method not allowed\"}'')))"

subsection \<open>Access lists and the security log\<close>

datatype acl_request = AclGet string | AclPost "acl_row option" | AclDelete string | AclOther

definition handleACL :: "string option \<Rightarrow> string \<times> instant \<Rightarrow> acl_request \<Rightarrow> trunk_db option \<Rightarrow> trunk_db option \<times> (json_obj + acl_row list) response" where
  "handleACL fails new_row rq d =
     (case d of
        None \<Rightarrow> (d, HttpError 503 ''{\"error\":\"database required\"}'')
      | Some t \<Rightarrow>
          (case rq of
             AclGet trunkID \<Rightarrow>
               (d, case fails of
                     Some err \<Rightarrow> HttpError 500 err
                   | None \<Rightarrow> WriteJSON 200 (Inr (sort_key ar_CreatedAt (filter (\<lambda>r. trunkID = '''' \<or> ar_TrunkID r = trunkID) (td_acls t)))))
           | AclPost decoded \<Rightarrow>
               (case decoded of
                  None \<Rightarrow> (d, HttpError 400 ''{\"error\":\"trunk_id and ip_address required\"}'')
                | Some b \<Rightarrow>
                    if ar_TrunkID b = '''' \<or> ar_IPAddress b = '''' then (d, HttpError 400 ''{\"error\":\"trunk_id and ip_address required\"}'')
                    else case fails of
                      Some err \<Rightarrow> (d, HttpError 500 err)
                    | None \<Rightarrow>
                        (Some (t\<lparr>td_acls := td_acls t @ [b\<lparr>ar_ID := fst new_row, ar_CreatedAt := snd new_row,
                           ar_CIDRBits := (if ar_CIDRBits b = 0 then 32 else ar_CIDRBits b)\<rparr>]\<rparr>),
                         WriteJSON 200 (Inl [(''id'', fst new_row), (''status'', ''created'')])))
           | AclDelete i \<Rightarrow>
               if i = '''' then (d, HttpError 400 ''{\"error\":\"id required\"}'')
               else (Some (if fails = None then t\<lparr>td_acls := filter (\<lambda>r. ar_ID r \<noteq> i) (td_acls t)\<rparr> else t),
                     WriteJSON 200 (Inl [(''status'', ''deleted'')]))
           | AclOther \<Rightarrow> (d, HttpError 405 ''method not allowed'')))"

definition handleSecurityLog :: "string option \<Rightarrow> trunk_db option \<Rightarrow> log_row list response" where
  "handleSecurityLog fails d =
     (case d of
        None \<Rightarrow> HttpError 503 ''{\"error\":\"database required\"}''
      | Some t \<Rightarrow> (case fails of Some err \<Rightarrow> HttpError 500 err
                   | None \<Rightarrow> WriteJSON 200 (take 50 (rev (sort_key lr_created_at (td_log t))))))"

subsection \<open>The switch\<close>

definition handleApply :: "event_socket \<Rightarrow> bool \<Rightarrow> string \<Rightarrow> trunk_db option \<Rightarrow> string list \<times> json_obj response" where
  "handleApply socket isPost i d =
     (if \<not> isPost then ([], HttpError 405 ''{\"error\":\"method not allowed\"}'')
      else case d of
        None \<Rightarrow> ([], WriteJSON 200 [(''status'', ''no database'')])
      | Some t \<Rightarrow>
          (case find (\<lambda>r. tk_ID r = i) (td_trunks t) of
             None \<Rightarrow> ([], WriteJSON 404 [(''error'', ''trunk not found'')])
           | Some r \<Rightarrow>
               let cmd = ''sofia profile external gwload '' @ tk_Name r in
               ([cmd], case socket cmd of
                         Inl err \<Rightarrow> WriteJSON 502 [(''error'', ''ESL command failed: '' @ err)]
                       | Inr _ \<Rightarrow> WriteJSON 200 [(''status'', ''applied''), (''name'', tk_Name r)])))"

text \<open>The result holds the commands, the address as printed, whether it is reported reachable, and the answer or error.\<close>

definition handleTestTrunk :: "event_socket \<Rightarrow> (string \<Rightarrow> int \<Rightarrow> string) \<Rightarrow> string \<Rightarrow> int \<Rightarrow> string list \<times> string \<times> bool \<times> string" where
  "handleTestTrunk socket print_addr address port =
     (let port1 = (if port = 0 then 5060 else port); on = ''sofia profile external siptrace on''; off = ''sofia global siptrace off''
      in case socket off of
           Inl err \<Rightarrow> ([on, off], print_addr address port1, False, err)
         | Inr resp \<Rightarrow> ([on, off], print_addr address port1, True, resp))"

subsection \<open>What the SIP server loads\<close>

definition trunk_entry :: "SIPTrunk \<Rightarrow> sipTrunkEntry" where
  "trunk_entry t = \<lparr>t_ID = tk_ID t, t_Name = tk_Name t, t_Address = tk_Address t, t_Port = tk_Port t, TrunkType = tk_TrunkType t,
     AuthRealm = tk_AuthRealm t, AuthUser = tk_AuthUser t, AuthPassHash = tk_AuthPassword t, TLSEnabled = tk_TLSEnabled t,
     SRTPEnabled = tk_SRTPEnabled t, SecurityPolicy = tk_SecurityPolicy t\<rparr>"

definition trunk_rows :: "trunk_db \<Rightarrow> (sipTrunkEntry \<times> string) list" where
  "trunk_rows d = map (\<lambda>t. (trunk_entry t, tk_Status t)) (td_trunks d)"

definition acl_rows :: "trunk_db \<Rightarrow> (string \<times> string \<times> int) list" where
  "acl_rows d = map (\<lambda>r. (ar_TrunkID r, ar_IPAddress r, ar_CIDRBits r)) (td_acls d)"

definition reload :: "trunk_db \<Rightarrow> SIPSecurity \<Rightarrow> SIPSecurity" where
  "reload d ss = Security_Reload (Some (trunk_rows d)) (Some (acl_rows d)) ss"

subsection \<open>Lemmas\<close>

lemma match_at_iff:
  assumes "i + length substr \<le> length s"
  shows "match_at s substr i \<longleftrightarrow> take (length substr) (drop i (map to_lower_char s)) = map to_lower_char substr"
proof -
  have "take (length substr) (drop i (map to_lower_char s)) = map (\<lambda>j. to_lower_char (s ! (i + j))) [0..<length substr]"
    using assms by (intro nth_equalityI) auto
  moreover have "map to_lower_char substr = map (\<lambda>j. to_lower_char (substr ! j)) [0..<length substr]"
    by (intro nth_equalityI) auto
  ultimately show ?thesis by (simp add: match_at_def list_all_iff)
qed

lemma containsLower_iff: "containsLower s substr \<longleftrightarrow> str_contains (map to_lower_char s) (map to_lower_char substr)"
proof
  assume "containsLower s substr"
  then obtain i where i: "i \<in> set [0..<length s - length substr + 1]" "length substr \<le> length s" "match_at s substr i"
    unfolding containsLower_def list_ex_iff by blast
  then have le: "i + length substr \<le> length s" by auto
  then have "map to_lower_char s = take i (map to_lower_char s) @ map to_lower_char substr @ drop (length substr) (drop i (map to_lower_char s))"
    using match_at_iff [OF le] i(3) by (metis append_take_drop_id)
  then show "str_contains (map to_lower_char s) (map to_lower_char substr)" unfolding str_contains_iff by blast
next
  assume "str_contains (map to_lower_char s) (map to_lower_char substr)"
  then obtain u v where uv: "map to_lower_char s = u @ map to_lower_char substr @ v" by (auto simp: str_contains_iff)
  then have len: "length s = length u + (length substr + length v)" by (metis length_append length_map)
  then have "match_at s substr (length u)" by (simp add: match_at_iff uv)
  then show "containsLower s substr" using len by (auto simp: containsLower_def list_ex_iff intro!: bexI [of _ "length u"])
qed

lemma contains_lower: "contains s substr \<longleftrightarrow> str_contains (to_lower s) (to_lower substr)"
proof (cases "s = substr \<or> s = []")
  case True
  then show ?thesis
    using str_contains_append [of "[]" "to_lower s" "[]"] by (auto simp: contains_def to_lower_def str_contains_iff)
next
  case False
  then show ?thesis by (auto simp: contains_def containsLower_iff [symmetric] to_lower_def containsLower_def)
qed

lemma trunk_by_id_append: "trunk_by_id i ts = Some t \<Longrightarrow> trunk_by_id i (ts @ us) = Some t"
  by (induction ts) (auto simp: trunk_by_id_def)

lemma trunk_by_id_skip: "trunk_by_id i (ts @ [t]) = (if trunk_by_id i ts = None then if t_ID t = i then Some t else None else trunk_by_id i ts)"
  by (induction ts) (auto simp: trunk_by_id_def)

lemma scan_acls_extend:
  assumes "scan_acls ip src ts as = None" "\<forall>a \<in> set as. acl_TrunkID a \<noteq> t_ID t"
  shows "scan_acls ip src (ts @ [t]) as = None"
  using assms
proof (induction as)
  case (Cons a as)
  then show ?case by (auto simp: Let_def trunk_by_id_skip split: option.splits if_splits)
qed simp

lemma scan_acls_append: "scan_acls ip src ts as = None \<Longrightarrow> scan_acls ip src ts (as @ bs) = scan_acls ip src ts bs"
  by (induction as) (auto simp: Let_def split: option.splits if_splits)

subsection \<open>Properties\<close>

text \<open>
  provider detection is a case-insensitive search: in whatever order the table is walked, the provider
  is \<open>custom\<close> exactly when no keyword occurs in the address brought to lower case, and otherwise that of
  a keyword that does.
\<close>

theorem detectProvider_spec:
  assumes "mset order = mset providers"
  shows "(detectProvider order address = ''custom'' \<longleftrightarrow>
      (\<forall>(k, p) \<in> set providers. \<not> str_contains (to_lower address) k)) \<and>
    (detectProvider order address \<noteq> ''custom'' \<longrightarrow>
      (\<exists>(k, p) \<in> set providers. str_contains (to_lower address) k \<and> detectProvider order address = p))"
proof -
  have s: "set order = set providers" using assms by (metis set_mset_mset)
  have low: "\<forall>(k, p) \<in> set providers. to_lower k = k \<and> p \<noteq> ''custom''" by code_simp
  have c: "contains address k \<longleftrightarrow> str_contains (to_lower address) k" if "(k, p) \<in> set providers" for k p
    using low that contains_lower [of address k] by auto
  show ?thesis
  proof (cases "find (\<lambda>(k, _). contains address k) order")
    case None
    then have "\<forall>(k, p) \<in> set providers. \<not> contains address k" using s by (auto simp: find_None_iff)
    with None c show ?thesis by (auto simp: detectProvider_def)
  next
    case (Some x)
    then obtain k p where x: "x = (k, p)" "(k, p) \<in> set providers" "contains address k"
      using s by (cases x) (auto simp: find_Some_iff dest: nth_mem)
    then have d: "detectProvider order address = p" "p \<noteq> ''custom''" "str_contains (to_lower address) k"
      using Some low c by (auto simp: detectProvider_def)
    with x(2) show ?thesis by auto
  qed
qed

theorem detectProvider_spec_witness: "detectProvider (rev providers) ''SIP.Twilio.com'' \<noteq> ''custom''"
proof -
  have "mset (rev providers) = mset providers" by simp
  moreover have "str_contains (to_lower ''SIP.Twilio.com'') ''twilio''" by code_simp
  moreover have "(''twilio'', ''twilio'') \<in> set providers" by (simp add: providers_def)
  ultimately show ?thesis using detectProvider_spec [of "rev providers" "''SIP.Twilio.com''"] by blast
qed


definition example_new_trunk :: SIPTrunk where
  "example_new_trunk = \<lparr>tk_ID = '''', tk_Name = ''pbx'', tk_Provider = '''', tk_Address = ''pbx.example'', tk_Port = 0, tk_Transport = '''',
     tk_Register = False, tk_Username = '''', tk_Password = '''', tk_CallerID = '''', tk_Codecs = '''', tk_Status = '''', tk_CreatedAt = 0,
     tk_TrunkType = '''', tk_SecurityPolicy = '''', tk_AuthRealm = '''', tk_AuthUser = '''', tk_AuthPassword = '''',
     tk_TLSEnabled = False, tk_SRTPEnabled = False\<rparr>"

definition example_acl :: acl_row where
  "example_acl = \<lparr>ar_ID = '''', ar_TrunkID = ''t1'', ar_IPAddress = ''10.1.2.3'', ar_CIDRBits = 0, ar_Description = '''', ar_CreatedAt = 0\<rparr>"


end
