(* ===== verification/Sip_Uac.thy ===== *)
theory Sip_Uac
  imports Webrtc Sip_Server Trunks
begin

text \<open>
  Outgoing calls over SIP trunks, \<open>gateway/sip_uac.go\<close>: the request to dial, the choice of the trunk,
  the messages of the dialog and the reading of the answers, the call that is set up for an agent, the
  loop that waits for its end, and the call of a conference's third party. The datagrams that arrive
  are a list, whose end is a read that fails, with an error text that is left out; addresses of the
  sockets are text. Queues and co-pilot
  sessions are those of the shared state, SIP sessions, ports and registrations those of the server.
\<close>

record outboundCallRequest =
  oc_Number :: string
  oc_TrunkID :: string
  oc_CallerID :: string
  oc_AgentID :: string

subsection \<open>The request\<close>

definition direct_trunk :: SIPTrunk where
  "direct_trunk = \<lparr>tk_ID = '''', tk_Name = ''direct'', tk_Provider = '''', tk_Address = '''', tk_Port = 5060, tk_Transport = '''',
     tk_Register = False, tk_Username = '''', tk_Password = '''', tk_CallerID = '''', tk_Codecs = ''PCMU,PCMA'', tk_Status = '''',
     tk_CreatedAt = 0, tk_TrunkType = '''', tk_SecurityPolicy = '''', tk_AuthRealm = '''', tk_AuthUser = '''', tk_AuthPassword = '''',
     tk_TLSEnabled = False, tk_SRTPEnabled = False\<rparr>"

text \<open>The columns selected; the first active row is taken, since the query does not order them.\<close>

definition findOutboundTrunk :: "string \<Rightarrow> trunk_db option \<Rightarrow> SIPTrunk option" where
  "findOutboundTrunk trunkID d =
     (case d of
        None \<Rightarrow> None
      | Some t \<Rightarrow>
          map_option (\<lambda>r. direct_trunk\<lparr>tk_ID := tk_ID r, tk_Name := tk_Name r, tk_Address := tk_Address r,
              tk_Port := (if tk_Port r = 0 then 5060 else tk_Port r), tk_Transport := tk_Transport r, tk_CallerID := tk_CallerID r,
              tk_Codecs := tk_Codecs r\<rparr>)
            (find (\<lambda>r. (trunkID = '''' \<or> tk_ID r = trunkID) \<and> tk_Status r = ''active'') (td_trunks t)))"

text \<open>\<open>scan\<close> reads a decimal number at the start of a text, as \<open>Sscanf\<close> does for the verb \<open>%d\<close>.\<close>

definition scan :: "string \<Rightarrow> int option" where
  "scan s0 =
     (let s = dropWhile (\<lambda>c. c = CHR '' '') s0;
          (neg, u) = (case s of c # cs \<Rightarrow> if c = CHR ''-'' then (True, cs) else if c = CHR ''+'' then (False, cs) else (False, s) | [] \<Rightarrow> (False, []));
          ds = takeWhile is_digit u
      in if ds = [] then None else Some (if neg then - int (dec_value ds) else int (dec_value ds)))"

definition contact_trunk :: "string \<Rightarrow> SIPTrunk \<Rightarrow> SIPTrunk" where
  "contact_trunk contact t =
     (case split_n2 contact '':'' of
        host # port # _ \<Rightarrow> t\<lparr>tk_Address := host, tk_Port := (case scan port of Some p \<Rightarrow> p | None \<Rightarrow> tk_Port t)\<rparr>
      | host # _ \<Rightarrow> t\<lparr>tk_Address := host\<rparr>
      | [] \<Rightarrow> t)"

record dial_plan =
  dp_callID :: string
  dp_number :: string
  dp_callerID :: string
  dp_trunk :: SIPTrunk
  dp_agentID :: string

definition handleOutboundCall ::
  "bool \<Rightarrow> outboundCallRequest option \<Rightarrow> nat \<Rightarrow> (string \<rightharpoonup> string) \<Rightarrow> trunk_db option \<Rightarrow> dial_plan option \<times> json_obj response" where
  "handleOutboundCall isPost decoded millis regs d =
     (if \<not> isPost then (None, HttpError 405 ''POST required'')
      else case decoded of
        None \<Rightarrow> (None, WriteJSON 400 [(''error'', ''invalid JSON'')])
      | Some req \<Rightarrow>
          if oc_Number req = '''' then (None, WriteJSON 400 [(''error'', ''number required'')])
          else
            let trunk = findOutboundTrunk (oc_TrunkID req) d; contact = regs (oc_Number req) in
            if trunk = None \<and> contact = None
            then (None, WriteJSON 400 [(''error'', ''no outbound trunk configured and number not registered'')])
            else
              let c1 = (if oc_CallerID req = '''' then (case trunk of Some t \<Rightarrow> tk_CallerID t | None \<Rightarrow> '''') else oc_CallerID req);
                  callerID = (if c1 = '''' then ''voiceagent'' else c1);
                  callID = ''outbound-'' @ dec millis;
                  base = (case trunk of Some t \<Rightarrow> t | None \<Rightarrow> direct_trunk);
                  dest = (case contact of Some a \<Rightarrow> contact_trunk a base | None \<Rightarrow> base)
              in (Some \<lparr>dp_callID = callID, dp_number = oc_Number req, dp_callerID = callerID, dp_trunk = dest, dp_agentID = oc_AgentID req\<rparr>,
                  WriteJSON 200 [(''call_id'', callID), (''status'', ''dialing'')]))"

subsection \<open>Messages\<close>

definition crlf :: string where "crlf = [CHR 0x0D, CHR 0x0A]"

definition lines :: "string list \<Rightarrow> string" where
  "lines ls = concat (map (\<lambda>l. l @ crlf) ls)"

definition sdp_offer :: "nat \<Rightarrow> string \<Rightarrow> int \<Rightarrow> string" where
  "sdp_offer millis localIP port = lines
     [''v=0'', ''o=VoiceAgent '' @ dec millis @ '' '' @ dec millis @ '' IN IP4 '' @ localIP, ''s=VoiceAgent'', ''c=IN IP4 '' @ localIP, ''t=0 0'',
      ''m=audio '' @ show_int port @ '' RTP/AVP 0 101'', ''a=rtpmap:0 PCMU/8000'', ''a=rtpmap:101 telephone-event/8000'',
      ''a=fmtp:101 0-16'', ''a=sendrecv'', ''a=ptime:20'']"

record dialog =
  dg_callID :: string
  dg_number :: string
  dg_callerID :: string
  dg_trunk :: SIPTrunk
  dg_localIP :: string
  dg_addr :: string
  dg_fromTag :: string

definition trunkAddr :: "dialog \<Rightarrow> string" where
  "trunkAddr g = tk_Address (dg_trunk g) @ '':'' @ show_int (tk_Port (dg_trunk g))"

definition requestURI :: "dialog \<Rightarrow> string" where
  "requestURI g = ''sip:'' @ dg_number g @ ''@'' @ trunkAddr g"

definition fromURI :: "dialog \<Rightarrow> string" where
  "fromURI g = ''<sip:'' @ dg_callerID g @ ''@'' @ dg_localIP g @ ''>''"

definition toURI :: "dialog \<Rightarrow> string" where
  "toURI g = ''<sip:'' @ dg_number g @ ''@'' @ tk_Address (dg_trunk g) @ ''>''"

definition invite_text :: "nat \<Rightarrow> string \<Rightarrow> dialog \<Rightarrow> string" where
  "invite_text nano sdp g = lines
     [''INVITE '' @ requestURI g @ '' SIP/2.0'',
      ''Via: SIP/2.0/UDP '' @ dg_localIP g @ dg_addr g @ '';rport;branch=z9hG4bK-'' @ dec nano,
      ''From: '' @ fromURI g @ '';tag='' @ dg_fromTag g, ''To: '' @ toURI g, ''Call-ID: '' @ dg_callID g, ''CSeq: 1 INVITE'',
      ''Contact: <sip:'' @ dg_callerID g @ ''@'' @ dg_localIP g @ dg_addr g @ ''>'', ''Max-Forwards: 70'',
      ''Content-Type: application/sdp'', ''Content-Length: '' @ dec (length sdp), ''''] @ sdp"

definition ack_text :: "nat \<Rightarrow> string \<Rightarrow> dialog \<Rightarrow> string" where
  "ack_text nano toTag g = lines
     [''ACK '' @ requestURI g @ '' SIP/2.0'',
      ''Via: SIP/2.0/UDP '' @ dg_localIP g @ dg_addr g @ '';rport;branch=z9hG4bK-'' @ dec nano,
      ''From: '' @ fromURI g @ '';tag='' @ dg_fromTag g, ''To: '' @ toURI g @ '';tag='' @ toTag, ''Call-ID: '' @ dg_callID g,
      ''CSeq: 1 ACK'', ''Max-Forwards: 70'', ''Content-Length: 0'', '''']"

definition extractHeader :: "string \<Rightarrow> string \<Rightarrow> string" where
  "extractHeader msg header =
     (case find (\<lambda>l. has_prefix l (header @ '':'') \<or> has_prefix l (header @ '' :'')) (split_str msg crlf) of
        None \<Rightarrow> '''' | Some l \<Rightarrow> (case split_n2 l '':'' of _ # v # _ \<Rightarrow> trim_space v | _ \<Rightarrow> ''''))"

definition bye_ok :: "string \<Rightarrow> string \<Rightarrow> string" where
  "bye_ok msg callID = lines
     [''SIP/2.0 200 OK'', ''Via: '' @ extractHeader msg ''Via'', ''Call-ID: '' @ callID, ''CSeq: 2 BYE'', ''Content-Length: 0'', '''']"

subsection \<open>Answers\<close>

definition first_line :: "string \<Rightarrow> string" where
  "first_line response = hd (split_n2 response crlf)"

definition provisional :: "string \<Rightarrow> bool" where
  "provisional l \<longleftrightarrow> str_contains l ''100'' \<or> str_contains l ''180'' \<or> str_contains l ''183''"

definition refused :: "string \<Rightarrow> bool" where
  "refused l \<longleftrightarrow> str_contains l ''4'' \<or> str_contains l ''5'' \<or> str_contains l ''6''"

fun await_final :: "string list \<Rightarrow> string + string" where
  "await_final [] = Inl ''timeout''"
| "await_final (r # rs) =
     (if str_contains (first_line r) ''200'' then Inr r
      else if refused (first_line r) then Inl (''rejected: '' @ first_line r)
      else await_final rs)"

definition negotiate :: "string list \<Rightarrow> string + string" where
  "negotiate responses =
     (case responses of
        [] \<Rightarrow> Inl ''no response''
      | r # rs \<Rightarrow>
          (case (if provisional (first_line r) then await_final rs else Inr r) of
             Inl err \<Rightarrow> Inl err
           | Inr final \<Rightarrow>
               if str_contains (first_line final) ''200'' then Inr final else Inl (''not answered: '' @ first_line final)))"

definition remote_port :: "string \<Rightarrow> int" where
  "remote_port response =
     (case str_index response ''m=audio'' of
        None \<Rightarrow> 0 | Some i \<Rightarrow> (case scan (drop (i + length ''m=audio'') response) of Some p \<Rightarrow> p | None \<Rightarrow> 0))"

definition remote_host :: "string \<Rightarrow> string" where
  "remote_host response =
     (case str_index response ''c=IN IP4'' of
        None \<Rightarrow> ''''
      | Some i \<Rightarrow> takeWhile (\<lambda>c. \<not> is_space c) (dropWhile (\<lambda>c. c = CHR '' '') (drop (i + length ''c=IN IP4'') response)))"

definition to_tag :: "string \<Rightarrow> string" where
  "to_tag response =
     (case str_index response ''To:'' of
        None \<Rightarrow> ''''
      | Some i \<Rightarrow>
          let toLine = drop i response in
          (case str_index toLine ''tag='' of
             None \<Rightarrow> ''''
           | Some j \<Rightarrow>
               hd (split_on (CHR ''>'') (hd (split_on (CHR '';'') (trim_space (hd (split_n2 (drop (j + 4) toLine) crlf))))))))"

subsection \<open>Calls\<close>

record outbound_state =
  ob_rtc :: webrtc_state
  ob_sip :: SIPServer
  ob_toTags :: "string \<rightharpoonup> string"

text \<open>
  \<open>resolve\<close> and \<open>listener\<close> are the outcomes of resolving the address of the trunk and of opening the
  sockets. What is sent on them, the rings and the web hooks are effects.
\<close>

record uac_env =
  ue_now :: instant
  ue_timestamp :: string
  ue_millis :: nat
  ue_nano :: nat
  ue_localIP :: string
  ue_addr :: string
  ue_ssrc :: "32 word"
  ue_listen :: "string + unit"
  ue_connect :: "string + unit"
  ue_responses :: "string list"
  ue_resolve :: "string \<Rightarrow> int \<Rightarrow> string + string"
  ue_database :: bool
  ue_agentMgr :: bool

datatype uac_effect = SentSip string | UacRing ring | UacHooks "(Webhook \<times> json_obj) list" | UacClosed

definition rtp_session :: "dialog \<Rightarrow> string \<Rightarrow> int \<Rightarrow> int \<Rightarrow> siprecRTPSession" where
  "rtp_session g host port lport = \<lparr>se_callID = dg_callID g, se_fromTag = dg_fromTag g, remoteAddr = host, remotePort = port, se_codec = ''PCMU'',
     localPort = lport, sipFrom = fromURI g @ '';tag='' @ dg_fromTag g, sipTo = toURI g, sipSource = trunkAddr g, isOutbound = True, two_way = True\<rparr>"

definition connect_media :: "uac_env \<Rightarrow> string \<Rightarrow> RTPListener \<Rightarrow> RTPListener" where
  "connect_media env response l =
     (if remote_host response \<noteq> '''' \<and> remote_port response > 0
      then fst (SetRemoteAddr (ue_resolve env (remote_host response) (remote_port response)) l) else l)"

definition take_port :: "SIPServer \<Rightarrow> int \<times> SIPServer" where
  "take_port s = (let (p, next) = allocateRTPPort (rtpBase s) (rtpNext s) in (p, s\<lparr>rtpNext := next\<rparr>))"

text \<open>
  The part that both kinds of call share: port, listener, socket, INVITE and the final answer. The
  result is the error, or the answer with the listener connected to the media of the other side.
\<close>

definition place_call ::
  "uac_env \<Rightarrow> dialog \<Rightarrow> SIPServer \<Rightarrow> SIPServer \<times> uac_effect list \<times> (string + string \<times> RTPListener \<times> int)" where
  "place_call env g s =
     (let (port, s1) = take_port s in
      case NewRTPListener (ue_listen env) ''PCMU'' (ue_ssrc env) of
        Inl err \<Rightarrow> (s1, [], Inl (''rtp listener: '' @ err))
      | Inr l \<Rightarrow>
          (case ue_connect env of
             Inl err \<Rightarrow> (s1, [], Inl err)
           | Inr _ \<Rightarrow>
               let invite = invite_text (ue_nano env) (sdp_offer (ue_millis env) (dg_localIP g) port) g in
               (case negotiate (ue_responses env) of
                  Inl err \<Rightarrow> (s1, [SentSip invite], Inl err)
                | Inr answer \<Rightarrow>
                    (s1, [SentSip invite, SentSip (ack_text (ue_nano env) (to_tag answer) g)],
                     Inr (answer, connect_media env answer l, port)))))"

definition outbound_dialog :: "uac_env \<Rightarrow> string \<Rightarrow> dial_plan \<Rightarrow> dialog" where
  "outbound_dialog env tagPrefix p = \<lparr>dg_callID = dp_callID p, dg_number = dp_number p, dg_callerID = dp_callerID p, dg_trunk = dp_trunk p,
     dg_localIP = ue_localIP env, dg_addr = ue_addr env, dg_fromTag = tagPrefix @ dec (ue_millis env)\<rparr>"

definition store_session :: "string \<Rightarrow> dialog \<Rightarrow> string \<Rightarrow> int \<Rightarrow> outbound_state \<Rightarrow> outbound_state" where
  "store_session key g answer port st =
     st\<lparr>ob_sip := (ob_sip st)\<lparr>sip_sessions := (sip_sessions (ob_sip st))(key \<mapsto> rtp_session g (remote_host answer) (remote_port answer) port)\<rparr>,
        ob_toTags := (ob_toTags st)(key \<mapsto> to_tag answer)\<rparr>"

definition makeOutboundCall :: "uac_env \<Rightarrow> dial_plan \<Rightarrow> outbound_state \<Rightarrow> outbound_state \<times> uac_effect list" where
  "makeOutboundCall env p st =
     (let callID = dp_callID p;
          (g1, s, hooks) = getOrCreateSIPRECSession (ue_now env) (ue_timestamp env) callID (rtc_copilot (ob_rtc st));
          s1 = s\<lparr>ss_callerNumber := dp_number p, ss_agentNumber := dp_callerID p\<rparr>;
          st1 = st\<lparr>ob_rtc := set_siprec callID s1 ((ob_rtc st)\<lparr>rtc_copilot := g1\<rparr>)\<rparr>;
          dg = outbound_dialog env ''outbound-'' p;
          (sip1, eff, res) = place_call env dg (ob_sip st1);
          st2 = st1\<lparr>ob_sip := sip1\<rparr>
      in case res of
           Inl err \<Rightarrow> (st2, UacHooks hooks # eff)
         | Inr (answer, l, port) \<Rightarrow>
             let s2 = broadcastSSE (SseAnswered callID (dp_number p)) (s1\<lparr>rtpSession := Some l\<rparr>);
                 st3 = store_session (callID @ ''_caller'') dg answer port st2;
                 entry = \<lparr>ID = ''q-'' @ dec (ue_nano env), CallID = callID, Number = dp_number p, WaitSec = 0, Reason = ''Outbound call'',
                          Priority = ''high'', QueueName = '''', EnterTime = 0\<rparr>;
                 r4 = set_siprec callID s2 (ob_rtc st3);
                 r5 = r4\<lparr>rtc_copilot := (rtc_copilot r4)\<lparr>cs_queues :=
                        map_option (\<lambda>qs. fst (AddCaller (ue_database env) (ue_now env) ''Outbound'' entry qs)) (cs_queues (rtc_copilot r4))\<rparr>\<rparr>;
                 rings = (if dp_agentID p \<noteq> '''' \<and> ue_agentMgr env
                          then [UacRing (RingAgent (dp_agentID p) callID (dp_number p) ''Outbound'' 0),
                                UacRing (RingAgent (dp_agentID p) callID (dp_number p) ''Outbound-Answered'' 0)] else [])
             in (st3\<lparr>ob_rtc := r5\<rparr>, UacHooks hooks # eff @ rings))"

definition dialSIPCall :: "uac_env \<Rightarrow> dial_plan \<Rightarrow> outbound_state \<Rightarrow> outbound_state \<times> uac_effect list \<times> (string + siprecRTPSession)" where
  "dialSIPCall env p st =
     (let dg = outbound_dialog env ''conf-'' p; (sip1, eff, res) = place_call env dg (ob_sip st); st1 = st\<lparr>ob_sip := sip1\<rparr> in
      case res of
        Inl err \<Rightarrow> (st1, eff, Inl err)
      | Inr (answer, l, port) \<Rightarrow>
          (store_session (dp_callID p @ ''_conf'') dg answer port st1, eff,
           Inr (rtp_session dg (remote_host answer) (remote_port answer) port)))"

text \<open>The end of an outgoing call, when the other side hangs up. Closing a closed bridge is a panic.\<close>

definition close_bridge :: "string \<Rightarrow> webrtc_state \<Rightarrow> webrtc_state option" where
  "close_bridge callID r =
     (case rtc_map r callID of
        None \<Rightarrow> Some r
      | Some i \<Rightarrow> map_option (\<lambda>r1. r1\<lparr>rtc_map := (rtc_map r1)(callID := None)\<rparr>) (close_session i r))"

definition remote_bye :: "enumeration \<Rightarrow> string \<Rightarrow> webrtc_state \<Rightarrow> webrtc_state option" where
  "remote_bye ord callID r =
     map_option (\<lambda>r1. let g = rtc_copilot r1 in
        r1\<lparr>rtc_copilot := g\<lparr>cs_queues := map_option (RemoveCallerByCallID ord callID) (cs_queues g),
             siprecSessions := (siprecSessions g)(callID := map_option (\<lambda>s. s\<lparr>ss_cancelled := True\<rparr>) (siprecSessions g callID))\<rparr>\<rparr>)
       (close_bridge (''bridge-'' @ callID) r)"

text \<open>The loop that keeps the connection: the end of the list is a read that fails or times out.\<close>

fun outbound_loop :: "enumeration \<Rightarrow> string \<Rightarrow> string list \<Rightarrow> webrtc_state \<Rightarrow> (webrtc_state \<times> uac_effect list) option" where
  "outbound_loop ord callID [] r = Some (r, [UacClosed])"
| "outbound_loop ord callID (msg # ms) r =
     (if str_contains msg ''BYE'' then map_option (\<lambda>r1. (r1, [SentSip (bye_ok msg callID), UacClosed])) (remote_bye ord callID r)
      else outbound_loop ord callID ms r)"

subsection \<open>Lemmas\<close>

lemma siprec_set [simp]:
  "siprecSessions (rtc_copilot (set_siprec c s r)) = (siprecSessions (rtc_copilot r))(c \<mapsto> s)"
  "cs_queues (rtc_copilot (set_siprec c s r)) = cs_queues (rtc_copilot r)"
  "rtc_map (set_siprec c s r) = rtc_map r"
  by (simp_all add: set_siprec_def)

lemma getOrCreate_state:
  assumes "getOrCreateSIPRECSession now timestamp callID g = (g1, s, hooks)"
  shows "cs_queues g1 = cs_queues g" "siprecSessions g callID = None \<Longrightarrow> s = new_session callID now"
  using assms by (auto simp: getOrCreateSIPRECSession_def Let_def split: option.splits)

lemma new_session_fields [simp]:
  "ss_cancelled (new_session callID now) = False" "whisperCh (new_session callID now) = None"
  by (simp_all add: new_session_def newCallRecorder_def AddAudioTap_def AddAgentTap_def)

lemma place_call_failed:
  assumes "place_call env dg s = (s1, eff, Inl err)"
  shows "s1 = snd (take_port s)" "sip_sessions s1 = sip_sessions s"
proof -
  show "s1 = snd (take_port s)"
    using assms by (auto simp: place_call_def Let_def split: prod.splits sum.splits)
  then show "sip_sessions s1 = sip_sessions s" by (simp add: take_port_def Let_def split: prod.splits)
qed

lemma place_call_cases:
  "\<lbrakk>ue_listen env = Inr (); ue_connect env = Inr (); negotiate (ue_responses env) = Inr answer\<rbrakk>
     \<Longrightarrow> \<exists>s1 eff l port. place_call env dg s = (s1, eff, Inr (answer, l, port))"
  "(\<exists>err. negotiate (ue_responses env) = Inl err) \<or> (\<exists>err. ue_listen env = Inl err) \<or> (\<exists>err. ue_connect env = Inl err)
     \<Longrightarrow> \<exists>s1 eff err. place_call env dg s = (s1, eff, Inl err)"
proof -
  obtain port s1 where t: "take_port s = (port, s1)" by fastforce
  show "\<lbrakk>ue_listen env = Inr (); ue_connect env = Inr (); negotiate (ue_responses env) = Inr answer\<rbrakk>
     \<Longrightarrow> \<exists>s1 eff l port. place_call env dg s = (s1, eff, Inr (answer, l, port))"
    by (simp add: place_call_def t NewRTPListener_def Let_def)
  show "(\<exists>err. negotiate (ue_responses env) = Inl err) \<or> (\<exists>err. ue_listen env = Inl err) \<or> (\<exists>err. ue_connect env = Inl err)
     \<Longrightarrow> \<exists>s1 eff err. place_call env dg s = (s1, eff, Inl err)"
    by (cases "ue_listen env"; cases "ue_connect env"; cases "negotiate (ue_responses env)")
       (auto simp: place_call_def t NewRTPListener_def Let_def)
qed

lemma place_call_answered:
  assumes "place_call env dg s = (s1, eff, Inr (answer, l, port))"
  shows "negotiate (ue_responses env) = Inr answer" "sip_sessions s1 = sip_sessions s"
    "eff = [SentSip (invite_text (ue_nano env) (sdp_offer (ue_millis env) (dg_localIP dg) port) dg), SentSip (ack_text (ue_nano env) (to_tag answer) dg)]"
  using assms by (auto simp: place_call_def take_port_def Let_def split: prod.splits sum.splits)

lemma negotiate_answered: "negotiate rs = Inr answer \<Longrightarrow> answer \<in> set rs \<and> str_contains (first_line answer) ''200''"
proof -
  have "await_final rs = Inr a \<Longrightarrow> a \<in> set rs" for rs a
    by (induction rs) (auto split: if_splits)
  then show "negotiate rs = Inr answer \<Longrightarrow> answer \<in> set rs \<and> str_contains (first_line answer) ''200''"
    by (auto simp: negotiate_def split: list.splits if_splits sum.splits)
qed

subsection \<open>Properties\<close>


definition example_uac :: uac_env where
  "example_uac = \<lparr>ue_now = 1, ue_timestamp = ''t'', ue_millis = 1, ue_nano = 1, ue_localIP = ''10.0.0.9'', ue_addr = '':5060'', ue_ssrc = 0,
     ue_listen = Inr (), ue_connect = Inr (), ue_responses = [''SIP/2.0 180 Ringing'', ''SIP/2.0 200 OK''], ue_resolve = (\<lambda>h _. Inr h),
     ue_database = False, ue_agentMgr = False\<rparr>"

definition example_plan :: dial_plan where
  "example_plan = \<lparr>dp_callID = ''outbound-1'', dp_number = ''100'', dp_callerID = ''voiceagent'', dp_trunk = direct_trunk, dp_agentID = ''a1''\<rparr>"

definition example_outbound :: outbound_state where
  "example_outbound = \<lparr>ob_rtc = empty_rtc, ob_sip = example_server, ob_toTags = Map.empty\<rparr>"

lemma example_negotiate: "negotiate [''SIP/2.0 180 Ringing'', ''SIP/2.0 200 OK''] = Inr ''SIP/2.0 200 OK''"
  by code_simp


text \<open>
  a call that is not answered leaves its co-pilot session behind: when the trunk refuses the call, does
  not answer or cannot be reached, the session created for it stays registered and is never cancelled,
  while no SIP session exists for it.
\<close>

theorem failed_call_leaks_session:
  assumes "makeOutboundCall env p st = (st', effs)" "siprecSessions (rtc_copilot (ob_rtc st)) (dp_callID p) = None"
    and "(\<exists>err. negotiate (ue_responses env) = Inl err) \<or> (\<exists>err. ue_listen env = Inl err) \<or> (\<exists>err. ue_connect env = Inl err)"
  shows "(\<exists>s. siprecSessions (rtc_copilot (ob_rtc st')) (dp_callID p) = Some s \<and> \<not> ss_cancelled s) \<and>
    sip_sessions (ob_sip st') = sip_sessions (ob_sip st)"
proof -
  define dg where "dg = outbound_dialog env ''outbound-'' p"
  obtain g1 s hooks where g: "getOrCreateSIPRECSession (ue_now env) (ue_timestamp env) (dp_callID p) (rtc_copilot (ob_rtc st)) = (g1, s, hooks)"
    by (metis prod_cases3)
  obtain s1 eff err where pc: "place_call env dg (ob_sip st) = (s1, eff, Inl err)"
    using place_call_cases(2) [OF assms(3)] by blast
  have "s = new_session (dp_callID p) (ue_now env)" using getOrCreate_state(2) [OF g assms(2)] .
  then show ?thesis
    using assms(1) g pc place_call_failed(2) [OF pc] by (auto simp: makeOutboundCall_def dg_def [symmetric] Let_def)
qed

theorem failed_call_leaks_session_witness:
  "\<exists>s. siprecSessions (rtc_copilot (ob_rtc (fst (makeOutboundCall (example_uac\<lparr>ue_responses := []\<rparr>) example_plan example_outbound)))) ''outbound-1'' = Some s
     \<and> \<not> ss_cancelled s"
proof -
  obtain st' effs where r: "makeOutboundCall (example_uac\<lparr>ue_responses := []\<rparr>) example_plan example_outbound = (st', effs)" by fastforce
  have "siprecSessions (rtc_copilot (ob_rtc example_outbound)) (dp_callID example_plan) = None"
    by (simp add: example_outbound_def empty_rtc_def empty_copilot_def)
  from failed_call_leaks_session [OF r this] show ?thesis
    by (simp only: r fst_conv) (simp add: example_uac_def negotiate_def example_plan_def)
qed

text \<open>
  any message that mentions the method hangs the call up: the first datagram on the connection of an
  answered call that contains the word BYE, such as a repeated answer whose Allow header lists it,
  cancels the call and takes it out of the queue.
\<close>

theorem mention_of_bye_hangs_up:
  assumes "str_contains msg ''BYE''" "rtc_map r (''bridge-'' @ callID) = None" "siprecSessions (rtc_copilot r) callID = Some s"
    and "cs_queues (rtc_copilot r) = Some qs" "finite (dom qs)" "enumerates ord"
    and "size (filter_mset (\<lambda>e. CallID e = callID) (waiting qs)) \<le> 1"
  shows "\<exists>r' s' qs'. outbound_loop ord callID (msg # ms) r = Some (r', [SentSip (bye_ok msg callID), UacClosed]) \<and>
    siprecSessions (rtc_copilot r') callID = Some s' \<and> ss_cancelled s' \<and>
    cs_queues (rtc_copilot r') = Some qs' \<and> waiting qs' = filter_mset (\<lambda>e. CallID e \<noteq> callID) (waiting qs)"
proof -
  have "close_bridge (''bridge-'' @ callID) r = Some r" using assms(2) by (simp add: close_bridge_def)
  then show ?thesis
    using assms(1,3,4) RemoveCallerByCallID_clears [OF assms(5-7)] by (simp add: remote_bye_def Let_def)
qed

theorem mention_of_bye_hangs_up_witness:
  "\<exists>r'. outbound_loop key_order ''c1'' [''SIP/2.0 200 OK Allow: INVITE, BYE''] 
      (empty_rtc\<lparr>rtc_copilot := empty_copilot\<lparr>siprecSessions := [''c1'' \<mapsto> new_session ''c1'' 0]\<rparr>\<rparr>) = Some r'"
proof -
  let ?r = "empty_rtc\<lparr>rtc_copilot := empty_copilot\<lparr>siprecSessions := [''c1'' \<mapsto> new_session ''c1'' 0]\<rparr>\<rparr>"
  have b: "str_contains ''SIP/2.0 200 OK Allow: INVITE, BYE'' ''BYE''" by code_simp
  have "rtc_map ?r (''bridge-'' @ ''c1'') = None" "siprecSessions (rtc_copilot ?r) ''c1'' = Some (new_session ''c1'' 0)"
    "cs_queues (rtc_copilot ?r) = Some Map.empty" "size (filter_mset (\<lambda>e. CallID e = ''c1'') (waiting Map.empty)) \<le> 1"
    by (simp_all add: empty_rtc_def empty_copilot_def waiting_def)
  with mention_of_bye_hangs_up [OF b, of ?r "''c1''" _ _ key_order "[]"] show ?thesis
    using enumerates_key_order by fastforce
qed

end
