(* ===== verification/Audio_Level.thy ===== *)
theory Audio_Level
  imports Robocall Resample
begin

text \<open>
  Levelling of incoming audio, \<open>gateway/agc.go\<close>: the automatic gain control, the noise gate with its
  hold time and the comfort noise it puts in place of silence, and the pipeline of both. Floating
  point is real arithmetic with a rounding \<open>rnd\<close> after every operation.
\<close>

subsection \<open>Automatic gain control\<close>

record AGC =
  targetRMS :: real
  maxGain :: real
  minGain :: real
  attackRate :: real
  releaseRate :: real
  currentGain :: real

definition NewAGC :: "(real \<Rightarrow> real) \<Rightarrow> AGC" where
  "NewAGC rnd = \<lparr>targetRMS = 3000, maxGain = 10, minGain = rnd (1 / 10), attackRate = rnd (1 / 100), releaseRate = rnd (5 / 100),
     currentGain = 1\<rparr>"

text \<open>The gain the level of the frame asks for, within the limits.\<close>

definition desired_gain :: "(real \<Rightarrow> real) \<Rightarrow> byte list \<Rightarrow> AGC \<Rightarrow> real" where
  "desired_gain rnd pcm agc =
     (let rms = rmsEnergy rnd pcm;
          d0 = (if rms > 0 then rnd (targetRMS agc / rms) else currentGain agc);
          d1 = (if d0 > maxGain agc then maxGain agc else d0)
      in if d1 < minGain agc then minGain agc else d1)"

definition smooth_gain :: "(real \<Rightarrow> real) \<Rightarrow> real \<Rightarrow> AGC \<Rightarrow> real" where
  "smooth_gain rnd d agc =
     (let rate = (if d > currentGain agc then attackRate agc else releaseRate agc)
      in rnd (currentGain agc + rnd (rnd (d - currentGain agc) * rate)))"

definition amplified :: "(real \<Rightarrow> real) \<Rightarrow> real \<Rightarrow> int16 \<Rightarrow> int16" where
  "amplified rnd gain s =
     (let v = rnd (of_int (sint s) * gain) in word_of_int (trunc (if v > 32000 then 32000 else if v < - 32000 then - 32000 else v)))"

text \<open>The output buffer is as long as the input; a trailing odd byte stays zero.\<close>

definition AGC_Process :: "(real \<Rightarrow> real) \<Rightarrow> byte list \<Rightarrow> AGC \<Rightarrow> AGC \<times> byte list" where
  "AGC_Process rnd pcm agc =
     (if length pcm div 2 = 0 then (agc, pcm)
      else
        let gain = smooth_gain rnd (desired_gain rnd pcm agc) agc
        in (agc\<lparr>currentGain := gain\<rparr>,
            pcm_bytes (map (amplified rnd gain) (samples pcm)) @ (if odd (length pcm) then [0] else [])))"

subsection \<open>Comfort noise\<close>

definition lcg :: "32 word \<Rightarrow> 32 word" where
  "lcg seed = seed * 1103515245 + 12345"

definition noise_sample :: "32 word \<Rightarrow> int16" where
  "noise_sample seed = ucast (drop_bit 16 seed AND 0x1F) - 16"

fun noise_samples :: "nat \<Rightarrow> 32 word \<Rightarrow> int16 list" where
  "noise_samples 0 seed = []"
| "noise_samples (Suc n) seed = noise_sample (lcg seed) # noise_samples n (lcg seed)"

definition generateComfortNoise :: "nat \<Rightarrow> byte list" where
  "generateComfortNoise len = pcm_bytes (noise_samples (len div 2) 42) @ (if odd len then [0] else [])"

subsection \<open>Noise gate\<close>

record NoiseGate =
  threshold :: real
  holdFrames :: nat
  holdCount :: nat
  gate_open :: bool

definition NewNoiseGate :: "real \<Rightarrow> NoiseGate" where
  "NewNoiseGate t = \<lparr>threshold = t, holdFrames = 5, holdCount = 0, gate_open = False\<rparr>"

definition NoiseGate_Process :: "(real \<Rightarrow> real) \<Rightarrow> byte list \<Rightarrow> NoiseGate \<Rightarrow> NoiseGate \<times> byte list \<times> bool" where
  "NoiseGate_Process rnd pcm ng =
     (if rmsEnergy rnd pcm > threshold ng then (ng\<lparr>gate_open := True, holdCount := holdFrames ng\<rparr>, pcm, True)
      else if holdCount ng > 0 then (ng\<lparr>holdCount := holdCount ng - 1\<rparr>, pcm, True)
      else (ng\<lparr>gate_open := False\<rparr>, generateComfortNoise (length pcm), False))"

subsection \<open>Pipeline\<close>

record TelecomAudioPipeline =
  tap_agc :: AGC
  tap_gate :: NoiseGate
  tap_enabled :: bool

definition NewTelecomAudioPipeline :: "(real \<Rightarrow> real) \<Rightarrow> TelecomAudioPipeline" where
  "NewTelecomAudioPipeline rnd = \<lparr>tap_agc = NewAGC rnd, tap_gate = NewNoiseGate 80, tap_enabled = True\<rparr>"

definition Telecom_Process :: "(real \<Rightarrow> real) \<Rightarrow> byte list \<Rightarrow> TelecomAudioPipeline \<Rightarrow> TelecomAudioPipeline \<times> byte list \<times> bool" where
  "Telecom_Process rnd pcm t =
     (if \<not> tap_enabled t then (t, pcm, True)
      else
        let (agc, normalized) = AGC_Process rnd pcm (tap_agc t);
            (gate, gated, isSpeech) = NoiseGate_Process rnd normalized (tap_gate t)
        in (t\<lparr>tap_agc := agc, tap_gate := gate\<rparr>, gated, isSpeech))"

fun gate_run :: "(real \<Rightarrow> real) \<Rightarrow> byte list list \<Rightarrow> NoiseGate \<Rightarrow> (byte list \<times> bool) list" where
  "gate_run rnd [] ng = []"
| "gate_run rnd (p # ps) ng = (let (ng1, out) = NoiseGate_Process rnd p ng in out # gate_run rnd ps ng1)"

subsection \<open>Rounding to nearest\<close>

text \<open>
  What IEEE 754 promises of rounding to nearest: besides monotonicity, a rounded value is its own
  rounding, and the error is at most the distance to zero, which is a floating-point number.
\<close>

definition nearest_rounding :: "(real \<Rightarrow> real) \<Rightarrow> bool" where
  "nearest_rounding rnd \<longleftrightarrow> float_rounding rnd \<and> (\<forall>x. rnd (rnd x) = rnd x) \<and> (\<forall>x. \<bar>rnd x - x\<bar> \<le> \<bar>x\<bar>)"

lemma nearest_between:
  assumes "nearest_rounding rnd" "0 \<le> x"
  shows "0 \<le> rnd x" "rnd x \<le> 2 * x"
proof -
  have "\<bar>rnd x - x\<bar> \<le> x" using assms unfolding nearest_rounding_def by (metis abs_of_nonneg)
  then show "0 \<le> rnd x" "rnd x \<le> 2 * x" by simp_all
qed

lemma nearest_between_neg:
  assumes "nearest_rounding rnd" "x \<le> 0"
  shows "rnd x \<le> 0" "2 * x \<le> rnd x"
proof -
  have "\<bar>rnd x - x\<bar> \<le> - x" using assms unfolding nearest_rounding_def by (metis abs_of_nonpos)
  then show "rnd x \<le> 0" "2 * x \<le> rnd x" by simp_all
qed

lemma nearest_fixed: "nearest_rounding rnd \<Longrightarrow> x = rnd y \<Longrightarrow> rnd x = x"
  by (simp add: nearest_rounding_def)

lemma nearest_mono: "nearest_rounding rnd \<Longrightarrow> x \<le> y \<Longrightarrow> rnd x \<le> rnd y"
  by (simp add: nearest_rounding_def float_rounding_def)

lemma nearest_int: "nearest_rounding rnd \<Longrightarrow> \<bar>k\<bar> \<le> 2 ^ 53 \<Longrightarrow> rnd (of_int k) = of_int k"
  by (simp add: nearest_rounding_def float_rounding_def)

text \<open>A step towards a floating-point number with a rate of at most a tenth does not overshoot it.\<close>

lemma step_towards:
  assumes "nearest_rounding rnd" "rnd c = c" "rnd d = d" "0 \<le> r" "r \<le> 1 / 10"
  shows "c \<le> d \<Longrightarrow> c \<le> rnd (c + rnd (rnd (d - c) * r)) \<and> rnd (c + rnd (rnd (d - c) * r)) \<le> d"
    and "d \<le> c \<Longrightarrow> d \<le> rnd (c + rnd (rnd (d - c) * r)) \<and> rnd (c + rnd (rnd (d - c) * r)) \<le> c"
proof -
  let ?y = "rnd (rnd (d - c) * r)"
  have bounds: "c \<le> c + ?y \<Longrightarrow> c + ?y \<le> d \<Longrightarrow> c \<le> rnd (c + ?y) \<and> rnd (c + ?y) \<le> d"
    "c + ?y \<le> c \<Longrightarrow> d \<le> c + ?y \<Longrightarrow> d \<le> rnd (c + ?y) \<and> rnd (c + ?y) \<le> c"
    using nearest_mono [OF assms(1)] assms(2,3) by metis+
  { assume le: "c \<le> d"
    have 1: "0 \<le> rnd (d - c)" "rnd (d - c) \<le> 2 * (d - c)" using nearest_between [OF assms(1), of "d - c"] le by simp_all
    have 2: "rnd (d - c) * r \<le> (2 * (d - c)) * (1 / 10)" by (rule mult_mono) (use 1 assms le in auto)
    have 3: "0 \<le> ?y" "?y \<le> 2 * (rnd (d - c) * r)"
      using nearest_between [OF assms(1), of "rnd (d - c) * r"] 1 assms(4) by simp_all
    have "?y \<le> d - c" using 2 3(2) le by (simp add: field_simps)
    then show "c \<le> rnd (c + ?y) \<and> rnd (c + ?y) \<le> d" using 3(1) by (intro bounds(1)) auto }
  { assume le: "d \<le> c"
    have 1: "rnd (d - c) \<le> 0" "2 * (d - c) \<le> rnd (d - c)" using nearest_between_neg [OF assms(1), of "d - c"] le by simp_all
    have "- rnd (d - c) * r \<le> (2 * (c - d)) * (1 / 10)" by (rule mult_mono) (use 1 assms le in auto)
    then have 2: "(2 * (d - c)) * (1 / 10) \<le> rnd (d - c) * r" by (simp add: field_simps)
    have 3: "?y \<le> 0" "2 * (rnd (d - c) * r) \<le> ?y"
      using nearest_between_neg [OF assms(1), of "rnd (d - c) * r"] 1 assms(4) by (simp_all add: mult_nonpos_nonneg)
    have "d - c \<le> ?y" using 2 3(2) le by (simp add: field_simps)
    then show "d \<le> rnd (c + ?y) \<and> rnd (c + ?y) \<le> c" using 3(1) by (intro bounds(2)) auto }
qed

subsection \<open>Reachable gains\<close>

inductive agc_step :: "(real \<Rightarrow> real) \<Rightarrow> AGC \<Rightarrow> AGC \<Rightarrow> bool" for rnd where
  frame: "agc_step rnd agc (fst (AGC_Process rnd pcm agc))"

definition agc_inv :: "(real \<Rightarrow> real) \<Rightarrow> AGC \<Rightarrow> bool" where
  "agc_inv rnd agc \<longleftrightarrow> nearest_rounding rnd \<longrightarrow>
     agc\<lparr>currentGain := 1\<rparr> = NewAGC rnd \<and> rnd (currentGain agc) = currentGain agc \<and>
     minGain agc \<le> currentGain agc \<and> currentGain agc \<le> maxGain agc"

lemma agc_constants:
  assumes "nearest_rounding rnd"
  shows "rnd 1 = 1" "rnd 10 = 10" "rnd (1 / 10) \<le> 1" "0 \<le> rnd (1 / 100)" "rnd (1 / 100) \<le> 1 / 10" "0 \<le> rnd (5 / 100)" "rnd (5 / 100) \<le> 1 / 10"
proof -
  show "rnd 1 = 1" "rnd 10 = 10" using nearest_int [OF assms, of 1] nearest_int [OF assms, of 10] by simp_all
  show "rnd (1 / 10) \<le> 1" using nearest_between(2) [OF assms, of "1 / 10"] by simp
  show "0 \<le> rnd (1 / 100)" "rnd (1 / 100) \<le> 1 / 10" using nearest_between [OF assms, of "1 / 100"] by simp_all
  show "0 \<le> rnd (5 / 100)" "rnd (5 / 100) \<le> 1 / 10" using nearest_between [OF assms, of "5 / 100"] by simp_all
qed

lemma desired_gain_range:
  assumes "minGain agc \<le> maxGain agc"
  shows "minGain agc \<le> desired_gain rnd pcm agc" "desired_gain rnd pcm agc \<le> maxGain agc"
  using assms by (auto simp: desired_gain_def Let_def)

lemma desired_gain_float:
  assumes "nearest_rounding rnd" "rnd (maxGain agc) = maxGain agc" "rnd (minGain agc) = minGain agc" "rnd (currentGain agc) = currentGain agc"
  shows "rnd (desired_gain rnd pcm agc) = desired_gain rnd pcm agc"
  using assms nearest_fixed [OF assms(1)] by (auto simp: desired_gain_def Let_def)

lemma smooth_gain_range:
  assumes "nearest_rounding rnd" "rnd (currentGain agc) = currentGain agc" "rnd d = d"
    and "attackRate agc = rnd (1 / 100)" "releaseRate agc = rnd (5 / 100)"
  shows "min (currentGain agc) d \<le> smooth_gain rnd d agc" "smooth_gain rnd d agc \<le> max (currentGain agc) d"
    and "rnd (smooth_gain rnd d agc) = smooth_gain rnd d agc"
proof -
  define r where "r = (if d > currentGain agc then attackRate agc else releaseRate agc)"
  have r: "0 \<le> r" "r \<le> 1 / 10" using agc_constants [OF assms(1)] assms(4,5) by (simp_all add: r_def)
  have eq: "smooth_gain rnd d agc = rnd (currentGain agc + rnd (rnd (d - currentGain agc) * r))"
    by (simp add: smooth_gain_def r_def Let_def)
  show "rnd (smooth_gain rnd d agc) = smooth_gain rnd d agc" using nearest_fixed [OF assms(1)] eq by simp
  show "min (currentGain agc) d \<le> smooth_gain rnd d agc" "smooth_gain rnd d agc \<le> max (currentGain agc) d"
    using step_towards [OF assms(1,2,3) r] unfolding eq by (cases "currentGain agc \<le> d"; simp add: min_def max_def)+
qed

interpretation gain: invariant_machine "\<lambda>agc. agc = NewAGC rnd" "agc_step rnd" "agc_inv rnd"
proof
  show "agc = NewAGC rnd \<Longrightarrow> agc_inv rnd agc" for agc
    using agc_constants by (auto simp: agc_inv_def NewAGC_def)
  fix agc agc' assume inv: "agc_inv rnd agc" and step: "agc_step rnd agc agc'"
  show "agc_inv rnd agc'"
    unfolding agc_inv_def
  proof (intro impI)
    assume nr: "nearest_rounding rnd"
    from step obtain pcm where agc': "agc' = fst (AGC_Process rnd pcm agc)" by cases
    have new: "agc\<lparr>currentGain := 1\<rparr> = NewAGC rnd" and fl: "rnd (currentGain agc) = currentGain agc"
      and lim: "minGain agc \<le> currentGain agc" "currentGain agc \<le> maxGain agc"
      using inv nr by (auto simp: agc_inv_def)
    have c: "maxGain agc = 10" "minGain agc = rnd (1 / 10)" "attackRate agc = rnd (1 / 100)" "releaseRate agc = rnd (5 / 100)"
      using new by (cases agc, simp add: NewAGC_def)+
    have d: "rnd (desired_gain rnd pcm agc) = desired_gain rnd pcm agc"
      using desired_gain_float [OF nr] c agc_constants [OF nr] nearest_fixed [OF nr] fl by metis
    note range = smooth_gain_range [OF nr fl d c(3,4)] desired_gain_range [of agc rnd pcm]
    show "agc'\<lparr>currentGain := 1\<rparr> = NewAGC rnd \<and> rnd (currentGain agc') = currentGain agc' \<and>
      minGain agc' \<le> currentGain agc' \<and> currentGain agc' \<le> maxGain agc'"
    proof (cases "length pcm div 2 = 0")
      case False
      then have "agc' = agc\<lparr>currentGain := smooth_gain rnd (desired_gain rnd pcm agc) agc\<rparr>"
        by (simp add: agc' AGC_Process_def Let_def)
      moreover have "minGain agc \<le> smooth_gain rnd (desired_gain rnd pcm agc) agc" "smooth_gain rnd (desired_gain rnd pcm agc) agc \<le> maxGain agc"
        using range lim by linarith+
      ultimately show ?thesis using new range(3) by simp
    qed (use new fl lim in \<open>simp add: agc' AGC_Process_def\<close>)
  qed
qed

subsection \<open>Samples\<close>

lemma trunc_range: "- 32000 \<le> x \<Longrightarrow> x \<le> 32000 \<Longrightarrow> - 32000 \<le> trunc x \<and> trunc x \<le> 32000"
  by (auto simp: trunc_def le_floor_iff floor_le_iff ceiling_le_iff le_ceiling_iff)

lemma amplified_range: "\<bar>sint (amplified rnd gain s)\<bar> \<le> 32000"
proof -
  define v where "v = rnd (of_int (sint s) * gain)"
  define x where "x = (if v > 32000 then 32000 else if v < - 32000 then - 32000 else v)"
  have "- 32000 \<le> trunc x \<and> trunc x \<le> 32000" by (rule trunc_range) (auto simp: x_def)
  then have "sint (word_of_int (trunc x) :: int16) = trunc x" "\<bar>trunc x\<bar> \<le> 32000"
    by (auto intro: sint_of_int16)
  moreover have "amplified rnd gain s = word_of_int (trunc x)" by (simp only: amplified_def Let_def x_def v_def)
  ultimately show ?thesis by simp
qed

lemma samples_snoc_odd: "even (length xs) \<Longrightarrow> samples (xs @ [b]) = samples xs"
  by (induction xs rule: samples.induct) auto

lemma samples_padded: "samples (pcm_bytes ss @ (if b then [0] else [])) = ss"
  by (simp add: samples_snoc_odd)

lemma noise_sample_range: "- 16 \<le> sint (noise_sample seed) \<and> sint (noise_sample seed) \<le> 15"
proof -
  define m where "m = uint (drop_bit 16 seed AND 0x1F :: 32 word)"
  have "drop_bit 16 seed AND 0x1F \<le> (0x1F :: 32 word)" by (rule word_and_le1)
  then have m: "0 \<le> m" "m < 32" by (simp_all add: m_def word_le_def)
  have "noise_sample seed = word_of_int (m - 16)"
    by (simp only: noise_sample_def m_def ucast_eq of_int_diff of_int_numeral)
  moreover have "sint (word_of_int (m - 16) :: int16) = m - 16" by (rule sint_of_int16) (use m in auto)
  ultimately have "sint (noise_sample seed) = m - 16" by simp
  then show ?thesis using m by simp
qed

lemma length_noise_samples [simp]: "length (noise_samples n seed) = n"
  by (induction n arbitrary: seed) auto

lemma noise_samples_range: "s \<in> set (noise_samples n seed) \<Longrightarrow> - 16 \<le> sint s \<and> sint s \<le> 15"
  by (induction n arbitrary: seed) (auto simp: noise_sample_range)

lemma length_generateComfortNoise [simp]: "length (generateComfortNoise len) = len"
  by (simp add: generateComfortNoise_def)

lemma samples_generateComfortNoise: "samples (generateComfortNoise len) = noise_samples (len div 2) 42"
  unfolding generateComfortNoise_def by (rule samples_padded)

subsection \<open>Properties\<close>

text \<open>
  C37: the gain control stays within its limits and never clips: in every state reached by processing
  frames the gain lies between its minimum and its maximum, each frame moves it towards the gain the
  frame asks for without passing it, the output is as long as the input and none of its samples
  exceeds 32000.
\<close>

theorem agc_never_clips:
  assumes "nearest_rounding rnd" "reachable (agc_step rnd) (NewAGC rnd) agc" "AGC_Process rnd pcm agc = (agc', out)" "2 \<le> length pcm"
  shows "minGain agc' \<le> currentGain agc' \<and> currentGain agc' \<le> maxGain agc' \<and>
    min (currentGain agc) (desired_gain rnd pcm agc) \<le> currentGain agc' \<and>
    currentGain agc' \<le> max (currentGain agc) (desired_gain rnd pcm agc) \<and>
    length out = length pcm \<and> (\<forall>s \<in> set (samples out). \<bar>sint s\<bar> \<le> 32000)"
proof -
  have inv: "agc_inv rnd agc" by (rule gain.reachable_inv [OF assms(2) refl])
  have "agc_inv rnd agc'"
    using gain.reachable_inv [OF reachable.move [OF assms(2) agc_step.frame [of rnd agc pcm]] refl] assms(3) by simp
  then have lim: "minGain agc' \<le> currentGain agc'" "currentGain agc' \<le> maxGain agc'" using assms(1) by (auto simp: agc_inv_def)
  have new: "agc\<lparr>currentGain := 1\<rparr> = NewAGC rnd" and fl: "rnd (currentGain agc) = currentGain agc"
    using inv assms(1) by (auto simp: agc_inv_def)
  have c: "maxGain agc = 10" "minGain agc = rnd (1 / 10)" "attackRate agc = rnd (1 / 100)" "releaseRate agc = rnd (5 / 100)"
    using new by (cases agc, simp add: NewAGC_def)+
  have d: "rnd (desired_gain rnd pcm agc) = desired_gain rnd pcm agc"
    using desired_gain_float [OF assms(1)] c agc_constants [OF assms(1)] nearest_fixed [OF assms(1)] fl by metis
  define g where "g = smooth_gain rnd (desired_gain rnd pcm agc) agc"
  have ne: "length pcm div 2 \<noteq> 0" using assms(4) by simp
  have out: "out = pcm_bytes (map (amplified rnd g) (samples pcm)) @ (if odd (length pcm) then [0] else [])" "currentGain agc' = g"
    using assms(3) ne by (auto simp: AGC_Process_def Let_def g_def)
  have "length out = length pcm" by (simp add: out(1))
  moreover have "\<forall>s \<in> set (samples out). \<bar>sint s\<bar> \<le> 32000"
    unfolding out(1) samples_padded by (auto simp: amplified_range)
  ultimately show ?thesis using lim smooth_gain_range(1,2) [OF assms(1) fl d c(3,4)] out(2) by (simp add: g_def)
qed

theorem agc_never_clips_witness:
  "\<bar>sint (hd (samples (snd (AGC_Process id (pcm_bytes [32767]) (NewAGC id)))))\<bar> \<le> 32000"
proof -
  obtain agc' out where r: "AGC_Process id (pcm_bytes [32767]) (NewAGC id) = (agc', out)" by fastforce
  have n: "nearest_rounding id" by (simp add: nearest_rounding_def float_rounding_def)
  note q = agc_never_clips [OF n reachable.start r]
  then have l: "length out = 2" by simp
  have "samples out \<noteq> []" using length_samples [of out] l by (cases "samples out") simp_all
  then have "\<bar>sint (hd (samples out))\<bar> \<le> 32000" using q by simp
  then show ?thesis unfolding r by simp
qed

text \<open>
  the gate keeps the end of a word: after a frame louder than the threshold the next five quiet frames
  still pass unchanged and count as speech, and the ones after them are replaced by comfort noise of
  the same length whose samples stay within 16.
\<close>

theorem gate_hold:
  assumes "rmsEnergy rnd loud > threshold ng" "holdFrames ng = 5" "\<forall>q \<in> set qs. rmsEnergy rnd q \<le> threshold ng"
  shows "gate_run rnd (loud # qs) ng = (loud, True) # map (\<lambda>q. (q, True)) (take 5 qs) @ map (\<lambda>q. (generateComfortNoise (length q), False)) (drop 5 qs) \<and>
    (\<forall>q \<in> set (drop 5 qs). length (generateComfortNoise (length q)) = length q \<and>
       (\<forall>s \<in> set (samples (generateComfortNoise (length q))). \<bar>sint s\<bar> \<le> 16))"
proof -
  have shut: "gate_run rnd ps g = map (\<lambda>q. (q, True)) (take (holdCount g) ps) @ map (\<lambda>q. (generateComfortNoise (length q), False)) (drop (holdCount g) ps)"
    if "\<forall>q \<in> set ps. rmsEnergy rnd q \<le> threshold g" for ps g
    using that
  proof (induction ps arbitrary: g)
    case (Cons p ps)
    show ?case
    proof (cases "holdCount g")
      case 0
      then show ?thesis using Cons.prems Cons.IH [of "g\<lparr>gate_open := False\<rparr>"] by (simp add: NoiseGate_Process_def)
    next
      case (Suc k)
      then show ?thesis using Cons.prems Cons.IH [of "g\<lparr>holdCount := k\<rparr>"] by (simp add: NoiseGate_Process_def)
    qed
  qed simp
  have "\<bar>sint s\<bar> \<le> 16" if "s \<in> set (samples (generateComfortNoise n))" for s n
    using noise_samples_range [of s "n div 2" 42] that by (auto simp: samples_generateComfortNoise)
  with shut [of qs "ng\<lparr>gate_open := True, holdCount := 5\<rparr>"] show ?thesis
    using assms by (simp add: NoiseGate_Process_def)
qed

theorem gate_hold_witness:
  "gate_run id [pcm_bytes [1000], pcm_bytes [0]] (NewNoiseGate 80) = [(pcm_bytes [1000], True), (pcm_bytes [0], True)]"
proof -
  have s: "sint (1000 :: int16) = 1000" "sint (0 :: int16) = 0" by (code_simp, simp)
  have "rmsEnergy id (pcm_bytes [1000]) = sqrt (1000 * 1000)" "rmsEnergy id (pcm_bytes [0]) = 0"
    by (simp_all add: rmsEnergy_def s del: pcm_bytes_Cons)
  then have "rmsEnergy id (pcm_bytes [1000]) > threshold (NewNoiseGate 80)" "holdFrames (NewNoiseGate 80) = 5"
    "\<forall>q \<in> set [pcm_bytes [0]]. rmsEnergy id q \<le> threshold (NewNoiseGate 80)"
    using real_sqrt_abs [of 1000] by (simp_all add: NewNoiseGate_def power2_eq_square)
  from gate_hold [OF this] show ?thesis by simp
qed

end
