(* ===== verification/Tone_Detector.thy ===== *)
theory Tone_Detector
  imports Dtmf Scale Resample
begin

text \<open>
  In-band keypad tones, \<open>gateway/dtmf.go\<close>: the power of a frequency by the Goertzel recurrence, with
  the cosine replaced by the Taylor polynomial the source uses, and the choice of the key from the
  strongest low and the strongest high tone. Floating point is real arithmetic with a rounding \<open>rnd\<close>
  after every operation.
\<close>

subsection \<open>Power of a frequency\<close>

definition taylor_cos :: "(real \<Rightarrow> real) \<Rightarrow> real \<Rightarrow> real" where
  "taylor_cos rnd x =
     (let x2 = rnd (x * x) in
      rnd (rnd (rnd (1 - rnd (x2 / 2)) + rnd (rnd (x2 * x2) / 24)) - rnd (rnd (rnd (x2 * x2) * x2) / 720)))"

definition tone_step :: "(real \<Rightarrow> real) \<Rightarrow> real \<Rightarrow> int16 \<Rightarrow> real \<times> real \<Rightarrow> real \<times> real" where
  "tone_step rnd coeff s st = (let (s1, s2) = st in (rnd (rnd (of_int (sint s) + rnd (coeff * s1)) - s2), s1))"

definition tone_coeff :: "(real \<Rightarrow> real) \<Rightarrow> nat \<Rightarrow> nat \<Rightarrow> real \<Rightarrow> real" where
  "tone_coeff rnd n sampleRate freq =
     (let k = trunc (rnd (1 / 2 + rnd (rnd (of_nat n * freq) / of_nat sampleRate)));
          w = rnd (rnd (rnd (2 * rnd (314159265358979 / 10 ^ 14)) * of_int k) / of_nat n)
      in rnd (2 * taylor_cos rnd w))"

definition goertzel :: "(real \<Rightarrow> real) \<Rightarrow> byte list \<Rightarrow> nat \<Rightarrow> real \<Rightarrow> real" where
  "goertzel rnd pcm sampleRate freq =
     (let n = length pcm div 2; coeff = tone_coeff rnd n sampleRate freq;
          (s1, s2) = fold (tone_step rnd coeff) (samples pcm) (0, 0)
      in rnd (rnd (rnd (s1 * s1) + rnd (s2 * s2)) - rnd (rnd (coeff * s1) * s2)))"

subsection \<open>Choice of the key\<close>

definition lowFreqs :: "real list" where "lowFreqs = [697, 770, 852, 941]"

definition highFreqs :: "real list" where "highFreqs = [1209, 1336, 1477, 1633]"

definition dtmfMap :: "string list list" where
  "dtmfMap = [[''1'', ''2'', ''3'', ''A''], [''4'', ''5'', ''6'', ''B''], [''7'', ''8'', ''9'', ''C''], [''*'', ''0'', ''#'', ''D'']]"

text \<open>The loop over the frequencies of a group: index and power of the strongest tone above the limit.\<close>

definition stronger :: "real \<times> nat \<Rightarrow> nat option \<times> real \<Rightarrow> nat option \<times> real" where
  "stronger pw best = (let (power, i) = pw in if power > snd best \<and> power > 1000000 then (Some i, power) else best)"

definition strongest :: "real list \<Rightarrow> nat option" where
  "strongest powers = fst (fold stronger (zip powers [0..<length powers]) (None, 0))"

definition ParseInbandDTMF :: "(real \<Rightarrow> real) \<Rightarrow> byte list \<Rightarrow> nat \<Rightarrow> string" where
  "ParseInbandDTMF rnd pcm sampleRate =
     (if length pcm div 2 < 160 then ''''
      else case (strongest (map (goertzel rnd pcm sampleRate) lowFreqs), strongest (map (goertzel rnd pcm sampleRate) highFreqs)) of
        (Some i, Some j) \<Rightarrow> dtmfMap ! i ! j
      | _ \<Rightarrow> '''')"

subsection \<open>Lemmas\<close>

lemma fold_stronger:
  assumes "fst best = None \<longrightarrow> snd best = 0" "\<forall>i. fst best = Some i \<longrightarrow> i < m \<and> snd best > 1000000 \<and> ps ! i = snd best"
    and "\<forall>k < m. fst best \<noteq> None \<longrightarrow> ps ! k \<le> snd best" "\<forall>k < m. fst best = None \<longrightarrow> ps ! k \<le> 1000000" "m \<le> length ps"
  shows "case fst (fold stronger (zip (drop m ps) [m..<length ps]) best) of
      None \<Rightarrow> (\<forall>k < length ps. ps ! k \<le> 1000000)
    | Some i \<Rightarrow> i < length ps \<and> ps ! i > 1000000 \<and> (\<forall>k < length ps. ps ! k \<le> ps ! i)"
  using assms
proof (induction "length ps - m" arbitrary: m best)
  case 0
  then show ?case by (auto split: option.splits)
next
  case (Suc n)
  then have m: "m < length ps" by simp
  let ?b = "stronger (ps ! m, m) best"
  have "zip (drop m ps) [m..<length ps] = (ps ! m, m) # zip (drop (Suc m) ps) [Suc m..<length ps]"
    using m by (simp add: Cons_nth_drop_Suc [symmetric] upt_conv_Cons)
  moreover have "case fst (fold stronger (zip (drop (Suc m) ps) [Suc m..<length ps]) ?b) of
      None \<Rightarrow> (\<forall>k < length ps. ps ! k \<le> 1000000)
    | Some i \<Rightarrow> i < length ps \<and> ps ! i > 1000000 \<and> (\<forall>k < length ps. ps ! k \<le> ps ! i)"
  proof (rule Suc.hyps(1))
    show "n = length ps - Suc m" "Suc m \<le> length ps" using Suc.hyps(2) m by simp_all
    show "fst ?b = None \<longrightarrow> snd ?b = 0" using Suc.prems(1) by (auto simp: stronger_def)
    show "\<forall>i. fst ?b = Some i \<longrightarrow> i < Suc m \<and> snd ?b > 1000000 \<and> ps ! i = snd ?b"
      using Suc.prems(2) by (auto simp: stronger_def less_SucI)
    show "\<forall>k < Suc m. fst ?b \<noteq> None \<longrightarrow> ps ! k \<le> snd ?b"
      using Suc.prems(1-4) by (auto simp: stronger_def less_Suc_eq split: if_splits)
    show "\<forall>k < Suc m. fst ?b = None \<longrightarrow> ps ! k \<le> 1000000"
      using Suc.prems(1,4) by (auto simp: stronger_def less_Suc_eq split: if_splits)
  qed
  ultimately show ?case by simp
qed

lemma strongest_spec:
  "case strongest ps of
     None \<Rightarrow> (\<forall>k < length ps. ps ! k \<le> 1000000)
   | Some i \<Rightarrow> i < length ps \<and> ps ! i > 1000000 \<and> (\<forall>k < length ps. ps ! k \<le> ps ! i)"
  using fold_stronger [of "(None, 0)" 0 ps] by (simp add: strongest_def)

lemma strongest_Some: "strongest ps = Some i \<Longrightarrow> i < length ps \<and> ps ! i > 1000000 \<and> (\<forall>k < length ps. ps ! k \<le> ps ! i)"
  using strongest_spec [of ps] by simp

lemma strongest_None: "strongest ps = None \<longleftrightarrow> (\<forall>p \<in> set ps. p \<le> 1000000)"
proof (cases "strongest ps")
  case None
  then show ?thesis using strongest_spec [of ps] by (auto simp: in_set_conv_nth)
next
  case (Some i)
  then have "ps ! i \<in> set ps" "\<not> ps ! i \<le> 1000000" using strongest_Some [OF Some] by auto
  then show ?thesis using Some by auto
qed

lemma length_freqs [simp]: "length lowFreqs = 4" "length highFreqs = 4"
  by (simp_all add: lowFreqs_def highFreqs_def)

lemma dtmfMap_key: "i < 4 \<Longrightarrow> j < 4 \<Longrightarrow> dtmfMap ! i ! j \<noteq> ''''"
  by (auto simp: dtmfMap_def less_Suc_eq numeral_eq_Suc)

lemma fold_silence:
  assumes "float_rounding rnd" "\<forall>s \<in> set ss. s = 0"
  shows "fold (tone_step rnd coeff) ss (0, 0) = (0, 0)"
  using assms(2)
  by (induction ss) (simp_all add: tone_step_def float_roundingD(3) [OF assms(1)])

subsection \<open>Properties\<close>

text \<open>
  the key reported is the one of the strongest tones: a key is reported exactly when a frame of at
  least 160 samples has a low and a high tone above the limit, and then it is the key at the crossing
  of a strongest low and a strongest high tone; silence is never a key.
\<close>

theorem ParseInbandDTMF_spec:
  assumes "float_rounding rnd"
  defines "lo \<equiv> \<lambda>pcm sr. map (goertzel rnd pcm sr) lowFreqs" and "hi \<equiv> \<lambda>pcm sr. map (goertzel rnd pcm sr) highFreqs"
  shows "(ParseInbandDTMF rnd pcm sr = '''' \<longleftrightarrow>
      length pcm div 2 < 160 \<or> (\<forall>p \<in> set (lo pcm sr). p \<le> 1000000) \<or> (\<forall>p \<in> set (hi pcm sr). p \<le> 1000000)) \<and>
    (ParseInbandDTMF rnd pcm sr \<noteq> '''' \<longrightarrow>
      (\<exists>i < 4. \<exists>j < 4. ParseInbandDTMF rnd pcm sr = dtmfMap ! i ! j \<and>
         (\<forall>k < 4. lo pcm sr ! k \<le> lo pcm sr ! i) \<and> (\<forall>k < 4. hi pcm sr ! k \<le> hi pcm sr ! j))) \<and>
    ((\<forall>s \<in> set (samples pcm). s = 0) \<longrightarrow> ParseInbandDTMF rnd pcm sr = '''')"
proof -
  let ?l = "lo pcm sr" and ?h = "hi pcm sr"
  have len: "length ?l = 4" "length ?h = 4" by (simp_all add: lo_def hi_def)
  have def: "ParseInbandDTMF rnd pcm sr = (if length pcm div 2 < 160 then ''''
      else case (strongest ?l, strongest ?h) of (Some i, Some j) \<Rightarrow> dtmfMap ! i ! j | _ \<Rightarrow> '''')"
    by (simp add: ParseInbandDTMF_def lo_def hi_def)
  have none: "ParseInbandDTMF rnd pcm sr = '''' \<longleftrightarrow> length pcm div 2 < 160 \<or> strongest ?l = None \<or> strongest ?h = None"
    using strongest_Some [of ?l] strongest_Some [of ?h] dtmfMap_key len by (auto simp: def split: option.splits)
  have key: "ParseInbandDTMF rnd pcm sr \<noteq> '''' \<Longrightarrow> \<exists>i < 4. \<exists>j < 4. ParseInbandDTMF rnd pcm sr = dtmfMap ! i ! j \<and>
      (\<forall>k < 4. ?l ! k \<le> ?l ! i) \<and> (\<forall>k < 4. ?h ! k \<le> ?h ! j)"
    using strongest_Some [of ?l] strongest_Some [of ?h] len by (auto simp: def split: option.splits if_splits)
  have "goertzel rnd pcm sr f = 0" if "\<forall>s \<in> set (samples pcm). s = 0" for f
    using fold_silence [OF assms(1) that] by (simp add: goertzel_def Let_def float_roundingD(3) [OF assms(1)])
  then have silent: "(\<forall>s \<in> set (samples pcm). s = 0) \<longrightarrow> (\<forall>p \<in> set ?l. p \<le> 1000000)" by (auto simp: lo_def)
  show ?thesis
    by (intro conjI impI) (use none key silent strongest_None [of ?l] strongest_None [of ?h] in simp_all)
qed

theorem ParseInbandDTMF_spec_witness: "ParseInbandDTMF id (pcm_bytes (replicate 160 0)) 8000 = ''''"
proof -
  have "float_rounding id" by (simp add: float_rounding_def)
  from ParseInbandDTMF_spec [OF this, of "pcm_bytes (replicate 160 0)" 8000] show ?thesis by simp
qed

end
