(* ===== verification/Config_Store.thy ===== *)
theory Config_Store
  imports Prelude "HOL-Library.Countable"
begin

text \<open>
  The settings of the gateway, \<open>gateway/configstore.go\<close>: model, prompts and trunks, kept in memory
  and written to a file after every change. The list of trunks is a Go slice, a length over an array
  that other slices may share, since \<open>RemoveTrunk\<close> filters it in place and \<open>Get\<close> hands out the slice
  itself. The JSON coder and the outcome of writing the file are parameters.
\<close>

subsection \<open>Data\<close>

record LLMConfig =
  llm_provider :: string
  llm_model :: string
  llm_region :: string
  llm_maxTokens :: int

record PromptConfig =
  interactive :: string
  copilot_prompt :: string

record TrunkConfig =
  tc_name :: string
  tc_address :: string
  tc_port :: int
  tc_transport :: string
  tc_register :: bool
  tc_callerID :: string
  tc_codecs :: string
  tc_status :: string

text \<open>A slice that starts at the beginning of its array: the array and the length.\<close>

type_synonym slice = "nat \<times> nat"

record RuntimeConfig =
  rcfg_llm :: LLMConfig
  rcfg_prompts :: PromptConfig
  rcfg_trunks :: slice

record ConfigStore =
  cs_config :: RuntimeConfig
  cs_arrays :: "nat \<Rightarrow> TrunkConfig list"
  cs_next :: nat
  cs_file :: "string option"

text \<open>What a configuration means: its slice read from the arrays.\<close>

record settings =
  set_llm :: LLMConfig
  set_prompts :: PromptConfig
  set_trunks :: "TrunkConfig list"

definition read_slice :: "(nat \<Rightarrow> 'a list) \<Rightarrow> slice \<Rightarrow> 'a list" where
  "read_slice h s = take (snd s) (h (fst s))"

definition read_config :: "(nat \<Rightarrow> TrunkConfig list) \<Rightarrow> RuntimeConfig \<Rightarrow> settings" where
  "read_config h c = \<lparr>set_llm = rcfg_llm c, set_prompts = rcfg_prompts c, set_trunks = read_slice h (rcfg_trunks c)\<rparr>"

definition view :: "ConfigStore \<Rightarrow> settings" where
  "view cs = read_config (cs_arrays cs) (cs_config cs)"

subsection \<open>Loading and saving\<close>

text \<open>
  \<open>unmarshal\<close> decodes a text over the values already there and says whether it succeeded; a decoded
  list of trunks gets an array of its own.
\<close>

definition store_settings :: "settings \<Rightarrow> ConfigStore \<Rightarrow> ConfigStore" where
  "store_settings v cs =
     cs\<lparr>cs_config := \<lparr>rcfg_llm = set_llm v, rcfg_prompts = set_prompts v, rcfg_trunks = (cs_next cs, length (set_trunks v))\<rparr>,
        cs_arrays := (cs_arrays cs)(cs_next cs := set_trunks v), cs_next := cs_next cs + 1\<rparr>"

definition loadFromFile :: "(string \<Rightarrow> settings \<Rightarrow> settings \<times> bool) \<Rightarrow> ConfigStore \<Rightarrow> ConfigStore \<times> bool" where
  "loadFromFile unmarshal cs =
     (case cs_file cs of
        None \<Rightarrow> (cs, False)
      | Some d \<Rightarrow> let (v, ok) = unmarshal d (view cs) in (store_settings v cs, ok))"

definition default_settings :: "string \<Rightarrow> string \<Rightarrow> string \<Rightarrow> string \<Rightarrow> settings" where
  "default_settings model region systemPrompt coachSystemPrompt =
     \<lparr>set_llm = \<lparr>llm_provider = ''anthropic-vertex'', llm_model = model, llm_region = region, llm_maxTokens = 512\<rparr>,
      set_prompts = \<lparr>interactive = systemPrompt, copilot_prompt = coachSystemPrompt\<rparr>, set_trunks = []\<rparr>"

definition NewConfigStore :: "(string \<Rightarrow> settings \<Rightarrow> settings \<times> bool) \<Rightarrow> string option \<Rightarrow> settings \<Rightarrow> ConfigStore" where
  "NewConfigStore unmarshal file_content defaults =
     fst (loadFromFile unmarshal
       \<lparr>cs_config = \<lparr>rcfg_llm = set_llm defaults, rcfg_prompts = set_prompts defaults, rcfg_trunks = (0, 0)\<rparr>,
        cs_arrays = (\<lambda>_. []), cs_next = 1, cs_file = file_content\<rparr>)"

definition saveToFile :: "(settings \<Rightarrow> string) \<Rightarrow> string option \<Rightarrow> ConfigStore \<Rightarrow> ConfigStore \<times> string option" where
  "saveToFile marshal write_error cs =
     (case write_error of Some err \<Rightarrow> (cs, Some err) | None \<Rightarrow> (cs\<lparr>cs_file := Some (marshal (view cs))\<rparr>, None))"

subsection \<open>Reading\<close>

definition Get :: "ConfigStore \<Rightarrow> RuntimeConfig" where
  "Get cs = cs_config cs"

definition GetLLM :: "ConfigStore \<Rightarrow> LLMConfig" where
  "GetLLM cs = rcfg_llm (cs_config cs)"

definition GetPrompts :: "ConfigStore \<Rightarrow> PromptConfig" where
  "GetPrompts cs = rcfg_prompts (cs_config cs)"

text \<open>\<open>GetTrunks\<close> copies the slice.\<close>

definition GetTrunks :: "ConfigStore \<Rightarrow> TrunkConfig list" where
  "GetTrunks cs = read_slice (cs_arrays cs) (rcfg_trunks (cs_config cs))"

subsection \<open>Changing\<close>

definition UpdateLLM :: "(settings \<Rightarrow> string) \<Rightarrow> string option \<Rightarrow> LLMConfig \<Rightarrow> ConfigStore \<Rightarrow> ConfigStore \<times> string option" where
  "UpdateLLM marshal werr llm cs = saveToFile marshal werr (cs\<lparr>cs_config := (cs_config cs)\<lparr>rcfg_llm := llm\<rparr>\<rparr>)"

definition merge_prompts :: "PromptConfig \<Rightarrow> PromptConfig \<Rightarrow> PromptConfig" where
  "merge_prompts new old =
     \<lparr>interactive = (if interactive new \<noteq> '''' then interactive new else interactive old),
      copilot_prompt = (if copilot_prompt new \<noteq> '''' then copilot_prompt new else copilot_prompt old)\<rparr>"

definition UpdatePrompts :: "(settings \<Rightarrow> string) \<Rightarrow> string option \<Rightarrow> PromptConfig \<Rightarrow> ConfigStore \<Rightarrow> ConfigStore \<times> string option" where
  "UpdatePrompts marshal werr prompts cs =
     saveToFile marshal werr (cs\<lparr>cs_config := (cs_config cs)\<lparr>rcfg_prompts := merge_prompts prompts (rcfg_prompts (cs_config cs))\<rparr>\<rparr>)"

definition with_defaults :: "TrunkConfig \<Rightarrow> TrunkConfig" where
  "with_defaults t =
     t\<lparr>tc_port := (if tc_port t = 0 then 5060 else tc_port t), tc_transport := (if tc_transport t = '''' then ''udp'' else tc_transport t),
       tc_codecs := (if tc_codecs t = '''' then ''PCMU,PCMA,G722'' else tc_codecs t), tc_status := (if tc_status t = '''' then ''active'' else tc_status t)\<rparr>"

text \<open>
  \<open>append\<close>: in place while the array has room, otherwise into a new array; \<open>spare\<close> is the room the
  runtime adds, filled with whatever the new array holds there.
\<close>

definition append_slice :: "'a list \<Rightarrow> 'a \<Rightarrow> (nat \<Rightarrow> 'a list) \<times> nat \<times> slice \<Rightarrow> (nat \<Rightarrow> 'a list) \<times> nat \<times> slice" where
  "append_slice spare x st =
     (let (h, next, a, n) = st in
      if n < length (h a) then (h(a := (h a)[n := x]), next, (a, n + 1))
      else (h(next := take n (h a) @ [x] @ spare), next + 1, (next, n + 1)))"

definition AddTrunk ::
  "(settings \<Rightarrow> string) \<Rightarrow> string option \<Rightarrow> TrunkConfig list \<Rightarrow> TrunkConfig \<Rightarrow> ConfigStore \<Rightarrow> ConfigStore \<times> string option" where
  "AddTrunk marshal werr spare t cs =
     (let (h, next, s) = append_slice spare (with_defaults t) (cs_arrays cs, cs_next cs, rcfg_trunks (cs_config cs))
      in saveToFile marshal werr (cs\<lparr>cs_arrays := h, cs_next := next, cs_config := (cs_config cs)\<lparr>rcfg_trunks := s\<rparr>\<rparr>))"

text \<open>
  The loop of \<open>RemoveTrunk\<close> reads the array at \<open>i\<close> and writes the trunks it keeps to the front of the
  same array; \<open>k\<close> is the length of the result so far.
\<close>

definition filter_step :: "string \<Rightarrow> nat \<Rightarrow> TrunkConfig list \<times> nat \<Rightarrow> TrunkConfig list \<times> nat" where
  "filter_step name i st = (let (arr, k) = st in if tc_name (arr ! i) \<noteq> name then (arr[k := arr ! i], k + 1) else (arr, k))"

definition RemoveTrunk :: "(settings \<Rightarrow> string) \<Rightarrow> string option \<Rightarrow> string \<Rightarrow> ConfigStore \<Rightarrow> ConfigStore \<times> string option" where
  "RemoveTrunk marshal werr name cs =
     (let (a, n) = rcfg_trunks (cs_config cs);
          (arr, k) = fold (filter_step name) [0..<n] (cs_arrays cs a, 0)
      in saveToFile marshal werr
           (cs\<lparr>cs_arrays := (cs_arrays cs)(a := arr), cs_config := (cs_config cs)\<lparr>rcfg_trunks := (a, k)\<rparr>\<rparr>))"

subsection \<open>Handlers\<close>

datatype config_request =
  CfgGet | CfgPutLLM "string + LLMConfig" | CfgPutPrompts "string + PromptConfig" | CfgAdd "string + TrunkConfig" | CfgDelete string | CfgOther

text \<open>
  The settings are encoded after the lock is released: \<open>handleSettings\<close> takes the configuration,
  \<open>encode_settings\<close> reads its slice, later, from the arrays as they then are.
\<close>

definition handleSettings :: "ConfigStore \<Rightarrow> RuntimeConfig" where
  "handleSettings cs = Get cs"

definition encode_settings :: "RuntimeConfig \<Rightarrow> ConfigStore \<Rightarrow> settings" where
  "encode_settings c cs = read_config (cs_arrays cs) c"

definition saved :: "string \<Rightarrow> ConfigStore \<times> string option \<Rightarrow> ConfigStore \<times> string response" where
  "saved done_msg r = (let (cs, err) = r in (cs, case err of Some e \<Rightarrow> HttpError 500 e | None \<Rightarrow> WriteJSON 200 done_msg))"

definition handleLLM :: "(settings \<Rightarrow> string) \<Rightarrow> string option \<Rightarrow> config_request \<Rightarrow> ConfigStore \<Rightarrow> ConfigStore \<times> (LLMConfig + string response)" where
  "handleLLM marshal werr req cs =
     (case req of
        CfgGet \<Rightarrow> (cs, Inl (GetLLM cs))
      | CfgPutLLM (Inl err) \<Rightarrow> (cs, Inr (HttpError 400 err))
      | CfgPutLLM (Inr llm) \<Rightarrow> map_prod id Inr (saved ''saved'' (UpdateLLM marshal werr llm cs))
      | _ \<Rightarrow> (cs, Inr (HttpError 405 ''method not allowed'')))"

definition handlePrompts :: "(settings \<Rightarrow> string) \<Rightarrow> string option \<Rightarrow> config_request \<Rightarrow> ConfigStore \<Rightarrow> ConfigStore \<times> (PromptConfig + string response)" where
  "handlePrompts marshal werr req cs =
     (case req of
        CfgGet \<Rightarrow> (cs, Inl (GetPrompts cs))
      | CfgPutPrompts (Inl err) \<Rightarrow> (cs, Inr (HttpError 400 err))
      | CfgPutPrompts (Inr p) \<Rightarrow> map_prod id Inr (saved ''saved'' (UpdatePrompts marshal werr p cs))
      | _ \<Rightarrow> (cs, Inr (HttpError 405 ''method not allowed'')))"

definition Config_handleTrunks ::
  "(settings \<Rightarrow> string) \<Rightarrow> string option \<Rightarrow> TrunkConfig list \<Rightarrow> config_request \<Rightarrow> ConfigStore \<Rightarrow> ConfigStore \<times> (TrunkConfig list + string response)" where
  "Config_handleTrunks marshal werr spare req cs =
     (case req of
        CfgGet \<Rightarrow> (cs, Inl (GetTrunks cs))
      | CfgAdd (Inl err) \<Rightarrow> (cs, Inr (HttpError 400 err))
      | CfgAdd (Inr t) \<Rightarrow> map_prod id Inr (saved ''added'' (AddTrunk marshal werr spare t cs))
      | CfgDelete name \<Rightarrow> map_prod id Inr (saved ''removed'' (RemoveTrunk marshal werr name cs))
      | _ \<Rightarrow> (cs, Inr (HttpError 405 ''method not allowed'')))"

subsection \<open>Specification\<close>

text \<open>The changes as the settings page describes them, on plain values.\<close>

datatype config_op = SetLLM LLMConfig | SetPrompts PromptConfig | AddTr TrunkConfig "TrunkConfig list" | DelTr string

fun spec_op :: "config_op \<Rightarrow> settings \<Rightarrow> settings" where
  "spec_op (SetLLM llm) v = v\<lparr>set_llm := llm\<rparr>"
| "spec_op (SetPrompts p) v = v\<lparr>set_prompts := merge_prompts p (set_prompts v)\<rparr>"
| "spec_op (AddTr t _) v = v\<lparr>set_trunks := set_trunks v @ [with_defaults t]\<rparr>"
| "spec_op (DelTr name) v = v\<lparr>set_trunks := filter (\<lambda>t. tc_name t \<noteq> name) (set_trunks v)\<rparr>"

fun exec_op :: "(settings \<Rightarrow> string) \<Rightarrow> config_op \<times> string option \<Rightarrow> ConfigStore \<Rightarrow> ConfigStore" where
  "exec_op marshal (SetLLM llm, werr) cs = fst (UpdateLLM marshal werr llm cs)"
| "exec_op marshal (SetPrompts p, werr) cs = fst (UpdatePrompts marshal werr p cs)"
| "exec_op marshal (AddTr t spare, werr) cs = fst (AddTrunk marshal werr spare t cs)"
| "exec_op marshal (DelTr name, werr) cs = fst (RemoveTrunk marshal werr name cs)"

text \<open>
  A concrete machine that implements an abstract one: it keeps an invariant, and the abstraction of a
  concrete step is the abstract step.
\<close>

locale simulation =
  fixes inv :: "'c \<Rightarrow> bool" and abs :: "'c \<Rightarrow> 'a" and conc_op :: "'o \<Rightarrow> 'c \<Rightarrow> 'c" and abs_op :: "'o \<Rightarrow> 'a \<Rightarrow> 'a"
  assumes inv_op: "inv c \<Longrightarrow> inv (conc_op p c)"
    and abs_commutes: "inv c \<Longrightarrow> abs (conc_op p c) = abs_op p (abs c)"
begin

lemma run_inv: "inv c \<Longrightarrow> inv (fold conc_op ps c)"
  by (induction ps arbitrary: c) (auto simp: inv_op)

lemma run_refines: "inv c \<Longrightarrow> abs (fold conc_op ps c) = fold abs_op ps (abs c)"
  by (induction ps arbitrary: c) (auto simp: inv_op abs_commutes)

end

subsection \<open>The slice operations implement the list operations\<close>

definition wf_store :: "ConfigStore \<Rightarrow> bool" where
  "wf_store cs \<longleftrightarrow> snd (rcfg_trunks (cs_config cs)) \<le> length (cs_arrays cs (fst (rcfg_trunks (cs_config cs)))) \<and>
     fst (rcfg_trunks (cs_config cs)) < cs_next cs"

lemma append_slice_reads:
  assumes "append_slice spare x (h, next, s) = (h', next', s')" "snd s \<le> length (h (fst s))" "fst s < next"
  shows "read_slice h' s' = read_slice h s @ [x]" "snd s' \<le> length (h' (fst s'))" "fst s' < next'"
  using assms by (auto simp: append_slice_def read_slice_def Let_def take_Suc_conv_app_nth min_def split: prod.splits if_splits)

lemma filter_loop:
  assumes "n \<le> length xs" "m \<le> n"
  shows "fold (filter_step name) [0..<m] (xs, 0)
    = (filter (\<lambda>t. tc_name t \<noteq> name) (take m xs) @ drop (length (filter (\<lambda>t. tc_name t \<noteq> name) (take m xs))) xs,
       length (filter (\<lambda>t. tc_name t \<noteq> name) (take m xs)))"
  using assms(2)
proof (induction m)
  case (Suc m)
  let ?f = "filter (\<lambda>t. tc_name t \<noteq> name) (take m xs)"
  have m: "m < length xs" using Suc.prems assms(1) by simp
  have k: "length ?f \<le> m" using m length_filter_le [of _ "take m xs"] by (metis length_take less_imp_le min.absorb2)
  have rd: "(?f @ drop (length ?f) xs) ! m = xs ! m" using k m by (simp add: nth_append)
  have "(?f @ drop (length ?f) xs)[length ?f := xs ! m] = ?f @ [xs ! m] @ drop (Suc (length ?f)) xs"
    using k m by (simp add: list_update_append Cons_nth_drop_Suc [symmetric])
  then show ?case
    using Suc rd m by (simp add: filter_step_def take_Suc_conv_app_nth)
qed simp

lemma view_saveToFile [simp]: "view (fst (saveToFile marshal werr cs)) = view cs"
  by (simp add: saveToFile_def view_def split: option.splits)

lemma wf_saveToFile [simp]: "wf_store (fst (saveToFile marshal werr cs)) = wf_store cs"
  by (simp add: saveToFile_def wf_store_def split: option.splits)

lemma RemoveTrunk_filter:
  assumes "wf_store cs" "rcfg_trunks (cs_config cs) = (a, n)" "keep = filter (\<lambda>t. tc_name t \<noteq> name) (GetTrunks cs)"
  shows "RemoveTrunk marshal werr name cs = saveToFile marshal werr
    (cs\<lparr>cs_arrays := (cs_arrays cs)(a := keep @ drop (length keep) (cs_arrays cs a)),
        cs_config := (cs_config cs)\<lparr>rcfg_trunks := (a, length keep)\<rparr>\<rparr>)"
  using filter_loop [of n "cs_arrays cs a" n name] assms
  by (simp add: RemoveTrunk_def wf_store_def GetTrunks_def read_slice_def)

lemma exec_AddTr:
  assumes "wf_store cs"
  shows "wf_store (exec_op marshal (AddTr t spare, werr) cs)"
    "view (exec_op marshal (AddTr t spare, werr) cs) = spec_op (AddTr t spare) (view cs)"
proof -
  obtain h nx s where a: "append_slice spare (with_defaults t) (cs_arrays cs, cs_next cs, rcfg_trunks (cs_config cs)) = (h, nx, s)"
    by (metis prod_cases3)
  note r = append_slice_reads [OF a] assms [unfolded wf_store_def]
  show "wf_store (exec_op marshal (AddTr t spare, werr) cs)"
    using r by (simp add: AddTrunk_def a Let_def) (simp add: wf_store_def)
  show "view (exec_op marshal (AddTr t spare, werr) cs) = spec_op (AddTr t spare) (view cs)"
    using r by (simp add: AddTrunk_def a Let_def) (simp add: view_def read_config_def)
qed

lemma exec_DelTr:
  assumes "wf_store cs"
  shows "wf_store (exec_op marshal (DelTr name, werr) cs)"
    "view (exec_op marshal (DelTr name, werr) cs) = spec_op (DelTr name) (view cs)"
proof -
  obtain a n where an: "rcfg_trunks (cs_config cs) = (a, n)" by fastforce
  let ?keep = "filter (\<lambda>t. tc_name t \<noteq> name) (GetTrunks cs)"
  have "length ?keep \<le> length (cs_arrays cs a)"
    using le_trans [OF length_filter_le, of "GetTrunks cs"] an by (simp add: GetTrunks_def read_slice_def)
  then show "wf_store (exec_op marshal (DelTr name, werr) cs)"
    using assms an by (simp add: RemoveTrunk_filter [OF assms an refl]) (simp add: wf_store_def)
  show "view (exec_op marshal (DelTr name, werr) cs) = spec_op (DelTr name) (view cs)"
    using an by (simp add: RemoveTrunk_filter [OF assms an refl]) (simp add: view_def read_config_def read_slice_def GetTrunks_def)
qed

lemma exec_updates:
  assumes "wf_store cs"
  shows "wf_store (exec_op marshal (SetLLM llm, werr) cs)" "wf_store (exec_op marshal (SetPrompts p, werr) cs)"
    "view (exec_op marshal (SetLLM llm, werr) cs) = spec_op (SetLLM llm) (view cs)"
    "view (exec_op marshal (SetPrompts p, werr) cs) = spec_op (SetPrompts p) (view cs)"
  using assms
  by (simp_all add: UpdateLLM_def UpdatePrompts_def) (simp_all add: wf_store_def view_def read_config_def)

interpretation config: simulation wf_store view "exec_op marshal" "\<lambda>p. spec_op (fst p)"
proof
  fix c :: ConfigStore and p :: "config_op \<times> string option"
  assume wf: "wf_store c"
  obtain q werr where p: "p = (q, werr)" by fastforce
  show "wf_store (exec_op marshal p c)"
    unfolding p by (cases q; simp only: exec_AddTr [OF wf] exec_DelTr [OF wf] exec_updates [OF wf])
  show "view (exec_op marshal p c) = spec_op (fst p) (view c)"
    unfolding p by (cases q; simp only: exec_AddTr [OF wf] exec_DelTr [OF wf] exec_updates [OF wf] fst_conv)
qed

lemma view_store_settings [simp]: "view (store_settings v cs) = v"
  by (cases v) (simp add: store_settings_def view_def read_config_def read_slice_def)

lemma wf_NewConfigStore: "wf_store (NewConfigStore unmarshal f d)"
  by (auto simp: NewConfigStore_def loadFromFile_def store_settings_def wf_store_def split: option.splits prod.splits)

lemma view_NewConfigStore:
  "view (NewConfigStore unmarshal None d) = d\<lparr>set_trunks := []\<rparr>"
  "view (NewConfigStore unmarshal (Some t) d) = fst (unmarshal t (d\<lparr>set_trunks := []\<rparr>))"
proof -
  show "view (NewConfigStore unmarshal None d) = d\<lparr>set_trunks := []\<rparr>"
    by (cases d) (simp add: NewConfigStore_def loadFromFile_def view_def read_config_def read_slice_def)
  have v: "view \<lparr>cs_config = \<lparr>rcfg_llm = set_llm d, rcfg_prompts = set_prompts d, rcfg_trunks = (0, 0)\<rparr>, cs_arrays = \<lambda>_. [], cs_next = 1, cs_file = Some t\<rparr>
      = d\<lparr>set_trunks := []\<rparr>"
    by (cases d) (simp add: view_def read_config_def read_slice_def)
  show "view (NewConfigStore unmarshal (Some t) d) = fst (unmarshal t (d\<lparr>set_trunks := []\<rparr>))"
    unfolding NewConfigStore_def loadFromFile_def
    by (simp only: ConfigStore.simps option.case v Let_def) (simp split: prod.splits)
qed

lemma file_exec_op: "cs_file (exec_op marshal (q, None) cs) = Some (marshal (view (exec_op marshal (q, None) cs)))"
  by (cases q) (auto simp: UpdateLLM_def UpdatePrompts_def AddTrunk_def RemoveTrunk_def saveToFile_def view_def Let_def split: prod.splits)

subsection \<open>Properties\<close>

text \<open>
  C18: the settings are what the changes add up to and survive a restart: after any changes the store
  shows the result of applying them one after the other to the settings it started with, although it
  filters its slice in place; and when the file could be written after the last change, a gateway
  started on it has the same settings, whatever its defaults.
\<close>

theorem settings_survive_restart:
  assumes "\<And>v d. unmarshal (marshal v) d = (v, True)"
    and "cs = fold (exec_op marshal) (ops @ [(q, None)]) (NewConfigStore unmarshal file_content defaults)"
  shows "view cs = spec_op q (fold (\<lambda>p. spec_op (fst p)) ops (view (NewConfigStore unmarshal file_content defaults))) \<and>
    view (NewConfigStore unmarshal (cs_file cs) defaults') = view cs"
proof -
  have "view cs = spec_op q (fold (\<lambda>p. spec_op (fst p)) ops (view (NewConfigStore unmarshal file_content defaults)))"
    using config.run_refines [OF wf_NewConfigStore, of marshal "ops @ [(q, None)]"] assms(2) by simp
  moreover have "cs_file cs = Some (marshal (view cs))" using assms(2) file_exec_op [of marshal q] by simp
  ultimately show ?thesis by (simp add: view_NewConfigStore assms(1))
qed

definition example_settings :: settings where
  "example_settings = default_settings ''m'' ''r'' ''s'' ''c''"

text \<open>A coder to try the restart on: settings are numbered, and the text is a number in unary notation.\<close>

definition trunk_tuple :: "TrunkConfig \<Rightarrow> _" where
  "trunk_tuple t = (tc_name t, tc_address t, tc_port t, tc_transport t, tc_register t, tc_callerID t, tc_codecs t, tc_status t)"

definition example_marshal :: "settings \<Rightarrow> string" where
  "example_marshal v = replicate (to_nat (llm_provider (set_llm v), llm_model (set_llm v), llm_region (set_llm v), llm_maxTokens (set_llm v),
     interactive (set_prompts v), copilot_prompt (set_prompts v), map trunk_tuple (set_trunks v))) (CHR ''x'')"

lemma inj_example_marshal: "inj example_marshal"
proof (rule injI)
  fix v w :: settings
  assume eq: "example_marshal v = example_marshal w"
  have "inj trunk_tuple" by (rule injI) (simp add: trunk_tuple_def)
  then have "map trunk_tuple (set_trunks v) = map trunk_tuple (set_trunks w) \<Longrightarrow> set_trunks v = set_trunks w" by simp
  with eq show "v = w" by (auto simp: example_marshal_def replicate_eq_replicate)
qed

theorem settings_survive_restart_witness:
  "\<exists>unmarshal. \<forall>d. view (NewConfigStore unmarshal (cs_file (fold (exec_op example_marshal) [(DelTr ''t'', None)]
       (NewConfigStore unmarshal None example_settings))) d) = example_settings"
proof -
  define decode where "decode = (\<lambda>t (d :: settings). (inv example_marshal t, True))"
  have "decode (example_marshal v) d = (v, True)" for v d by (simp add: decode_def inj_example_marshal)
  note r = settings_survive_restart [OF this refl, where ops = "[]" and q = "DelTr ''t''" and file_content = None and defaults = example_settings]
  have "view (NewConfigStore decode (cs_file (fold (exec_op example_marshal) [(DelTr ''t'', None)]
       (NewConfigStore decode None example_settings))) d) = example_settings" for d
    using r [where defaults' = d] by (simp add: view_NewConfigStore example_settings_def default_settings_def)
  then show ?thesis by blast
qed

text \<open>
  a listing of the settings that overlaps a removal is torn: the handler encodes the slice after the
  lock is released, so when a trunk is removed in between, the answer has as many trunks as before,
  without the removed one and with the last one twice.
\<close>

theorem settings_listing_torn:
  assumes "wf_store cs" "GetTrunks cs = xs @ [t] @ ys" "distinct (map tc_name (GetTrunks cs))" "ys \<noteq> []"
    and "RemoveTrunk marshal werr (tc_name t) cs = (cs', res)"
  shows "set_trunks (encode_settings (handleSettings cs) cs') = xs @ ys @ [last ys] \<and> GetTrunks cs' = xs @ ys"
proof -
  obtain a n where an: "rcfg_trunks (cs_config cs) = (a, n)" by fastforce
  have keep: "filter (\<lambda>u. tc_name u \<noteq> tc_name t) (GetTrunks cs) = xs @ ys"
  proof -
    have nm: "tc_name t \<notin> tc_name ` set (xs @ ys)" using assms(3) unfolding assms(2) by auto
    have "filter (\<lambda>u. tc_name u \<noteq> tc_name t) (xs @ ys) = xs @ ys"
      by (rule filter_True) (use nm in \<open>metis image_eqI\<close>)
    then show ?thesis unfolding assms(2) by simp
  qed
  define arr where "arr = cs_arrays cs a"
  have n: "take n arr = xs @ [t] @ ys" "n \<le> length arr"
    using assms(1,2) an by (simp_all add: GetTrunks_def read_slice_def wf_store_def arr_def)
  have "length (take n arr) = n" using n(2) by simp
  then have len: "n = length xs + length ys + 1" unfolding n(1) by simp
  have cs': "cs' = fst (saveToFile marshal werr (cs\<lparr>cs_arrays := (cs_arrays cs)(a := xs @ ys @ drop (length xs + length ys) arr),
        cs_config := (cs_config cs)\<lparr>rcfg_trunks := (a, length xs + length ys)\<rparr>\<rparr>))"
    using RemoveTrunk_filter [OF assms(1) an keep [symmetric], of marshal werr] assms(5) by (simp add: arr_def) (metis fst_conv)
  have arrays: "cs_arrays cs' a = xs @ ys @ drop (length xs + length ys) arr" "rcfg_trunks (cs_config cs') = (a, length xs + length ys)"
    unfolding cs' by (simp_all add: saveToFile_def split: option.splits)
  obtain zs z where ys: "ys = zs @ [z]" using assms(4) by (metis append_butlast_last_id)
  have "drop (length xs + length ys) (take n arr) = [last ys]" unfolding n(1) ys by simp
  then have "take 1 (drop (length xs + length ys) arr) = [last ys]" using len by (simp add: drop_take)
  then show ?thesis
    using an arrays len
    by (simp add: encode_settings_def handleSettings_def Get_def read_config_def read_slice_def GetTrunks_def)
qed

definition example_cfg_trunk :: "string \<Rightarrow> TrunkConfig" where
  "example_cfg_trunk n = \<lparr>tc_name = n, tc_address = '''', tc_port = 5060, tc_transport = ''udp'', tc_register = False, tc_callerID = '''',
     tc_codecs = ''PCMU'', tc_status = ''active''\<rparr>"

definition example_cfg :: ConfigStore where
  "example_cfg = \<lparr>cs_config = \<lparr>rcfg_llm = set_llm example_settings, rcfg_prompts = set_prompts example_settings, rcfg_trunks = (0, 2)\<rparr>,
     cs_arrays = (\<lambda>_. [example_cfg_trunk ''a'', example_cfg_trunk ''b'']), cs_next = 1, cs_file = None\<rparr>"

theorem settings_listing_torn_witness:
  "set_trunks (encode_settings (handleSettings example_cfg) (fst (RemoveTrunk (\<lambda>_. '''') None ''a'' example_cfg)))
     = [example_cfg_trunk ''b'', example_cfg_trunk ''b'']"
proof -
  obtain cs' res where r: "RemoveTrunk (\<lambda>_. '''') None (tc_name (example_cfg_trunk ''a'')) example_cfg = (cs', res)" by fastforce
  have a: "tc_name (example_cfg_trunk ''a'') = ''a''" by (simp add: example_cfg_trunk_def)
  have "wf_store example_cfg" "GetTrunks example_cfg = [] @ [example_cfg_trunk ''a''] @ [example_cfg_trunk ''b'']"
    "distinct (map tc_name (GetTrunks example_cfg))"
    by (simp_all add: example_cfg_def wf_store_def GetTrunks_def read_slice_def example_cfg_trunk_def)
  from settings_listing_torn [OF this _ r] show ?thesis using r unfolding a by simp
qed

end
