(* ===== verification/Tenants.thy ===== *)
theory Tenants
  imports Db
begin

text \<open>
  Tenants, \<open>gateway/tenant.go\<close>: their table, the assignment of users and agents to them and the
  handlers. The table keys of migration \<open>010_multi_tenant\<close> are part of the model: the domain is unique,
  and the tenant of a user or an agent must exist. The errors of statements that the handlers ignore
  leave the tables as they are.
\<close>

subsection \<open>Tables\<close>

record Tenant =
  tn_ID :: string
  tn_Name :: string
  tn_Domain :: string
  tn_MaxAgents :: int
  tn_MaxConcurrentCalls :: int
  tn_Enabled :: bool
  tn_CreatedAt :: instant

record tenant_user =
  tu_id :: string
  tu_tenant :: "string option"

record tenant_agent =
  ta_id :: string
  ta_user :: "string option"
  ta_tenant :: "string option"

record tenant_db =
  tb_tenants :: "Tenant list"
  tb_users :: "tenant_user list"
  tb_agents :: "tenant_agent list"

definition tenant_exists :: "string \<Rightarrow> tenant_db \<Rightarrow> bool" where
  "tenant_exists i d \<longleftrightarrow> i \<in> tn_ID ` set (tb_tenants d)"

definition tenant_used :: "string \<Rightarrow> tenant_db \<Rightarrow> bool" where
  "tenant_used i d \<longleftrightarrow> Some i \<in> tu_tenant ` set (tb_users d) \<or> Some i \<in> ta_tenant ` set (tb_agents d)"

subsection \<open>Operations\<close>

definition GetTenantIDForUser :: "string \<Rightarrow> tenant_db option \<Rightarrow> string" where
  "GetTenantIDForUser userID db =
     (case db of
        None \<Rightarrow> ''''
      | Some d \<Rightarrow>
          if userID = '''' then ''''
          else (case find (\<lambda>u. tu_id u = userID) (tb_users d) of
                  None \<Rightarrow> '''' | Some u \<Rightarrow> (case tu_tenant u of None \<Rightarrow> '''' | Some t \<Rightarrow> t)))"

text \<open>The listing counts the agents of every tenant; its column of active calls is never filled.\<close>

definition agents_of :: "string \<Rightarrow> tenant_db \<Rightarrow> nat" where
  "agents_of i d = length (filter (\<lambda>a. (case ta_tenant a of None \<Rightarrow> '''' | Some t \<Rightarrow> t) = i) (tb_agents d))"

definition list_tenants :: "bool \<Rightarrow> bool \<Rightarrow> tenant_db option \<Rightarrow> (Tenant \<times> nat \<times> nat) list" where
  "list_tenants tenants_ok agents_ok db =
     (case db of
        None \<Rightarrow> []
      | Some d \<Rightarrow>
          if \<not> tenants_ok then []
          else map (\<lambda>t. (t, if agents_ok then agents_of (tn_ID t) d else 0, 0)) (sort_key tn_CreatedAt (tb_tenants d)))"

record tenant_request =
  tq_Name :: string
  tq_Domain :: string
  tq_MaxAgents :: int
  tq_MaxConcurrentCalls :: int

text \<open>\<open>new_id\<close> and \<open>now\<close> are the defaults of the columns.\<close>

definition insert_tenant :: "string \<Rightarrow> instant \<Rightarrow> tenant_request \<Rightarrow> tenant_db \<Rightarrow> tenant_db + string" where
  "insert_tenant new_id now req d =
     (if tq_Domain req \<in> tn_Domain ` set (tb_tenants d) then Inr ''duplicate key value violates unique constraint''
      else Inl (d\<lparr>tb_tenants := tb_tenants d @
        [\<lparr>tn_ID = new_id, tn_Name = tq_Name req, tn_Domain = tq_Domain req, tn_MaxAgents = tq_MaxAgents req,
          tn_MaxConcurrentCalls = tq_MaxConcurrentCalls req, tn_Enabled = True, tn_CreatedAt = now\<rparr>]\<rparr>))"

definition create_tenant :: "string \<Rightarrow> instant \<Rightarrow> tenant_request option \<Rightarrow> tenant_db option \<Rightarrow> tenant_db option \<times> json_obj response" where
  "create_tenant new_id now decoded db =
     (case decoded of
        None \<Rightarrow> (db, WriteJSON 400 [(''error'', ''invalid JSON'')])
      | Some req0 \<Rightarrow>
          if tq_Name req0 = '''' then (db, WriteJSON 400 [(''error'', ''name required'')])
          else
            let req = req0\<lparr>tq_MaxAgents := (if tq_MaxAgents req0 = 0 then 50 else tq_MaxAgents req0),
                           tq_MaxConcurrentCalls := (if tq_MaxConcurrentCalls req0 = 0 then 20 else tq_MaxConcurrentCalls req0)\<rparr>
            in case db of
                 None \<Rightarrow> (db, WriteJSON 500 [(''error'', ''no database'')])
               | Some d \<Rightarrow>
                   (case insert_tenant new_id now req d of
                      Inr err \<Rightarrow> (db, WriteJSON 500 [(''error'', err)])
                    | Inl d1 \<Rightarrow> (Some d1, WriteJSON 201 [(''id'', new_id), (''status'', ''created'')])))"

text \<open>\<open>COALESCE(NULLIF($2,''),name)\<close>: an empty text leaves the column as it is.\<close>

definition keep_empty :: "string \<Rightarrow> string \<Rightarrow> string" where
  "keep_empty new old = (if new = '''' then old else new)"

definition keep_nonpos :: "int \<Rightarrow> int \<Rightarrow> int" where
  "keep_nonpos new old = (if new > 0 then new else old)"

definition update_tenant :: "string \<Rightarrow> tenant_request \<Rightarrow> bool option \<Rightarrow> Tenant \<Rightarrow> Tenant" where
  "update_tenant i req enabled t =
     (if tn_ID t = i
      then t\<lparr>tn_Name := keep_empty (tq_Name req) (tn_Name t), tn_Domain := keep_empty (tq_Domain req) (tn_Domain t),
             tn_MaxAgents := keep_nonpos (tq_MaxAgents req) (tn_MaxAgents t),
             tn_MaxConcurrentCalls := keep_nonpos (tq_MaxConcurrentCalls req) (tn_MaxConcurrentCalls t),
             tn_Enabled := (case enabled of Some b \<Rightarrow> b | None \<Rightarrow> tn_Enabled t)\<rparr>
      else t)"

definition put_tenant :: "string \<Rightarrow> tenant_request \<Rightarrow> bool option \<Rightarrow> tenant_db \<Rightarrow> tenant_db" where
  "put_tenant i req enabled d =
     (let ts = map (update_tenant i req enabled) (tb_tenants d)
      in if distinct (map tn_Domain ts) then d\<lparr>tb_tenants := ts\<rparr> else d)"

definition delete_tenant :: "string \<Rightarrow> tenant_db \<Rightarrow> tenant_db" where
  "delete_tenant i d = (if tenant_used i d then d else d\<lparr>tb_tenants := filter (\<lambda>t. tn_ID t \<noteq> i) (tb_tenants d)\<rparr>)"

text \<open>A listing comes with the outcome of its two queries.\<close>

datatype tenants_request =
  TnGet bool bool | TnPost "tenant_request option" | TnPut "(string \<times> tenant_request \<times> bool option) option" | TnDelete string | TnOther

definition handleTenants ::
  "string \<Rightarrow> instant \<Rightarrow> tenants_request \<Rightarrow> tenant_db option \<Rightarrow> tenant_db option \<times> ((Tenant \<times> nat \<times> nat) list + json_obj response)" where
  "handleTenants new_id now rq db =
     (case rq of
        TnGet tenants_ok agents_ok \<Rightarrow> (db, Inl (list_tenants tenants_ok agents_ok db))
      | TnPost decoded \<Rightarrow> map_prod id Inr (create_tenant new_id now decoded db)
      | TnPut None \<Rightarrow> (db, Inr (WriteJSON 400 [(''error'', ''id required'')]))
      | TnPut (Some (i, req, enabled)) \<Rightarrow>
          if i = '''' then (db, Inr (WriteJSON 400 [(''error'', ''id required'')]))
          else (case db of
                  None \<Rightarrow> (db, Inr (WriteJSON 500 [(''error'', ''no database'')]))
                | Some d \<Rightarrow> (Some (put_tenant i req enabled d), Inr (WriteJSON 200 [(''status'', ''updated'')])))
      | TnDelete i \<Rightarrow>
          if i = '''' then (db, Inr (WriteJSON 400 [(''error'', ''id required'')]))
          else (map_option (delete_tenant i) db, Inr (WriteJSON 200 [(''status'', ''deleted'')]))
      | TnOther \<Rightarrow> (db, Inr (HttpError 405 ''method not allowed'')))"

definition assign_user :: "string \<Rightarrow> string \<Rightarrow> tenant_db \<Rightarrow> tenant_db" where
  "assign_user tenantID userID d =
     (if tenant_exists tenantID d
      then d\<lparr>tb_users := map (\<lambda>u. if tu_id u = userID then u\<lparr>tu_tenant := Some tenantID\<rparr> else u) (tb_users d)\<rparr> else d)"

definition assign_agents :: "string \<Rightarrow> string \<Rightarrow> tenant_db \<Rightarrow> tenant_db" where
  "assign_agents tenantID userID d =
     (if tenant_exists tenantID d
      then d\<lparr>tb_agents := map (\<lambda>a. if ta_user a = Some userID then a\<lparr>ta_tenant := Some tenantID\<rparr> else a) (tb_agents d)\<rparr> else d)"

definition handleTenantUsers ::
  "bool \<Rightarrow> (string \<times> string) option \<Rightarrow> tenant_db option \<Rightarrow> tenant_db option \<times> json_obj response" where
  "handleTenantUsers isPost decoded db =
     (if \<not> isPost then (db, HttpError 405 ''POST required'')
      else case decoded of
        None \<Rightarrow> (db, WriteJSON 400 [(''error'', ''invalid JSON'')])
      | Some (userID, tenantID) \<Rightarrow>
          if userID = '''' \<or> tenantID = '''' then (db, WriteJSON 400 [(''error'', ''user_id and tenant_id required'')])
          else (case db of
                  None \<Rightarrow> (db, WriteJSON 500 [(''error'', ''no database'')])
                | Some d \<Rightarrow> (Some (assign_agents tenantID userID (assign_user tenantID userID d)), WriteJSON 200 [(''status'', ''assigned'')])))"

subsection \<open>Invariant\<close>

text \<open>The keys of the tables: tenants have their own identifiers and domains, and references resolve.\<close>

definition tenants_wf :: "tenant_db \<Rightarrow> bool" where
  "tenants_wf d \<longleftrightarrow> distinct (map tn_ID (tb_tenants d)) \<and> distinct (map tn_Domain (tb_tenants d)) \<and>
     (\<forall>u \<in> set (tb_users d). \<forall>t. tu_tenant u = Some t \<longrightarrow> tenant_exists t d) \<and>
     (\<forall>a \<in> set (tb_agents d). \<forall>t. ta_tenant a = Some t \<longrightarrow> tenant_exists t d)"

text \<open>New identifiers are fresh, as \<open>gen_random_uuid\<close> makes them.\<close>

inductive tenant_step :: "tenant_db \<Rightarrow> tenant_db \<Rightarrow> bool" where
  request: "handleTenants new_id now rq (Some d) = (Some d', r) \<Longrightarrow> \<not> tenant_exists new_id d \<Longrightarrow> tenant_step d d'"
| assignment: "handleTenantUsers isPost req (Some d) = (Some d', r) \<Longrightarrow> tenant_step d d'"

inductive_cases tenant_stepE: "tenant_step d d'"

lemma tn_ID_update [simp]: "tn_ID (update_tenant i req en t) = tn_ID t"
  by (simp add: update_tenant_def)

lemma map_tn_ID_update [simp]: "map tn_ID (map (update_tenant i req en) ts) = map tn_ID ts"
  by simp

lemma tenants_wf_insert:
  "tenants_wf d \<Longrightarrow> insert_tenant i now req d = Inl d' \<Longrightarrow> \<not> tenant_exists i d \<Longrightarrow> tenants_wf d'"
  by (auto simp: insert_tenant_def tenants_wf_def tenant_exists_def split: if_splits)

lemma tenants_wf_put: "tenants_wf d \<Longrightarrow> tenants_wf (put_tenant i req en d)"
  by (simp add: put_tenant_def tenants_wf_def tenant_exists_def Let_def image_image comp_def)

lemma tenant_exists_filter:
  "tenant_exists t (d\<lparr>tb_tenants := filter (\<lambda>t. tn_ID t \<noteq> i) (tb_tenants d)\<rparr>) \<longleftrightarrow> t \<noteq> i \<and> tenant_exists t d"
  by (auto simp: tenant_exists_def)

lemma tenants_wf_delete: "tenants_wf d \<Longrightarrow> tenants_wf (delete_tenant i d)"
  by (auto simp: delete_tenant_def tenants_wf_def tenant_exists_filter tenant_used_def distinct_map_filter rev_image_eqI)

lemma tenants_wf_assign: "tenants_wf d \<Longrightarrow> tenants_wf (assign_user t u d)" "tenants_wf d \<Longrightarrow> tenants_wf (assign_agents t u d)"
  by (auto simp: assign_user_def assign_agents_def tenants_wf_def tenant_exists_def)

lemma tenants_wf_create:
  "tenants_wf d \<Longrightarrow> create_tenant i now decoded (Some d) = (Some d', r) \<Longrightarrow> \<not> tenant_exists i d \<Longrightarrow> tenants_wf d'"
  by (auto simp: create_tenant_def Let_def split: option.splits if_splits sum.splits intro: tenants_wf_insert)

interpretation tenants: invariant_machine "\<lambda>d. d = \<lparr>tb_tenants = [], tb_users = us, tb_agents = as\<rparr> \<and> (\<forall>u \<in> set us. tu_tenant u = None) \<and> (\<forall>a \<in> set as. ta_tenant a = None)"
  tenant_step tenants_wf
proof
  fix d assume "d = \<lparr>tb_tenants = [], tb_users = us, tb_agents = as\<rparr> \<and> (\<forall>u \<in> set us. tu_tenant u = None) \<and> (\<forall>a \<in> set as. ta_tenant a = None)"
  then show "tenants_wf d" by (simp add: tenants_wf_def)
next
  fix d d' assume wf: "tenants_wf d" and "tenant_step d d'"
  from this(2) show "tenants_wf d'"
  proof (elim tenant_stepE)
    fix new_id now rq r assume "handleTenants new_id now rq (Some d) = (Some d', r)" "\<not> tenant_exists new_id d"
    then show ?thesis
      using wf tenants_wf_put [OF wf] tenants_wf_delete [OF wf] tenants_wf_create [OF wf]
      by (cases rq) (auto simp: handleTenants_def map_prod_def split: option.splits if_splits prod.splits)
  next
    fix isPost req r assume "handleTenantUsers isPost req (Some d) = (Some d', r)"
    then show ?thesis using wf tenants_wf_assign by (auto simp: handleTenantUsers_def split: option.splits if_splits)
  qed
qed

subsection \<open>Lemmas\<close>

lemma find_map_same_key:
  assumes "\<And>x. P (f x) = P x"
  shows "find P (map f xs) = map_option f (find P xs)"
  by (induction xs) (auto simp: assms)

subsection \<open>Properties\<close>



text \<open>
  an assignment moves the user and the user's agents and nobody else: for a tenant that exists, the
  tenant of the user is then the one asked for, every agent linked to the user belongs to it, and all
  other users and agents keep theirs; the keys of the tables hold in every reachable state.
\<close>

theorem tenant_assignment:
  assumes "reachable tenant_step \<lparr>tb_tenants = [], tb_users = us, tb_agents = as\<rparr> d"
    and "\<forall>u \<in> set us. tu_tenant u = None" "\<forall>a \<in> set as. ta_tenant a = None"
    and "tenant_exists t d" "find (\<lambda>x. tu_id x = u) (tb_users d) = Some row" "u \<noteq> ''''" "t \<noteq> ''''"
  shows "\<exists>d'. handleTenantUsers True (Some (u, t)) (Some d) = (Some d', WriteJSON 200 [(''status'', ''assigned'')]) \<and>
    tenants_wf d' \<and> GetTenantIDForUser u (Some d') = t \<and>
    (\<forall>v. v \<noteq> u \<longrightarrow> GetTenantIDForUser v (Some d') = GetTenantIDForUser v (Some d)) \<and>
    (\<forall>a \<in> set (tb_agents d'). ta_user a = Some u \<longrightarrow> ta_tenant a = Some t) \<and>
    filter (\<lambda>a. ta_user a \<noteq> Some u) (tb_agents d') = filter (\<lambda>a. ta_user a \<noteq> Some u) (tb_agents d)"
proof -
  have wf: "tenants_wf d" using tenants.reachable_inv [OF assms(1)] assms(2,3) by simp
  define d' where "d' = assign_agents t u (assign_user t u d)"
  have users: "tb_users d' = map (\<lambda>x. if tu_id x = u then x\<lparr>tu_tenant := Some t\<rparr> else x) (tb_users d)"
    and agents: "tb_agents d' = map (\<lambda>a. if ta_user a = Some u then a\<lparr>ta_tenant := Some t\<rparr> else a) (tb_agents d)"
    using assms(4) by (auto simp: d'_def assign_agents_def assign_user_def tenant_exists_def)
  have find: "find (\<lambda>x. tu_id x = v) (tb_users d') = map_option (\<lambda>x. if tu_id x = u then x\<lparr>tu_tenant := Some t\<rparr> else x) (find (\<lambda>x. tu_id x = v) (tb_users d))" for v
    unfolding users by (rule find_map_same_key) simp
  have row: "tu_id row = u" using assms(5) by (auto simp: find_Some_iff)
  have "GetTenantIDForUser u (Some d') = t" using assms(5,6) row by (simp add: GetTenantIDForUser_def find)
  moreover have "GetTenantIDForUser v (Some d') = GetTenantIDForUser v (Some d)" if "v \<noteq> u" for v
    using that
  proof (cases "find (\<lambda>x. tu_id x = v) (tb_users d)")
    case (Some x)
    then have "tu_id x = v" by (auto simp: find_Some_iff)
    then show ?thesis using that Some by (simp add: GetTenantIDForUser_def find)
  qed (simp add: GetTenantIDForUser_def find)
  moreover have "filter (\<lambda>a. ta_user a \<noteq> Some u) (tb_agents d') = filter (\<lambda>a. ta_user a \<noteq> Some u) (tb_agents d)"
    unfolding agents by (induction "tb_agents d") (auto simp: filter_map comp_def intro!: map_idI)
  moreover have "tenants_wf d'" unfolding d'_def by (intro tenants_wf_assign wf)
  ultimately show ?thesis
    using assms(6,7) by (intro exI [of _ d']) (auto simp: handleTenantUsers_def d'_def [symmetric] agents)
qed

definition example_tenants :: tenant_db where
  "example_tenants = \<lparr>tb_tenants = [], tb_users = [\<lparr>tu_id = ''u'', tu_tenant = None\<rparr>], tb_agents = []\<rparr>"

theorem tenant_assignment_witness:
  "\<exists>d d'. tenant_step example_tenants d \<and> handleTenantUsers True (Some (''u'', ''t'')) (Some d) = (Some d', WriteJSON 200 [(''status'', ''assigned'')])
     \<and> GetTenantIDForUser ''u'' (Some d') = ''t''"
proof -
  let ?req = "\<lparr>tq_Name = ''T'', tq_Domain = '''', tq_MaxAgents = 0, tq_MaxConcurrentCalls = 0\<rparr>"
  obtain d r where c: "handleTenants ''t'' 0 (TnPost (Some ?req)) (Some example_tenants) = (Some d, r)"
    and d: "tenant_exists ''t'' d" "tb_users d = [\<lparr>tu_id = ''u'', tu_tenant = None\<rparr>]"
    by (simp add: handleTenants_def create_tenant_def insert_tenant_def example_tenants_def tenant_exists_def)
  have step: "tenant_step example_tenants d"
    by (rule tenant_step.request [OF c]) (simp add: example_tenants_def tenant_exists_def)
  have f: "find (\<lambda>x. tu_id x = ''u'') (tb_users d) = Some \<lparr>tu_id = ''u'', tu_tenant = None\<rparr>" by (simp add: d(2))
  have "reachable tenant_step \<lparr>tb_tenants = [], tb_users = [\<lparr>tu_id = ''u'', tu_tenant = None\<rparr>], tb_agents = []\<rparr> d"
    using reachable_step [of tenant_step, OF step] by (simp only: example_tenants_def)
  from tenant_assignment [OF this _ _ d(1) f] show ?thesis using step by auto
qed

text \<open>
  the listing accounts for every agent: the numbers of agents listed add up to the agents that belong
  to a tenant.
\<close>

theorem tenant_counts:
  assumes "tenants_wf d" "\<forall>t \<in> set (tb_tenants d). tn_ID t \<noteq> ''''"
  shows "(\<Sum>(t, n, c)\<leftarrow>list_tenants True True (Some d). n) = length (filter (\<lambda>a. ta_tenant a \<noteq> None) (tb_agents d))"
proof -
  define key where "key = (\<lambda>a :: tenant_agent. case ta_tenant a of None \<Rightarrow> '''' | Some t \<Rightarrow> t)"
  let ?ts = "sort_key tn_CreatedAt (tb_tenants d)" and ?as = "filter (\<lambda>a. ta_tenant a \<noteq> None) (tb_agents d)"
  have eq: "agents_of (tn_ID t) d = length (filter (\<lambda>a. key a = tn_ID t) ?as)" if "t \<in> set ?ts" for t
    using that assms(2)
    by (simp add: agents_of_def key_def) (rule arg_cong [of _ _ length], rule filter_cong, auto split: option.splits)
  have "(\<Sum>(t, n, c)\<leftarrow>list_tenants True True (Some d). n) = (\<Sum>t\<leftarrow>?ts. agents_of (tn_ID t) d)"
    by (simp add: list_tenants_def comp_def)
  also have "\<dots> = (\<Sum>t\<leftarrow>?ts. length (filter (\<lambda>a. key a = tn_ID t) ?as))"
    by (rule arg_cong [of _ _ sum_list], rule map_cong) (auto simp: eq)
  also have "\<dots> = (\<Sum>k\<leftarrow>map tn_ID ?ts. length (filter (\<lambda>a. key a = k) ?as))" by (simp add: comp_def)
  also have "\<dots> = length ?as"
  proof (rule sum_groups)
    have "distinct (map tn_ID (tb_tenants d))" using assms(1) by (simp add: tenants_wf_def)
    then show "distinct (map tn_ID ?ts)" by (simp add: distinct_map)
    show "\<forall>a \<in> set ?as. key a \<in> set (map tn_ID ?ts)"
      using assms(1) by (auto simp: tenants_wf_def tenant_exists_def key_def)
  qed
  finally show ?thesis .
qed

theorem tenant_counts_witness:
  "(\<Sum>(t, n, c)\<leftarrow>list_tenants True True (Some \<lparr>tb_tenants = [], tb_users = [], tb_agents = [\<lparr>ta_id = ''a'', ta_user = None, ta_tenant = None\<rparr>]\<rparr>). n) = 0"
  using tenant_counts [of "\<lparr>tb_tenants = [], tb_users = [], tb_agents = [\<lparr>ta_id = ''a'', ta_user = None, ta_tenant = None\<rparr>]\<rparr>"]
  by (simp add: tenants_wf_def)

text \<open>
  only one tenant can do without a domain: the empty domain is stored as such and must be unique, so
  once a tenant without a domain exists, creating another fails with an error of the database.
\<close>

theorem second_tenant_without_domain:
  assumes "create_tenant i now (Some req) (Some d) = (Some d1, r)" "status r = 201" "tq_Domain req = ''''"
    and "tq_Domain req2 = ''''" "tq_Name req2 \<noteq> ''''"
  shows "\<exists>err. create_tenant i2 now2 (Some req2) (Some d1) = (Some d1, WriteJSON 500 [(''error'', err)])"
  using assms
  by (auto simp: create_tenant_def insert_tenant_def Let_def split: if_splits sum.splits)

theorem second_tenant_without_domain_witness:
  "\<exists>d1 err. create_tenant ''2'' 0 (Some \<lparr>tq_Name = ''B'', tq_Domain = '''', tq_MaxAgents = 0, tq_MaxConcurrentCalls = 0\<rparr>) (Some d1)
     = (Some d1, WriteJSON 500 [(''error'', err)])"
proof -
  let ?a = "\<lparr>tq_Name = ''A'', tq_Domain = '''', tq_MaxAgents = 0, tq_MaxConcurrentCalls = 0\<rparr>"
  obtain d1 r where r: "create_tenant ''1'' 0 (Some ?a) (Some example_tenants) = (Some d1, r)" "status r = 201"
    by (simp add: create_tenant_def insert_tenant_def example_tenants_def Let_def)
  from second_tenant_without_domain [OF r, of "\<lparr>tq_Name = ''B'', tq_Domain = '''', tq_MaxAgents = 0, tq_MaxConcurrentCalls = 0\<rparr>"]
  show ?thesis by simp blast
qed

end
