(* ===== verification/Metrics.thy ===== *)
theory Metrics
  imports Prelude
begin

text \<open>
  Counters and latency histograms, \<open>gateway/metrics.go\<close>, with the text of the endpoint
  \<open>/metrics\<close>. Counters are 64-bit words that wrap around; the uptime, printed with one decimal, is a
  text given by the caller.
\<close>

subsection \<open>Counters\<close>

type_synonym counter = "64 word"

text \<open>The counters of one stage: recognition, model or synthesis.\<close>

record stage =
  requests :: counter
  errors :: counter
  totalMs :: counter
  buckets :: "counter list"

record Metrics =
  callsTotal :: counter
  callsActive :: counter
  callsCompleted :: counter
  callsFailed :: counter
  robocallsDetected :: counter
  robocallsBlocked :: counter
  piiDetections :: counter
  transfersExecuted :: counter
  actionsExecuted :: counter
  dtmfDigitsCaptured :: counter
  webhooksSent :: counter
  webhooksFailed :: counter
  stt :: stage
  llm :: stage
  tts :: stage
  ragQueries :: counter
  copilotSessions :: counter
  suggestionsGenerated :: counter
  failoverTriggered :: counter

definition new_stage :: stage where
  "new_stage = \<lparr>requests = 0, errors = 0, totalMs = 0, buckets = replicate 8 0\<rparr>"

definition NewMetrics :: Metrics where
  "NewMetrics = \<lparr>callsTotal = 0, callsActive = 0, callsCompleted = 0, callsFailed = 0, robocallsDetected = 0, robocallsBlocked = 0,
     piiDetections = 0, transfersExecuted = 0, actionsExecuted = 0, dtmfDigitsCaptured = 0, webhooksSent = 0, webhooksFailed = 0,
     stt = new_stage, llm = new_stage, tts = new_stage, ragQueries = 0, copilotSessions = 0, suggestionsGenerated = 0, failoverTriggered = 0\<rparr>"

subsection \<open>Recording\<close>

definition bucket_index :: "int \<Rightarrow> nat" where
  "bucket_index ms =
     (if ms < 50 then 0 else if ms < 100 then 1 else if ms < 200 then 2 else if ms < 500 then 3 else if ms < 1000 then 4
      else if ms < 2000 then 5 else if ms < 5000 then 6 else 7)"

definition recordBucket :: "int \<Rightarrow> counter list \<Rightarrow> counter list" where
  "recordBucket ms bs = bs[bucket_index ms := bs ! bucket_index ms + 1]"

definition Milliseconds :: "duration \<Rightarrow> int" where
  "Milliseconds d = go_div d millisecond"

definition record_stage :: "duration \<Rightarrow> bool \<Rightarrow> stage \<Rightarrow> stage" where
  "record_stage d failed s =
     s\<lparr>requests := requests s + 1, totalMs := totalMs s + word_of_int (Milliseconds d), buckets := recordBucket (Milliseconds d) (buckets s),
       errors := (if failed then errors s + 1 else errors s)\<rparr>"

definition RecordSTT :: "duration \<Rightarrow> bool \<Rightarrow> Metrics \<Rightarrow> Metrics" where
  "RecordSTT d failed m = m\<lparr>stt := record_stage d failed (stt m)\<rparr>"

definition RecordLLM :: "duration \<Rightarrow> bool \<Rightarrow> Metrics \<Rightarrow> Metrics" where
  "RecordLLM d failed m = m\<lparr>llm := record_stage d failed (llm m)\<rparr>"

definition RecordTTS :: "duration \<Rightarrow> bool \<Rightarrow> Metrics \<Rightarrow> Metrics" where
  "RecordTTS d failed m = m\<lparr>tts := record_stage d failed (tts m)\<rparr>"

subsection \<open>The page\<close>

definition line_end :: string where "line_end = [CHR 0x0A]"

definition show_counter :: "counter \<Rightarrow> string" where
  "show_counter c = show_int (sint c)"

definition metric :: "string \<Rightarrow> string \<Rightarrow> string \<Rightarrow> string" where
  "metric name help_text val = ''# HELP voiceagent_'' @ name @ '' '' @ help_text @ line_end @ ''voiceagent_'' @ name @ '' '' @ val @ line_end @ line_end"

definition average :: "stage \<Rightarrow> int" where
  "average s = (if sint (requests s) > 0 then go_div (sint (totalMs s)) (sint (requests s)) else 0)"

definition stage_text :: "string \<Rightarrow> string \<Rightarrow> stage \<Rightarrow> string" where
  "stage_text name title s =
     ''# HELP voiceagent_'' @ name @ ''_requests_total Total '' @ title @ '' requests'' @ line_end
     @ ''voiceagent_'' @ name @ ''_requests_total '' @ show_counter (requests s) @ line_end
     @ ''voiceagent_'' @ name @ ''_errors_total '' @ show_counter (errors s) @ line_end
     @ ''voiceagent_'' @ name @ ''_avg_latency_ms '' @ show_int (average s) @ line_end @ line_end"

definition bucketLabels :: "string list" where
  "bucketLabels = [''0-50ms'', ''50-100ms'', ''100-200ms'', ''200-500ms'', ''500-1000ms'', ''1-2s'', ''2-5s'', ''5s+'']"

definition histogram_text :: "string \<Rightarrow> string \<Rightarrow> stage \<Rightarrow> string" where
  "histogram_text name title s =
     ''# HELP voiceagent_'' @ name @ ''_latency_bucket '' @ title @ '' latency distribution'' @ line_end
     @ concat (map (\<lambda>(l, c). ''voiceagent_'' @ name @ ''_latency_bucket{le='' @ [CHR 0x22] @ l @ [CHR 0x22] @ ''} '' @ show_counter c @ line_end)
         (zip bucketLabels (buckets s)))"

definition Metrics_Handler :: "string \<Rightarrow> Metrics \<Rightarrow> string" where
  "Metrics_Handler uptime m =
     metric ''uptime_seconds'' ''Gateway uptime'' uptime
     @ metric ''calls_active'' ''Currently active call sessions'' (show_counter (callsActive m))
     @ metric ''copilot_sessions'' ''Active co-pilot sessions'' (show_counter (copilotSessions m))
     @ metric ''calls_total'' ''Total calls processed'' (show_counter (callsTotal m))
     @ metric ''calls_completed'' ''Total completed calls'' (show_counter (callsCompleted m))
     @ metric ''calls_failed'' ''Total failed calls'' (show_counter (callsFailed m))
     @ metric ''robocalls_detected'' ''Total robocalls detected'' (show_counter (robocallsDetected m))
     @ metric ''robocalls_blocked'' ''Total robocalls blocked'' (show_counter (robocallsBlocked m))
     @ metric ''pii_detections'' ''Total PII detections masked'' (show_counter (piiDetections m))
     @ metric ''transfers_executed'' ''Total call transfers'' (show_counter (transfersExecuted m))
     @ metric ''actions_executed'' ''Total self-service actions'' (show_counter (actionsExecuted m))
     @ metric ''dtmf_digits'' ''Total DTMF digits captured'' (show_counter (dtmfDigitsCaptured m))
     @ metric ''suggestions_generated'' ''Total co-pilot suggestions'' (show_counter (suggestionsGenerated m))
     @ metric ''failover_triggered'' ''Total failover events'' (show_counter (failoverTriggered m))
     @ stage_text ''stt'' ''STT'' (stt m) @ stage_text ''llm'' ''LLM'' (llm m) @ stage_text ''tts'' ''TTS'' (tts m)
     @ metric ''rag_queries_total'' ''Total RAG queries'' (show_counter (ragQueries m))
     @ ''# HELP voiceagent_webhooks_sent Total webhooks sent'' @ line_end @ ''voiceagent_webhooks_sent '' @ show_counter (webhooksSent m) @ line_end
     @ ''voiceagent_webhooks_failed '' @ show_counter (webhooksFailed m) @ line_end @ line_end
     @ histogram_text ''stt'' ''STT'' (stt m) @ line_end @ histogram_text ''llm'' ''LLM'' (llm m) @ line_end @ histogram_text ''tts'' ''TTS'' (tts m)"

subsection \<open>Lemmas\<close>

lemma bucket_index_less [simp]: "bucket_index ms < 8"
  by (simp add: bucket_index_def)

lemma length_recordBucket [simp]: "length (recordBucket ms bs) = length bs"
  by (simp add: recordBucket_def)

abbreviation record_all :: "(duration \<times> bool) list \<Rightarrow> stage \<Rightarrow> stage" where
  "record_all xs s \<equiv> fold (\<lambda>(d, failed). record_stage d failed) xs s"

lemma record_all_counts:
  "requests (record_all xs s) = requests s + of_nat (length xs)"
  "errors (record_all xs s) = errors s + of_nat (length (filter snd xs))"
  "totalMs (record_all xs s) = totalMs s + word_of_int (\<Sum>x\<leftarrow>xs. Milliseconds (fst x))"
  "length (buckets (record_all xs s)) = length (buckets s)"
  by (induction xs arbitrary: s) (auto simp: record_stage_def algebra_simps)

lemma record_all_buckets:
  "length (buckets s) = 8 \<Longrightarrow> i < 8 \<Longrightarrow>
     buckets (record_all xs s) ! i = buckets s ! i + of_nat (length (filter (\<lambda>x. bucket_index (Milliseconds (fst x)) = i) xs))"
proof (induction xs arbitrary: s)
  case (Cons x xs)
  then show ?case
    by (cases x) (auto simp: record_stage_def recordBucket_def nth_list_update algebra_simps)
qed simp

lemma sum_list_bounds:
  "(\<forall>x \<in> set xs. lo \<le> f x \<and> f x \<le> hi) \<Longrightarrow> int (length xs) * lo \<le> (\<Sum>x\<leftarrow>xs. f x) \<and> (\<Sum>x\<leftarrow>xs. f x) \<le> int (length xs) * hi"
  by (induction xs) (auto simp: algebra_simps)

lemma sint_of_int64: "0 \<le> x \<Longrightarrow> x < 2 ^ 63 \<Longrightarrow> sint (word_of_int x :: counter) = x"
  by (simp only: signed_of_int signed_take_bit_int_eq_self) (simp add: signed_take_bit_int_eq_self)

subsection \<open>Properties\<close>

text \<open>
  the histogram accounts for every request: after any recorded requests the counters hold, modulo
  their width, the number of requests and of errors, bucket by bucket the number of requests whose
  latency falls into it; and as long as the total time fits the counter, the average shown lies
  between the smallest and the largest latency.
\<close>

theorem stage_accounts:
  assumes "s = record_all xs new_stage"
  shows "requests s = of_nat (length xs) \<and> errors s = of_nat (length (filter snd xs)) \<and>
    (\<forall>i < 8. buckets s ! i = of_nat (length (filter (\<lambda>x. bucket_index (Milliseconds (fst x)) = i) xs))) \<and>
    (xs \<noteq> [] \<and> 0 \<le> lo \<and> (\<forall>x \<in> set xs. lo \<le> Milliseconds (fst x) \<and> Milliseconds (fst x) \<le> hi) \<and> int (length xs) * max 1 hi < 2 ^ 63
       \<longrightarrow> lo \<le> average s \<and> average s \<le> hi)"
proof (intro conjI allI impI)
  show "requests s = of_nat (length xs)" "errors s = of_nat (length (filter snd xs))"
    by (simp_all add: assms record_all_counts new_stage_def)
  show "buckets s ! i = of_nat (length (filter (\<lambda>x. bucket_index (Milliseconds (fst x)) = i) xs))" if "i < 8" for i
    using that by (simp add: assms record_all_buckets new_stage_def)
  assume a: "xs \<noteq> [] \<and> 0 \<le> lo \<and> (\<forall>x \<in> set xs. lo \<le> Milliseconds (fst x) \<and> Milliseconds (fst x) \<le> hi) \<and> int (length xs) * max 1 hi < 2 ^ 63"
  define n where "n = int (length xs)"
  define t where "t = (\<Sum>x\<leftarrow>xs. Milliseconds (fst x))"
  have n: "0 < n" "n * max 1 hi < 2 ^ 63" using a by (simp_all add: n_def)
  have b: "n * lo \<le> t" "t \<le> n * hi" using sum_list_bounds [of xs lo "\<lambda>x. Milliseconds (fst x)" hi] a by (simp_all add: n_def t_def)
  have t0: "0 \<le> t" using b(1) n(1) a by (meson mult_nonneg_nonneg less_imp_le order_trans)
  have "t \<le> n * max 1 hi" "n \<le> n * max 1 hi" using b(2) n(1) by (auto intro: order_trans simp: mult_left_mono)
  then have "t < 2 ^ 63" "n < 2 ^ 63" using n(2) by linarith+
  then have "sint (totalMs s) = t" "sint (requests s) = n"
    using t0 n(1) sint_of_int64 [of t] sint_of_int64 [of n]
    by (simp_all add: assms record_all_counts new_stage_def t_def [symmetric] n_def)
  then have "average s = t div n" using t0 n(1) by (simp add: average_def go_div_def sgn_if)
  moreover have "lo \<le> t div n" "t div n \<le> hi"
    using zdiv_mono1 [OF b(1) n(1)] zdiv_mono1 [OF b(2) n(1)] n(1) by simp_all
  ultimately show "lo \<le> average s" "average s \<le> hi" by simp_all
qed

theorem stage_accounts_witness:
  "100 \<le> average (record_all [(100 * millisecond, False), (300 * millisecond, True)] new_stage)"
proof -
  have "Milliseconds (100 * millisecond) = 100" "Milliseconds (300 * millisecond) = 300"
    by (simp_all add: Milliseconds_def millisecond_def go_div_def)
  then show ?thesis
    using stage_accounts [OF refl, of "[(100 * millisecond, False), (300 * millisecond, True)]" 100 300] by simp
qed

end
