(* ===== verification/Siprec_Meta.thy ===== *)
theory Siprec_Meta
  imports Prelude
begin

text \<open>
  Metadata of a recorded call, \<open>gateway/siprec_meta.go\<close>: labelling of the media streams and the
  resolved context. Decoding the XML is the work of the standard library and the decoded structure is
  the input here; the parsing of the start time is a parameter.
\<close>

subsection \<open>Data\<close>

record SessionInfo =
  si_ID :: string
  si_StartTime :: string

record SIPRECParticipant =
  sp_ID :: string
  sp_Name :: string
  sp_AOR :: string

record SIPRECStream =
  st_ID :: string
  st_ParticipantID :: string
  st_Label :: string

record RecordingSession =
  rs_Session :: "SessionInfo option"
  rs_Participants :: "SIPRECParticipant list"
  rs_Streams :: "SIPRECStream list"

record StreamInfo =
  sf_StreamID :: string
  sf_ParticipantID :: string
  sf_Label :: string

record SIPRECSessionContext =
  sc_SessionID :: string
  sc_StartTime :: instant
  sc_Participants :: "string \<rightharpoonup> string"
  sc_Streams :: "StreamInfo list"
  sc_CallerStream :: "StreamInfo option"
  sc_AgentStream :: "StreamInfo option"

definition ParseSIPRECMetadata :: "(string \<Rightarrow> string + RecordingSession) \<Rightarrow> string \<Rightarrow> string + RecordingSession" where
  "ParseSIPRECMetadata unmarshal_xml xmlData = unmarshal_xml xmlData"

subsection \<open>Operations\<close>

definition stream_label :: "nat \<Rightarrow> SIPRECStream \<Rightarrow> string" where
  "stream_label i s = (if st_Label s = '''' then (if i = 0 then ''caller'' else ''agent'') else st_Label s)"

definition ExtractStreams :: "RecordingSession \<Rightarrow> StreamInfo list" where
  "ExtractStreams rs =
     map (\<lambda>(i, s). \<lparr>sf_StreamID = st_ID s, sf_ParticipantID = st_ParticipantID s, sf_Label = stream_label i s\<rparr>) (enumerate 0 (rs_Streams rs))"

definition participant_name :: "SIPRECParticipant \<Rightarrow> string" where
  "participant_name p = (if sp_Name p = '''' then sp_AOR p else sp_Name p)"

definition add_participant :: "SIPRECParticipant \<Rightarrow> (string \<rightharpoonup> string) \<Rightarrow> (string \<rightharpoonup> string)" where
  "add_participant p m = m(sp_ID p \<mapsto> participant_name p)"

definition mark_stream :: "StreamInfo \<Rightarrow> StreamInfo option \<times> StreamInfo option \<Rightarrow> StreamInfo option \<times> StreamInfo option" where
  "mark_stream s ca = (let (c, a) = ca in
     if sf_Label s = ''caller'' then (Some s, a) else if sf_Label s = ''agent'' then (c, Some s) else (c, a))"

definition BuildContext :: "(string \<Rightarrow> instant option) \<Rightarrow> RecordingSession \<Rightarrow> SIPRECSessionContext" where
  "BuildContext parse_time rs =
     (let (sid, start) = (case rs_Session rs of
            None \<Rightarrow> ('''', 0) | Some s \<Rightarrow> (si_ID s, case parse_time (si_StartTime s) of Some t \<Rightarrow> t | None \<Rightarrow> 0));
          streams = ExtractStreams rs;
          (c, a) = fold mark_stream streams (None, None)
      in \<lparr>sc_SessionID = sid, sc_StartTime = start, sc_Participants = fold add_participant (rs_Participants rs) Map.empty,
          sc_Streams = streams, sc_CallerStream = c, sc_AgentStream = a\<rparr>)"

subsection \<open>Lemmas\<close>

definition last_labelled :: "string \<Rightarrow> StreamInfo list \<Rightarrow> StreamInfo option" where
  "last_labelled l ss = (case rev (filter (\<lambda>s. sf_Label s = l) ss) of [] \<Rightarrow> None | s # _ \<Rightarrow> Some s)"

lemma last_labelled_Nil [simp]: "last_labelled l [] = None"
  by (simp add: last_labelled_def)

lemma last_labelled_snoc [simp]: "last_labelled l (ss @ [s]) = (if sf_Label s = l then Some s else last_labelled l ss)"
  by (simp add: last_labelled_def)

lemma mark_streams: "fold mark_stream ss (None, None) = (last_labelled ''caller'' ss, last_labelled ''agent'' ss)"
  by (induction ss rule: rev_induct) (auto simp: mark_stream_def)

lemma length_ExtractStreams [simp]: "length (ExtractStreams rs) = length (rs_Streams rs)"
  by (simp add: ExtractStreams_def)

lemma nth_ExtractStreams:
  "i < length (rs_Streams rs) \<Longrightarrow> ExtractStreams rs ! i = \<lparr>sf_StreamID = st_ID (rs_Streams rs ! i),
     sf_ParticipantID = st_ParticipantID (rs_Streams rs ! i), sf_Label = stream_label i (rs_Streams rs ! i)\<rparr>"
  by (simp add: ExtractStreams_def nth_enumerate_eq)

lemma add_participants:
  "fold add_participant ps m i = (case rev (filter (\<lambda>p. sp_ID p = i) ps) of [] \<Rightarrow> m i | p # _ \<Rightarrow> Some (participant_name p))"
  by (induction ps rule: rev_induct) (auto simp: add_participant_def)

subsection \<open>Properties\<close>

text \<open>
  every stream keeps its place and the two legs are found: the context lists the streams of the
  metadata in order; the caller's and the agent's stream are the last ones with that label; for two
  streams without labels they are the first and the second; and a participant's name is that of its
  last entry.
\<close>

theorem BuildContext_legs:
  assumes "BuildContext parse_time rs = ctx"
  shows "map sf_StreamID (sc_Streams ctx) = map st_ID (rs_Streams rs) \<and>
    sc_CallerStream ctx = last_labelled ''caller'' (sc_Streams ctx) \<and> sc_AgentStream ctx = last_labelled ''agent'' (sc_Streams ctx) \<and>
    (\<forall>a b. rs_Streams rs = [a, b] \<and> st_Label a = '''' \<and> st_Label b = '''' \<longrightarrow>
       map_option sf_StreamID (sc_CallerStream ctx) = Some (st_ID a) \<and> map_option sf_StreamID (sc_AgentStream ctx) = Some (st_ID b)) \<and>
    (\<forall>ps p qs. rs_Participants rs = ps @ p # qs \<and> sp_ID p \<notin> sp_ID ` set qs \<longrightarrow> sc_Participants ctx (sp_ID p) = Some (participant_name p))"
proof -
  have streams: "sc_Streams ctx = ExtractStreams rs" "sc_CallerStream ctx = last_labelled ''caller'' (ExtractStreams rs)"
    "sc_AgentStream ctx = last_labelled ''agent'' (ExtractStreams rs)" "sc_Participants ctx = fold add_participant (rs_Participants rs) Map.empty"
    using assms by (auto simp: BuildContext_def mark_streams Let_def split: prod.splits)
  have "map sf_StreamID (ExtractStreams rs) = map st_ID (rs_Streams rs)"
    by (rule nth_equalityI) (simp_all add: nth_ExtractStreams)
  moreover have "map_option sf_StreamID (last_labelled ''caller'' (ExtractStreams rs)) = Some (st_ID a) \<and>
      map_option sf_StreamID (last_labelled ''agent'' (ExtractStreams rs)) = Some (st_ID b)"
    if "rs_Streams rs = [a, b]" "st_Label a = ''''" "st_Label b = ''''" for a b
    using that by (simp add: ExtractStreams_def stream_label_def last_labelled_def)
  moreover have "fold add_participant (rs_Participants rs) Map.empty (sp_ID p) = Some (participant_name p)"
    if "rs_Participants rs = ps @ p # qs" "sp_ID p \<notin> sp_ID ` set qs" for ps p qs
  proof -
    have "filter (\<lambda>q. sp_ID q = sp_ID p) qs = []" using that(2) by (auto simp: filter_empty_conv rev_image_eqI)
    then show ?thesis by (simp add: add_participants that(1) del: fold_append fold.simps)
  qed
  ultimately show ?thesis unfolding streams by blast
qed

theorem BuildContext_legs_witness:
  "map_option sf_StreamID (sc_AgentStream (BuildContext (\<lambda>_. None) \<lparr>rs_Session = None, rs_Participants = [],
     rs_Streams = [\<lparr>st_ID = ''1'', st_ParticipantID = '''', st_Label = ''''\<rparr>, \<lparr>st_ID = ''2'', st_ParticipantID = '''', st_Label = ''''\<rparr>]\<rparr>)) = Some ''2''"
proof -
  define rs where "rs = \<lparr>rs_Session = None, rs_Participants = [],
     rs_Streams = [\<lparr>st_ID = ''1'', st_ParticipantID = '''', st_Label = ''''\<rparr>, \<lparr>st_ID = ''2'', st_ParticipantID = '''', st_Label = ''''\<rparr>]\<rparr>"
  have "rs_Streams rs = [\<lparr>st_ID = ''1'', st_ParticipantID = '''', st_Label = ''''\<rparr>, \<lparr>st_ID = ''2'', st_ParticipantID = '''', st_Label = ''''\<rparr>]"
    by (simp add: rs_def)
  then have "map_option sf_StreamID (sc_AgentStream (BuildContext (\<lambda>_. None) rs)) = Some ''2''"
    using BuildContext_legs [OF refl, of "\<lambda>_. None" rs] by fastforce
  then show ?thesis unfolding rs_def .
qed

end
