(* ===== verification/Llm.thy ===== *)
theory Llm
  imports Speech_Text
begin

text \<open>
  The clients of the language models, \<open>gateway/llm.go\<close>: Claude and Gemini behind one interface, with
  the request each builds from a conversation and what it makes of the answer, in one piece or as a
  stream. The HTTP client, the token source and the JSON decoders are parameters. Without credentials
  the token source is a nil pointer, which is a panic, \<open>None\<close>.
\<close>

subsection \<open>Clients\<close>

record LLMMessage =
  lm_Role :: string
  lm_Content :: string

record LLMProvider =
  creds :: "(string + string) option"
  projectID :: string
  region :: string

datatype LLMClient = ClaudeClient LLMProvider string | GeminiClient LLMProvider string

definition Client :: "LLMProvider \<Rightarrow> string \<Rightarrow> string \<Rightarrow> LLMClient" where
  "Client p provider model = (if provider = ''gemini-vertex'' then GeminiClient p model else ClaudeClient p model)"

fun Client_Name :: "LLMClient \<Rightarrow> string" where
  "Client_Name (ClaudeClient _ model) = ''claude:'' @ model"
| "Client_Name (GeminiClient _ model) = ''gemini:'' @ model"

definition token :: "LLMProvider \<Rightarrow> (string + string) option" where
  "token p = map_option (\<lambda>t. case t of Inl err \<Rightarrow> Inl (''gcp token: '' @ err) | Inr tok \<Rightarrow> Inr tok) (creds p)"

subsection \<open>Requests\<close>

record llm_request =
  lr_url :: string
  lr_token :: string
  lr_messages :: "(string \<times> string) list"
  lr_system :: "string option"
  lr_maxTokens :: int
  lr_stream :: bool

definition vertex_url :: "LLMProvider \<Rightarrow> string \<Rightarrow> string \<Rightarrow> string \<Rightarrow> string" where
  "vertex_url p publisher model verb_name =
     ''https://'' @ region p @ ''-aiplatform.googleapis.com/v1/projects/'' @ projectID p @ ''/locations/'' @ region p
     @ ''/publishers/'' @ publisher @ ''/models/'' @ model @ '':'' @ verb_name"

definition claude_request :: "bool \<Rightarrow> LLMProvider \<Rightarrow> string \<Rightarrow> string \<Rightarrow> LLMMessage list \<Rightarrow> string \<Rightarrow> int \<Rightarrow> llm_request" where
  "claude_request stream p model tok ms systemPrompt maxTokens =
     \<lparr>lr_url = vertex_url p ''anthropic'' model (if stream then ''streamRawPredict'' else ''rawPredict''), lr_token = tok,
      lr_messages = map (\<lambda>m. (lm_Role m, lm_Content m)) ms, lr_system = Some systemPrompt, lr_maxTokens = maxTokens, lr_stream = stream\<rparr>"

definition gemini_role :: "string \<Rightarrow> string" where
  "gemini_role role = (if role = ''assistant'' then ''model'' else role)"

definition gemini_request :: "bool \<Rightarrow> LLMProvider \<Rightarrow> string \<Rightarrow> string \<Rightarrow> LLMMessage list \<Rightarrow> string \<Rightarrow> int \<Rightarrow> llm_request" where
  "gemini_request stream p model tok ms systemPrompt maxTokens =
     \<lparr>lr_url = vertex_url p ''google'' model (if stream then ''streamGenerateContent?alt=sse'' else ''generateContent''), lr_token = tok,
      lr_messages = map (\<lambda>m. (gemini_role (lm_Role m), lm_Content m)) ms,
      lr_system = (if systemPrompt \<noteq> '''' then Some systemPrompt else None), lr_maxTokens = maxTokens, lr_stream = stream\<rparr>"

text \<open>
  What all four operations do around the body of the answer: get a token, send, refuse any status but
  200. \<open>send\<close> gives an error or the status and the body.
\<close>

definition call_model ::
  "(llm_request \<Rightarrow> string + nat \<times> string) \<Rightarrow> string \<Rightarrow> LLMProvider \<Rightarrow> (string \<Rightarrow> llm_request) \<Rightarrow> (string + string) option" where
  "call_model send who p req =
     map_option (\<lambda>t. case t of
         Inl err \<Rightarrow> Inl err
       | Inr tok \<Rightarrow>
           (case send (req tok) of
              Inl err \<Rightarrow> Inl err
            | Inr (code, body) \<Rightarrow> if code \<noteq> 200 then Inl (who @ '' '' @ dec code @ '': '' @ body) else Inr body)) (token p)"

definition on_body :: "('a \<Rightarrow> string + 'b) \<Rightarrow> (string + 'a) option \<Rightarrow> (string + 'b) option" where
  "on_body f r = map_option (\<lambda>x. case x of Inl err \<Rightarrow> Inl err | Inr b \<Rightarrow> f b) r"

subsection \<open>Answers\<close>

text \<open>
  The decoders give the texts of the content blocks and the texts of the parts of the candidates; a
  body that is not JSON decodes to none. The stream decoder of Claude is the one of \<open>main.go\<close>.
\<close>

record llm_env =
  en_send :: "llm_request \<Rightarrow> string + nat \<times> string"
  en_claude :: "string \<Rightarrow> string list"
  en_gemini :: "string \<Rightarrow> string list list"
  en_claude_event :: "string \<Rightarrow> stream_event option"
  en_gemini_event :: "string \<Rightarrow> string list list option"

definition claude_text :: "llm_env \<Rightarrow> string \<Rightarrow> string + string" where
  "claude_text env body = (case en_claude env body of [] \<Rightarrow> Inl ''empty response'' | t # _ \<Rightarrow> Inr t)"

definition gemini_text :: "llm_env \<Rightarrow> string \<Rightarrow> string + string" where
  "gemini_text env body = (case en_gemini env body of (t # _) # _ \<Rightarrow> Inr t | _ \<Rightarrow> Inl ''empty response'')"

fun claude_deltas :: "(string \<Rightarrow> stream_event option) \<Rightarrow> string list \<Rightarrow> string list" where
  "claude_deltas decode [] = []"
| "claude_deltas decode (line # ls) =
     (case classify_line decode line of Skip \<Rightarrow> claude_deltas decode ls | Stop \<Rightarrow> [] | Delta t \<Rightarrow> t # claude_deltas decode ls)"

definition gemini_line :: "(string \<Rightarrow> string list list option) \<Rightarrow> string \<Rightarrow> string list" where
  "gemini_line decode line =
     (if \<not> has_prefix line ''data: '' then []
      else case decode (trim_prefix line ''data: '') of Some ((t # _) # _) \<Rightarrow> [t] | _ \<Rightarrow> [])"

definition gemini_deltas :: "(string \<Rightarrow> string list list option) \<Rightarrow> string list \<Rightarrow> string list" where
  "gemini_deltas decode ls = concat (map (gemini_line decode) ls)"

subsection \<open>Operations\<close>

definition Claude_Chat :: "llm_env \<Rightarrow> LLMProvider \<Rightarrow> string \<Rightarrow> LLMMessage list \<Rightarrow> string \<Rightarrow> int \<Rightarrow> (string + string) option" where
  "Claude_Chat env p model ms sys n =
     on_body (claude_text env) (call_model (en_send env) ''claude'' p (\<lambda>tok. claude_request False p model tok ms sys n))"

definition Claude_StreamChat :: "llm_env \<Rightarrow> LLMProvider \<Rightarrow> string \<Rightarrow> LLMMessage list \<Rightarrow> string \<Rightarrow> int \<Rightarrow> (string + string list) option" where
  "Claude_StreamChat env p model ms sys n =
     on_body (\<lambda>body. Inr (claude_deltas (en_claude_event env) (scan_lines body)))
       (call_model (en_send env) ''claude'' p (\<lambda>tok. claude_request True p model tok ms sys n))"

definition Gemini_Chat :: "llm_env \<Rightarrow> LLMProvider \<Rightarrow> string \<Rightarrow> LLMMessage list \<Rightarrow> string \<Rightarrow> int \<Rightarrow> (string + string) option" where
  "Gemini_Chat env p model ms sys n =
     on_body (gemini_text env) (call_model (en_send env) ''gemini'' p (\<lambda>tok. gemini_request False p model tok ms sys n))"

definition Gemini_StreamChat :: "llm_env \<Rightarrow> LLMProvider \<Rightarrow> string \<Rightarrow> LLMMessage list \<Rightarrow> string \<Rightarrow> int \<Rightarrow> (string + string list) option" where
  "Gemini_StreamChat env p model ms sys n =
     on_body (\<lambda>body. Inr (gemini_deltas (en_gemini_event env) (scan_lines body)))
       (call_model (en_send env) ''gemini'' p (\<lambda>tok. gemini_request True p model tok ms sys n))"

fun Chat :: "llm_env \<Rightarrow> LLMClient \<Rightarrow> LLMMessage list \<Rightarrow> string \<Rightarrow> int \<Rightarrow> (string + string) option" where
  "Chat env (ClaudeClient p model) ms sys n = Claude_Chat env p model ms sys n"
| "Chat env (GeminiClient p model) ms sys n = Gemini_Chat env p model ms sys n"

fun StreamChat :: "llm_env \<Rightarrow> LLMClient \<Rightarrow> LLMMessage list \<Rightarrow> string \<Rightarrow> int \<Rightarrow> (string + string list) option" where
  "StreamChat env (ClaudeClient p model) ms sys n = Claude_StreamChat env p model ms sys n"
| "StreamChat env (GeminiClient p model) ms sys n = Gemini_StreamChat env p model ms sys n"

subsection \<open>The interface\<close>

text \<open>
  What a caller of \<open>LLMClient\<close> may rely on: as long as the server answers every request alike, the
  streaming operation fails with an error only if the plain one fails with the same error, both panic
  together, and a request leaves the gateway only with a token.
\<close>

locale llm_client =
  fixes chat :: "llm_env \<Rightarrow> LLMMessage list \<Rightarrow> string \<Rightarrow> int \<Rightarrow> (string + string) option"
    and stream :: "llm_env \<Rightarrow> LLMMessage list \<Rightarrow> string \<Rightarrow> int \<Rightarrow> (string + string list) option"
  assumes same_error: "(\<And>r r'. en_send env r = en_send env r') \<Longrightarrow> stream env ms sys n = Some (Inl err) \<Longrightarrow> chat env ms sys n = Some (Inl err)"
    and same_panic: "stream env ms sys n = None \<longleftrightarrow> chat env ms sys n = None"
begin

lemma answered_streams:
  assumes "\<And>r r'. en_send env r = en_send env r'" "chat env ms sys n = Some (Inr t)"
  shows "\<exists>ds. stream env ms sys n = Some (Inr ds)"
proof (cases "stream env ms sys n")
  case None
  then show ?thesis using assms(2) same_panic by simp
next
  case (Some r)
  then show ?thesis using assms same_error [OF assms(1)] by (cases r) auto
qed

end

lemma on_body_Inl: "on_body (\<lambda>b. Inr (f b)) r = Some (Inl err) \<longleftrightarrow> r = Some (Inl err)"
proof (cases r)
  case (Some x)
  then show ?thesis by (cases x) (simp_all add: on_body_def)
qed (simp add: on_body_def)

lemma on_body_None: "on_body f r = None \<longleftrightarrow> r = None"
  by (simp add: on_body_def)

lemma call_model_same:
  assumes "\<And>r r'. send r = send r'"
  shows "call_model send who p req = call_model send who p req'"
proof -
  have "send (req tok) = send (req' tok)" for tok by (rule assms)
  then show ?thesis by (simp add: call_model_def cong: sum.case_cong)
qed

lemma call_model_None: "call_model send who p req = None \<longleftrightarrow> creds p = None"
  by (simp add: call_model_def token_def)

interpretation claude: llm_client "\<lambda>env. Claude_Chat env p model" "\<lambda>env. Claude_StreamChat env p model"
proof
  fix env ms sys n err
  show "Claude_StreamChat env p model ms sys n = None \<longleftrightarrow> Claude_Chat env p model ms sys n = None"
    by (simp add: Claude_StreamChat_def Claude_Chat_def on_body_None call_model_None)
  assume same: "\<And>r r'. en_send env r = en_send env r'" and "Claude_StreamChat env p model ms sys n = Some (Inl err)"
  then have "call_model (en_send env) ''claude'' p (\<lambda>tok. claude_request True p model tok ms sys n) = Some (Inl err)"
    by (simp add: Claude_StreamChat_def on_body_Inl)
  moreover have "call_model (en_send env) ''claude'' p (\<lambda>tok. claude_request False p model tok ms sys n)
      = call_model (en_send env) ''claude'' p (\<lambda>tok. claude_request True p model tok ms sys n)"
    by (rule call_model_same [OF same])
  ultimately show "Claude_Chat env p model ms sys n = Some (Inl err)" by (simp add: Claude_Chat_def on_body_def)
qed

interpretation gemini: llm_client "\<lambda>env. Gemini_Chat env p model" "\<lambda>env. Gemini_StreamChat env p model"
proof
  fix env ms sys n err
  show "Gemini_StreamChat env p model ms sys n = None \<longleftrightarrow> Gemini_Chat env p model ms sys n = None"
    by (simp add: Gemini_StreamChat_def Gemini_Chat_def on_body_None call_model_None)
  assume same: "\<And>r r'. en_send env r = en_send env r'" and "Gemini_StreamChat env p model ms sys n = Some (Inl err)"
  then have "call_model (en_send env) ''gemini'' p (\<lambda>tok. gemini_request True p model tok ms sys n) = Some (Inl err)"
    by (simp add: Gemini_StreamChat_def on_body_Inl)
  moreover have "call_model (en_send env) ''gemini'' p (\<lambda>tok. gemini_request False p model tok ms sys n)
      = call_model (en_send env) ''gemini'' p (\<lambda>tok. gemini_request True p model tok ms sys n)"
    by (rule call_model_same [OF same])
  ultimately show "Gemini_Chat env p model ms sys n = Some (Inl err)" by (simp add: Gemini_Chat_def on_body_def)
qed

lemma concat_claude_deltas: "concat (claude_deltas decode ls) = read_deltas decode ls"
  by (induction ls) (auto split: line_kind.splits)

lemma Claude_StreamChat_sent:
  assumes "creds p = Some (Inr tok)"
  shows "map_option (map_sum id concat) (Claude_StreamChat env p model ms sys n)
    = Some (streamClaudeNoSplit (en_claude_event env) (en_send env (claude_request True p model tok ms sys n)))"
  using assms
  by (simp add: Claude_StreamChat_def call_model_def token_def on_body_def streamClaudeNoSplit_def concat_claude_deltas split: sum.splits prod.splits)

subsection \<open>Properties\<close>

text \<open>
  the clients are interchangeable: whichever provider a configuration names, a conversation the model
  answers is also answered as a stream by a server that treats both requests alike; for Claude the
  pieces of the stream, put together, are the text the speech pipeline reads from the same answer; and
  without credentials both operations panic.
\<close>

theorem clients_interchangeable:
  assumes "\<And>r r'. en_send env r = en_send env r'" "Chat env (Client p provider model) ms sys n = Some (Inr t)"
  shows "(\<exists>ds. StreamChat env (Client p provider model) ms sys n = Some (Inr ds)) \<and>
    (provider \<noteq> ''gemini-vertex'' \<longrightarrow>
       (\<exists>tok ds. creds p = Some (Inr tok) \<and> StreamChat env (Client p provider model) ms sys n = Some (Inr ds) \<and>
          streamClaudeNoSplit (en_claude_event env) (en_send env (claude_request True p model tok ms sys n)) = Inr (concat ds))) \<and>
    Chat env (Client (p\<lparr>creds := None\<rparr>) provider model) ms sys n = None"
proof (cases "provider = ''gemini-vertex''")
  case True
  then show ?thesis
    using gemini.answered_streams [OF assms(1), of p model ms sys n t] assms(2)
    by (simp add: Client_def Gemini_Chat_def on_body_def call_model_def token_def)
next
  case False
  then have c: "Claude_Chat env p model ms sys n = Some (Inr t)" using assms(2) by (simp add: Client_def)
  obtain ds where ds: "Claude_StreamChat env p model ms sys n = Some (Inr ds)" using claude.answered_streams [OF assms(1) c] by blast
  obtain tok where tok: "creds p = Some (Inr tok)"
  proof (cases "creds p")
    case (Some x)
    then show ?thesis using c that by (cases x) (simp_all add: Claude_Chat_def on_body_def call_model_def token_def)
  qed (use c in \<open>simp add: Claude_Chat_def on_body_def call_model_def token_def\<close>)
  have "streamClaudeNoSplit (en_claude_event env) (en_send env (claude_request True p model tok ms sys n)) = Inr (concat ds)"
    using Claude_StreamChat_sent [OF tok, of env model ms sys n] ds by simp
  then show ?thesis
    using False ds tok by (simp add: Client_def Claude_Chat_def on_body_def call_model_def token_def)
qed

definition example_llm_env :: llm_env where
  "example_llm_env = \<lparr>en_send = (\<lambda>_. Inr (200, ''hi'')), en_claude = (\<lambda>b. [b]), en_gemini = (\<lambda>b. [[b]]),
     en_claude_event = (\<lambda>_. None), en_gemini_event = (\<lambda>_. None)\<rparr>"

theorem clients_interchangeable_witness:
  "\<exists>ds. StreamChat example_llm_env (Client \<lparr>creds = Some (Inr ''tok''), projectID = ''p'', region = ''r''\<rparr> ''gemini-vertex'' ''m'') [] '''' 1 = Some (Inr ds)"
proof -
  have "Chat example_llm_env (Client \<lparr>creds = Some (Inr ''tok''), projectID = ''p'', region = ''r''\<rparr> ''gemini-vertex'' ''m'') [] '''' 1 = Some (Inr ''hi'')"
    by (simp add: Client_def Gemini_Chat_def on_body_def call_model_def token_def example_llm_env_def gemini_text_def)
  from clients_interchangeable [OF _ this] show ?thesis by (simp add: example_llm_env_def)
qed

text \<open>
  a conversation reaches the model unchanged: Gemini gets the same contents in the same order as
  Claude, with the role \<open>assistant\<close> renamed to \<open>model\<close> and every other role kept, and the system prompt
  unless it is empty.
\<close>

theorem conversation_unchanged:
  "map snd (lr_messages (gemini_request s p model tok ms sys n)) = map lm_Content ms \<and>
   lr_messages (claude_request s p model tok ms sys n) = map (\<lambda>m. (lm_Role m, lm_Content m)) ms \<and>
   (\<forall>i < length ms. fst (lr_messages (gemini_request s p model tok ms sys n) ! i)
      = (if lm_Role (ms ! i) = ''assistant'' then ''model'' else lm_Role (ms ! i))) \<and>
   lr_system (gemini_request s p model tok ms sys n) = (if sys = '''' then None else lr_system (claude_request s p model tok ms sys n))"
  by (simp add: gemini_request_def claude_request_def gemini_role_def comp_def)

theorem conversation_unchanged_witness:
  "fst (lr_messages (gemini_request False \<lparr>creds = None, projectID = '''', region = ''''\<rparr> ''m'' '''' [\<lparr>lm_Role = ''assistant'', lm_Content = ''x''\<rparr>] '''' 1) ! 0) = ''model''"
  using conversation_unchanged [of False "\<lparr>creds = None, projectID = '''', region = ''''\<rparr>" "''m''" "''''" "[\<lparr>lm_Role = ''assistant'', lm_Content = ''x''\<rparr>]" "''''" 1]
  by simp

end
