(* ===== verification/Api.thy ===== *)
theory Api
  imports Llm Rag Db Routing
begin

text \<open>
  The REST interface of the console, \<open>gateway/api.go\<close>, with the order in which its tables come into
  being (the migrations of \<open>RunMigrations\<close>, then \<open>initDB\<close>, of which the model keeps the documents table): agents, calls, documents, model
  configurations and statistics. Without a database the handlers answer with sample data. The outcome
  of a statement that can fail is a parameter; a column that may be \<open>NULL\<close> is an option; \<open>avg\<close> is the
  value scanned from \<open>AVG\<close>, \<open>None\<close> when the scan fails.
\<close>

subsection \<open>Tables\<close>

record api_agent =
  aa_id :: string
  aa_name :: string
  aa_email :: string
  aa_phone :: string
  aa_expertise :: "string list option"
  aa_status :: string
  aa_max_calls :: int
  aa_active_calls :: int
  aa_extension :: string
  aa_department :: string
  aa_languages :: "string list option"
  aa_priority :: int
  aa_current_calls :: int

record llm_row =
  lo_id :: string
  lo_name :: string
  lo_provider :: string
  lo_model :: string
  lo_region :: string
  lo_isDefault :: bool
  lo_maxTokens :: int
  lo_created :: instant

record doc_row =
  dr_id :: string
  dr_name :: string
  dr_type :: string
  dr_size :: nat
  dr_category :: string
  dr_chunks :: nat
  dr_status :: string
  dr_uploaded :: instant

text \<open>The documents table keeps its columns, since two places create it differently.\<close>

record api_db =
  ad_agents :: "api_agent list"
  ad_calls :: "CallRecord list"
  ad_doc_columns :: "string list option"
  ad_documents :: "doc_row list"
  ad_llm_configs :: "llm_row list"

definition create_if_not_exists :: "string list \<Rightarrow> string list option \<Rightarrow> string list option" where
  "create_if_not_exists cols t = (case t of None \<Rightarrow> Some cols | Some c \<Rightarrow> Some c)"

definition migration_documents :: "string list" where
  "migration_documents = [''id'', ''name'', ''category'', ''content'', ''chroma_id'', ''chunks'', ''status'', ''uploaded_at'']"

definition migrate_documents :: "api_db \<Rightarrow> api_db" where
  "migrate_documents d = d\<lparr>ad_doc_columns := create_if_not_exists migration_documents (ad_doc_columns d)\<rparr>"

definition init_documents :: "api_db \<Rightarrow> api_db" where
  "init_documents d = d\<lparr>ad_doc_columns := create_if_not_exists
     [''id'', ''name'', ''type'', ''size'', ''category'', ''chroma_id'', ''chunks'', ''status'', ''uploaded_at''] (ad_doc_columns d)\<rparr>"

definition has_columns :: "string list \<Rightarrow> api_db \<Rightarrow> bool" where
  "has_columns cols d \<longleftrightarrow> (case ad_doc_columns d of None \<Rightarrow> False | Some c \<Rightarrow> set cols \<subseteq> set c)"

subsection \<open>Agents\<close>

definition status_rank :: "string \<Rightarrow> nat" where
  "status_rank s = (if s = ''Available'' then 0 else if s = ''Busy'' then 1 else if s = ''On Break'' then 2 else if s = ''Wrap-up'' then 3 else 4)"

record listed_agent =
  la_id :: string
  la_name :: string
  la_status :: string
  la_expertise :: "string list"
  la_languages :: "string list"
  la_max_calls :: int
  la_active_calls :: int
  la_priority :: int

text \<open>A row whose arrays are \<open>NULL\<close> cannot be scanned and is skipped.\<close>

definition scan_agent :: "api_agent \<Rightarrow> listed_agent option" where
  "scan_agent a =
     (case (aa_expertise a, aa_languages a) of
        (Some e, Some l) \<Rightarrow>
          Some \<lparr>la_id = aa_id a, la_name = aa_name a, la_status = aa_status a, la_expertise = parsePostgresArray (arrayToPostgres e),
            la_languages = parsePostgresArray (arrayToPostgres l), la_max_calls = aa_max_calls a, la_active_calls = aa_current_calls a,
            la_priority = aa_priority a\<rparr>
      | _ \<Rightarrow> None)"

definition sample_agents :: "listed_agent list" where
  "sample_agents =
     [\<lparr>la_id = ''1'', la_name = ''Priya Sharma'', la_status = ''available'', la_expertise = [''billing'', ''retention''], la_languages = [],
       la_max_calls = 3, la_active_calls = 1, la_priority = 0\<rparr>,
      \<lparr>la_id = ''2'', la_name = ''Raj Patel'', la_status = ''busy'', la_expertise = [''technical''], la_languages = [],
       la_max_calls = 3, la_active_calls = 3, la_priority = 0\<rparr>]"

definition agent_order :: "api_agent list \<Rightarrow> api_agent list" where
  "agent_order as = sort_key (\<lambda>a. status_rank (aa_status a)) (sort_key aa_name as)"

definition listAgents :: "string option \<Rightarrow> api_db option \<Rightarrow> string + listed_agent list" where
  "listAgents fails dbo =
     (case dbo of
        None \<Rightarrow> Inr sample_agents
      | Some d \<Rightarrow> (case fails of Some err \<Rightarrow> Inl err | None \<Rightarrow> Inr (List.map_filter scan_agent (agent_order (ad_agents d)))))"

record agent_create =
  ac_Name :: string
  ac_Email :: string
  ac_Phone :: string
  ac_Expertise :: "string list option"

text \<open>
  The insert names the expertise column, so a request without one stores \<open>NULL\<close> and not the default;
  \<open>new_id\<close> is the generated key, \<open>fails\<close> an error of the statement.
\<close>

definition createAgent :: "string option \<Rightarrow> string \<Rightarrow> agent_create option \<Rightarrow> api_db option \<Rightarrow> api_db option \<times> json_obj response" where
  "createAgent fails new_id decoded dbo =
     (case decoded of
        None \<Rightarrow> (dbo, WriteJSON 400 [(''error'', ''invalid JSON'')])
      | Some req \<Rightarrow>
          (case dbo of
             None \<Rightarrow> (dbo, WriteJSON 200 [(''id'', ''mock-id''), (''name'', ac_Name req), (''status'', ''created'')])
           | Some d \<Rightarrow>
               if ac_Email req = '''' then (dbo, WriteJSON 400 [(''error'', ''email is required'')])
               else case fails of
                 Some err \<Rightarrow>
                   if str_contains err ''agents_email_unique'' \<or> str_contains err ''duplicate key''
                   then (dbo, WriteJSON 409 [(''error'', ''agent with this email already exists'')])
                   else (dbo, WriteJSON 500 [(''error'', err)])
               | None \<Rightarrow>
                   (Some (d\<lparr>ad_agents := ad_agents d @
                      [\<lparr>aa_id = new_id, aa_name = ac_Name req, aa_email = ac_Email req, aa_phone = ac_Phone req, aa_expertise = ac_Expertise req,
                        aa_status = ''Available'', aa_max_calls = 3, aa_active_calls = 0, aa_extension = '''', aa_department = ''Support'',
                        aa_languages = Some [''English''], aa_priority = 1, aa_current_calls = 0\<rparr>]\<rparr>),
                    WriteJSON 201 [(''id'', new_id), (''status'', ''created'')])))"

record agent_update =
  au_ID :: string
  au_Name :: string
  au_Email :: string
  au_Phone :: string
  au_Extension :: string
  au_Department :: string
  au_Expertise :: "string list option"
  au_Languages :: "string list option"
  au_Priority :: int
  au_MaxCalls :: int
  au_Status :: string

text \<open>The expressions of the update: empty texts, empty lists and numbers below one leave a column as it is.\<close>

definition new_text :: "string \<Rightarrow> string \<Rightarrow> string" where
  "new_text new old = (if new = '''' then old else new)"

definition new_list :: "string list option \<Rightarrow> string list option \<Rightarrow> string list option" where
  "new_list new old = (case new of Some (x # xs) \<Rightarrow> new | _ \<Rightarrow> old)"

definition new_number :: "int \<Rightarrow> int \<Rightarrow> int" where
  "new_number new old = (if new > 0 then new else old)"

definition apply_update :: "agent_update \<Rightarrow> api_agent \<Rightarrow> api_agent" where
  "apply_update u a =
     (if aa_id a = au_ID u
      then a\<lparr>aa_name := new_text (au_Name u) (aa_name a), aa_email := new_text (au_Email u) (aa_email a), aa_phone := new_text (au_Phone u) (aa_phone a),
             aa_extension := new_text (au_Extension u) (aa_extension a), aa_department := new_text (au_Department u) (aa_department a),
             aa_expertise := new_list (au_Expertise u) (aa_expertise a), aa_languages := new_list (au_Languages u) (aa_languages a),
             aa_priority := new_number (au_Priority u) (aa_priority a), aa_max_calls := new_number (au_MaxCalls u) (aa_max_calls a),
             aa_status := new_text (au_Status u) (aa_status a)\<rparr>
      else a)"

definition updateAgent :: "string option \<Rightarrow> agent_update option \<Rightarrow> api_db option \<Rightarrow> api_db option \<times> json_obj response" where
  "updateAgent fails decoded dbo =
     (case decoded of
        None \<Rightarrow> (dbo, WriteJSON 400 [(''error'', ''invalid JSON'')])
      | Some u \<Rightarrow>
          if au_ID u = '''' then (dbo, WriteJSON 400 [(''error'', ''id required'')])
          else case dbo of
            None \<Rightarrow> (dbo, WriteJSON 200 [(''status'', ''updated'')])
          | Some d \<Rightarrow>
              (case fails of
                 Some err \<Rightarrow> (dbo, WriteJSON 500 [(''error'', err)])
               | None \<Rightarrow> (Some (d\<lparr>ad_agents := map (apply_update u) (ad_agents d)\<rparr>), WriteJSON 200 [(''status'', ''updated'')])))"

text \<open>\<open>UpdateAgentStatus\<close> of \<open>gateway/db.go\<close>.\<close>

definition UpdateAgentStatus :: "string option \<Rightarrow> string \<Rightarrow> string \<Rightarrow> api_db option \<Rightarrow> api_db option \<times> string option" where
  "UpdateAgentStatus fails i st dbo =
     (case dbo of
        None \<Rightarrow> (None, None)
      | Some d \<Rightarrow>
          (case fails of
             Some err \<Rightarrow> (dbo, Some err)
           | None \<Rightarrow> (Some (d\<lparr>ad_agents := map (\<lambda>a. if aa_id a = i then a\<lparr>aa_status := st\<rparr> else a) (ad_agents d)\<rparr>), None)))"

definition deleteAgent :: "bool \<Rightarrow> string \<Rightarrow> api_db option \<Rightarrow> api_db option \<times> json_obj response" where
  "deleteAgent fails i dbo =
     (if i = '''' then (dbo, WriteJSON 400 [(''error'', ''id required'')])
      else (if fails then dbo else map_option (\<lambda>d. d\<lparr>ad_agents := filter (\<lambda>a. aa_id a \<noteq> i) (ad_agents d)\<rparr>) dbo,
            WriteJSON 200 [(''status'', ''deleted'')]))"

datatype agents_request = AgGet | AgPost "agent_create option" | AgPut "agent_update option" | AgDelete string | AgOther

definition handleAgents ::
  "string option \<Rightarrow> string \<Rightarrow> agents_request \<Rightarrow> api_db option \<Rightarrow> api_db option \<times> (listed_agent list + json_obj response)" where
  "handleAgents fails new_id rq dbo =
     (case rq of
        AgGet \<Rightarrow> (dbo, case listAgents fails dbo of Inl err \<Rightarrow> Inr (WriteJSON 500 [(''error'', err)]) | Inr as \<Rightarrow> Inl as)
      | AgPost r \<Rightarrow> map_prod id Inr (createAgent fails new_id r dbo)
      | AgPut r \<Rightarrow> map_prod id Inr (updateAgent fails r dbo)
      | AgDelete i \<Rightarrow> map_prod id Inr (deleteAgent (fails \<noteq> None) i dbo)
      | AgOther \<Rightarrow> (dbo, Inr (HttpError 405 ''{error: method not allowed}'')))"

subsection \<open>Calls and statistics\<close>

definition sample_calls :: "CallRecord list" where
  "sample_calls = [zero_call\<lparr>cr_ID := ''c1'', cr_CallerNumber := ''+1555999001'', cr_CalledNumber := ''1000'', cr_Mode := ''interactive'',
     cr_Status := ''completed'', cr_Duration := 312, cr_Sentiment := ''positive'', cr_Summary := ''Billing inquiry resolved''\<rparr>]"

definition handleCalls :: "string option \<Rightarrow> api_db option \<Rightarrow> string + CallRecord list" where
  "handleCalls fails dbo =
     (case dbo of
        None \<Rightarrow> Inr sample_calls
      | Some d \<Rightarrow> (case fails of Some err \<Rightarrow> Inl err | None \<Rightarrow> Inr (take 50 (sort_desc_by cr_StartTime (ad_calls d)))))"

definition handleActiveCalls :: "int \<Rightarrow> nat \<Rightarrow> int \<times> nat \<times> int" where
  "handleActiveCalls sessions copilot = (sessions, copilot, int copilot + sessions)"

record stats =
  sx_activeCalls :: int
  sx_totalToday :: nat
  sx_avgDuration :: int
  sx_positive :: nat
  sx_neutral :: nat
  sx_negative :: nat

definition today :: "instant \<Rightarrow> instant" where
  "today now = now - now mod (86400 * second)"

definition handleStats :: "(int list \<Rightarrow> int option) \<Rightarrow> instant \<Rightarrow> int \<Rightarrow> nat \<Rightarrow> api_db option \<Rightarrow> stats" where
  "handleStats avg now sessions copilot dbo =
     (case dbo of
        None \<Rightarrow> \<lparr>sx_activeCalls = int copilot + sessions, sx_totalToday = 0, sx_avgDuration = 0, sx_positive = 0, sx_neutral = 0, sx_negative = 0\<rparr>
      | Some d \<Rightarrow>
          let cs = filter (\<lambda>c. cr_StartTime c \<ge> today now) (ad_calls d) in
          \<lparr>sx_activeCalls = int copilot + sessions, sx_totalToday = length cs,
           sx_avgDuration = (case avg (map cr_Duration cs) of Some a \<Rightarrow> a | None \<Rightarrow> 0),
           sx_positive = count_sentiment ''positive'' cs, sx_neutral = count_sentiment ''neutral'' cs, sx_negative = count_sentiment ''negative'' cs\<rparr>)"

definition Api_SaveCall :: "bool \<Rightarrow> CallRecord \<Rightarrow> api_db option \<Rightarrow> api_db option" where
  "Api_SaveCall fails c dbo = (if fails then dbo else map_option (\<lambda>d. d\<lparr>ad_calls := ad_calls d @ [c]\<rparr>) dbo)"

subsection \<open>Documents\<close>

definition sample_documents :: "doc_row list" where
  "sample_documents = [\<lparr>dr_id = ''d1'', dr_name = ''Insurance Policy v4.2'', dr_type = ''pdf'', dr_size = 2400000, dr_category = ''policy'',
     dr_chunks = 48, dr_status = ''indexed'', dr_uploaded = 0\<rparr>]"

definition listDocuments :: "api_db option \<Rightarrow> string + doc_row list" where
  "listDocuments dbo =
     (case dbo of
        None \<Rightarrow> Inr sample_documents
      | Some d \<Rightarrow>
          if has_columns [''id'', ''name'', ''type'', ''size'', ''category'', ''chunks'', ''status'', ''uploaded_at''] d
          then Inr (sort_desc_by dr_uploaded (ad_documents d)) else Inl ''column does not exist'')"

definition insert_document :: "doc_row \<Rightarrow> api_db \<Rightarrow> api_db" where
  "insert_document r d =
     (if has_columns [''id'', ''name'', ''type'', ''size'', ''category'', ''chroma_id'', ''chunks'', ''status''] d \<and> dr_id r \<notin> dr_id ` set (ad_documents d)
      then d\<lparr>ad_documents := ad_documents d @ [r]\<rparr> else d)"

record upload_request =
  up_Name :: string
  up_Category :: string
  up_Content :: string

text \<open>
  \<open>ragx docID name content\<close> is \<open>IndexDocument\<close> with its chunk size of 500, when a vector store is
  configured; its error only leaves the number of chunks at zero.
\<close>

definition uploadDocument ::
  "(string \<Rightarrow> string \<Rightarrow> string \<Rightarrow> string + nat) option \<Rightarrow> nat \<Rightarrow> instant \<Rightarrow> upload_request option \<Rightarrow> api_db option
    \<Rightarrow> api_db option \<times> json_obj response" where
  "uploadDocument ragx millis now decoded dbo =
     (case decoded of
        None \<Rightarrow> (dbo, WriteJSON 400 [(''error'', ''invalid JSON'')])
      | Some req \<Rightarrow>
          let docID = ''doc_'' @ dec millis;
              chunks = (case ragx of None \<Rightarrow> 0 | Some f \<Rightarrow> (case f docID (up_Name req) (up_Content req) of Inl _ \<Rightarrow> 0 | Inr n \<Rightarrow> n))
          in (map_option (insert_document \<lparr>dr_id = docID, dr_name = up_Name req, dr_type = ''txt'', dr_size = length (up_Content req),
                dr_category = up_Category req, dr_chunks = chunks, dr_status = ''indexed'', dr_uploaded = now\<rparr>) dbo,
              WriteJSON 201 [(''id'', docID), (''name'', up_Name req), (''chunks'', dec chunks), (''status'', ''indexed'')]))"

definition rag_index ::
  "(string \<Rightarrow> real list) \<Rightarrow> string + string \<Rightarrow> (string \<Rightarrow> chunk_doc list \<Rightarrow> string + nat \<times> string) \<Rightarrow> string \<Rightarrow> string \<Rightarrow> string \<Rightarrow> string + nat" where
  "rag_index emb_of collection add docID name body = snd (the (IndexDocument emb_of collection add docID name body 500))"

datatype documents_request = DocGet | DocPost "upload_request option" | DocOther

definition handleDocuments ::
  "(string \<Rightarrow> string \<Rightarrow> string \<Rightarrow> string + nat) option \<Rightarrow> nat \<Rightarrow> instant \<Rightarrow> documents_request \<Rightarrow> api_db option
    \<Rightarrow> api_db option \<times> (doc_row list + json_obj response)" where
  "handleDocuments ragx millis now rq dbo =
     (case rq of
        DocGet \<Rightarrow> (dbo, case listDocuments dbo of Inl err \<Rightarrow> Inr (WriteJSON 500 [(''error'', err)]) | Inr ds \<Rightarrow> Inl ds)
      | DocPost r \<Rightarrow> map_prod id Inr (uploadDocument ragx millis now r dbo)
      | DocOther \<Rightarrow> (dbo, Inr (HttpError 405 ''{error: method not allowed}'')))"

text \<open>\<open>search query k\<close> is \<open>Query\<close> of the vector store.\<close>

definition handleDocSearch :: "(string \<Rightarrow> int \<Rightarrow> string + RAGChunk list) option \<Rightarrow> string \<Rightarrow> int \<Rightarrow> string + RAGChunk list" where
  "handleDocSearch search query topK =
     (let k = (if topK \<le> 0 then 3 else topK) in case search of None \<Rightarrow> Inr [] | Some f \<Rightarrow> f query k)"

definition GetRAGContext :: "(real \<Rightarrow> string) \<Rightarrow> (string \<Rightarrow> int \<Rightarrow> string + RAGChunk list) option \<Rightarrow> string \<Rightarrow> string" where
  "GetRAGContext percent search query =
     (case search of None \<Rightarrow> '''' | Some f \<Rightarrow> the (BuildRAGContext percent (Some (f query 3))))"

subsection \<open>Model configurations\<close>

definition sample_llm_configs :: "llm_row list" where
  "sample_llm_configs =
     [\<lparr>lo_id = ''l1'', lo_name = ''Claude Haiku'', lo_provider = ''anthropic-vertex'', lo_model = ''claude-3-5-haiku@20241022'', lo_region = ''us-east5'',
       lo_isDefault = True, lo_maxTokens = 512, lo_created = 0\<rparr>,
      \<lparr>lo_id = ''l2'', lo_name = ''Gemini Flash'', lo_provider = ''gemini-vertex'', lo_model = ''gemini-2.0-flash'', lo_region = ''us-central1'',
       lo_isDefault = False, lo_maxTokens = 1024, lo_created = 0\<rparr>]"

datatype llm_configs_request = LcGet | LcPost string string string string | LcOther

definition handleLLMConfigs ::
  "string option \<Rightarrow> string \<Rightarrow> instant \<Rightarrow> llm_configs_request \<Rightarrow> api_db option \<Rightarrow> api_db option \<times> (llm_row list + json_obj response)" where
  "handleLLMConfigs fails new_id now rq dbo =
     (case rq of
        LcGet \<Rightarrow>
          (dbo, case dbo of
                 None \<Rightarrow> Inl sample_llm_configs
               | Some d \<Rightarrow> (case fails of Some err \<Rightarrow> Inr (WriteJSON 500 [(''error'', err)]) | None \<Rightarrow> Inl (sort_key lo_created (ad_llm_configs d))))
      | LcPost name provider model rgn \<Rightarrow>
          (if fails = None
           then map_option (\<lambda>d. d\<lparr>ad_llm_configs := ad_llm_configs d @
             [\<lparr>lo_id = new_id, lo_name = name, lo_provider = provider, lo_model = model, lo_region = rgn, lo_isDefault = False, lo_maxTokens = 512,
               lo_created = now\<rparr>]\<rparr>) dbo
           else dbo, Inr (WriteJSON 201 [(''status'', ''created'')]))
      | LcOther \<Rightarrow> (dbo, Inr (HttpError 405 ''{error: method not allowed}'')))"

definition handleLLMTest :: "llm_env \<Rightarrow> LLMProvider \<Rightarrow> nat \<Rightarrow> string \<Rightarrow> string \<Rightarrow> string \<Rightarrow> json_obj response option" where
  "handleLLMTest env p latency provider model prompt0 =
     (let prompt = (if prompt0 = '''' then ''Say hello in one sentence.'' else prompt0); client = Client p provider model in
      map_option (\<lambda>r. case r of
          Inl err \<Rightarrow> WriteJSON 502 [(''error'', err), (''latency'', dec latency), (''model'', Client_Name client)]
        | Inr t \<Rightarrow> WriteJSON 200 [(''response'', t), (''latency'', dec latency), (''model'', Client_Name client)])
        (Chat env client [\<lparr>lm_Role = ''user'', lm_Content = prompt\<rparr>] ''You are a helpful assistant.'' 256))"

subsection \<open>Lemmas\<close>

lemma aa_id_apply_update [simp]: "aa_id (apply_update u a) = aa_id a"
  by (simp add: apply_update_def)

lemma migrated_columns:
  "ad_doc_columns d = None \<Longrightarrow> ad_doc_columns (init_documents (migrate_documents d)) = Some migration_documents"
  by (simp add: init_documents_def migrate_documents_def create_if_not_exists_def)

lemma set_agent_order [simp]: "set (agent_order as) = set as"
  by (simp add: agent_order_def)

lemma sorted_sort_key_map_filter:
  assumes "\<And>x y. f x = Some y \<Longrightarrow> g y = k x"
  shows "sorted (map k xs) \<Longrightarrow> sorted (map g (List.map_filter f xs))"
proof (induction xs)
  case (Cons x xs)
  have "\<forall>y \<in> set (List.map_filter f xs). \<exists>z \<in> set xs. g y = k z"
    using assms by (force simp: map_filter_def)
  then show ?case using Cons assms by (auto simp: map_filter_simps split: option.splits)
qed (simp add: map_filter_simps)

lemma scan_agent_fields: "scan_agent a = Some l \<Longrightarrow> la_id l = aa_id a \<and> la_status l = aa_status a"
  by (auto simp: scan_agent_def split: option.splits prod.splits)

abbreviation listable :: "api_agent \<Rightarrow> bool" where
  "listable a \<equiv> aa_expertise a \<noteq> None \<and> aa_languages a \<noteq> None"

lemma map_la_id: "map la_id (List.map_filter scan_agent xs) = map aa_id (filter listable xs)"
  by (induction xs) (auto simp: map_filter_simps scan_agent_def split: option.splits)

lemma listed_ids:
  "listAgents None (Some d) = Inr ls \<Longrightarrow> set (map la_id ls) = aa_id ` {a \<in> set (ad_agents d). listable a}"
  unfolding listAgents_def by (auto simp: map_la_id simp del: set_map) auto

lemma languages_apply_update: "aa_languages a \<noteq> None \<Longrightarrow> aa_languages (apply_update u a) \<noteq> None"
  by (auto simp: apply_update_def new_list_def split: option.splits list.splits)

lemma count_sentiments:
  "count_sentiment ''positive'' cs + count_sentiment ''neutral'' cs + count_sentiment ''negative'' cs \<le> length cs"
  by (induction cs) (auto simp: count_sentiment_def)

subsection \<open>Properties\<close>

text \<open>
  an uploaded document is lost to the console: the migrations create the documents table without the
  columns of type and size, and the later statement of the interface finds the table present; so an
  upload is answered with 201 and the status indexed, but its row is not stored, and the listing of
  documents answers with an error of the database.
\<close>

theorem uploaded_document_unlisted:
  assumes "ad_doc_columns d = None" "uploadDocument ragx millis now (Some req) (Some (init_documents (migrate_documents d))) = (Some d', r)"
  shows "status r = 201 \<and> ad_documents d' = ad_documents d \<and> (\<exists>err. listDocuments (Some d') = Inl err)"
proof -
  let ?d = "init_documents (migrate_documents d)"
  have no: "\<not> has_columns cols ?d" if "''type'' \<in> set cols" for cols
    using that migrated_columns [OF assms(1)] by (auto simp: has_columns_def migration_documents_def)
  then have ins: "insert_document row ?d = ?d" for row by (simp add: insert_document_def)
  have "d' = ?d" "status r = 201" using assms(2) by (auto simp: uploadDocument_def Let_def ins)
  then show ?thesis using no by (simp add: listDocuments_def) (simp add: init_documents_def migrate_documents_def)
qed

definition empty_api :: api_db where
  "empty_api = \<lparr>ad_agents = [], ad_calls = [], ad_doc_columns = None, ad_documents = [], ad_llm_configs = []\<rparr>"

theorem uploaded_document_unlisted_witness:
  "\<exists>d' r. uploadDocument None 1 0 (Some \<lparr>up_Name = ''n'', up_Category = '''', up_Content = ''text''\<rparr>) (Some (init_documents (migrate_documents empty_api))) = (Some d', r)
     \<and> status r = 201 \<and> ad_documents d' = []"
proof -
  let ?req = "\<lparr>up_Name = ''n'', up_Category = '''', up_Content = ''text''\<rparr>"
  obtain d' r where r: "uploadDocument None 1 0 (Some ?req) (Some (init_documents (migrate_documents empty_api))) = (Some d', r)"
    by (simp add: uploadDocument_def Let_def)
  have "ad_doc_columns empty_api = None" by (simp add: empty_api_def)
  from uploaded_document_unlisted [OF this r] r show ?thesis by (auto simp: empty_api_def)
qed

text \<open>
  the listing shows the agents in the order of their availability: every agent whose arrays are set is
  listed once, the available ones first, and no other.
\<close>

theorem listAgents_order:
  assumes "listAgents None (Some d) = Inr ls" "distinct (map aa_id (ad_agents d))"
  shows "sorted (map (status_rank \<circ> la_status) ls) \<and> distinct (map la_id ls) \<and>
    set (map la_id ls) = aa_id ` {a \<in> set (ad_agents d). aa_expertise a \<noteq> None \<and> aa_languages a \<noteq> None}"
proof -
  have ls: "ls = List.map_filter scan_agent (agent_order (ad_agents d))" using assms(1) by (simp add: listAgents_def)
  have "sorted (map (\<lambda>a. status_rank (aa_status a)) (agent_order (ad_agents d)))" by (simp add: agent_order_def)
  then have "sorted (map (status_rank \<circ> la_status) ls)"
    unfolding ls by (rule sorted_sort_key_map_filter [rotated]) (simp add: scan_agent_fields)
  moreover have "distinct (map la_id ls)"
    using assms(2) unfolding ls map_la_id by (simp add: agent_order_def distinct_map distinct_map_filter inj_on_def)
  moreover note listed_ids [OF assms(1)]
  ultimately show ?thesis by blast
qed

definition example_api_agent :: api_agent where
  "example_api_agent = \<lparr>aa_id = ''a'', aa_name = ''A'', aa_email = ''a@x'', aa_phone = '''', aa_expertise = Some [''billing''], aa_status = ''Available'',
     aa_max_calls = 3, aa_active_calls = 0, aa_extension = '''', aa_department = ''Support'', aa_languages = Some [''English''], aa_priority = 1,
     aa_current_calls = 0\<rparr>"

theorem listAgents_order_witness:
  "\<exists>ls. listAgents None (Some (empty_api\<lparr>ad_agents := [example_api_agent]\<rparr>)) = Inr ls \<and> set (map la_id ls) = {''a''}"
proof -
  obtain ls where l: "listAgents None (Some (empty_api\<lparr>ad_agents := [example_api_agent]\<rparr>)) = Inr ls" by (simp add: listAgents_def)
  have "distinct (map aa_id (ad_agents (empty_api\<lparr>ad_agents := [example_api_agent]\<rparr>)))" by simp
  note r = listAgents_order [OF l this]
  have e: "aa_id example_api_agent = ''a''" "listable example_api_agent" by (simp_all add: example_api_agent_def)
  have "{a \<in> set (ad_agents (empty_api\<lparr>ad_agents := [example_api_agent]\<rparr>)). listable a} = {example_api_agent}" using e(2) by auto
  then have "aa_id ` {a \<in> set (ad_agents (empty_api\<lparr>ad_agents := [example_api_agent]\<rparr>)). listable a} = {''a''}" by (simp add: e(1))
  then have "set (map la_id ls) = {''a''}" using r by (simp only: simp_thms)
  then show ?thesis using l by blast
qed

text \<open>
  an agent created without skills disappears: the insert stores no list at all instead of the empty
  one, the row can then not be scanned, and although the request was answered with 201 the agent is
  never listed, until its skills are set.
\<close>

theorem agent_without_skills_unlisted:
  assumes "createAgent None i (Some req) (Some d) = (Some d', r)" "status r = 201" "ac_Expertise req = None"
    and "i \<notin> aa_id ` set (ad_agents d)" "listAgents None (Some d') = Inr ls"
    and "updateAgent None (Some u) (Some d') = (Some d'', r2)" "au_ID u = i" "i \<noteq> ''''" "au_Expertise u = Some (s # ss)" "listAgents None (Some d'') = Inr ls'"
  shows "i \<in> aa_id ` set (ad_agents d') \<and> i \<notin> set (map la_id ls) \<and> i \<in> set (map la_id ls')"
proof -
  obtain new where d': "ad_agents d' = ad_agents d @ [new]" "aa_id new = i" "aa_expertise new = None" "aa_languages new = Some [''English'']"
    using assms(1-3) by (auto simp: createAgent_def split: if_splits)
  have d'': "ad_agents d'' = map (apply_update u) (ad_agents d')" using assms(6-8) by (auto simp: updateAgent_def)
  have "i \<notin> set (map la_id ls)"
    using assms(4) d' unfolding listed_ids [OF assms(5)] by auto
  moreover have "i \<in> set (map la_id ls')"
  proof -
    have "apply_update u new \<in> set (ad_agents d'')" unfolding d'' by (simp add: d'(1))
    moreover have "aa_expertise (apply_update u new) \<noteq> None" using assms(7,9) d'(2) by (simp add: apply_update_def new_list_def)
    moreover have "aa_languages (apply_update u new) \<noteq> None" by (rule languages_apply_update) (simp add: d'(4))
    moreover have "aa_id (apply_update u new) = i" using d'(2) by simp
    ultimately show ?thesis unfolding listed_ids [OF assms(10)] by (intro image_eqI [of _ _ "apply_update u new"]) simp_all
  qed
  ultimately show ?thesis using d' by auto
qed

theorem agent_without_skills_unlisted_witness:
  "\<exists>d' r. createAgent None ''a'' (Some \<lparr>ac_Name = ''A'', ac_Email = ''a@x'', ac_Phone = '''', ac_Expertise = None\<rparr>) (Some empty_api) = (Some d', r) \<and>
     listAgents None (Some d') = Inr []"
proof -
  let ?req = "\<lparr>ac_Name = ''A'', ac_Email = ''a@x'', ac_Phone = '''', ac_Expertise = None\<rparr>"
    and ?u = "\<lparr>au_ID = ''a'', au_Name = '''', au_Email = '''', au_Phone = '''', au_Extension = '''', au_Department = '''', au_Expertise = Some [''x''],
      au_Languages = None, au_Priority = 0, au_MaxCalls = 0, au_Status = ''''\<rparr>"
  obtain d' r where r: "createAgent None ''a'' (Some ?req) (Some empty_api) = (Some d', r)" "status r = 201" and d': "map aa_id (ad_agents d') = [''a'']"
    by (simp add: createAgent_def empty_api_def)
  obtain ls where ls: "listAgents None (Some d') = Inr ls" by (simp add: listAgents_def)
  obtain d'' r2 where u: "updateAgent None (Some ?u) (Some d') = (Some d'', r2)" by (simp add: updateAgent_def)
  obtain ls' where ls': "listAgents None (Some d'') = Inr ls'" by (simp add: listAgents_def)
  have no: "''a'' \<notin> set (map la_id ls)"
    using agent_without_skills_unlisted [OF r _ _ ls u _ _ _ ls'] by (simp add: empty_api_def)
  have "set (map la_id ls) \<subseteq> set (map aa_id (ad_agents d'))" unfolding listed_ids [OF ls] by auto
  then have "set (map la_id ls) \<subseteq> {''a''}" unfolding d' by simp
  from subset_singletonD [OF this] no have "set (map la_id ls) = {}" by (elim disjE) simp_all
  then have "ls = []" by simp
  then show ?thesis using r ls by blast
qed

text \<open>
  the statistics of the day are consistent: the three moods together never exceed the calls of the
  day, and the active calls are those of both kinds of session, as in the listing of active calls.
\<close>

theorem stats_consistent:
  "sx_positive (handleStats avg now sessions copilot dbo) + sx_neutral (handleStats avg now sessions copilot dbo)
     + sx_negative (handleStats avg now sessions copilot dbo) \<le> sx_totalToday (handleStats avg now sessions copilot dbo) \<and>
   sx_activeCalls (handleStats avg now sessions copilot dbo) = snd (snd (handleActiveCalls sessions copilot))"
  using count_sentiments by (simp add: handleStats_def handleActiveCalls_def Let_def split: option.splits)

end
