(* ===== verification/Redis_Store.thy ===== *)
theory Redis_Store
  imports Session_Store
begin

text \<open>
  The distributed session store (\<open>RedisStore\<close> of \<open>gateway/store.go\<close>). The Redis client is a record of
  functions on the state \<open>'r\<close> of the server; what is relied upon of it is the predicate \<open>redis_laws\<close>, which
  states the documented effect of SET, GET, DEL, EXISTS and INCR on the keys while none expires.
\<close>

subsection \<open>The client\<close>

text \<open>An answer is \<open>Inl\<close> with the error, or \<open>Inr\<close> with the result; \<open>EXISTS\<close> answers with a number of keys.\<close>

record 'r redis_client =
  rd_set :: "string \<Rightarrow> string \<Rightarrow> duration \<Rightarrow> 'r \<Rightarrow> 'r \<times> string option"
  rd_get :: "string \<Rightarrow> 'r \<Rightarrow> string + string"
  rd_del :: "string \<Rightarrow> 'r \<Rightarrow> 'r \<times> string option"
  rd_exists :: "string \<Rightarrow> 'r \<Rightarrow> string + int"
  rd_publish :: "string \<Rightarrow> string \<Rightarrow> 'r \<Rightarrow> 'r \<times> string option"
  rd_incr :: "string \<Rightarrow> 'r \<Rightarrow> 'r \<times> (string + 64 word)"
  rd_decr :: "string \<Rightarrow> 'r \<Rightarrow> 'r \<times> (string + 64 word)"

subsection \<open>The store\<close>

text \<open>\<open>newClient\<close> parses the URL, \<open>ping\<close> is the error of the first round trip.\<close>

definition NewRedisStore :: "(string \<Rightarrow> string + 'r redis_client) \<Rightarrow> ('r redis_client \<Rightarrow> string option) \<Rightarrow> string \<Rightarrow> string + 'r redis_client" where
  "NewRedisStore newClient ping u =
     (case newClient u of
        Inl err \<Rightarrow> Inl (''redis parse url: '' @ err)
      | Inr client \<Rightarrow> (case ping client of Some err \<Rightarrow> Inl (''redis ping: '' @ err) | None \<Rightarrow> Inr client))"

text \<open>Unlike the in-memory store, a value that cannot be marshalled is refused.\<close>

definition Redis_Set ::
  "'r redis_client \<Rightarrow> ('v \<Rightarrow> string + string) \<Rightarrow> string \<Rightarrow> 'v \<Rightarrow> duration \<Rightarrow> 'r \<Rightarrow> 'r \<times> string option" where
  "Redis_Set client marshal key v ttl s =
     (case marshal v of Inl err \<Rightarrow> (s, Some err) | Inr d \<Rightarrow> rd_set client key d ttl s)"

definition Redis_Get :: "'r redis_client \<Rightarrow> (string \<Rightarrow> string + 'v) \<Rightarrow> string \<Rightarrow> 'r \<Rightarrow> string + 'v" where
  "Redis_Get client unmarshal key s = (case rd_get client key s of Inl err \<Rightarrow> Inl err | Inr d \<Rightarrow> unmarshal d)"

definition Redis_Delete :: "'r redis_client \<Rightarrow> string \<Rightarrow> 'r \<Rightarrow> 'r \<times> string option" where
  "Redis_Delete client key s = rd_del client key s"

text \<open>An error of the client leaves the number at zero.\<close>

definition Redis_Exists :: "'r redis_client \<Rightarrow> string \<Rightarrow> 'r \<Rightarrow> bool" where
  "Redis_Exists client key s \<longleftrightarrow> (case rd_exists client key s of Inl _ \<Rightarrow> 0 | Inr n \<Rightarrow> n) > 0"

definition Redis_Publish :: "'r redis_client \<Rightarrow> ('v \<Rightarrow> string option) \<Rightarrow> string \<Rightarrow> 'v \<Rightarrow> 'r \<Rightarrow> 'r \<times> string option" where
  "Redis_Publish client marshal channel m s = rd_publish client channel (marshal_data marshal m) s"

text \<open>The goroutine of \<open>Subscribe\<close>: messages go into a channel of 50 places and are dropped while it is full.\<close>

definition forward :: "string list \<Rightarrow> string list \<Rightarrow> string list" where
  "forward msgs ch = fold (\<lambda>m ch. if length ch < 50 then ch @ [m] else ch) msgs ch"

definition Redis_Incr :: "'r redis_client \<Rightarrow> string \<Rightarrow> 'r \<Rightarrow> 'r \<times> 64 word" where
  "Redis_Incr client key s = (let (s', r) = rd_incr client key s in (s', case r of Inl _ \<Rightarrow> 0 | Inr v \<Rightarrow> v))"

definition Redis_Decr :: "'r redis_client \<Rightarrow> string \<Rightarrow> 'r \<Rightarrow> 'r \<times> 64 word" where
  "Redis_Decr client key s = (let (s', r) = rd_decr client key s in (s', case r of Inl _ \<Rightarrow> 0 | Inr v \<Rightarrow> v))"

subsection \<open>What Redis documents\<close>

text \<open>\<open>keys s k\<close> is the string the server holds under \<open>k\<close>. Counters are keys like any other.\<close>

definition redis_laws :: "'r redis_client \<Rightarrow> ('r \<Rightarrow> string \<rightharpoonup> string) \<Rightarrow> bool" where
  "redis_laws client keys \<longleftrightarrow>
     (\<forall>k d ttl s. snd (rd_set client k d ttl s) = None \<and> keys (fst (rd_set client k d ttl s)) = (keys s)(k \<mapsto> d)) \<and>
     (\<forall>k s. rd_get client k s = (case keys s k of None \<Rightarrow> Inl ''redis: nil'' | Some d \<Rightarrow> Inr d)) \<and>
     (\<forall>k s. snd (rd_del client k s) = None \<and> keys (fst (rd_del client k s)) = (keys s)(k := None)) \<and>
     (\<forall>k s. rd_exists client k s = Inr (if keys s k = None then 0 else 1)) \<and>
     (\<forall>k s. keys s k = None \<longrightarrow> snd (rd_incr client k s) = Inr 1 \<and> keys (fst (rd_incr client k s)) = (keys s)(k \<mapsto> ''1''))"

lemma redis_lawsD:
  assumes "redis_laws client keys"
  shows "snd (rd_set client k d ttl s) = None" "keys (fst (rd_set client k d ttl s)) = (keys s)(k \<mapsto> d)"
    and "rd_get client k s = (case keys s k of None \<Rightarrow> Inl ''redis: nil'' | Some d \<Rightarrow> Inr d)"
    and "snd (rd_del client k s) = None" "keys (fst (rd_del client k s)) = (keys s)(k := None)"
    and "rd_exists client k s = Inr (if keys s k = None then 0 else 1)"
    and "keys s k = None \<Longrightarrow> snd (rd_incr client k s) = Inr 1"
    and "keys s k = None \<Longrightarrow> keys (fst (rd_incr client k s)) = (keys s)(k \<mapsto> ''1'')"
  using assms unfolding redis_laws_def by blast+

subsection \<open>Lemmas\<close>

definition marshal_ok :: "('v \<Rightarrow> string + string) \<Rightarrow> 'v \<Rightarrow> string option" where
  "marshal_ok marshal v = (case marshal v of Inl _ \<Rightarrow> None | Inr d \<Rightarrow> Some d)"

text \<open>Writes and deletions carried out on both stores keep the same strings under the same keys.\<close>

lemma stores_same_keys:
  assumes "redis_laws client keys" "\<forall>op \<in> set ops. \<forall>v. snd op = Some v \<longrightarrow> marshal_ok marshal v \<noteq> None" "keys s = kv_data l"
  shows "keys (fold (store_op (\<lambda>k v s. fst (Redis_Set client marshal k v ttl s)) (\<lambda>k s. fst (Redis_Delete client k s))) ops s)
       = kv_data (fold (store_op (\<lambda>k v. Store_Set (marshal_ok marshal) k v ttl') Store_Delete) ops l)"
  using assms(2,3)
proof (induction ops arbitrary: s l)
  case (Cons op ops)
  have "keys (store_op (\<lambda>k v s. fst (Redis_Set client marshal k v ttl s)) (\<lambda>k s. fst (Redis_Delete client k s)) op s)
      = kv_data (store_op (\<lambda>k v. Store_Set (marshal_ok marshal) k v ttl') Store_Delete op l)"
    using Cons.prems redis_lawsD [OF assms(1)]
    by (cases op; cases "snd op")
      (auto simp: store_op_def Redis_Set_def Redis_Delete_def Store_Set_def Store_Delete_def marshal_ok_def marshal_data_def split: sum.splits)
  then show ?case using Cons.IH Cons.prems(1) by simp
qed simp

lemma forward_full: "forward msgs ch = ch @ take (50 - length ch) msgs"
proof (induction msgs arbitrary: ch)
  case (Cons m msgs)
  show ?case
  proof (cases "length ch < 50")
    case True
    then have "50 - length ch = Suc (50 - length (ch @ [m]))" by simp
    with Cons [of "ch @ [m]"] True show ?thesis by (simp add: forward_def)
  qed (use Cons [of ch] in \<open>simp add: forward_def\<close>)
qed (simp add: forward_def)

subsection \<open>Properties\<close>

text \<open>
  the two stores are interchangeable for sessions: carried out on a Redis server and on the in-memory store
  that start with the same keys, the same writes of values that can be marshalled and the same deletions
  leave stores that agree on which keys exist and on every value that can be read, as long as no key
  expires, whatever the times to live.
\<close>

theorem stores_agree:
  assumes "redis_laws client keys" "\<forall>op \<in> set ops. \<forall>v. snd op = Some v \<longrightarrow> marshal_ok marshal v \<noteq> None" "keys s = kv_data l"
    and "s' = fold (store_op (\<lambda>k v s. fst (Redis_Set client marshal k v ttl s)) (\<lambda>k s. fst (Redis_Delete client k s))) ops s"
    and "l' = fold (store_op (\<lambda>k v. Store_Set (marshal_ok marshal) k v ttl') Store_Delete) ops l"
  shows "Redis_Exists client k s' = Store_Exists k l' \<and>
    (\<forall>v. Redis_Get client unmarshal k s' = Inr v \<longleftrightarrow> Store_Get unmarshal k l' = Inr v)"
proof -
  have "keys s' = kv_data l'" unfolding assms(4,5) by (rule stores_same_keys [OF assms(1-3)])
  then show ?thesis
    using redis_lawsD [OF assms(1)]
    by (auto simp: Redis_Exists_def Store_Exists_def Redis_Get_def Store_Get_def split: option.splits)
qed

text \<open>A server that keeps its keys in a map.\<close>

definition map_redis :: "(string \<rightharpoonup> string) redis_client" where
  "map_redis =
     \<lparr>rd_set = (\<lambda>k d ttl s. (s(k \<mapsto> d), None)), rd_get = (\<lambda>k s. case s k of None \<Rightarrow> Inl ''redis: nil'' | Some d \<Rightarrow> Inr d),
      rd_del = (\<lambda>k s. (s(k := None), None)), rd_exists = (\<lambda>k s. Inr (if s k = None then 0 else 1)),
      rd_publish = (\<lambda>c m s. (s, None)), rd_incr = (\<lambda>k s. (s(k \<mapsto> ''1''), Inr 1)), rd_decr = (\<lambda>k s. (s, Inr 0))\<rparr>"

lemma map_redis_laws: "redis_laws map_redis (\<lambda>s. s)"
  by (simp add: redis_laws_def map_redis_def)

theorem stores_agree_witness:
  "Redis_Exists map_redis ''a'' ((\<lambda>_. None)(''a'' \<mapsto> ''1'')) \<and>
   Redis_Get map_redis Inr ''a'' (fold (store_op (\<lambda>k v s. fst (Redis_Set map_redis Inr k v 5 s)) (\<lambda>k s. fst (Redis_Delete map_redis k s)))
     [(''a'', Some ''1'')] Map.empty) = Inr ''1''"
proof -
  have m: "\<forall>op \<in> set [(''a'', Some ''1'')]. \<forall>v. snd op = Some v \<longrightarrow> marshal_ok Inr v \<noteq> None" by (simp add: marshal_ok_def)
  have "Store_Get Inr ''a'' (fold (store_op (\<lambda>k v. Store_Set (marshal_ok Inr) k v 0) Store_Delete) [(''a'', Some ''1'')] NewLocalStore) = Inr ''1''"
    by (simp add: store_op_def Store_Set_def Store_Get_def marshal_ok_def marshal_data_def)
  then show ?thesis
    using stores_agree [OF map_redis_laws m _ refl refl, where s = Map.empty and l = NewLocalStore and k = "''a''" and unmarshal = Inr and ttl = 5 and ttl' = 0]
    by (simp add: NewLocalStore_def map_redis_def Redis_Exists_def)
qed

text \<open>
  the stores differ where the values are bad or the keys are counters: a value that cannot be marshalled is
  refused by the Redis store and changes nothing, while the in-memory store reports no error and overwrites
  the key with nothing; and a counter is a key of the Redis store but not of the in-memory one.
\<close>

theorem stores_differ:
  assumes "redis_laws client keys" "marshal v = Inl err" "keys s k = None"
  shows "Redis_Set client marshal k v ttl s = (s, Some err) \<and>
    kv_data (Store_Set (marshal_ok marshal) k v ttl l) k = Some '''' \<and>
    (\<exists>s'. Redis_Incr client k s = (s', 1) \<and> Redis_Exists client k s') \<and>
    Store_Exists k (fst (Store_Incr k l)) = Store_Exists k l"
proof -
  obtain s' r where i: "rd_incr client k s = (s', r)" by fastforce
  then have "r = Inr 1" "keys s' k = Some ''1''" using redis_lawsD(7,8) [OF assms(1,3)] by auto
  then have "Redis_Incr client k s = (s', 1)" "Redis_Exists client k s'"
    using i redis_lawsD(6) [OF assms(1), of k s'] by (simp_all add: Redis_Incr_def Redis_Exists_def)
  then show ?thesis
    using assms(2) by (auto simp: Redis_Set_def Store_Set_def marshal_ok_def marshal_data_def Store_Exists_def Store_Incr_def)
qed

theorem stores_differ_witness:
  "Redis_Set map_redis (\<lambda>_. Inl ''bad'') ''a'' () 0 Map.empty = (Map.empty, Some ''bad'') \<and>
   kv_data (Store_Set (marshal_ok (\<lambda>_. Inl ''bad'')) ''a'' () 0 NewLocalStore) ''a'' = Some ''''"
  using stores_differ [OF map_redis_laws, of "\<lambda>_. Inl ''bad''" "()" "''bad''" Map.empty "''a''" 0 NewLocalStore] by simp

end
