(* ===== verification/Bootstrap.thy ===== *)
theory Bootstrap
  imports Auth Redis_Store Scale Speech_Text Metrics
begin

text \<open>
  How the gateway starts (\<open>gateway/main.go\<close>): the configuration read from the environment, the parts that
  \<open>main\<close> creates from it, the chain of handlers in front of every route, and the service status page.
  The environment is the function \<open>env\<close> from names to values, the empty string where a variable is not set;
  the network is the two functions \<open>http_get\<close> (the status code, \<open>None\<close> for an error) and \<open>dial\<close>.
\<close>

subsection \<open>Configuration\<close>

record Config =
  ListenAddr :: string
  STTURL :: string
  TTSURL :: string
  GCPProjectID :: string
  GCPRegion :: string
  ClaudeModel :: string
  SystemPrompt :: string
  ESLHost :: string
  ESLPort :: string
  ESLPassword :: string
  TTSAudioDir :: string
  CRMWebhookURL :: string
  CRMWebhookToken :: string
  DBURL :: string
  ChromaURL :: string
  SIPListenAddr :: string
  RecordingDir :: string
  Mode :: string
  DemoMode :: bool

definition envOr :: "(string \<Rightarrow> string) \<Rightarrow> string \<Rightarrow> string \<Rightarrow> string" where
  "envOr env key fallback = (let v = env key in if v \<noteq> '''' then v else fallback)"

text \<open>The dash of the default prompt is three bytes in UTF-8.\<close>

definition default_prompt :: string where
  "default_prompt =
     ''You are a helpful voice assistant. Keep responses concise and conversational. '' @
     ''Do not use markdown, bullet points, or any text formatting '' @ [CHR 0xE2, CHR 0x80, CHR 0x94] @
     '' your responses will be spoken aloud. '' @
     ''Respond in 1-3 short sentences unless the user asks for detail.''"

definition loadConfig :: "(string \<Rightarrow> string) \<Rightarrow> Config" where
  "loadConfig env =
     (let mode = envOr env ''VOICEAGENT_MODE'' ''gateway'';
          sipAddr0 = envOr env ''SIP_LISTEN_ADDR'' '''';
          sipAddr = (if mode = ''standalone'' \<and> sipAddr0 = '''' then '':5060'' else sipAddr0)
      in \<lparr>ListenAddr = envOr env ''LISTEN_ADDR'' '':8080'',
          STTURL = envOr env ''STT_URL'' ''http://whisper:8000/v1/audio/transcriptions'',
          TTSURL = envOr env ''TTS_URL'' ''http://piper:5000'',
          GCPProjectID = envOr env ''GCP_PROJECT_ID'' (env ''ANTHROPIC_VERTEX_PROJECT_ID''),
          GCPRegion = envOr env ''GCP_REGION'' (envOr env ''CLOUD_ML_REGION'' ''us-east5''),
          ClaudeModel = envOr env ''CLAUDE_MODEL'' ''claude-3-5-haiku@20241022'',
          SystemPrompt = envOr env ''SYSTEM_PROMPT'' default_prompt,
          ESLHost = envOr env ''ESL_HOST'' ''freeswitch.voiceagent.svc.cluster.local'',
          ESLPort = envOr env ''ESL_PORT'' ''8022'',
          ESLPassword = envOr env ''ESL_PASSWORD'' ''ClueCon'',
          TTSAudioDir = envOr env ''TTS_AUDIO_DIR'' '''',
          CRMWebhookURL = env ''CRM_WEBHOOK_URL'',
          CRMWebhookToken = env ''CRM_WEBHOOK_TOKEN'',
          DBURL = env ''DATABASE_URL'',
          ChromaURL = envOr env ''CHROMA_URL'' '''',
          SIPListenAddr = sipAddr,
          RecordingDir = envOr env ''RECORDING_DIR'' ''/tmp/recordings'',
          Mode = mode,
          DemoMode = (env ''DEMO_MODE'' = ''true'')\<rparr>)"

subsection \<open>The parts created at start\<close>

text \<open>\<open>newClient\<close> and \<open>ping\<close> are the Redis client library, as in \<open>NewRedisStore\<close>.\<close>

datatype 'r session_store = In_Memory LocalStore | In_Redis "'r redis_client"

definition NewSessionStore ::
  "(string \<Rightarrow> string + 'r redis_client) \<Rightarrow> ('r redis_client \<Rightarrow> string option) \<Rightarrow> string \<Rightarrow> 'r session_store" where
  "NewSessionStore newClient ping redisURL =
     (if redisURL = '''' then In_Memory NewLocalStore
      else case NewRedisStore newClient ping redisURL of Inl err \<Rightarrow> In_Memory NewLocalStore | Inr st \<Rightarrow> In_Redis st)"

record 'r gateway_core =
  gc_store :: "'r session_store"
  gc_metrics :: Metrics
  gc_sttPool :: WorkerPool
  gc_ttsPool :: WorkerPool
  gc_rateLimiter :: RateLimiter
  gc_admission :: AdmissionController

definition new_gateway ::
  "(string \<Rightarrow> string + 'r redis_client) \<Rightarrow> ('r redis_client \<Rightarrow> string option) \<Rightarrow> (string \<Rightarrow> string) \<Rightarrow> 'r gateway_core" where
  "new_gateway newClient ping env =
     (let cfg = loadConfig env in
      \<lparr>gc_store = NewSessionStore newClient ping (envOr env ''REDIS_URL'' ''''),
       gc_metrics = NewMetrics,
       gc_sttPool = NewWorkerPool ''stt'' (parseWorkerURLs (STTURL cfg)),
       gc_ttsPool = NewWorkerPool ''tts'' (parseWorkerURLs (TTSURL cfg)),
       gc_rateLimiter = NewRateLimiter 100 200,
       gc_admission = NewAdmissionController 500\<rparr>)"

text \<open>\<open>users\<close> is the users table of the database, \<open>None\<close> without a database.\<close>

definition new_auth :: "string \<Rightarrow> nat \<Rightarrow> (string \<Rightarrow> string) \<Rightarrow> user_row list option \<Rightarrow> AuthHandler" where
  "new_auth uuid nano env users = NewAuthHandler uuid nano users (envOr env ''JWT_SECRET'' '''')"

subsection \<open>In front of the routes\<close>

text \<open>A request is answered as a preflight, or it goes on to the handler behind, which passes or refuses it.\<close>

datatype gate = Preflight | Behind pass

definition corsMiddleware :: "(http_request \<Rightarrow> pass) \<Rightarrow> string \<Rightarrow> http_request \<Rightarrow> gate" where
  "corsMiddleware inner meth r = (if meth = ''OPTIONS'' then Preflight else Behind (inner r))"

definition handler_chain ::
  "(byte list \<Rightarrow> UserClaims option) \<Rightarrow> (string \<Rightarrow> string) \<Rightarrow> instant \<Rightarrow> AuthHandler \<Rightarrow> string \<Rightarrow> http_request \<Rightarrow> gate" where
  "handler_chain unmarshal env now auth meth r =
     corsMiddleware
       (if envOr env ''AUTH_ENABLED'' '''' = ''true'' then Auth.Middleware unmarshal (env ''AUTH_ENABLED'') now auth
        else (\<lambda>_. Serve None)) meth r"

subsection \<open>Status pages\<close>

text \<open>\<open>/healthz\<close> and \<open>/api/config\<close>.\<close>

definition healthz :: "Config \<Rightarrow> int \<Rightarrow> string" where
  "healthz cfg sessions =
     ''{\"status\":\"ok\",\"sessions\":'' @ (if sessions < 0 then ''-'' else '''') @ dec (nat \<bar>sessions\<bar>) @
     '',\"mode\":\"'' @ Mode cfg @ ''\"}''"

definition config_page :: "Config \<Rightarrow> bool \<Rightarrow> (string \<times> (string + bool)) list" where
  "config_page cfg hasDB =
     [(''mode'', Inl (Mode cfg)), (''sip_listen'', Inl (SIPListenAddr cfg)), (''stt_url'', Inl (STTURL cfg)),
      (''tts_url'', Inl (TTSURL cfg)), (''claude_model'', Inl (ClaudeModel cfg)), (''demo_mode'', Inr (DemoMode cfg)),
      (''database'', Inr hasDB)]"

record ServiceStatus =
  ss_Name :: string
  ss_Status :: string
  ss_Port :: string
  ss_Detail :: string

definition probeHTTP :: "(string \<Rightarrow> nat option) \<Rightarrow> string \<Rightarrow> bool" where
  "probeHTTP http_get u = (case http_get u of None \<Rightarrow> False | Some code \<Rightarrow> code < 500)"

definition probeTCP :: "(string \<Rightarrow> bool) \<Rightarrow> string \<Rightarrow> bool" where
  "probeTCP dial addr0 =
     (if \<not> str_contains addr0 '':'' then False
      else
        let addr = trim_prefix (trim_prefix addr0 ''redis://'') ''tcp://'' in
        dial (case str_index addr ''/'' of Some idx \<Rightarrow> if idx > 0 then take idx addr else addr | None \<Rightarrow> addr))"

definition probed :: "string \<Rightarrow> string \<Rightarrow> bool \<Rightarrow> ServiceStatus" where
  "probed name port ok = \<lparr>ss_Name = name, ss_Status = (if ok then ''online'' else ''offline''), ss_Port = port, ss_Detail = ''''\<rparr>"

text \<open>\<open>ping\<close> is the error of \<open>PingContext\<close> where there is a database: \<open>Some None\<close> for a good answer.\<close>

definition database_status :: "string option option \<Rightarrow> ServiceStatus" where
  "database_status ping =
     (case ping of
        None \<Rightarrow> \<lparr>ss_Name = ''PostgreSQL'', ss_Status = ''not configured'', ss_Port = '':5432'', ss_Detail = ''''\<rparr>
      | Some None \<Rightarrow> \<lparr>ss_Name = ''PostgreSQL'', ss_Status = ''online'', ss_Port = '':5432'', ss_Detail = ''''\<rparr>
      | Some (Some err) \<Rightarrow> \<lparr>ss_Name = ''PostgreSQL'', ss_Status = ''offline'', ss_Port = '':5432'', ss_Detail = err\<rparr>)"

definition checkServiceHealth ::
  "(string \<Rightarrow> nat option) \<Rightarrow> (string \<Rightarrow> bool) \<Rightarrow> string option option \<Rightarrow> (string \<Rightarrow> string) \<Rightarrow> Config \<Rightarrow> ServiceStatus list" where
  "checkServiceHealth http_get dial ping env cfg =
     [\<lparr>ss_Name = ''Gateway'', ss_Status = ''online'', ss_Port = ListenAddr cfg, ss_Detail = Mode cfg @ '' mode''\<rparr>] @
     [probed ''Whisper STT'' '':8000'' (probeHTTP http_get (STTURL cfg))] @
     (if Mode cfg = ''gateway'' then [probed ''Piper TTS'' '':5000'' (probeHTTP http_get (TTSURL cfg))] else []) @
     [database_status ping] @
     (let redisURL = env ''REDIS_URL'' in
      if redisURL \<noteq> '''' then [probed ''Redis'' '':6379'' (probeTCP dial redisURL)] else []) @
     (if ChromaURL cfg \<noteq> ''''
      then [probed ''ChromaDB'' '':8000'' (probeHTTP http_get (ChromaURL cfg @ ''/api/v2/heartbeat''))] else []) @
     (if Mode cfg = ''gateway''
      then [probed ''FreeSWITCH'' ('':'' @ ESLPort cfg) (probeTCP dial (ESLHost cfg @ '':'' @ ESLPort cfg))] else []) @
     (if SIPListenAddr cfg \<noteq> ''''
      then [\<lparr>ss_Name = ''SIP Server'', ss_Status = ''online'', ss_Port = SIPListenAddr cfg, ss_Detail = ''''\<rparr>] else [])"

subsection \<open>Lemmas\<close>

lemma envOr_empty [simp]: "envOr env key '''' = env key"
  by (simp add: envOr_def Let_def)

lemma handler_chain_simps [simp]:
  "handler_chain unmarshal env now auth ''OPTIONS'' r = Preflight"
  "env ''AUTH_ENABLED'' \<noteq> ''true'' \<Longrightarrow> meth \<noteq> ''OPTIONS'' \<Longrightarrow> handler_chain unmarshal env now auth meth r = Behind (Serve None)"
  "env ''AUTH_ENABLED'' = ''true'' \<Longrightarrow> meth \<noteq> ''OPTIONS'' \<Longrightarrow>
     handler_chain unmarshal env now auth meth r = Behind (Auth.Middleware unmarshal ''true'' now auth r)"
  by (simp_all add: handler_chain_def corsMiddleware_def)

lemma Middleware_serves_iff:
  "(\<exists>cl. Auth.Middleware unmarshal ''true'' now ah r = Serve cl) \<longleftrightarrow>
     public_path (rq_path r) \<or> user_by_key (rq_api_key r) (ah_db ah) \<noteq> None \<or>
     (bearer_token r \<noteq> '''' \<and> validateToken unmarshal now ah (bearer_token r) \<noteq> None)"
  by (auto simp: Auth.Middleware_def Let_def split: option.splits)

lemma user_by_key_iff:
  "user_by_key k users \<noteq> None \<longleftrightarrow> (\<exists>t u. users = Some t \<and> u \<in> set t \<and> u_api_key u = k \<and> k \<noteq> '''')"
proof -
  have "find P xs \<noteq> None \<longleftrightarrow> (\<exists>x \<in> set xs. P x)" for P and xs :: "user_row list"
    by (simp add: find_None_iff Bex_def)
  then show ?thesis by (auto simp: user_by_key_def split: option.splits)
qed

lemma valid_token_iff:
  "tok \<noteq> '''' \<and> validateToken unmarshal now ah tok \<noteq> None \<longleftrightarrow>
     (\<exists>h payload c. tok = h @ ''.'' @ sign (jwtSecret ah) payload \<and> CHR ''.'' \<notin> set h \<and>
        hex_decode h = Some payload \<and> unmarshal payload = Some c \<and> unix now \<le> uc_Exp c)"
proof -
  have "tok \<noteq> '''' \<and> validateToken unmarshal now ah tok \<noteq> None \<longleftrightarrow> tok \<noteq> '''' \<and> (\<exists>c. validateToken unmarshal now ah tok = Some c)"
    by simp
  then show ?thesis unfolding validateToken_Some_iff by auto
qed

lemma SIPListenAddr_standalone: "env ''VOICEAGENT_MODE'' = ''standalone'' \<Longrightarrow> SIPListenAddr (loadConfig env) \<noteq> ''''"
  by (simp add: loadConfig_def Let_def envOr_def)

text \<open>The secret the code falls back to, and a request whose token has the signature of its payload under it.\<close>

definition default_secret :: "byte list" where
  "default_secret = bytes_of ''voiceagent-default-secret-change-in-production''"

definition forged_request :: "string \<Rightarrow> byte list \<Rightarrow> http_request" where
  "forged_request path payload =
     \<lparr>rq_path = path, rq_api_key = '''',
      rq_authorization = ''Bearer '' @ hex_encode payload @ ''.'' @ sign default_secret payload, rq_query_token = ''''\<rparr>"

lemma bearer_forged [simp]:
  "bearer_token (forged_request path payload) = hex_encode payload @ ''.'' @ sign default_secret payload"
  by (simp add: forged_request_def bearer_token_def trim_prefix_append [of "''Bearer ''", simplified])

lemma jwtSecret_default: "env ''JWT_SECRET'' = '''' \<Longrightarrow> jwtSecret (new_auth uuid nano env users) = default_secret"
  by (simp add: new_auth_def NewAuthHandler_def default_secret_def)

lemma user_by_key_empty [simp]: "user_by_key '''' users = None"
  by (simp add: user_by_key_def)

text \<open>The status page dials the host and port of a Redis URL: scheme and path are cut off.\<close>

lemma str_index_slash: "CHR ''/'' \<notin> set h \<Longrightarrow> str_index (h @ ''/'' @ s) ''/'' = Some (length h)"
  by (induction h) (auto simp: has_prefix_iff)

lemma probeTCP_redis:
  assumes "CHR ''/'' \<notin> set hp" "hp \<noteq> ''''" "hp \<noteq> ''tcp:''"
  shows "probeTCP dial (''redis://'' @ hp @ ''/'' @ path) = dial hp"
proof -
  have "\<not> has_prefix (hp @ ''/'' @ path) ''tcp://''"
  proof
    assume "has_prefix (hp @ ''/'' @ path) ''tcp://''"
    then obtain z where z: "hp @ ''/'' @ path = ''tcp:'' @ ''/'' @ ''/'' @ z" by (auto simp: has_prefix_iff)
    have "str_index (''tcp:'' @ ''/'' @ ''/'' @ z) ''/'' = Some 4" by (simp add: str_index_single)
    with z have "str_index (hp @ ''/'' @ path) ''/'' = Some 4" "take 4 (hp @ ''/'' @ path) = ''tcp:''" by simp_all
    with str_index_slash [OF assms(1), of path] assms(3) show False by auto
  qed
  then have "trim_prefix (hp @ ''/'' @ path) ''tcp://'' = hp @ ''/'' @ path" by (simp add: trim_prefix_def)
  moreover have "trim_prefix (''redis://'' @ hp @ ''/'' @ path) ''redis://'' = hp @ ''/'' @ path" by (rule trim_prefix_append)
  moreover have "str_contains (''redis://'' @ hp @ ''/'' @ path) '':''" by (simp add: str_contains_def str_index_single)
  ultimately show ?thesis
    using str_index_slash [OF assms(1), of path] assms(2) by (simp add: probeTCP_def Let_def)
qed

subsection \<open>Properties\<close>

text \<open>
  C6: what reaches the routes. A request gets behind the handlers of \<open>main\<close> exactly if it is not a preflight and
  either authentication is off, or the path is public, or the request carries the API key of a user, or it
  carries a token with the signature of the server's secret that has not expired.
\<close>

theorem routes_reached_iff:
  "(\<exists>cl. handler_chain unmarshal env now auth meth r = Behind (Serve cl)) \<longleftrightarrow>
     meth \<noteq> ''OPTIONS'' \<and>
     (env ''AUTH_ENABLED'' \<noteq> ''true'' \<or> public_path (rq_path r) \<or>
      (\<exists>t u. ah_db auth = Some t \<and> u \<in> set t \<and> u_api_key u = rq_api_key r \<and> rq_api_key r \<noteq> '''') \<or>
      (\<exists>h payload c. bearer_token r = h @ ''.'' @ sign (jwtSecret auth) payload \<and> CHR ''.'' \<notin> set h \<and>
         hex_decode h = Some payload \<and> unmarshal payload = Some c \<and> unix now \<le> uc_Exp c))"
proof (cases "meth = ''OPTIONS'' \<or> env ''AUTH_ENABLED'' \<noteq> ''true''")
  case False
  then have "(\<exists>cl. handler_chain unmarshal env now auth meth r = Behind (Serve cl)) \<longleftrightarrow>
      (\<exists>cl. Auth.Middleware unmarshal ''true'' now auth r = Serve cl)"
    by simp
  then show ?thesis using False unfolding Middleware_serves_iff user_by_key_iff valid_token_iff by simp
qed auto

theorem routes_reached_iff_witness:
  "(\<exists>cl. handler_chain (\<lambda>_. None) ((\<lambda>_. '''')(''AUTH_ENABLED'' := ''true'')) 0 example_auth ''GET'' Auth.example_request = Behind (Serve cl)) \<and>
   (\<nexists>cl. handler_chain (\<lambda>_. None) ((\<lambda>_. '''')(''AUTH_ENABLED'' := ''true'')) 0 example_auth ''GET''
      (Auth.example_request\<lparr>rq_api_key := ''other''\<rparr>) = Behind (Serve cl))"
  unfolding routes_reached_iff
  by (simp add: example_auth_def Auth.example_request_def public_path_def has_prefix_iff bearer_token_def)

text \<open>
  without \<open>JWT_SECRET\<close> the gate is open to anyone who has read the source: even with authentication
  enabled, a request whose token is signed with the secret in the source is passed on with whatever
  unexpired claims its payload holds, the role admin among them.
\<close>

theorem default_secret_forgeable:
  assumes "env ''JWT_SECRET'' = ''''" "env ''AUTH_ENABLED'' = ''true''" "\<not> public_path path" "meth \<noteq> ''OPTIONS''"
    and "unmarshal payload = Some c" "unix now \<le> uc_Exp c"
  shows "handler_chain unmarshal env now (new_auth uuid nano env users) meth (forged_request path payload)
       = Behind (Serve (Some c))"
proof -
  let ?ah = "new_auth uuid nano env users" and ?r = "forged_request path payload"
  have "validateToken unmarshal now ?ah (bearer_token ?r) = Some c"
    using assms(5,6) unfolding validateToken_Some_iff bearer_forged jwtSecret_default [where env = env, OF assms(1)]
    by (intro exI [of _ "hex_encode payload"] exI [of _ payload]) simp
  moreover have "\<not> public_path (rq_path ?r)" "rq_api_key ?r = ''''" using assms(3) by (simp_all add: forged_request_def)
  ultimately have "Auth.Middleware unmarshal ''true'' now ?ah ?r = Serve (Some c)"
    by (simp add: Auth.Middleware_def Let_def)
  then show ?thesis using assms(2,4) by simp
qed

theorem default_secret_forgeable_witness:
  "handler_chain (\<lambda>_. Some \<lparr>uc_UserID = ''0'', uc_Username = ''eve'', uc_Role = ''admin'', uc_Exp = 9\<rparr>)
     ((\<lambda>_. '''')(''AUTH_ENABLED'' := ''true'')) 0
     (new_auth ''id'' 0 ((\<lambda>_. '''')(''AUTH_ENABLED'' := ''true'')) None) ''POST'' (forged_request ''/api/auth/users'' [])
   = Behind (Serve (Some \<lparr>uc_UserID = ''0'', uc_Username = ''eve'', uc_Role = ''admin'', uc_Exp = 9\<rparr>))"
  by (rule default_secret_forgeable) (simp_all add: public_path_def has_prefix_iff unix_def second_def)

text \<open>
  without \<open>AUTH_ENABLED\<close> nobody administers users: every route but a preflight is passed on without claims,
  so the user routes answer 403 and \<open>/api/auth/me\<close> 401 even to the administrator's token or key.
\<close>

theorem open_gateway_locks_user_admin:
  assumes "env ''AUTH_ENABLED'' \<noteq> ''true''" "handler_chain unmarshal env now auth meth r = Behind p"
  shows "\<exists>cl. p = Serve cl \<and> handleUsers uuid nano cl req auth = (auth, WriteJSON 403 [[(''error'', ''admin only'')]]) \<and>
           handleMe cl = WriteJSON 401 (Inl [(''error'', ''not authenticated'')])"
proof -
  have "meth \<noteq> ''OPTIONS''" using assms(2) by auto
  with assms have "p = Serve None" by simp
  then show ?thesis by (simp add: handleUsers_def handleMe_def)
qed

theorem open_gateway_locks_user_admin_witness:
  "handleUsers ''2'' 7 None (CreateUser ''bob'' ''pw'' '''') admin_auth
     = (admin_auth, WriteJSON 403 [[(''error'', ''admin only'')]])"
  using open_gateway_locks_user_admin [of "\<lambda>_. ''''" "\<lambda>_. None" 0 admin_auth "''POST''"
      "\<lparr>rq_path = ''/api/auth/users'', rq_api_key = ''k'', rq_authorization = '''', rq_query_token = ''''\<rparr>"
      "Serve None" "''2''" 7 "CreateUser ''bob'' ''pw'' ''''"]
  by simp

text \<open>
  in standalone mode the status page reports the SIP server as online whatever happens: it is listed from
  the configured address alone, which \<open>loadConfig\<close> always fills in that mode, and nothing is probed.
\<close>

theorem standalone_sip_always_online:
  assumes "env ''VOICEAGENT_MODE'' = ''standalone''"
  shows "\<exists>st \<in> set (checkServiceHealth http_get dial ping env (loadConfig env)).
           ss_Name st = ''SIP Server'' \<and> ss_Status st = ''online'' \<and> ss_Port st = SIPListenAddr (loadConfig env)"
  using SIPListenAddr_standalone [where env = env, OF assms] by (simp add: checkServiceHealth_def Let_def)

theorem standalone_sip_always_online_witness:
  "\<exists>st \<in> set (checkServiceHealth (\<lambda>_. None) (\<lambda>_. False) None ((\<lambda>_. '''')(''VOICEAGENT_MODE'' := ''standalone''))
       (loadConfig ((\<lambda>_. '''')(''VOICEAGENT_MODE'' := ''standalone'')))). ss_Name st = ''SIP Server'' \<and> ss_Status st = ''online''"
  using standalone_sip_always_online [of "(\<lambda>_. '''')(''VOICEAGENT_MODE'' := ''standalone'')" "\<lambda>_. None" "\<lambda>_. False" None]
  by auto

end
