(* ===== verification/Rtp_Relay.thy ===== *)
theory Rtp_Relay
  imports Sip_Server
begin

text \<open>
  The media relay (\<open>tools/rtprelay/main.go\<close>): the control protocol that allocates a pair of ports for a call
  and the two loops that forward datagrams between the ports. The sockets the process holds are the set
  of ports \<open>rl_sockets\<close>; \<open>bindable\<close> tells which ports the operating system would give out besides.
\<close>

type_synonym udp_addr = "string \<times> nat"

record relay_session =
  callerPort :: int
  gwPort :: int
  callerAddr :: "udp_addr option"
  gwAddr :: "udp_addr option"
  created :: instant
  gotOffer :: bool

record relay_state =
  rl_sessions :: "(string \<times> relay_session) list"
  rl_nextPort :: int
  rl_sockets :: "int set"

definition new_relay :: relay_state where
  "new_relay = \<lparr>rl_sessions = [], rl_nextPort = 40000, rl_sockets = {}\<rparr>"

subsection \<open>Control commands\<close>

definition relay_alloc :: "relay_state \<Rightarrow> int \<times> relay_state" where
  "relay_alloc st = (let (p, nxt) = allocPort 40000 100 (rl_nextPort st) in (p, st\<lparr>rl_nextPort := nxt\<rparr>))"

text \<open>A port that is bound already, by this process or by another, is refused.\<close>

definition listenUDP :: "(int \<Rightarrow> bool) \<Rightarrow> int \<Rightarrow> relay_state \<Rightarrow> bool \<times> relay_state" where
  "listenUDP bindable p st =
     (if p \<in> rl_sockets st \<or> \<not> bindable p then (False, st) else (True, st\<lparr>rl_sockets := insert p (rl_sockets st)\<rparr>))"

text \<open>Session ports are positive, so \<open>%d\<close> prints plain digits.\<close>

definition port_reply :: "string \<Rightarrow> int \<Rightarrow> string \<Rightarrow> string" where
  "port_reply cookie p extIP = cookie @ '' '' @ dec (nat p) @ '' '' @ extIP"

definition handleUpdate ::
  "(int \<Rightarrow> bool) \<Rightarrow> string \<Rightarrow> instant \<Rightarrow> string \<Rightarrow> string list \<Rightarrow> relay_state \<Rightarrow> relay_state \<times> string" where
  "handleUpdate bindable extIP now cookie args st =
     (if length args < 2 then (st, cookie @ '' E1'')
      else
        let callID = args ! 0 in
        case map_of (rl_sessions st) callID of
          None \<Rightarrow>
            let (cp, st1) = relay_alloc st;
                (gp, st2) = relay_alloc st1;
                (cok, st3) = listenUDP bindable cp st2;
                (gok, st4) = listenUDP bindable gp st3
            in if \<not> cok \<or> \<not> gok then (st4, cookie @ '' E7'')
               else
                 (st4\<lparr>rl_sessions := (callID, \<lparr>callerPort = cp, gwPort = gp, callerAddr = None, gwAddr = None, created = now,
                    gotOffer = True\<rparr>) # rl_sessions st4\<rparr>, port_reply cookie cp extIP)
        | Some sess \<Rightarrow> (st, port_reply cookie (gwPort sess) extIP))"

definition handleDelete :: "string \<Rightarrow> string list \<Rightarrow> relay_state \<Rightarrow> relay_state \<times> string" where
  "handleDelete cookie args st =
     (if length args < 1 then (st, cookie @ '' E1'')
      else
        let callID = args ! 0 in
        (case map_of (rl_sessions st) callID of
           None \<Rightarrow> st
         | Some sess \<Rightarrow> st\<lparr>rl_sockets := rl_sockets st - {callerPort sess, gwPort sess},
             rl_sessions := filter (\<lambda>(k, _). k \<noteq> callID) (rl_sessions st)\<rparr>,
         cookie @ '' 0''))"

definition handleLookup :: "string \<Rightarrow> string \<Rightarrow> string list \<Rightarrow> relay_state \<Rightarrow> string" where
  "handleLookup extIP cookie args st =
     (if length args < 1 then cookie @ '' E8''
      else case map_of (rl_sessions st) (args ! 0) of
             None \<Rightarrow> cookie @ '' E8''
           | Some sess \<Rightarrow> port_reply cookie (gwPort sess) extIP)"

definition handleCommand ::
  "(int \<Rightarrow> bool) \<Rightarrow> string \<Rightarrow> instant \<Rightarrow> string \<Rightarrow> relay_state \<Rightarrow> relay_state \<times> string" where
  "handleCommand bindable extIP now raw st =
     (case Prelude.fields raw of
        [] \<Rightarrow> (st, '''')
      | [w] \<Rightarrow> (st, if w = ''V'' then ''20040107'' else if w = ''VF'' then ''1'' else ''E1'')
      | cookie # cmdFull # args \<Rightarrow>
          let cmd = hd cmdFull in
          if cmd = CHR ''V'' then
            (st, if length cmdFull > 1 \<and> cmdFull ! 1 = CHR ''F'' then cookie @ '' 1'' else cookie @ '' 20040107'')
          else if cmd = CHR ''U'' \<or> cmd = CHR ''u'' then handleUpdate bindable extIP now cookie args st
          else if cmd = CHR ''D'' \<or> cmd = CHR ''d'' then handleDelete cookie args st
          else if cmd = CHR ''L'' \<or> cmd = CHR ''l'' then (st, handleLookup extIP cookie args st)
          else if cmd = CHR ''I'' then (st, cookie @ '' sessions: '' @ dec (length (rl_sessions st)))
          else if cmd = CHR ''Q'' then (st, cookie @ '' 0'')
          else (st, cookie @ '' E1''))"

text \<open>The control loop of \<open>main\<close>: an empty answer is not sent.\<close>

definition control_datagram ::
  "(int \<Rightarrow> bool) \<Rightarrow> string \<Rightarrow> instant \<Rightarrow> string \<Rightarrow> relay_state \<Rightarrow> relay_state \<times> string option" where
  "control_datagram bindable extIP now datagram st =
     (let (st', resp) = handleCommand bindable extIP now (trim_space (take 4096 datagram)) st in
      (st', if resp \<noteq> '''' then Some (resp @ [CHR 0x0A]) else None))"

subsection \<open>Media\<close>

text \<open>
  One turn of \<open>relayLoop\<close>: the address of the first datagram on a side is kept; a datagram goes out of the
  other port to the address kept for the other side.
\<close>

definition relay_packet ::
  "bool \<Rightarrow> udp_addr \<Rightarrow> byte list \<Rightarrow> relay_session \<Rightarrow> relay_session \<times> (int \<times> udp_addr \<times> byte list) option" where
  "relay_packet isCallerSide addr datagram sess =
     (let buf = take 1500 datagram in
      if isCallerSide then
        let sess' = (if callerAddr sess = None then sess\<lparr>callerAddr := Some addr\<rparr> else sess)
        in (sess', map_option (\<lambda>a. (gwPort sess', a, buf)) (gwAddr sess'))
      else
        let sess' = (if gwAddr sess = None then sess\<lparr>gwAddr := Some addr\<rparr> else sess)
        in (sess', map_option (\<lambda>a. (callerPort sess', a, buf)) (callerAddr sess')))"

fun relay_loop ::
  "(bool \<times> udp_addr \<times> byte list) list \<Rightarrow> relay_session \<Rightarrow> relay_session \<times> (int \<times> udp_addr \<times> byte list) option list" where
  "relay_loop [] sess = (sess, [])"
| "relay_loop ((side, addr, d) # ds) sess =
     (let (s1, out) = relay_packet side addr d sess; (s2, outs) = relay_loop ds s1 in (s2, out # outs))"

definition on_session :: "string \<Rightarrow> (relay_session \<Rightarrow> relay_session) \<Rightarrow> relay_state \<Rightarrow> relay_state" where
  "on_session callID f st =
     st\<lparr>rl_sessions := map (\<lambda>(k, s). (k, if k = callID then f s else s)) (rl_sessions st)\<rparr>"

text \<open>The steps of the process: a control datagram, and a datagram on either port of a session.\<close>

inductive relay_step :: "relay_state \<Rightarrow> relay_state \<Rightarrow> bool" where
  control: "control_datagram bindable extIP now datagram st = (st', resp) \<Longrightarrow> relay_step st st'"
| media: "relay_step st (on_session callID (\<lambda>s. fst (relay_packet side addr datagram s)) st)"

inductive_cases relay_stepE: "relay_step st st'"

subsection \<open>Well-formed states\<close>

definition session_ports :: "relay_state \<Rightarrow> int list" where
  "session_ports st = concat (map (\<lambda>(_, s). [callerPort s, gwPort s]) (rl_sessions st))"

text \<open>A port of the range.\<close>

definition relay_port :: "int \<Rightarrow> bool" where
  "relay_port p \<longleftrightarrow> 40000 \<le> p \<and> p < 40100 \<and> even p"

definition relay_wf :: "relay_state \<Rightarrow> bool" where
  "relay_wf st \<longleftrightarrow> relay_port (rl_nextPort st) \<and> distinct (map fst (rl_sessions st)) \<and> distinct (session_ports st) \<and>
     set (session_ports st) \<subseteq> rl_sockets st \<and> (\<forall>p \<in> rl_sockets st. relay_port p)"

subsection \<open>Lemmas\<close>

definition next_port :: "int \<Rightarrow> int" where
  "next_port p = (if p = 40098 then 40000 else p + 2)"

lemma next_port_props: "relay_port p \<Longrightarrow> relay_port (next_port p) \<and> next_port p \<noteq> p"
  by (auto simp: relay_port_def next_port_def)

lemma relay_alloc_eq: "relay_port (rl_nextPort st) \<Longrightarrow> relay_alloc st = (rl_nextPort st, st\<lparr>rl_nextPort := next_port (rl_nextPort st)\<rparr>)"
  unfolding relay_alloc_def allocPort_def next_port_def relay_port_def by (simp add: Let_def) presburger

text \<open>The outcome of an offer: both ports are bound, or one of them, or none.\<close>

definition free_port :: "(int \<Rightarrow> bool) \<Rightarrow> relay_state \<Rightarrow> int \<Rightarrow> bool" where
  "free_port bindable st p \<longleftrightarrow> p \<notin> rl_sockets st \<and> bindable p"

definition offered :: "(int \<Rightarrow> bool) \<Rightarrow> relay_state \<Rightarrow> relay_state" where
  "offered bindable st =
     (let p = rl_nextPort st; q = next_port p in
      st\<lparr>rl_nextPort := next_port q, rl_sockets := rl_sockets st \<union> {x \<in> {p, q}. free_port bindable st x}\<rparr>)"

lemma handleUpdate_new:
  assumes "relay_port (rl_nextPort st)" "length args \<ge> 2" "map_of (rl_sessions st) (args ! 0) = None"
    and "p = rl_nextPort st" "q = next_port p"
  shows "handleUpdate bindable extIP now cookie args st =
    (if free_port bindable st p \<and> free_port bindable st q
     then ((offered bindable st)\<lparr>rl_sessions := (args ! 0, \<lparr>callerPort = p, gwPort = q, callerAddr = None, gwAddr = None,
             created = now, gotOffer = True\<rparr>) # rl_sessions st\<rparr>, port_reply cookie p extIP)
     else (offered bindable st, cookie @ '' E7''))"
proof -
  have q: "relay_port q" "q \<noteq> p" using next_port_props [OF assms(1)] assms(4,5) by simp_all
  have a1: "relay_alloc st = (p, st\<lparr>rl_nextPort := q\<rparr>)" using relay_alloc_eq [OF assms(1)] assms(4,5) by simp
  have a2: "relay_alloc (st\<lparr>rl_nextPort := q\<rparr>) = (q, st\<lparr>rl_nextPort := next_port q\<rparr>)"
    using relay_alloc_eq [of "st\<lparr>rl_nextPort := q\<rparr>"] q(1) by simp
  have e: "handleUpdate bindable extIP now cookie args st =
      (case listenUDP bindable p (st\<lparr>rl_nextPort := next_port q\<rparr>) of (cok, st3) \<Rightarrow>
       case listenUDP bindable q st3 of (gok, st4) \<Rightarrow>
         if \<not> cok \<or> \<not> gok then (st4, cookie @ '' E7'')
         else (st4\<lparr>rl_sessions := (args ! 0, \<lparr>callerPort = p, gwPort = q, callerAddr = None, gwAddr = None, created = now,
                    gotOffer = True\<rparr>) # rl_sessions st4\<rparr>, port_reply cookie p extIP))"
    using assms(2,3) by (simp add: handleUpdate_def a1 a2 Let_def)
  have o: "offered bindable st = st\<lparr>rl_nextPort := next_port q, rl_sockets := rl_sockets st \<union>
      ((if free_port bindable st p then {p} else {}) \<union> (if free_port bindable st q then {q} else {}))\<rparr>"
    unfolding offered_def Let_def assms(4) [symmetric] assms(5) [symmetric] by (rule arg_cong) auto
  have l: "listenUDP bindable x (st\<lparr>rl_nextPort := n, rl_sockets := S\<rparr>)
      = (if x \<in> S \<or> \<not> bindable x then (False, st\<lparr>rl_nextPort := n, rl_sockets := S\<rparr>)
         else (True, st\<lparr>rl_nextPort := n, rl_sockets := insert x S\<rparr>))" for x n S
    by (simp add: listenUDP_def)
  have l0: "listenUDP bindable x (st\<lparr>rl_nextPort := n\<rparr>)
      = (if x \<in> rl_sockets st \<or> \<not> bindable x then (False, st\<lparr>rl_nextPort := n\<rparr>)
         else (True, st\<lparr>rl_nextPort := n, rl_sockets := insert x (rl_sockets st)\<rparr>))" for x n
    by (simp add: listenUDP_def)
  show ?thesis
    unfolding e o using q(2)
    by (cases "p \<in> rl_sockets st"; cases "bindable p"; cases "q \<in> rl_sockets st"; cases "bindable q")
      (simp_all add: l l0 free_port_def insert_commute)
qed

lemma handleUpdate_known:
  "length args \<ge> 2 \<Longrightarrow> map_of (rl_sessions st) (args ! 0) = Some s \<Longrightarrow>
     handleUpdate bindable extIP now cookie args st = (st, port_reply cookie (gwPort s) extIP)"
  by (simp add: handleUpdate_def)

lemma session_ports_Cons: "session_ports (st\<lparr>rl_sessions := (k, s) # ss\<rparr>) = callerPort s # gwPort s # session_ports (st\<lparr>rl_sessions := ss\<rparr>)"
  by (simp add: session_ports_def)

lemma session_ports_sockets [simp]:
  "session_ports (st\<lparr>rl_sockets := x\<rparr>) = session_ports st" "session_ports (st\<lparr>rl_nextPort := y\<rparr>) = session_ports st"
  by (simp_all add: session_ports_def)

lemma session_in_ports: "(k, s) \<in> set (rl_sessions st) \<Longrightarrow> {callerPort s, gwPort s} \<subseteq> set (session_ports st)"
  by (force simp: session_ports_def)

lemma offered_wf: "relay_wf st \<Longrightarrow> relay_wf (offered bindable st)"
  using next_port_props [of "rl_nextPort st"] next_port_props [of "next_port (rl_nextPort st)"]
  by (auto simp: relay_wf_def offered_def Let_def)

lemma update_wf:
  assumes "relay_wf st"
  shows "relay_wf (fst (handleUpdate bindable extIP now cookie args st))"
proof (cases "length args \<ge> 2 \<and> map_of (rl_sessions st) (args ! 0) = None")
  case True
  define p q where "p = rl_nextPort st" "q = next_port p"
  have port: "relay_port (rl_nextPort st)" using assms by (simp add: relay_wf_def)
  have pq: "p \<noteq> q" using next_port_props [of p] port by (auto simp: p_q_def)
  have "relay_wf ((offered bindable st)\<lparr>rl_sessions := (args ! 0, s) # rl_sessions st\<rparr>)"
    if "free_port bindable st p" "free_port bindable st q" "callerPort s = p" "gwPort s = q" for s
  proof -
    have o: "rl_sockets (offered bindable st) = insert p (insert q (rl_sockets st))" "rl_sessions (offered bindable st) = rl_sessions st"
      using that(1,2) by (auto simp: offered_def Let_def p_q_def)
    have "args ! 0 \<notin> fst ` set (rl_sessions st)" using True by (simp add: map_of_eq_None_iff)
    moreover have "session_ports ((offered bindable st)\<lparr>rl_sessions := rl_sessions st\<rparr>) = session_ports st"
      by (simp add: session_ports_def)
    ultimately show ?thesis
      using offered_wf [OF assms, of bindable] that pq assms o
      by (auto simp: relay_wf_def session_ports_Cons free_port_def)
  qed
  then show ?thesis
    using handleUpdate_new [OF port _ _ p_q_def, of args] True offered_wf [OF assms] by auto
qed (use assms in \<open>auto simp: handleUpdate_def not_less\<close>)

lemma session_ports_filter:
  "session_ports (st\<lparr>rl_sessions := filter P ss\<rparr>) = concat (map (\<lambda>(_, s). [callerPort s, gwPort s]) (filter P ss))"
  by (simp add: session_ports_def)

lemma distinct_concat_filter: "distinct (concat (map f xs)) \<Longrightarrow> distinct (concat (map f (filter P xs)))"
  by (induction xs) auto

text \<open>The ports of one session of a well-formed state are apart from those of every other session.\<close>

lemma other_ports:
  assumes "distinct (concat (map (\<lambda>(_, s). [callerPort s, gwPort s]) ss))" "map_of ss k = Some s"
    and "(k', s') \<in> set ss" "k' \<noteq> k"
  shows "{callerPort s', gwPort s'} \<inter> {callerPort s, gwPort s} = {}"
  using assms
proof (induction ss)
  case (Cons x ss)
  obtain k1 s1 where x: "x = (k1, s1)" by (cases x)
  have in_ports: "{callerPort t, gwPort t} \<subseteq> set (concat (map (\<lambda>(_, s). [callerPort s, gwPort s]) ss))" if "(j, t) \<in> set ss" for j t
    using that by force
  show ?case
  proof (cases "k1 = k")
    case True
    then have "s1 = s" "(k', s') \<in> set ss" using Cons.prems x by auto
    then show ?thesis using Cons.prems(1) x in_ports by auto
  next
    case False
    then have m: "map_of ss k = Some s" using Cons.prems(2) x by simp
    show ?thesis
    proof (cases "(k', s') = x")
      case True
      then show ?thesis using Cons.prems(1) x in_ports [OF map_of_SomeD [OF m]] by auto
    next
      case False
      then show ?thesis using Cons.IH m Cons.prems x by auto
    qed
  qed
qed simp

lemma delete_wf:
  assumes "relay_wf st"
  shows "relay_wf (fst (handleDelete cookie args st))"
proof (cases "length args < 1 \<or> map_of (rl_sessions st) (args ! 0) = None")
  case False
  then obtain s where s: "map_of (rl_sessions st) (args ! 0) = Some s" "\<not> length args < 1" by auto
  let ?k = "args ! 0" and ?ss = "rl_sessions st"
  have d: "distinct (concat (map (\<lambda>(_, s). [callerPort s, gwPort s]) ?ss))" using assms by (simp add: relay_wf_def session_ports_def)
  have "set (concat (map (\<lambda>(_, s). [callerPort s, gwPort s]) (filter (\<lambda>(k, _). k \<noteq> ?k) ?ss))) \<subseteq> rl_sockets st - {callerPort s, gwPort s}"
  proof
    fix x assume "x \<in> set (concat (map (\<lambda>(_, s). [callerPort s, gwPort s]) (filter (\<lambda>(k, _). k \<noteq> ?k) ?ss)))"
    then obtain k' s' where ks: "(k', s') \<in> set ?ss" "k' \<noteq> ?k" "x \<in> {callerPort s', gwPort s'}" by auto
    then have "x \<in> rl_sockets st" using assms session_in_ports [OF ks(1)] by (auto simp: relay_wf_def)
    then show "x \<in> rl_sockets st - {callerPort s, gwPort s}" using other_ports [OF d s(1) ks(1,2)] ks(3) by auto
  qed
  then show ?thesis
    using assms s distinct_concat_filter [OF d] distinct_map_filter [of fst ?ss]
    by (simp add: handleDelete_def relay_wf_def session_ports_def)
qed (use assms in \<open>auto simp: handleDelete_def\<close>)

lemma on_session_eq:
  "rl_sockets (on_session k f st) = rl_sockets st" "rl_nextPort (on_session k f st) = rl_nextPort st"
  "map fst (rl_sessions (on_session k f st)) = map fst (rl_sessions st)"
  by (auto simp: on_session_def)

lemma relay_packet_ports [simp]:
  "callerPort (fst (relay_packet side addr d s)) = callerPort s" "gwPort (fst (relay_packet side addr d s)) = gwPort s"
  by (auto simp: relay_packet_def Let_def)

lemma session_ports_packet: "session_ports (on_session k (\<lambda>s. fst (relay_packet side addr d s)) st) = session_ports st"
proof -
  have "map (\<lambda>(_, s). [callerPort s, gwPort s]) (map (\<lambda>(k', s). (k', if k' = k then fst (relay_packet side addr d s) else s)) ss)
      = map (\<lambda>(_, s). [callerPort s, gwPort s]) ss" for ss
    by (induction ss) auto
  moreover have "rl_sessions (on_session k f st) = map (\<lambda>(k', s). (k', if k' = k then f s else s)) (rl_sessions st)" for f
    by (simp add: on_session_def)
  ultimately show ?thesis unfolding session_ports_def by (simp only:)
qed

lemma command_cases:
  obtains (same) "fst (handleCommand bindable extIP now raw st) = st"
  | (update) cookie args where "handleCommand bindable extIP now raw st = handleUpdate bindable extIP now cookie args st"
  | (delete) cookie args where "handleCommand bindable extIP now raw st = handleDelete cookie args st"
proof (cases "Prelude.fields raw")
  case Nil
  then show ?thesis by (intro same) (simp add: handleCommand_def)
next
  case c1: (Cons cookie rest)
  show ?thesis
  proof (cases rest)
    case Nil
    then show ?thesis by (intro same) (simp add: handleCommand_def c1)
  next
    case (Cons cmdFull args)
    note f = c1 [unfolded Cons]
    consider "hd cmdFull \<in> {CHR ''U'', CHR ''u''}" | "hd cmdFull \<in> {CHR ''D'', CHR ''d''}"
      | "hd cmdFull \<notin> {CHR ''U'', CHR ''u'', CHR ''D'', CHR ''d''}" by blast
    then show ?thesis
    proof cases
      case 1
      then show ?thesis by (intro update [of cookie args]) (auto simp: handleCommand_def f Let_def)
    next
      case 2
      then show ?thesis by (intro delete [of cookie args]) (auto simp: handleCommand_def f Let_def)
    next
      case 3
      then show ?thesis by (intro same) (simp add: handleCommand_def f Let_def)
    qed
  qed
qed

lemma control_state: "fst (control_datagram bindable extIP now d st) = fst (handleCommand bindable extIP now (trim_space (take 4096 d)) st)"
  by (simp add: control_datagram_def case_prod_beta Let_def)

text \<open>What a step can do: nothing to the ports, an update, a deletion, or a datagram.\<close>

lemma relay_step_cases:
  assumes "relay_step st st'"
  obtains (same) "st' = st"
  | (update) bindable extIP now cookie args where "st' = fst (handleUpdate bindable extIP now cookie args st)"
  | (delete) cookie args where "st' = fst (handleDelete cookie args st)"
  | (media) callID side addr datagram where "st' = on_session callID (\<lambda>s. fst (relay_packet side addr datagram s)) st"
  using assms
proof (elim relay_stepE)
  fix bindable extIP now datagram resp assume "control_datagram bindable extIP now datagram st = (st', resp)"
  then have "st' = fst (handleCommand bindable extIP now (trim_space (take 4096 datagram)) st)" using control_state by (metis fst_conv)
  then show thesis
    using same update delete by (cases rule: command_cases [of bindable extIP now "trim_space (take 4096 datagram)" st]) auto
qed (rule media)

lemma relay_step_wf:
  assumes "relay_wf st" "relay_step st st'"
  shows "relay_wf st'"
  using assms(2)
proof (cases rule: relay_step_cases)
  case (media callID side addr datagram)
  then show ?thesis using assms(1) by (simp add: relay_wf_def on_session_eq session_ports_packet)
qed (use assms(1) update_wf delete_wf in auto)

interpretation media_relay: invariant_machine "\<lambda>st. st = new_relay" relay_step relay_wf
proof
  show "relay_wf s" if "s = new_relay" for s using that by (simp add: relay_wf_def new_relay_def session_ports_def relay_port_def)
qed (rule relay_step_wf)

lemma update_sockets:
  assumes "relay_wf st" "p \<in> rl_sockets st" "p \<notin> set (session_ports st)"
  shows "p \<in> rl_sockets (fst (handleUpdate bindable extIP now cookie args st)) \<and>
     p \<notin> set (session_ports (fst (handleUpdate bindable extIP now cookie args st)))"
proof (cases "length args \<ge> 2 \<and> map_of (rl_sessions st) (args ! 0) = None")
  case True
  have "relay_port (rl_nextPort st)" using assms(1) by (simp add: relay_wf_def)
  note new = handleUpdate_new [OF this _ _ refl refl, of args bindable extIP now cookie]
  have "rl_sockets st \<subseteq> rl_sockets (offered bindable st)" "session_ports (offered bindable st) = session_ports st"
    by (auto simp: offered_def Let_def)
  moreover have "session_ports ((offered bindable st)\<lparr>rl_sessions := rl_sessions st\<rparr>) = session_ports st" by (simp add: session_ports_def)
  ultimately show ?thesis
    using assms(2,3) new True by (auto simp: session_ports_Cons free_port_def)
qed (use assms in \<open>auto simp: handleUpdate_def not_less\<close>)

lemma delete_sockets:
  assumes "p \<in> rl_sockets st" "p \<notin> set (session_ports st)"
  shows "p \<in> rl_sockets (fst (handleDelete cookie args st)) \<and> p \<notin> set (session_ports (fst (handleDelete cookie args st)))"
proof (cases "length args < 1 \<or> map_of (rl_sessions st) (args ! 0) = None")
  case False
  then obtain s where s: "map_of (rl_sessions st) (args ! 0) = Some s" "\<not> length args < 1" by auto
  then have "p \<noteq> callerPort s" "p \<noteq> gwPort s" using session_in_ports [OF map_of_SomeD [OF s(1)]] assms(2) by auto
  then show ?thesis using assms s by (auto simp: handleDelete_def session_ports_def)
qed (use assms in \<open>auto simp: handleDelete_def\<close>)

text \<open>A socket that belongs to no session: no step closes it, and no session ever gets its port.\<close>

definition lost_port :: "int \<Rightarrow> relay_state \<Rightarrow> bool" where
  "lost_port p st \<longleftrightarrow> relay_wf st \<and> p \<in> rl_sockets st \<and> p \<notin> set (session_ports st)"

lemma lost_port_step:
  assumes "lost_port p st" "relay_step st st'"
  shows "lost_port p st'"
proof -
  have wf: "relay_wf st'" using assms relay_step_wf by (auto simp: lost_port_def)
  from assms(2) show ?thesis
  proof (cases rule: relay_step_cases)
    case (media callID side addr datagram)
    then show ?thesis using assms(1) wf by (simp add: lost_port_def on_session_eq session_ports_packet)
  qed (use assms(1) wf update_sockets delete_sockets in \<open>auto simp: lost_port_def\<close>)
qed

interpretation lost: invariant_machine "lost_port p" relay_step "lost_port p" for p
  by unfold_locales (auto intro: lost_port_step)

lemma relay_loop_known:
  "callerAddr s = Some a \<Longrightarrow> gwAddr s = Some b \<Longrightarrow>
     relay_loop ds s = (s, map (\<lambda>(side, _, d). Some (if side then (gwPort s, b, take 1500 d) else (callerPort s, a, take 1500 d))) ds)"
  by (induction ds) (auto simp: relay_packet_def Let_def)

subsection \<open>Properties\<close>

text \<open>
  C21: the relay keeps calls apart: in every reachable state no two sessions share a call id or a port, the two
  ports of a session differ, and every session holds the sockets of its ports, which lie in the range.
\<close>

theorem relay_calls_apart:
  assumes "reachable relay_step new_relay st"
  shows "distinct (map fst (rl_sessions st)) \<and> distinct (session_ports st) \<and> set (session_ports st) \<subseteq> rl_sockets st \<and>
    (\<forall>p \<in> rl_sockets st. 40000 \<le> p \<and> p < 40100 \<and> even p)"
  using media_relay.reachable_inv [OF assms refl] by (auto simp: relay_wf_def relay_port_def)

theorem relay_calls_apart_witness:
  "\<exists>st resp. control_datagram (\<lambda>_. True) ''192.0.2.1'' 0 ''c U x y'' new_relay = (st, resp) \<and>
     session_ports st = [40000, 40002] \<and> set (session_ports st) \<subseteq> rl_sockets st"
proof -
  obtain st resp where c: "control_datagram (\<lambda>_. True) ''192.0.2.1'' 0 ''c U x y'' new_relay = (st, resp)" by (meson surj_pair)
  have f: "Prelude.fields (trim_space (take 4096 ''c U x y'')) = [''c'', ''U'', ''x'', ''y'']" by code_simp
  have u: "st = fst (handleUpdate (\<lambda>_. True) ''192.0.2.1'' 0 ''c'' [''x'', ''y''] new_relay)"
    using c f by (auto simp: control_datagram_def handleCommand_def Let_def split: prod.splits)
  have "session_ports st = [40000, 40002]"
    unfolding u by (subst handleUpdate_new [OF _ _ _ refl refl])
      (simp_all add: new_relay_def relay_port_def free_port_def next_port_def session_ports_def)
  moreover have "reachable relay_step new_relay st" by (rule reachable_step [where step = relay_step, OF relay_step.control [OF c]])
  ultimately show ?thesis using relay_calls_apart [of st] c by blast
qed

text \<open>
  C22: the life of a session. In a reachable state, an offer for a new call whose two ports are free is answered
  with the caller's port; from then on an answer or a lookup gets the other port, and a deletion closes
  both sockets, after which a lookup fails and the state is as before but for the port counter.
\<close>

theorem relay_session_life:
  assumes "reachable relay_step new_relay st" "map_of (rl_sessions st) callID = None"
    and "free_port bindable st (rl_nextPort st)" "free_port bindable st (next_port (rl_nextPort st))"
    and "handleUpdate bindable extIP now c [callID, tag] st = (st1, r1)"
  shows "r1 = port_reply c (rl_nextPort st) extIP \<and>
    handleUpdate bindable extIP now2 c2 [callID, tag2] st1 = (st1, port_reply c2 (next_port (rl_nextPort st)) extIP) \<and>
    handleLookup extIP c3 [callID] st1 = port_reply c3 (next_port (rl_nextPort st)) extIP \<and>
    (\<exists>st2. handleDelete c4 [callID] st1 = (st2, c4 @ '' 0'') \<and> handleLookup extIP c5 [callID] st2 = c5 @ '' E8'' \<and>
       st2 = st\<lparr>rl_nextPort := next_port (next_port (rl_nextPort st))\<rparr>)"
proof -
  define p q where "p = rl_nextPort st" "q = next_port p"
  have wf: "relay_wf st" using media_relay.reachable_inv [OF assms(1) refl] .
  then have port: "relay_port (rl_nextPort st)" by (simp add: relay_wf_def)
  let ?s = "\<lparr>callerPort = p, gwPort = q, callerAddr = None, gwAddr = None, created = now, gotOffer = True\<rparr>"
  have free: "p \<notin> rl_sockets st" "q \<notin> rl_sockets st" using assms(3,4) by (auto simp: free_port_def p_q_def)
  have u: "st1 = st\<lparr>rl_nextPort := next_port q, rl_sockets := insert p (insert q (rl_sockets st)),
      rl_sessions := (callID, ?s) # rl_sessions st\<rparr>" "r1 = port_reply c p extIP"
  proof -
    have "offered bindable st = st\<lparr>rl_nextPort := next_port q, rl_sockets := insert p (insert q (rl_sockets st))\<rparr>"
      using assms(3,4) unfolding offered_def Let_def p_q_def by (intro relay_state.equality) auto
    then show "st1 = st\<lparr>rl_nextPort := next_port q, rl_sockets := insert p (insert q (rl_sockets st)),
        rl_sessions := (callID, ?s) # rl_sessions st\<rparr>" "r1 = port_reply c p extIP"
      using handleUpdate_new [OF port _ _ p_q_def, of "[callID, tag]" bindable extIP now c] assms(2-5) by (simp_all add: p_q_def)
  qed
  have known: "map_of (rl_sessions st1) callID = Some ?s" by (simp add: u)
  have "filter (\<lambda>(k, _). k \<noteq> callID) (rl_sessions st) = rl_sessions st"
    using assms(2) by (auto simp: map_of_eq_None_iff filter_id_conv image_iff)
  then have "handleDelete c4 [callID] st1 = (st\<lparr>rl_nextPort := next_port q\<rparr>, c4 @ '' 0'')"
    using known free by (simp add: handleDelete_def u)
  then show ?thesis
    using u(2) handleUpdate_known [of "[callID, tag2]" st1 ?s] known assms(2)
    by (simp add: handleLookup_def p_q_def)
qed

theorem relay_session_life_witness:
  "\<exists>st1 st2. handleUpdate (\<lambda>_. True) ''192.0.2.1'' 0 ''c'' [''call'', ''tag''] new_relay = (st1, port_reply ''c'' 40000 ''192.0.2.1'') \<and>
     handleLookup ''192.0.2.1'' ''l'' [''call''] st1 = port_reply ''l'' 40002 ''192.0.2.1'' \<and>
     handleDelete ''d'' [''call''] st1 = (st2, ''d 0'') \<and> handleLookup ''192.0.2.1'' ''l'' [''call''] st2 = ''l E8''"
proof -
  obtain st1 r1 where u: "handleUpdate (\<lambda>_. True) ''192.0.2.1'' 0 ''c'' [''call'', ''tag''] new_relay = (st1, r1)" by (meson surj_pair)
  have "map_of (rl_sessions new_relay) ''call'' = None" "free_port (\<lambda>_. True) new_relay (rl_nextPort new_relay)"
      "free_port (\<lambda>_. True) new_relay (next_port (rl_nextPort new_relay))" "rl_nextPort new_relay = 40000" "next_port 40000 = 40002"
    by (simp_all add: new_relay_def free_port_def next_port_def)
  with relay_session_life [OF reachable.start this(1-3) u, of _ _ _ "''l''" "''d''" "''l''"] u show ?thesis by auto
qed

text \<open>
  media is relayed symmetrically: once both sides have sent a datagram, the relay forwards every datagram,
  up to its 1500 bytes, out of the other port to the first address seen there, whoever sends it, and the
  addresses never change.
\<close>

theorem relay_symmetric:
  assumes "callerAddr s = None" "gwAddr s = None" "s' = fst (relay_loop [(True, a, d), (False, b, e)] s)"
  shows "snd (relay_loop ds s') =
      map (\<lambda>(side, _, d). Some (if side then (gwPort s, b, take 1500 d) else (callerPort s, a, take 1500 d))) ds \<and>
    fst (relay_loop ds s') = s'"
proof -
  have "s' = s\<lparr>callerAddr := Some a, gwAddr := Some b\<rparr>" using assms by (simp add: relay_packet_def Let_def)
  then have "callerAddr s' = Some a" "gwAddr s' = Some b" "gwPort s' = gwPort s" "callerPort s' = callerPort s" by simp_all
  with relay_loop_known [of s' a b ds] show ?thesis by (simp only: fst_conv snd_conv)
qed

theorem relay_symmetric_witness:
  "snd (relay_loop [(True, (''z'', 9), [1])]
     (fst (relay_loop [(True, (''a'', 1), []), (False, (''b'', 2), [])]
        \<lparr>callerPort = 40000, gwPort = 40002, callerAddr = None, gwAddr = None, created = 0, gotOffer = True\<rparr>)))
   = [Some (40002, (''b'', 2), [1])]"
  using relay_symmetric [of "\<lparr>callerPort = 40000, gwPort = 40002, callerAddr = None, gwAddr = None, created = 0, gotOffer = True\<rparr>"
      _ "(''a'', 1)" "[]" "(''b'', 2)" "[]" "[(True, (''z'', 9), [1])]", OF _ _ refl]
  by simp



end
