(* ===== verification/Reports.thy ===== *)
theory Reports
  imports Copilot Robocall
begin

text \<open>
  What supervisors and reports show: the list of live calls (\<open>gateway/supervisor.go\<close>), the reports over the
  calls table (\<open>gateway/recording.go\<close> over \<open>gateway/db.go\<close>), the statistics and audio measures of the robocall
  detector (\<open>gateway/robocall.go\<close>), and the loop that plays the conference to the caller
  (\<open>gateway/conference.go\<close>).
\<close>

subsection \<open>Live calls\<close>

record supervised_call =
  su_call_id :: string
  su_started_at :: instant
  su_duration :: int
  su_caller :: string
  su_agent :: string
  su_voice :: SentimentResult
  su_last :: "(string \<times> string) option"
  su_count :: nat
  su_monitored :: bool

text \<open>\<open>keys\<close> are the keys of the supervisor sessions.\<close>

definition supervised :: "(real \<Rightarrow> real) \<Rightarrow> instant \<Rightarrow> string list \<Rightarrow> siprecSession \<Rightarrow> supervised_call" where
  "supervised rnd now keys s =
     \<lparr>su_call_id = ss_callID s, su_started_at = ss_startTime s, su_duration = go_div (since now (ss_startTime s)) second,
      su_caller = ss_callerNumber s, su_agent = ss_agentNumber s, su_voice = snd (Analyze rnd (ss_sentiment s)),
      su_last = (if conversation s = [] then None
                 else let u = last (conversation s) in Some (utt_Speaker u, utt_Text u)),
      su_count = length (conversation s), su_monitored = monitored keys (ss_callID s)\<rparr>"

text \<open>\<open>order\<close> is the order in which the range over the map visits the sessions.\<close>

definition handleSupervisorCalls ::
  "(real \<Rightarrow> real) \<Rightarrow> bool \<Rightarrow> instant \<Rightarrow> string list \<Rightarrow> string list \<Rightarrow> copilot_state \<Rightarrow> copilot_state \<times> supervised_call list response" where
  "handleSupervisorCalls rnd isGet now keys order g =
     (if \<not> isGet then (g, HttpError 405 ''{\"error\":\"GET required\"}'')
      else
        (g\<lparr>siprecSessions := (\<lambda>i. map_option (\<lambda>s. s\<lparr>ss_sentiment := fst (Analyze rnd (ss_sentiment s))\<rparr>) (siprecSessions g i))\<rparr>,
         WriteJSON 200 (map (\<lambda>i. supervised rnd now keys (the (siprecSessions g i))) order)))"

subsection \<open>Reports\<close>

definition handleReportAgents ::
  "string option \<Rightarrow> (int list \<Rightarrow> int option) \<Rightarrow> instant \<Rightarrow> bool \<Rightarrow> int option \<Rightarrow> Database option
    \<Rightarrow> (string \<times> nat \<times> int \<times> nat \<times> nat) list response" where
  "handleReportAgents fails avg now isGet days database =
     handleReport (\<lambda>ds. AgentPerformance fails avg now ds database) isGet days (database \<noteq> None)"

definition handleReportSentiment ::
  "string option \<Rightarrow> (instant \<Rightarrow> instant) \<Rightarrow> instant \<Rightarrow> bool \<Rightarrow> int option \<Rightarrow> Database option \<Rightarrow> (instant \<times> nat \<times> nat \<times> nat) list response" where
  "handleReportSentiment fails trunc_day now isGet days database =
     handleReport (\<lambda>ds. SentimentTrend fails trunc_day now ds database) isGet days (database \<noteq> None)"

subsection \<open>Robocall statistics\<close>

text \<open>The columns of the calls table that the detector added.\<close>

record call_flags =
  fl_start_time :: instant
  fl_blocked :: bool
  fl_category :: string

record robocall_stats =
  rs_blocklist_size :: nat
  rs_threshold :: real
  rs_auto_block :: bool
  rs_today :: "(nat \<times> nat \<times> nat \<times> nat) option"

text \<open>\<open>today\<close> is the instant truncated to a day; the counts are total, robocalls, blocked and uncertain.\<close>

definition Robocall_handleStats :: "instant \<Rightarrow> call_flags list \<Rightarrow> RobocallDetector \<Rightarrow> robocall_stats" where
  "Robocall_handleStats now calls d =
     (let day = now - now mod (24 * 3600 * second); cs = filter (\<lambda>c. fl_start_time c \<ge> day) calls in
      \<lparr>rs_blocklist_size = card (dom (RobocallDetector.blocklist d)), rs_threshold = RobocallDetector.threshold d, rs_auto_block = RobocallDetector.autoBlock d,
       rs_today = (if rd_db d = None then None
                   else Some (length cs, length (filter (\<lambda>c. fl_category c = ''robocall'') cs), length (filter fl_blocked cs),
                              length (filter (\<lambda>c. fl_category c = ''uncertain'') cs)))\<rparr>)"

subsection \<open>Audio measures\<close>

definition rmsVariance :: "(real \<Rightarrow> real) \<Rightarrow> byte list list \<Rightarrow> real \<times> real" where
  "rmsVariance rnd frames =
     (if frames = [] then (0, 0)
      else
        let n = of_nat (length frames); energies = map (rmsEnergy rnd) frames;
            avg = rnd (fold (\<lambda>e acc. rnd (acc + e)) (map (rmsEnergy rnd) (filter (\<lambda>f. length f div 2 > 0) frames)) 0 / n)
        in (avg, rnd (fold (\<lambda>e acc. let df = rnd (e - avg) in rnd (acc + rnd (df * df))) energies 0 / n)))"

text \<open>\<open>log10\<close> is \<open>math.Log10\<close>.\<close>

definition estimateSNR :: "(real \<Rightarrow> real) \<Rightarrow> (real \<Rightarrow> real) \<Rightarrow> byte list \<Rightarrow> real" where
  "estimateSNR rnd log10 pcm =
     (let ss = map (\<lambda>s. \<bar>of_int (sint s)\<bar> :: real) (samples pcm) in
      if ss = [] then 0
      else
        let signal = fold (\<lambda>s acc. rnd (acc + s)) ss 0;
            noise = fold (\<lambda>(s, prev) acc. rnd (acc + \<bar>rnd (s - prev)\<bar>)) (zip (tl ss) ss) 0
        in if noise = 0 then 100 else rnd (20 * rnd (log10 (rnd (signal / noise)))))"

subsection \<open>The conference heard by the caller\<close>

text \<open>A mixed frame goes to the caller's RTP listener, if the call has one.\<close>

definition caller_output :: "bool \<Rightarrow> mixParticipant \<Rightarrow> mixParticipant \<times> byte list option" where
  "caller_output hasListener p =
     (case pcmOut p of [] \<Rightarrow> (p, None) | f # fs \<Rightarrow> (p\<lparr>pcmOut := fs\<rparr>, if hasListener then Some f else None))"

subsection \<open>Lemmas\<close>

lemma monitored_iff: "monitored keys callID \<longleftrightarrow> (\<exists>x. x \<noteq> [] \<and> callID @ x \<in> set keys)"
proof
  assume "monitored keys callID"
  then obtain k where k: "k \<in> set keys" "length k > length callID" "take (length callID) k = callID"
    by (auto simp: monitored_def list_ex_iff)
  then have "k = callID @ drop (length callID) k" by (metis append_take_drop_id)
  with k show "\<exists>x. x \<noteq> [] \<and> callID @ x \<in> set keys" by (metis drop_eq_Nil not_le)
qed (auto simp: monitored_def list_ex_iff intro!: bexI)

lemma sort_desc_by_props:
  "mset (sort_desc_by f xs) = mset xs" "sorted_wrt (\<ge>) (map f (sort_desc_by f xs))"
  by (simp_all add: sort_desc_by_def rev_map [symmetric] sorted_wrt_rev)

lemma distinct_sort_desc_by: "distinct (map f (sort_desc_by g xs)) = distinct (map f xs)"
  by (rule mset_eq_imp_distinct_iff) (simp add: sort_desc_by_props)

lemma sum_list_mset_eq: "mset xs = mset ys \<Longrightarrow> sum_list (map f xs) = (sum_list (map f ys) :: nat)"
  by (metis mset_map sum_mset_sum_list)

subsection \<open>Properties\<close>

text \<open>
  the supervisor's list shows every live call once, in the order in which the sessions are visited, leaves
  conversations alone, and marks a call as monitored exactly when the key of a supervisor session is a
  proper extension of its call id: every call somebody monitors, but also each call whose id is the
  beginning of the id of one that is monitored.
\<close>

theorem supervisor_listing:
  assumes "handleSupervisorCalls rnd True now keys order g = (g', WriteJSON 200 es)" "set order = dom (siprecSessions g)"
    and "\<forall>i s. siprecSessions g i = Some s \<longrightarrow> ss_callID s = i"
  shows "map su_call_id es = order \<and>
    (\<forall>i. map_option conversation (siprecSessions g' i) = map_option conversation (siprecSessions g i)) \<and>
    (\<forall>e \<in> set es. (su_monitored e \<longleftrightarrow> (\<exists>x. x \<noteq> '''' \<and> su_call_id e @ x \<in> set keys)) \<and>
       (\<forall>rest user. session_key (su_call_id e @ rest) user \<in> set keys \<longrightarrow> su_monitored e))"
proof -
  have es: "es = map (\<lambda>i. supervised rnd now keys (the (siprecSessions g i))) order"
    and g': "siprecSessions g' = (\<lambda>i. map_option (\<lambda>s. s\<lparr>ss_sentiment := fst (Analyze rnd (ss_sentiment s))\<rparr>) (siprecSessions g i))"
    using assms(1) by (auto simp: handleSupervisorCalls_def)
  have "su_call_id (supervised rnd now keys (the (siprecSessions g i))) = i" if "i \<in> set order" for i
    using that assms(2,3) by (auto simp: supervised_def)
  then have "map su_call_id es = order" by (simp add: es map_idI)
  moreover have "\<forall>i. map_option conversation (siprecSessions g' i) = map_option conversation (siprecSessions g i)"
    by (simp add: g' option.map_comp comp_def)
  moreover have "su_monitored e \<longleftrightarrow> (\<exists>x. x \<noteq> '''' \<and> su_call_id e @ x \<in> set keys)" if "e \<in> set es" for e
    using that by (auto simp: es supervised_def monitored_iff)
  moreover have "su_monitored e" if "e \<in> set es" "session_key (su_call_id e @ rest) user \<in> set keys" for e rest user
    using calculation(3) [OF that(1)] that(2) by (auto simp: session_key_def intro: exI [of _ "rest @ '':'' @ user"])
  ultimately show ?thesis by blast
qed

text \<open>
  the report on agents accounts for every call: its rows are the numbers called, each once, the busiest
  first, and their calls add up to the calls of the period; without a database it is empty.
\<close>

theorem agents_report_complete:
  assumes "handleReportAgents None avg now True days (Some t) = WriteJSON 200 rows"
  shows "distinct (map fst rows) \<and> sorted_wrt (\<ge>) (map (\<lambda>(_, n, _). n) rows) \<and>
    sum_list (map (\<lambda>(_, n, _). n) rows) = length (recent_calls now (case days of None \<Rightarrow> 7 | Some d \<Rightarrow> d) t) \<and>
    handleReportAgents None avg now True days None = WriteJSON 200 []"
proof -
  let ?cs = "recent_calls now (case days of None \<Rightarrow> 7 | Some d \<Rightarrow> d) t"
  let ?agg = "\<lambda>mine. (length mine, case avg (map cr_Duration mine) of None \<Rightarrow> (0, 0, 0)
      | Some a \<Rightarrow> (a, count_sentiment ''positive'' mine, count_sentiment ''negative'' mine))"
  let ?gs = "group_counts cr_CalledNumber ?agg (remdups (map cr_CalledNumber ?cs)) ?cs"
  have rows: "rows = sort_desc_by (\<lambda>(_, n, _). n) ?gs"
    using assms by (simp add: handleReportAgents_def handleReport_def AgentPerformance_def query_db_def Let_def)
  have "map fst ?gs = remdups (map cr_CalledNumber ?cs)" by (simp add: group_counts_def comp_def)
  then have "distinct (map fst rows)"
    by (simp only: rows distinct_sort_desc_by distinct_remdups)
  moreover have "sum_list (map (\<lambda>(_, n, _). n) rows) = length ?cs"
  proof -
    have "sum_list (map (\<lambda>(_, n, _). n) rows) = sum_list (map (\<lambda>(_, n, _). n) ?gs)"
      by (rule sum_list_mset_eq) (simp add: rows sort_desc_by_props)
    also have "\<dots> = (\<Sum>k\<leftarrow>remdups (map cr_CalledNumber ?cs). length (filter (\<lambda>c. cr_CalledNumber c = k) ?cs))"
      by (simp add: group_counts_def comp_def)
    also have "\<dots> = length ?cs" by (rule sum_groups) auto
    finally show ?thesis .
  qed
  moreover have "handleReportAgents None avg now True days None = WriteJSON 200 []"
    by (simp add: handleReportAgents_def handleReport_def)
  ultimately show ?thesis using sort_desc_by_props(2) [of "\<lambda>(_, n, _). n" ?gs] by (simp add: rows)
qed

theorem agents_report_complete_witness:
  "\<exists>rows. handleReportAgents None (\<lambda>_. None) 10 True (Some 1) (Some \<lparr>db_calls = [zero_call, zero_call], db_transcripts = [],
     db_documents = [], db_queue_entries = []\<rparr>) = WriteJSON 200 rows \<and> sum_list (map (\<lambda>(_, n, _). n) rows) = 2"
proof -
  let ?t = "\<lparr>db_calls = [zero_call, zero_call], db_transcripts = [], db_documents = [], db_queue_entries = []\<rparr>"
  obtain rows where r: "handleReportAgents None (\<lambda>_. None) 10 True (Some 1) (Some ?t) = WriteJSON 200 rows"
    by (simp add: handleReportAgents_def handleReport_def AgentPerformance_def query_db_def)
  have "length (recent_calls 10 1 ?t) = 2" by (simp add: recent_calls_def zero_call_def second_def)
  with agents_report_complete [OF r] show ?thesis using r by auto
qed

theorem supervisor_listing_witness:
  "\<exists>e. snd (handleSupervisorCalls id True 10 [''123:sup''] [''12''] \<lparr>siprecSessions = [''12'' \<mapsto> new_session ''12'' 0], cs_queues = None,
     cs_webhooks = None, cs_db = None\<rparr>) = WriteJSON 200 [e] \<and> su_call_id e = ''12'' \<and> su_monitored e"
proof -
  let ?g = "\<lparr>siprecSessions = [''12'' \<mapsto> new_session ''12'' 0], cs_queues = None, cs_webhooks = None, cs_db = None\<rparr>"
  obtain g' e where h: "handleSupervisorCalls id True 10 [''123:sup''] [''12''] ?g = (g', WriteJSON 200 [e])"
    by (simp add: handleSupervisorCalls_def)
  have "ss_callID (new_session ''12'' 0) = ''12''" by (simp add: new_session_def split: prod.splits)
  then have "map su_call_id [e] = [''12'']" "\<forall>rest user. session_key (su_call_id e @ rest) user \<in> set [''123:sup''] \<longrightarrow> su_monitored e"
    using supervisor_listing [OF h] by auto
  moreover from this(2) have "session_key (su_call_id e @ ''3'') ''sup'' \<in> set [''123:sup''] \<longrightarrow> su_monitored e" by blast
  ultimately show ?thesis using h by (auto simp: session_key_def)
qed

end
