(* ===== verification/Spec2Isabelle.thy ===== *)
theory Spec2Isabelle
  imports Prelude Codec Failover Scale Queue_Manager Acd Routing Did_Routing
    Sip_Security Dtmf Ivr Sip_Server Wav Fanout Resample Session_Store Conference Announcer Call_Control Sha256 Auth
    Agent_Session Robocall Security Speech_Text Esl Actions Rag
    Pipeline Webhooks Rtp Recording Sentiment Db Copilot Webrtc Trunks Sip_Uac
    Audio_Level Tone_Detector Config_Store Tenants Metrics Siprec_Meta Llm Api Redis_Store Bootstrap Rtp_Relay Reports
begin

text \<open>
  The voice-agent gateway, the Go program under \<open>src/gateway\<close> with the media relay \<open>src/tools/rtprelay\<close>: a
  telephony gateway that takes calls from SIP trunks, a switch and browsers, lets a language model talk to
  the caller or coach the agent who does, and distributes the calls that wait to agents.

  \<^bold>\<open>The parts and how they meet.\<close> An INVITE is checked against trunks and access lists, gets an RTP port and
  a session, is routed by the number dialled, possibly through an IVR flow, and its caller is put into a
  queue. The distributor rings agents for waiting calls; an agent picks one in the browser, and audio flows
  between the trunk's RTP stream and the browser's track, through taps that recording, the co-pilot,
  conferences and supervisors read. Calls bridged by the switch go through the speech pipeline instead:
  voice activity detection, recognition, masking, the language model with its actions, synthesis and
  playback. When a call ends its summary, recording and row are stored and web hooks are fired. Around this
  stand the HTTP handlers for administration, behind the authentication of \<open>main\<close>.

  \<^bold>\<open>Shared vocabulary.\<close> \<open>Prelude\<close> has Go's strings, integer division, time, byte order and HTTP answers, the
  list and string lemmas the components share, reachability and the locale \<open>invariant_machine\<close>. \<open>Sha256\<close> has
  the hash and HMAC on 32-bit words. \<open>Fanout\<close> has bounded channels and the audio taps of a call (\<open>siprec.go\<close>).

  \<^bold>\<open>Signalling.\<close> \<open>Sip_Security\<close> (\<open>sip_security.go\<close>): loading of trunks and access lists, policies, digest
  challenges with single-use nonces. \<open>Sip_Server\<close> (\<open>sipserver.go\<close>): INVITE, BYE, registrations, SDP and
  multipart bodies; a panic is \<open>None\<close>. \<open>Sip_Uac\<close> (\<open>sip_uac.go\<close>): outgoing calls, message by message. \<open>Trunks\<close>
  (\<open>trunks.go\<close>), \<open>Siprec_Meta\<close> (\<open>siprec_meta.go\<close>), \<open>Esl\<close> (event socket and originate, \<open>main.go\<close>), \<open>Rtp_Relay\<close>
  (the relay's control protocol, sockets and forwarding).

  \<^bold>\<open>Media.\<close> \<open>Codec\<close> (\<open>codec.go\<close>) and \<open>Wav\<close> (\<open>main.go\<close>) are bit-exact. \<open>Resample\<close>, \<open>Sentiment\<close>, \<open>Audio_Level\<close> (\<open>agc.go\<close>) and
  \<open>Tone_Detector\<close> (\<open>dtmf.go\<close>) compute with reals and apply the parameter \<open>rnd\<close> after every operation where
  the code rounds a float64; \<open>float_rounding\<close>, \<open>exact_halves\<close> and \<open>nearest_rounding\<close> say what is needed of
  it, all true of IEEE rounding. \<open>Rtp\<close> (\<open>rtplistener.go\<close>), \<open>Conference\<close> (\<open>conference.go\<close>, \<open>supervisor.go\<close>), \<open>Webrtc\<close>
  (\<open>webrtc.go\<close>), \<open>Recording\<close> (\<open>recording.go\<close>), \<open>Dtmf\<close> (\<open>dtmf.go\<close>).

  \<^bold>\<open>Distribution of calls.\<close> \<open>Queue_Manager\<close> (\<open>queue.go\<close>), \<open>Acd\<close> (\<open>acd.go\<close>), \<open>Routing\<close> (\<open>routing.go\<close>), \<open>Did_Routing\<close>
  (\<open>did_routing.go\<close>), \<open>Ivr\<close> (\<open>ivr.go\<close>), \<open>Announcer\<close> (\<open>queue_announcements.go\<close>), \<open>Agent_Session\<close> (\<open>agent_session.go\<close>),
  \<open>Call_Control\<close> (\<open>callcontrol.go\<close>).

  \<^bold>\<open>Speech and language.\<close> \<open>Pipeline\<close> and \<open>Speech_Text\<close> (\<open>main.go\<close>), \<open>Actions\<close> (\<open>actions.go\<close>), \<open>Copilot\<close> (\<open>siprec.go\<close>), \<open>Llm\<close>
  (\<open>llm.go\<close>), \<open>Rag\<close> (\<open>rag.go\<close>), \<open>Robocall\<close> (\<open>robocall.go\<close>), \<open>Security\<close> (\<open>security.go\<close>, \<open>security_rules.go\<close>).

  \<^bold>\<open>Administration.\<close> \<open>Auth\<close> (\<open>auth.go\<close>), \<open>Api\<close> (\<open>api.go\<close>), \<open>Tenants\<close> (\<open>tenant.go\<close>), \<open>Webhooks\<close> (\<open>webhooks.go\<close>), \<open>Db\<close> (\<open>db.go\<close>),
  \<open>Config_Store\<close> (\<open>configstore.go\<close>), \<open>Session_Store\<close> and \<open>Redis_Store\<close> (\<open>store.go\<close>), \<open>Scale\<close> (\<open>scale.go\<close>), \<open>Failover\<close>
  (\<open>failover.go\<close>), \<open>Metrics\<close> (\<open>metrics.go\<close>), \<open>Reports\<close> (lists and reports over several of these), \<open>Bootstrap\<close>
  (configuration, start and status pages, \<open>main.go\<close>).

  \<^bold>\<open>How code becomes definitions.\<close> A struct is a record, a handler a function from the decoded request and the
  state to the new state and the answer, with one branch per early return. Logging is dropped. Tables are
  lists of rows and an SQL statement is its effect on them, errors being given outcomes. The order in which
  Go visits a map is a parameter, as are the clock readings, JSON, XML, SDP and regular expressions, HTTP
  outcomes, the language model, recogniser and synthesiser, the WebRTC, Redis and token libraries. Sending
  on a closed channel, indexing out of range and nil pointers are \<open>None\<close>.

  \<^bold>\<open>Interfaces.\<close> \<open>call_queue\<close> (put and take on a multiset of callers; the queue manager), \<open>ranking\<close> (sorting by
  score; the router's exchange sort), \<open>fanout\<close> (subscribers with bounded buffers; audio taps, agent taps,
  topics of the store, event clients of the co-pilot), \<open>session_store\<close>, \<open>keyed_table\<close> (upserts; calls and
  documents), \<open>simulation\<close> (the settings refine an abstract record), \<open>llm_client\<close> (Claude and Gemini),
  \<open>port_allocator\<close> (SIP server and relay), \<open>g711_decoder\<close>, \<open>saturating_mix\<close>, and \<open>invariant_machine\<close>, which is
  interpreted for every component with a step relation: breakers, worker pool, admission, arrival order,
  conferences, announcements, blocklist, voice analysis, gain control, browser sessions, tenants, relay.

  \<^bold>\<open>What is shown.\<close> Security: which SIP and HTTP requests are accepted, replay of digests, tokens and their
  lifetime, who may change users, masking of transcripts. Conservation: no caller is lost or duplicated by
  queues, transfers, picks, hang-ups and browser calls, and a call that ends leaves the queues as they were
  (below). Choice: routes, agents and voices chosen are the best ones. Media: codec accuracy, round trips,
  exactness of resampling, complete and ordered delivery of audio, bounds of mixing and gain. State:
  invariants of every machine named above and refinement of abstract contracts. Concurrency: all
  interleavings of the admission counter's atomic steps, and races of the store, the announcer, the browser
  registry and the settings listing. The theorems of kind error state what the code does where that is not
  what it is meant to do.

  \<^bold>\<open>Bounds and termination.\<close> Every function is total but \<open>chunk_loop\<close> of \<open>Rag\<close>, a partial function whose
  value \<open>None\<close> is a loop that does not end: it is shown to return for chunk sizes up to 50 and from 98 on,
  and not to return for a document at a size between. An IVR run visits at most 20 nodes, as the code's
  counter does. The constants of the code (warm-up of 25 frames, chunks of 250, buffers of 10, 20 and 50
  places, 50 even ports of the relay) are kept. Counters that can wrap are 64-bit words.

  \<^bold>\<open>Not modelled.\<close> Registration of routes, sockets, TLS certificates, signals and shutdown, the peer
  connections and the Opus decoder, opening the database and the columns of tables other than documents
  (the migration files), the tone generator used in tests: all of it calls into libraries or the operating
  system. IPv6 addresses are left out of the trunk check. The web console, the client kits, test programs
  and deployment files are not Go code of the gateway.
\<close>

subsection \<open>Across the components\<close>

text \<open>Taking a call by its Call-ID: the pick finds it when it waits.\<close>

lemma pick_by_call_id:
  assumes "finite (dom qs)" "enumerates ord" "cid \<noteq> ''''" "waiting qs = add_mset e rest" "CallID e = cid" "\<forall>c \<in># rest. CallID c \<noteq> cid"
    and "handlePickCall True (Some \<lparr>pk_queue_entry_id = '''', pk_call_id = cid, pk_agent_id = agent, pk_webrtc_bridge = br\<rparr>) ord gw ann (qs, acd)
         = ((qs', acd'), eff, resp)"
  shows "waiting qs' = rest \<and> resp = WriteJSON 200 [(''status'', ''ok''), (''call_id'', cid)]"
proof -
  obtain q1 r where t: "take_caller (\<lambda>c. CallID c = cid) (ord qs) qs = (q1, r)" by fastforce
  have "r \<noteq> None"
    using qm.takes_None [of qs "(ord, \<lambda>c. CallID c = cid)" q1] assms(1,2,4,5) t by auto
  then obtain c where r: "r = Some c" by auto
  have c: "CallID c = cid" "c \<in># waiting qs" "waiting q1 = waiting qs - {#c#}"
    using qm.takes_Some [of qs "(ord, \<lambda>c. CallID c = cid)" q1 c] assms(1,2) t r by auto
  then have "c = e" using assms(4,6) by auto
  then have "waiting q1 = rest" using c(3) assms(4) by simp
  then show ?thesis using assms(3,7) t r c(1) by (auto simp: handlePickCall_def Let_def)
qed

lemma bye_queues: "sip_queues (fst (handleBye ord now cid (s, wm, acd))) = map_option (RemoveCallerByCallID ord cid) (sip_queues s)"
  by (simp add: handleBye_def Let_def case_prod_beta)

text \<open>
  C4: a call leaves no trace in the queues. When an INVITE for a call that does not wait yet is answered on the
  caller's leg, the call waits; an agent who then picks it by its Call-ID gets it, and a BYE ends it, and
  either way exactly the callers that waited before the INVITE are left waiting.
\<close>

theorem call_leaves_queues_as_before:
  assumes "handleInvite env iv s = Some (s', OkSDP ip port tt)" "sip_queues s = Some qs" "finite (dom qs)"
    and "invite_role env (snd (invite_bodies iv)) = ''caller''" "enumerates ord"
    and "call_id (inv_sip iv) = cid" "cid \<noteq> ''''" "\<forall>c \<in># waiting qs. CallID c \<noteq> cid"
  shows "\<exists>qs'. sip_queues s' = Some qs' \<and> (\<exists>c \<in># waiting qs'. CallID c = cid) \<and>
    (case handlePickCall True (Some \<lparr>pk_queue_entry_id = '''', pk_call_id = cid, pk_agent_id = agent, pk_webrtc_bridge = br\<rparr>)
            ord gw ann (qs', acd) of
       ((qs2, acd2), eff, resp) \<Rightarrow> waiting qs2 = waiting qs \<and> resp = WriteJSON 200 [(''status'', ''ok''), (''call_id'', cid)]) \<and>
    (\<exists>qs3. sip_queues (fst (handleBye ord now cid (s', wm, acd))) = Some qs3 \<and> waiting qs3 = waiting qs)"
proof -
  obtain qs' e where q: "sip_queues s' = Some qs'" "waiting qs' = add_mset e (waiting qs)" "CallID e = cid" "finite (dom qs')"
    using handleInvite_enqueues(2) [OF assms(1-4)] assms(6) by auto
  have others: "filter_mset (\<lambda>c. CallID c = cid) (waiting qs) = {#}" "filter_mset (\<lambda>c. CallID c \<noteq> cid) (waiting qs) = waiting qs"
    using assms(8) filter_mset_cong [of "waiting qs" "waiting qs" "\<lambda>c. CallID c = cid" "\<lambda>_. False"]
      filter_mset_cong [of "waiting qs" "waiting qs" "\<lambda>c. CallID c \<noteq> cid" "\<lambda>_. True"] by simp_all
  have "waiting (RemoveCallerByCallID ord cid qs') = waiting qs"
    using RemoveCallerByCallID_clears [OF q(4) assms(5), of cid] q(2,3) others by simp
  then show ?thesis
    using q pick_by_call_id [OF q(4) assms(5,7) q(2,3) assms(8)]
    by (auto simp: bye_queues split: prod.splits)
qed

theorem call_leaves_queues_as_before_witness:
  "\<exists>s' qs'. handleInvite Sip_Server.example_env example_invite example_server = Some (s', OkSDP ''10.0.0.9'' 30000 ''direct'') \<and>
     sip_queues s' = Some qs' \<and> (\<exists>c \<in># waiting qs'. CallID c = ''c-1'') \<and>
     (\<exists>qs3. sip_queues (fst (handleBye key_order 9 ''c-1'' (s', None, None))) = Some qs3 \<and> waiting qs3 = {#})"
proof -
  obtain s' where s': "handleInvite Sip_Server.example_env example_invite example_server = Some (s', OkSDP ''10.0.0.9'' 30000 ''direct'')"
    using example_invite_ok by blast
  have "invite_role Sip_Server.example_env (snd (invite_bodies example_invite)) = ''caller''" "call_id (inv_sip example_invite) = ''c-1''"
    by (simp_all add: invite_role_def invite_bodies_def is_multipart_def example_invite_def)
  moreover have "waiting Map.empty = {#}" by (simp add: waiting_def)
  ultimately show ?thesis
    using call_leaves_queues_as_before [OF s' _ _ _ enumerates_key_order, of Map.empty "''c-1''" "''''" False False False None 9 None] s'
    by (auto simp: example_server_def)
qed

end
